(* ===== verification/Prelude.thy ===== *)
theory Prelude
  imports Main "HOL-Library.Word" "HOL-Library.Char_ord" "HOL-Library.List_Lexorder"
begin

text \<open>
  Shared base of the development.

  \<^item> \<open>fatal\<close> and \<open>run\<close>: how the C++ code leaves a function without returning: a failed
    \<open>assert\<close> (\<open>NICC_CHECK_POINTER\<close>, \<open>NICC_ASSERT\<close>), the \<open>throw\<close> inside the
    \<open>NICC_ERROR\<close> macros (\<open>lib/log/log.h.in\<close>), a standard library exception, or
    \<open>exit\<close>. A function that may do so returns a value of type \<open>'a run\<close>.
  \<^item> lemma collections (\<open>run_simps\<close>, \<open>ring_simps\<close>) and generic facts on sums, lists,
    maps and ring indices used by several components.
\<close>

named_theorems run_simps \<open>unfolding the error monad\<close>
named_theorems ring_simps \<open>arithmetic of ring buffer indices\<close>

subsection \<open>Fatal exits\<close>

datatype fatal =
    Assert_Failed        \<comment> \<open>\<open>assert\<close> in a debug build (\<open>NICC_RUNTIME_DEBUG_CHECK = 1\<close>)\<close>
  | Nicc_Shutdown        \<comment> \<open>\<open>throw "SHUTDOWN BY NICC ERROR"\<close>\<close>
  | Std_Exception        \<comment> \<open>an exception derived from \<open>std::exception\<close>\<close>
  | Bad_Access           \<comment> \<open>undefined behaviour: a null or dangling pointer is dereferenced\<close>
  | Process_Exit         \<comment> \<open>\<open>exit\<close> (\<open>rt_assert\<close>, \<open>exit_assert\<close>)\<close>

type_synonym 'a run = "fatal + 'a"

definition bind_run :: "'a run \<Rightarrow> ('a \<Rightarrow> 'b run) \<Rightarrow> 'b run" where
  "bind_run m f = (case m of Inl e \<Rightarrow> Inl e | Inr a \<Rightarrow> f a)"

definition assert_run :: "bool \<Rightarrow> unit run" where
  "assert_run b = (if b then Inr () else Inl Assert_Failed)"

lemma bind_run_Inr [simp, run_simps]: "bind_run (Inr a) f = f a"
  by (simp add: bind_run_def)

lemma bind_run_Inl [simp, run_simps]: "bind_run (Inl e) f = Inl e"
  by (simp add: bind_run_def)

lemma bind_run_eq_Inr:
  "bind_run m f = Inr b \<longleftrightarrow> (\<exists>a. m = Inr a \<and> f a = Inr b)"
  by (cases m) auto

lemma bind_run_eq_Inl:
  "bind_run m f = Inl e \<longleftrightarrow> m = Inl e \<or> (\<exists>a. m = Inr a \<and> f a = Inl e)"
  by (cases m) auto

lemma assert_run_True [simp, run_simps]: "assert_run True = Inr ()"
  by (simp add: assert_run_def)

lemma assert_run_False [simp, run_simps]: "assert_run False = Inl Assert_Failed"
  by (simp add: assert_run_def)

lemma assert_run_eq_Inr [simp]: "assert_run b = Inr u \<longleftrightarrow> b"
  by (simp add: assert_run_def)

lemma bind_assert_run: "bind_run (assert_run b) f = (if b then f () else Inl Assert_Failed)"
  by (simp add: assert_run_def)

text \<open>A fallible step over a list, left to right, stopping at the first fatal exit.\<close>

fun fold_run :: "('a \<Rightarrow> 's \<Rightarrow> 's run) \<Rightarrow> 'a list \<Rightarrow> 's \<Rightarrow> 's run" where
  "fold_run f [] s = Inr s"
| "fold_run f (x # xs) s = bind_run (f x s) (fold_run f xs)"

lemma fold_run_append:
  "fold_run f (xs @ ys) s = bind_run (fold_run f xs s) (fold_run f ys)"
  by (induction xs arbitrary: s) (auto simp: bind_run_def split: sum.splits)

lemma fold_run_invariant:
  assumes "fold_run f xs s = Inr t" and "P s"
    and "\<And>x s s'. x \<in> set xs \<Longrightarrow> P s \<Longrightarrow> f x s = Inr s' \<Longrightarrow> P s'"
  shows "P t"
  using assms
proof (induction xs arbitrary: s)
  case Nil
  then show ?case by simp
next
  case (Cons x xs)
  then obtain s' where "f x s = Inr s'" and "fold_run f xs s' = Inr t"
    by (auto simp: bind_run_eq_Inr)
  with Cons show ?case by (metis list.set_intros)
qed

subsection \<open>Code that may not return\<close>

text \<open>
  A function whose loop need not end returns a value of type \<open>'a exec\<close>: \<open>None\<close> when it does
  not return, otherwise the outcome as above.
\<close>

type_synonym 'a exec = "'a run option"

definition bind_exec :: "'a exec \<Rightarrow> ('a \<Rightarrow> 'b exec) \<Rightarrow> 'b exec" where
  "bind_exec m f = Option.bind m (\<lambda>r. case r of Inl e \<Rightarrow> Some (Inl e) | Inr a \<Rightarrow> f a)"

lemma bind_exec_simps [simp, run_simps]:
  "bind_exec None f = None"
  "bind_exec (Some (Inl e)) f = Some (Inl e)"
  "bind_exec (Some (Inr a)) f = f a"
  by (simp_all add: bind_exec_def)

lemma bind_exec_eq_Inr:
  "bind_exec m f = Some (Inr b) \<longleftrightarrow> (\<exists>a. m = Some (Inr a) \<and> f a = Some (Inr b))"
  by (cases m; cases "the m") auto

lemma bind_exec_mono [partial_function_mono]:
  assumes "mono_option A" and "\<And>y. mono_option (B y)"
  shows "mono_option (\<lambda>f. bind_exec (A f) (\<lambda>y. B y f))"
  unfolding bind_exec_def
proof (intro bind_mono assms(1))
  fix r show "mono_option (\<lambda>f. case r of Inl e \<Rightarrow> Some (Inl e) | Inr a \<Rightarrow> B a f)"
    by (cases r) (simp_all add: assms(2) option.const_mono)
qed

subsection \<open>Lists\<close>

lemma distinct_butlast_last:
  "distinct xs \<Longrightarrow> xs \<noteq> [] \<Longrightarrow> last xs \<notin> set (butlast xs)"
  by (metis append_butlast_last_id distinct_butlast not_distinct_conv_prefix)

lemma set_butlast_last: "xs \<noteq> [] \<Longrightarrow> set xs = insert (last xs) (set (butlast xs))"
  by (metis append_butlast_last_id list.simps(15) rotate1.simps(2) set_rotate1)

lemma set_concat_update:
  "i < length xss \<Longrightarrow> set (concat (xss[i := ys])) \<subseteq> set ys \<union> set (concat xss)"
  by (auto dest!: set_update_subset_insert [THEN subsetD])

lemma takeWhile_upt_least:
  "\<forall>i<n. P i \<Longrightarrow> takeWhile P [0..<n] = [0..<n]"
  by (simp add: takeWhile_eq_all_conv)

subsection \<open>Ordered maps\<close>

text \<open>
  A \<open>std::map\<close> whose iteration order matters: an association list in ascending key order.
  Strings are ordered character by character, as \<open>std::string\<close> compares.
\<close>

fun om_put :: "'k::linorder \<Rightarrow> 'v \<Rightarrow> ('k \<times> 'v) list \<Rightarrow> ('k \<times> 'v) list" where
  "om_put k v [] = [(k, v)]"
| "om_put k v ((k', v') # xs) =
     (if k < k' then (k, v) # (k', v') # xs
      else if k = k' then (k, v) # xs
      else (k', v') # om_put k v xs)"

definition om_wf :: "('k::linorder \<times> 'v) list \<Rightarrow> bool" where
  "om_wf xs \<longleftrightarrow> sorted_wrt (<) (map fst xs)"

lemma om_wf_Nil [simp]: "om_wf []"
  by (simp add: om_wf_def)

lemma set_om_put: "fst ` set (om_put k v xs) = insert k (fst ` set xs)"
  by (induction k v xs rule: om_put.induct) auto

lemma om_wf_put: "om_wf xs \<Longrightarrow> om_wf (om_put k v xs)"
proof (induction k v xs rule: om_put.induct)
  case (2 k v k' v' xs)
  then show ?case using set_om_put [of k v xs] by (auto simp: om_wf_def)
qed (simp add: om_wf_def)

lemma map_of_om_put [simp]: "om_wf xs \<Longrightarrow> map_of (om_put k v xs) = (map_of xs)(k \<mapsto> v)"
proof (induction k v xs rule: om_put.induct)
  case (2 k v k' v' xs)
  then show ?case by (auto simp: om_wf_def fun_upd_twist)
qed simp

lemma om_put_size: "length (om_put k v xs) \<le> Suc (length xs)"
  by (induction k v xs rule: om_put.induct) auto

lemma om_wf_distinct: "om_wf xs \<Longrightarrow> distinct (map fst xs)"
  by (simp add: om_wf_def strict_sorted_iff)

lemma om_find_unique:
  assumes "om_wf xs" "(k, v) \<in> set xs"
  shows "map_of xs k = Some v"
  using om_wf_distinct [OF assms(1)] assms(2) by (simp add: map_of_is_SomeI)

subsection \<open>Ring indices\<close>

text \<open>
  \<open>ring_slice n h k f\<close> is what \<open>k\<close> consecutive reads of a ring of \<open>n\<close> slots see from
  index \<open>h\<close> on.
\<close>

definition ring_slice :: "nat \<Rightarrow> nat \<Rightarrow> nat \<Rightarrow> (nat \<Rightarrow> 'a) \<Rightarrow> 'a list" where
  "ring_slice n h k f = map (\<lambda>i. f ((h + i) mod n)) [0..<k]"

lemma length_ring_slice [simp]: "length (ring_slice n h k f) = k"
  by (simp add: ring_slice_def)

lemma ring_slice_0 [simp]: "ring_slice n h 0 f = []"
  by (simp add: ring_slice_def)

lemma ring_slice_Suc:
  "ring_slice n h (Suc k) f = ring_slice n h k f @ [f ((h + k) mod n)]"
  by (simp add: ring_slice_def)

lemma ring_slice_Cons:
  "ring_slice n h (Suc k) f = f (h mod n) # ring_slice n (Suc h) k f"
proof -
  have "map (\<lambda>i. f ((h + i) mod n)) [0..<Suc k]
      = f (h mod n) # map (\<lambda>i. f ((h + Suc i) mod n)) [0..<k]"
    by (simp only: upt_conv_Cons zero_less_Suc list.map map_Suc_upt [symmetric] map_map o_def
        add_0_right)
  then show ?thesis by (simp add: ring_slice_def)
qed

lemma ring_slice_mod [simp]: "ring_slice n (h mod n) k f = ring_slice n h k f"
  by (simp add: ring_slice_def mod_add_left_eq)

lemma ring_slice_cong:
  "(\<And>i. i < k \<Longrightarrow> f ((h + i) mod n) = g ((h + i) mod n)) \<Longrightarrow>
   ring_slice n h k f = ring_slice n h k g"
  by (simp add: ring_slice_def)

lemma ring_slice_append:
  "ring_slice n h (j + k) f = ring_slice n h j f @ ring_slice n (h + j) k f"
  by (induction k) (simp_all add: ring_slice_Suc add.assoc)

lemma mod_add_inj:
  assumes "i < n" "j < n" "((h::nat) + i) mod n = (h + j) mod n"
  shows "i = j"
  using assms
proof (induction i j rule: linorder_wlog)
  case (le i j)
  then have "n dvd (h + j) - (h + i)"
    by (metis add_le_cancel_left mod_eq_dvd_iff_nat)
  with le show ?case by (auto dest: dvd_imp_le)
next
  case (sym i j)
  then show ?case by simp
qed

end
