(* ===== verification/NiccTypes.thy ===== *)
theory NiccTypes
  imports Prelude
begin

text \<open>
  The platform-wide types of \<open>lib/common.h\<close>: machine integers, return values, component ids
  and their bit masks, the base descriptor and the base state every component and every
  component block carries.
\<close>

unbundle bit_operations_syntax

type_synonym u8 = "8 word"
type_synonym u16 = "16 word"
type_synonym u32 = "32 word"
type_synonym u64 = "64 word"

text \<open>An object of the heap by its address; \<open>None\<close> is \<open>nullptr\<close>.\<close>

type_synonym ptr = "nat option"

datatype nicc_retval_t =
    NICC_SUCCESS
  | NICC_ERROR_NOT_IMPLEMENTED
  | NICC_ERROR_NOT_FOUND
  | NICC_ERROR_EXSAUSTED
  | NICC_ERROR_DUPLICATED
  | NICC_ERROR_HARDWARE_FAILURE
  | NICC_ERROR_MEMORY_FAILURE
  | NICC_ERROR

text \<open>The numeric value of the enumerator, as the kernels and the logs see it.\<close>

fun retval_code :: "nicc_retval_t \<Rightarrow> nat" where
  "retval_code NICC_SUCCESS = 0"
| "retval_code NICC_ERROR_NOT_IMPLEMENTED = 1"
| "retval_code NICC_ERROR_NOT_FOUND = 2"
| "retval_code NICC_ERROR_EXSAUSTED = 3"
| "retval_code NICC_ERROR_DUPLICATED = 4"
| "retval_code NICC_ERROR_HARDWARE_FAILURE = 5"
| "retval_code NICC_ERROR_MEMORY_FAILURE = 6"
| "retval_code NICC_ERROR = 7"

lemma retval_code_inject: "retval_code r = retval_code r' \<longleftrightarrow> r = r'"
  by (cases r; cases r') simp_all

text \<open>The order of the enumerators, by their numeric value.\<close>

instantiation nicc_retval_t :: linorder
begin

definition less_eq_nicc_retval_t :: "nicc_retval_t \<Rightarrow> nicc_retval_t \<Rightarrow> bool" where
  "less_eq_nicc_retval_t r r' \<longleftrightarrow> retval_code r \<le> retval_code r'"

definition less_nicc_retval_t :: "nicc_retval_t \<Rightarrow> nicc_retval_t \<Rightarrow> bool" where
  "less_nicc_retval_t r r' \<longleftrightarrow> retval_code r < retval_code r'"

instance
  by standard
    (auto simp: less_eq_nicc_retval_t_def less_nicc_retval_t_def retval_code_inject)

end

subsection \<open>Operations in sequence\<close>

text \<open>
  Most control code runs operations that return a \<open>nicc_retval_t\<close> one after another and leaves
  with the first value that is not \<open>NICC_SUCCESS\<close>.
\<close>

type_synonym 's operation = "'s \<Rightarrow> (nicc_retval_t \<times> 's) run"

definition and_then :: "'s operation \<Rightarrow> 's operation \<Rightarrow> 's operation" where
  "and_then f g s = bind_run (f s) (\<lambda>(r, s'). if r = NICC_SUCCESS then g s' else Inr (r, s'))"

definition op_done :: "'s operation" where
  "op_done s = Inr (NICC_SUCCESS, s)"

lemma and_then_eq_success:
  "and_then f g s = Inr (NICC_SUCCESS, t) \<longleftrightarrow>
     (\<exists>u. f s = Inr (NICC_SUCCESS, u) \<and> g u = Inr (NICC_SUCCESS, t))"
  by (auto simp: and_then_def bind_run_eq_Inr split: if_splits)

lemma and_then_eq_Inr:
  "and_then f g s = Inr (r, t) \<longleftrightarrow>
     (r \<noteq> NICC_SUCCESS \<and> f s = Inr (r, t)) \<or>
     (\<exists>u. f s = Inr (NICC_SUCCESS, u) \<and> g u = Inr (r, t))"
  by (auto simp: and_then_def bind_run_eq_Inr split: if_splits)

lemma and_then_pair:
  "and_then f g s = Inr (NICC_SUCCESS, (a, b)) \<longleftrightarrow>
     (\<exists>c d. f s = Inr (NICC_SUCCESS, (c, d)) \<and> g (c, d) = Inr (NICC_SUCCESS, (a, b)))"
  by (auto simp: and_then_eq_success)

lemma and_then_success [simp]: "f s = Inr (NICC_SUCCESS, u) \<Longrightarrow> and_then f g s = g u"
  by (simp add: and_then_def)

type_synonym component_typeid_t = u16

definition kComponent_Unknown :: component_typeid_t where "kComponent_Unknown = 0x00"
definition kComponent_FlowEngine :: component_typeid_t where "kComponent_FlowEngine = 0x01"
definition kComponent_DPA :: component_typeid_t where "kComponent_DPA = 0x02"
definition kComponent_SoC :: component_typeid_t where "kComponent_SoC = 0x04"
definition kComponent_Decompress :: component_typeid_t where "kComponent_Decompress = 0x08"
definition kComponent_SHA :: component_typeid_t where "kComponent_SHA = 0x10"
definition kRemote_Host :: component_typeid_t where "kRemote_Host = 0x1000"
definition kLocal_Host :: component_typeid_t where "kLocal_Host = 0x2000"
definition NICC_ENABLE_EMPTY_MASK :: component_typeid_t where "NICC_ENABLE_EMPTY_MASK = 0x0000"
definition NICC_ENABLE_FULL_MASK :: component_typeid_t where "NICC_ENABLE_FULL_MASK = 0xFFFF"

lemmas component_id_defs =
  kComponent_Unknown_def kComponent_FlowEngine_def kComponent_DPA_def kComponent_SoC_def
  kComponent_Decompress_def kComponent_SHA_def kRemote_Host_def kLocal_Host_def
  NICC_ENABLE_EMPTY_MASK_def NICC_ENABLE_FULL_MASK_def

text \<open>
  \<open>block_name\<close> is a \<open>char[64]\<close> holding a NUL-terminated string; the model keeps the
  characters before the terminator.
\<close>

record ComponentBaseDesp =
  quota :: u64
  block_name :: string

record ComponentBaseState =
  state_quota :: u64

text \<open>\<open>KB\<close>, \<open>MB\<close>, \<open>GB\<close> and \<open>LOG2VALUE\<close> on \<open>size_t\<close>.\<close>

definition KB :: "u64 \<Rightarrow> u64" where "KB x = push_bit 10 x"
definition MB :: "u64 \<Rightarrow> u64" where "MB x = push_bit 20 x"
definition GB :: "u64 \<Rightarrow> u64" where "GB x = push_bit 30 x"
definition LOG2VALUE :: "nat \<Rightarrow> u64" where "LOG2VALUE l = push_bit l 1"

definition kHugepageSize :: nat where "kHugepageSize = 2 * 1024 * 1024"
definition kMaxNumaNodes :: nat where "kMaxNumaNodes = 2"

lemma unat_pow2: "k < LENGTH('a) \<Longrightarrow> unat (2 ^ k :: 'a::len word) = 2 ^ k"
  by (simp add: of_nat_inverse)

lemma unat_LOG2VALUE: "l < 64 \<Longrightarrow> unat (LOG2VALUE l) = 2 ^ l"
  by (simp add: LOG2VALUE_def push_bit_eq_mult unat_pow2)

end
