(* ===== verification/MathUtils.thy ===== *)
theory MathUtils
  imports NiccTypes
begin

text \<open>
  \<open>lib/common/math_utils.h\<close>: the integer helpers. The compiler builtins \<open>__builtin_ffs\<close> and
  \<open>__builtin_clz\<close> are bit scans on 32-bit values; \<open>assert\<close> is a fatal exit.
\<close>

unbundle bit_operations_syntax

definition is_power_of_two :: "'a::len word \<Rightarrow> bool" where
  "is_power_of_two x \<longleftrightarrow> x \<noteq> 0 \<and> x AND (x - 1) = 0"

text \<open>\<open>round_up<p>(x)\<close>; the template's \<open>static_assert\<close> is the caller's obligation on \<open>p\<close>.\<close>

definition round_up :: "'a::len word \<Rightarrow> 'a word \<Rightarrow> 'a word" where
  "round_up p x = (x + (p - 1)) AND (NOT (p - 1))"

definition builtin_ffs :: "u32 \<Rightarrow> nat" where
  "builtin_ffs x = (if x = 0 then 0 else Suc (length (takeWhile (\<lambda>i. \<not> bit x i) [0..<32])))"

definition builtin_clz :: "u32 \<Rightarrow> nat" where
  "builtin_clz x = length (takeWhile (\<lambda>i. \<not> bit x i) (rev [0..<32]))"

definition lsb_index :: "u32 \<Rightarrow> nat run" where
  "lsb_index x = bind_run (assert_run (x \<noteq> 0)) (\<lambda>_. Inr (builtin_ffs x))"

definition msb_index :: "u32 \<Rightarrow> nat run" where
  "msb_index x =
     bind_run (assert_run (sint x < 2147483647 div 2))
       (\<lambda>_. if x = 0 then Inr 0 else Inr (32 - builtin_clz x))"

subsection \<open>Powers of two\<close>

lemma nat_and_pred_zero_iff:
  "0 < n \<Longrightarrow> n AND (n - 1) = 0 \<longleftrightarrow> (\<exists>k. n = 2 ^ k)" for n :: nat
proof (induction n rule: less_induct)
  case (less n)
  show ?case
  proof (cases "even n")
    case True
    then obtain m where m: "n = 2 * m" by blast
    with less.prems have "0 < m" by simp
    have "n AND (n - 1) = 2 * (m AND (m - 1))"
    proof -
      have "(n - 1) div 2 = m - 1" using m \<open>0 < m\<close> by linarith
      then show ?thesis using m by (subst and_nat_rec) simp
    qed
    then have "n AND (n - 1) = 0 \<longleftrightarrow> m AND (m - 1) = 0" by simp
    also have "\<dots> \<longleftrightarrow> (\<exists>k. m = 2 ^ k)"
      using less.IH [of m] m \<open>0 < m\<close> by simp
    also have "\<dots> \<longleftrightarrow> (\<exists>k. n = 2 ^ k)"
    proof
      assume "\<exists>k. m = 2 ^ k"
      then show "\<exists>k. n = 2 ^ k" using m by (metis power_Suc)
    next
      assume "\<exists>k. n = 2 ^ k"
      then obtain k where k: "n = 2 ^ k" by blast
      with m \<open>0 < m\<close> have "k \<noteq> 0" by (auto intro: ccontr)
      then obtain j where "k = Suc j" by (cases k) auto
      with k m have "m = 2 ^ j" by simp
      then show "\<exists>k. m = 2 ^ k" by blast
    qed
    finally show ?thesis .
  next
    case False
    then obtain m where m: "n = 2 * m + 1" by (blast elim: oddE)
    have "n AND (n - 1) = 2 * m"
      by (subst and_nat_rec) (simp add: m)
    moreover have "(\<exists>k. n = 2 ^ k) \<longleftrightarrow> m = 0"
    proof
      assume "\<exists>k. n = 2 ^ k"
      then obtain k where "n = 2 ^ k" by blast
      with False have "k = 0" by (cases k) auto
      with \<open>n = 2 ^ k\<close> m show "m = 0" by simp
    next
      assume "m = 0"
      with m show "\<exists>k. n = 2 ^ k" by (intro exI [of _ 0]) simp
    qed
    ultimately show ?thesis by simp
  qed
qed

lemma unat_and: "unat (a AND b) = unat a AND unat b" for a b :: "'a::len word"
  by (rule bit_eqI) (auto simp: bit_and_iff bit_unsigned_iff possible_bit_def)

lemma is_power_of_two_unat:
  "is_power_of_two x \<longleftrightarrow> (\<exists>k. unat x = 2 ^ k)" for x :: "'a::len word"
proof (cases "x = 0")
  case True
  then show ?thesis by (simp add: is_power_of_two_def)
next
  case False
  then have "0 < unat x" by (simp add: unat_gt_0)
  have "x AND (x - 1) = 0 \<longleftrightarrow> unat x AND (unat x - 1) = 0"
    using False by (metis unat_and unat_eq_zero unat_minus_one)
  with False nat_and_pred_zero_iff [OF \<open>0 < unat x\<close>] show ?thesis
    by (simp only: is_power_of_two_def) simp
qed

lemma is_power_of_two_iff:
  "is_power_of_two x \<longleftrightarrow> (\<exists>k<LENGTH('a). x = 2 ^ k)" for x :: "'a::len word"
proof
  assume "is_power_of_two x"
  then obtain k where k: "unat x = 2 ^ k" by (auto simp: is_power_of_two_unat)
  then have "(2::nat) ^ k < 2 ^ LENGTH('a)" by (metis unsigned_less)
  then have "k < LENGTH('a)" by simp
  moreover from k this have "x = 2 ^ k" by (simp add: word_unat_eq_iff unat_pow2)
  ultimately show "\<exists>k<LENGTH('a). x = 2 ^ k" by blast
next
  assume "\<exists>k<LENGTH('a). x = 2 ^ k"
  then show "is_power_of_two x" by (auto simp: is_power_of_two_unat unat_pow2)
qed

subsection \<open>Rounding up\<close>

lemma and_not_mask_unat:
  "unat (y AND NOT (mask k)) = unat y div 2 ^ k * 2 ^ k" for y :: "'a::len word"
proof -
  have "y AND NOT (mask k) = push_bit k (drop_bit k y)"
    by (rule bit_eqI) (auto simp: bit_simps possible_bit_def)
  also have "unat \<dots> = take_bit LENGTH('a) (push_bit k (drop_bit k (unat y)))"
    by (simp add: unsigned_push_bit_eq unsigned_drop_bit_eq take_bit_nat_eq_self)
  also have "\<dots> = push_bit k (drop_bit k (unat y))"
  proof -
    have "push_bit k (drop_bit k (unat y)) \<le> unat y"
      by (simp add: push_bit_eq_mult drop_bit_eq_div)
    also have "\<dots> < 2 ^ LENGTH('a)" by (rule unsigned_less)
    finally show ?thesis by (simp add: take_bit_eq_mod)
  qed
  finally show ?thesis by (simp add: push_bit_eq_mult drop_bit_eq_div)
qed

lemma round_up_unat:
  fixes p x :: "'a::len word"
  assumes "is_power_of_two p" and "unat x + (unat p - 1) < 2 ^ LENGTH('a)"
  shows "unat (round_up p x) = (unat x + (unat p - 1)) div unat p * unat p"
proof -
  obtain k where k: "k < LENGTH('a)" "p = 2 ^ k"
    using assms(1) by (auto simp: is_power_of_two_iff)
  then have pm: "p - 1 = mask k" and up: "unat p = 2 ^ k"
    by (simp_all add: mask_eq_exp_minus_1 unat_pow2)
  have "p \<noteq> 0" using assms(1) by (simp add: is_power_of_two_def)
  then have "unat (x + (p - 1)) = unat x + (unat p - 1)"
    using assms(2) by (simp add: unat_word_ariths unat_minus_one)
  then show ?thesis by (simp add: round_up_def pm and_not_mask_unat up)
qed

subsection \<open>Bit scans\<close>

lemma bit_le_nat: "bit n m \<Longrightarrow> 2 ^ m \<le> n" for n :: nat
  by (metis bit_iff_odd div_less even_zero not_le)

lemma no_high_bits_less: "(\<And>i. k \<le> i \<Longrightarrow> \<not> bit n i) \<Longrightarrow> n < 2 ^ k" for n :: nat
proof -
  assume no: "\<And>i. k \<le> i \<Longrightarrow> \<not> bit n i"
  have "take_bit k n = n"
    by (rule bit_eqI) (use no in \<open>auto simp: bit_take_bit_iff not_le [symmetric]\<close>)
  then show ?thesis by (metis take_bit_nat_less_exp)
qed

lemma builtin_clz_bits:
  assumes "x \<noteq> 0"
  shows "builtin_clz x < 32" and "bit x (31 - builtin_clz x)"
    and "\<And>i. 32 - builtin_clz x \<le> i \<Longrightarrow> \<not> bit x i"
proof -
  let ?P = "\<lambda>i. \<not> bit x i" and ?xs = "rev [0..<32::nat]"
  let ?c = "length (takeWhile ?P ?xs)"
  have nth: "?xs ! j = 31 - j" if "j < 32" for j
    using that by (simp add: rev_nth)
  have c: "builtin_clz x = ?c" by (simp only: builtin_clz_def)
  obtain m where m: "bit x m" using assms by (auto simp: bit_eq_iff)
  then have "m < 32" using bit_imp_le_length by fastforce
  show lt: "builtin_clz x < 32"
  proof (rule ccontr)
    assume "\<not> builtin_clz x < 32"
    then have "takeWhile ?P ?xs = ?xs"
      using c length_takeWhile_le [of ?P ?xs] by (metis diff_zero length_rev length_upt
        linorder_neqE_nat not_less takeWhile_eq_take take_all)
    then have "\<forall>i<32. \<not> bit x i" by (simp only: takeWhile_eq_all_conv) simp
    with m \<open>m < 32\<close> show False by blast
  qed
  then have "\<not> ?P (?xs ! ?c)" using c nth_length_takeWhile [of ?P ?xs] by simp
  then show "bit x (31 - builtin_clz x)" using nth lt c by simp
  show "\<not> bit x i" if "32 - builtin_clz x \<le> i" for i
  proof (cases "i < 32")
    case True
    with that have j: "31 - i < ?c" and "31 - i < 32" using c lt by auto
    then have "?xs ! (31 - i) = i" using nth True by simp
    moreover have "takeWhile ?P ?xs ! (31 - i) = ?xs ! (31 - i)"
      using j by (rule takeWhile_nth)
    ultimately show ?thesis using j by (metis nth_mem set_takeWhileD)
  next
    case False
    then show ?thesis using bit_imp_le_length by fastforce
  qed
qed

lemma sint_small: "unat x < 2 ^ 31 \<Longrightarrow> sint x = int (unat x)" for x :: u32
proof -
  assume lt: "unat x < 2 ^ 31"
  have "signed_take_bit 31 (int n) = int n" if "n < 2 ^ 31" for n
    using that by (intro signed_take_bit_int_eq_self) auto
  from this [OF lt] show ?thesis by (simp add: sint_uint)
qed

text \<open>\<open>msb_index\<close> of a positive argument is its bit length; the assert holds below \<open>2 ^ 30 - 1\<close>.\<close>

lemma msb_index_bounds:
  assumes "0 < unat x" and "unat x < 2 ^ 30 - 1"
  obtains k where "msb_index x = Inr k" and "0 < k" and "2 ^ (k - 1) \<le> unat x" and "unat x < 2 ^ k"
proof -
  have nz: "x \<noteq> 0" using assms(1) by auto
  let ?k = "32 - builtin_clz x"
  have lt: "builtin_clz x < 32" by (rule builtin_clz_bits(1) [OF nz])
  have s: "sint x = int (unat x)"
    using assms(2) by (intro sint_small) simp
  have "msb_index x = Inr ?k"
    using nz assms(2) unfolding msb_index_def s by (simp add: assert_run_def del: of_nat_unat)
  moreover have "2 ^ (?k - 1) \<le> unat x"
    using builtin_clz_bits(2) [OF nz] by (intro bit_le_nat) (simp add: bit_unsigned_iff)
  moreover have "unat x < 2 ^ ?k"
    using builtin_clz_bits(3) [OF nz] by (intro no_high_bits_less) (simp add: bit_unsigned_iff)
  ultimately show thesis using that lt by simp
qed

lemma msb_index_0 [simp]: "msb_index 0 = Inr 0"
  by (simp add: msb_index_def)

end
