(* ===== verification/HugeAlloc.thy ===== *)
theory HugeAlloc
  imports MathUtils "HOL-Library.While_Combinator"
begin

text \<open>
  The hugepage allocator of \<open>runtime/include/utils/huge_alloc.h\<close> and
  \<open>runtime/src/utils/huge_alloc.cc\<close>, with the \<open>Buffer\<close> class of \<open>lib/common/buffer.h\<close>.

  The freelists hold \<open>Buffer*\<close>, so the model keeps an explicit heap \<open>buffers\<close> from pointers
  to live \<open>Buffer\<close> objects: \<open>new\<close> adds one, \<open>delete\<close> removes one, and a use of a pointer that
  is not live is \<open>Bad_Access\<close>. Sizes and addresses are \<open>nat\<close>; the two statistics are \<open>size_t\<close>
  words that wrap.
\<close>

unbundle bit_operations_syntax

subsection \<open>Buffers\<close>

record Buffer =
  b_buf :: nat
  b_class_size :: nat
  b_lkey :: u32
  b_length :: u32
  b_next :: "nat option"
  b_state :: u8

definition kPOSTED :: u8 where "kPOSTED = 0"
definition kAPP_OWNED_BUF :: u8 where "kAPP_OWNED_BUF = 1"
definition kFREE_BUF :: u8 where "kFREE_BUF = 2"

lemmas buffer_state_defs = kPOSTED_def kAPP_OWNED_BUF_def kFREE_BUF_def

text \<open>
  The constructor \<open>Buffer(buf, class_size, lkey)\<close> with its default member initialisers. The member
  \<open>next_\<close> is not initialised: it has an unknown value until the rings are linked.
\<close>

definition new_Buffer :: "nat \<Rightarrow> nat \<Rightarrow> u32 \<Rightarrow> Buffer" where
  "new_Buffer b c k =
     \<lparr>b_buf = b, b_class_size = c, b_lkey = k, b_length = 0, b_next = undefined, b_state = kFREE_BUF\<rparr>"

lemma new_Buffer_simps [simp]:
  "b_buf (new_Buffer b c k) = b" "b_class_size (new_Buffer b c k) = c"
  "b_lkey (new_Buffer b c k) = k" "b_state (new_Buffer b c k) = kFREE_BUF"
  by (simp_all add: new_Buffer_def)

text \<open>
  Access to the parts of the packet in the buffer: an Ethernet header of 14 bytes, then the IP
  header (20 bytes), the UDP header (8 bytes) and the workspace header (16 bytes with padding).
\<close>

definition get_buf :: "Buffer \<Rightarrow> nat" where "get_buf b = b_buf b"
definition get_buf_offset :: "Buffer \<Rightarrow> nat \<Rightarrow> nat" where "get_buf_offset b off = b_buf b + off"
definition get_iph :: "Buffer \<Rightarrow> nat" where "get_iph b = b_buf b + 14"
definition get_uh :: "Buffer \<Rightarrow> nat" where "get_uh b = b_buf b + 14 + 20"
definition get_ws_hdr :: "Buffer \<Rightarrow> nat" where "get_ws_hdr b = b_buf b + 14 + 20 + 8"
definition get_ws_payload :: "Buffer \<Rightarrow> nat" where "get_ws_payload b = b_buf b + 14 + 20 + 8 + 16"
definition set_lkey :: "u32 \<Rightarrow> Buffer \<Rightarrow> Buffer" where "set_lkey k b = b\<lparr>b_lkey := k\<rparr>"
definition set_buf_length :: "u32 \<Rightarrow> Buffer \<Rightarrow> Buffer" where "set_buf_length n b = b\<lparr>b_length := n\<rparr>"

text \<open>The bytes a buffer covers.\<close>

definition extent_of :: "Buffer \<Rightarrow> nat set" where
  "extent_of b = {b_buf b ..< b_buf b + b_class_size b}"

subsection \<open>Allocator state\<close>

record shm_region_t =
  sr_key :: int
  sr_buf :: nat
  sr_size :: nat
  sr_registered :: bool

record HugeAlloc =
  buffers :: "nat \<rightharpoonup> Buffer"
  fresh :: nat
  freelist :: "nat list list"
  shm_list :: "shm_region_t list"
  numa_node :: nat
  prev_allocation_size :: nat
  shm_reserved :: u64
  user_alloc_tot :: u64

definition k_min_class_size :: nat where "k_min_class_size = 64"
definition k_min_class_bit_shift :: nat where "k_min_class_bit_shift = 6"
definition k_max_class_size :: nat where "k_max_class_size = 8388608"
definition k_num_classes :: nat where "k_num_classes = 18"

lemmas huge_consts = k_min_class_size_def k_min_class_bit_shift_def k_max_class_size_def
  k_num_classes_def

text \<open>The two \<open>static_assert\<close>s of the class.\<close>

lemma k_min_class_static: "drop_bit k_min_class_bit_shift k_min_class_size = 1"
  by (simp add: huge_consts)

lemma k_max_class_static: "k_max_class_size = push_bit (k_num_classes - 1) k_min_class_size"
  by (simp add: huge_consts push_bit_eq_mult)

definition class_max_size :: "nat \<Rightarrow> nat" where
  "class_max_size class_i = k_min_class_size * 2 ^ class_i"

text \<open>The constructor: it reserves nothing, and rounds the first reservation up.\<close>

definition new_HugeAlloc :: "nat \<Rightarrow> nat \<Rightarrow> HugeAlloc run" where
  "new_HugeAlloc initial_size node =
     bind_run (assert_run (node \<le> kMaxNumaNodes)) (\<lambda>_. Inr
       \<lparr>buffers = Map.empty, fresh = 0, freelist = replicate k_num_classes [], shm_list = [],
        numa_node = node,
        prev_allocation_size =
          (if initial_size < k_max_class_size then k_max_class_size else initial_size),
        shm_reserved = 0, user_alloc_tot = 0\<rparr>)"

subsection \<open>Size classes\<close>

definition get_class :: "nat \<Rightarrow> nat run" where
  "get_class sz =
     bind_run (assert_run (1 \<le> sz \<and> sz \<le> k_max_class_size)) (\<lambda>_.
       msb_index (of_nat (drop_bit k_min_class_bit_shift (sz - 1))))"

text \<open>The loop of \<open>get_class_slow\<close>: state \<open>(size_class, class_lim)\<close>.\<close>

definition get_class_slow :: "nat \<Rightarrow> nat run" where
  "get_class_slow sz =
     bind_run (assert_run (1 \<le> sz \<and> sz \<le> k_max_class_size)) (\<lambda>_.
       Inr (fst (while (\<lambda>(sclass, class_lim). sz > class_lim)
                  (\<lambda>(sclass, class_lim). (Suc sclass, class_lim * 2))
                  (0, k_min_class_size))))"

subsection \<open>Splitting, allocating, freeing\<close>

text \<open>Dereferencing a \<open>Buffer*\<close>.\<close>

definition deref :: "HugeAlloc \<Rightarrow> nat \<Rightarrow> Buffer run" where
  "deref h p = (case buffers h p of None \<Rightarrow> Inl Bad_Access | Some b \<Rightarrow> Inr b)"

definition split_class :: "nat \<Rightarrow> HugeAlloc \<Rightarrow> HugeAlloc run" where
  "split_class sclass h =
     bind_run (assert_run (sclass \<ge> 1)) (\<lambda>_.
     bind_run (assert_run (freelist h ! sclass \<noteq> [])) (\<lambda>_.
     bind_run (assert_run (freelist h ! (sclass - 1) = [])) (\<lambda>_.
     let p = last (freelist h ! sclass);
         fl = (freelist h)[sclass := butlast (freelist h ! sclass)]
     in bind_run (deref h p) (\<lambda>b.
        bind_run (assert_run (b_class_size b = class_max_size sclass)) (\<lambda>_.
        let half = b_class_size b div 2;
            p0 = fresh h; p1 = Suc (fresh h);
            b0 = new_Buffer (b_buf b) half (b_lkey b);
            b1 = new_Buffer (b_buf b + half) half (b_lkey b)
        in Inr (h\<lparr>buffers := ((buffers h)(p := None))(p0 \<mapsto> b0, p1 \<mapsto> b1),
                  fresh := Suc (Suc (fresh h)),
                  freelist := fl[sclass - 1 := fl ! (sclass - 1) @ [p0, p1]]\<rparr>))))))"

definition alloc_from_class :: "nat \<Rightarrow> HugeAlloc \<Rightarrow> (nat option \<times> HugeAlloc) run" where
  "alloc_from_class sclass h =
     bind_run (assert_run (sclass < k_num_classes)) (\<lambda>_.
       if freelist h ! sclass = [] then Inl Bad_Access
       else let p = last (freelist h ! sclass)
         in bind_run (deref h p) (\<lambda>b.
            bind_run (assert_run (b_class_size b = class_max_size sclass)) (\<lambda>_.
            Inr (Some p,
                 h\<lparr>freelist := (freelist h)[sclass := butlast (freelist h ! sclass)],
                   user_alloc_tot := user_alloc_tot h + of_nat (b_class_size b)\<rparr>))))"

text \<open>
  \<open>alloc\<close>: the search for the first larger non-empty class is \<open>find\<close> over the class indices in
  order, the splitting loop counts \<open>next_class\<close> down to \<open>size_class + 1\<close>. \<open>None\<close> is the
  null pointer.
\<close>

definition alloc :: "nat \<Rightarrow> HugeAlloc \<Rightarrow> (nat option \<times> HugeAlloc) run" where
  "alloc sz h =
     bind_run (assert_run (sz \<le> k_max_class_size)) (\<lambda>_.
     bind_run (get_class sz) (\<lambda>sclass.
     bind_run (assert_run (sclass < k_num_classes)) (\<lambda>_.
       if freelist h ! sclass \<noteq> [] then alloc_from_class sclass h
       else case find (\<lambda>c. freelist h ! c \<noteq> []) [Suc sclass ..< k_num_classes] of
              None \<Rightarrow> Inr (None, h)
            | Some next_class \<Rightarrow>
                bind_run (fold_run split_class (rev [Suc sclass ..< Suc next_class]) h) (\<lambda>h'.
                bind_run (assert_run (freelist h' ! sclass \<noteq> [])) (\<lambda>_.
                  alloc_from_class sclass h')))))"

definition free_buf :: "nat \<Rightarrow> HugeAlloc \<Rightarrow> HugeAlloc run" where
  "free_buf p h =
     bind_run (deref h p) (\<lambda>b.
     bind_run (assert_run (b_buf b \<noteq> 0)) (\<lambda>_.
     bind_run (get_class (b_class_size b)) (\<lambda>sclass.
     bind_run (assert_run (class_max_size sclass = b_class_size b)) (\<lambda>_.
       Inr (h\<lparr>buffers := (buffers h)(p \<mapsto> b\<lparr>b_length := 0, b_state := kFREE_BUF\<rparr>),
              freelist := (freelist h)[sclass := freelist h ! sclass @ [p]],
              user_alloc_tot := user_alloc_tot h - of_nat (b_class_size b)\<rparr>)))))"

text \<open>The accessors, two of which check their statistic.\<close>

definition get_numa_node :: "HugeAlloc \<Rightarrow> nat" where "get_numa_node h = numa_node h"

definition get_stat_shm_reserved :: "HugeAlloc \<Rightarrow> u64 run" where
  "get_stat_shm_reserved h =
     bind_run (assert_run (shm_reserved h mod of_nat kHugepageSize = 0)) (\<lambda>_. Inr (shm_reserved h))"

definition get_stat_user_alloc_tot :: "HugeAlloc \<Rightarrow> u64 run" where
  "get_stat_user_alloc_tot h =
     bind_run (assert_run (user_alloc_tot h mod of_nat k_min_class_size = 0)) (\<lambda>_. Inr (user_alloc_tot h))"

subsection \<open>Adding memory\<close>

text \<open>\<open>new Buffer(...)\<close> pushed onto a freelist.\<close>

definition push_new :: "nat \<Rightarrow> Buffer \<Rightarrow> HugeAlloc \<Rightarrow> HugeAlloc" where
  "push_new c b h = h\<lparr>buffers := (buffers h)(fresh h \<mapsto> b), fresh := Suc (fresh h),
     freelist := (freelist h)[c := freelist h ! c @ [fresh h]]\<rparr>"

text \<open>The loop that cuts a region into \<open>num_buffers\<close> buffers of the largest class.\<close>

definition push_max_buffers :: "nat \<Rightarrow> u32 \<Rightarrow> nat \<Rightarrow> HugeAlloc \<Rightarrow> HugeAlloc" where
  "push_max_buffers base lkey num h =
     fold (\<lambda>i. push_new (k_num_classes - 1) (new_Buffer (base + i * k_max_class_size) k_max_class_size lkey))
       [0 ..< num] h"

text \<open>
  \<open>add_raw_buffer\<close> as the code has it: the remainder is added at the region's start \<open>b_buf\<close>
  again, and its \<open>Buffer\<close> is built with the class index, not the class sz, in \<open>b_class_size\<close>.
\<close>

function add_raw_buffer :: "Buffer \<Rightarrow> nat \<Rightarrow> HugeAlloc \<Rightarrow> HugeAlloc run" where
  "add_raw_buffer buf sz h =
     (if sz \<ge> k_max_class_size
      then let num_buffers = sz div k_max_class_size;
               h' = push_max_buffers (b_buf buf) (b_lkey buf) num_buffers h;
               remaining_size = sz mod k_max_class_size
           in bind_run (assert_run (num_buffers \<ge> 1)) (\<lambda>_.
                if remaining_size > 0 then add_raw_buffer buf remaining_size h' else Inr h')
      else bind_run (get_class sz) (\<lambda>sclass.
           bind_run (assert_run (sclass < k_num_classes)) (\<lambda>_.
             Inr (push_new sclass (new_Buffer (b_buf buf) sclass (b_lkey buf)) h))))"
  by pat_completeness auto
termination
  by (relation "measure (\<lambda>(buf, sz, h). sz)")
    (auto simp: k_max_class_size_def intro: order_less_le_trans [OF mod_less_divisor])

declare add_raw_buffer.simps [simp del]

subsection \<open>Shared memory regions\<close>

text \<open>
  The System V calls and the NUMA binding are outside the repository. \<open>shmget\<close> answers a key and
  a sz with an identifier or one of the \<open>errno\<close> cases the code distinguishes; \<open>shmat\<close> maps an
  identifier to an address (0 for the null pointer), \<open>mbind\<close> reports success, and \<open>rng\<close> is
  the sequence of keys the slow random generator draws.
\<close>

datatype shm_result = Shm_Id nat | Shm_EEXIST | Shm_EACCES | Shm_EINVAL | Shm_ENOMEM | Shm_Other

record shm_api =
  shmget :: "int \<Rightarrow> nat \<Rightarrow> shm_result"
  shmat :: "nat \<Rightarrow> nat"
  mbind :: "nat \<Rightarrow> nat \<Rightarrow> nat \<Rightarrow> bool"
  rng :: "nat \<Rightarrow> u64"

definition shm_key_of :: "u64 \<Rightarrow> int" where
  "shm_key_of r = \<bar>sint (ucast r :: u32)\<bar>"

text \<open>The retry loop around \<open>shmget\<close>: \<open>None\<close> while every drawn key exists already.\<close>

partial_function (option) shm_key_loop :: "shm_api \<Rightarrow> nat \<Rightarrow> nat \<Rightarrow> (int \<times> nat option) run option" where
  "shm_key_loop api sz i =
     (let key = shm_key_of (rng api i)
      in case shmget api key sz of
           Shm_Id n \<Rightarrow> Some (Inr (key, Some n))
         | Shm_EEXIST \<Rightarrow> shm_key_loop api sz (Suc i)
         | Shm_ENOMEM \<Rightarrow> Some (Inr (key, None))
         | _ \<Rightarrow> Some (Inl Std_Exception))"

definition alloc_raw :: "shm_api \<Rightarrow> nat \<Rightarrow> bool \<Rightarrow> HugeAlloc \<Rightarrow> (Buffer \<times> HugeAlloc) run option" where
  "alloc_raw api sz0 do_register h =
     (let sz = unat (round_up (of_nat kHugepageSize) (of_nat sz0) :: u64)
      in case shm_key_loop api sz 0 of
           None \<Rightarrow> None
         | Some r \<Rightarrow> Some (bind_run r (\<lambda>(key, shm_id).
             case shm_id of
               None \<Rightarrow> Inr (new_Buffer 0 0 0, h)
             | Some n \<Rightarrow>
                 let buf = shmat api n
                 in if buf = 0 \<or> \<not> mbind api buf sz (numa_node h) then Inl Process_Exit
                    else bind_run (assert_run (sz mod kHugepageSize = 0)) (\<lambda>_.
                      Inr (new_Buffer buf (2 ^ 64 - 1) (- 1),
                        h\<lparr>shm_list := shm_list h @
                            [\<lparr>sr_key = key, sr_buf = buf, sr_size = sz, sr_registered = do_register\<rparr>],
                          shm_reserved := shm_reserved h + of_nat sz\<rparr>)))))"

definition reserve_hugepages :: "shm_api \<Rightarrow> nat \<Rightarrow> HugeAlloc \<Rightarrow> (bool \<times> HugeAlloc) run option" where
  "reserve_hugepages api sz h =
     (if \<not> sz \<ge> k_max_class_size then Some (Inl Assert_Failed)
      else case alloc_raw api sz True h of
             None \<Rightarrow> None
           | Some r \<Rightarrow> Some (bind_run r (\<lambda>(buffer, h').
               if b_buf buffer = 0 then Inr (False, h')
               else let num_buffers = sz div k_max_class_size
                    in bind_run (assert_run (num_buffers \<ge> 1)) (\<lambda>_.
                       Inr (True, push_max_buffers (b_buf buffer) (b_lkey buffer) num_buffers h')))))"

text \<open>
  The destructor detaches the regions in order and ends the process when one cannot be detached.
  \<open>shmdt\<close> acts on the state \<open>'w\<close> of the system. The \<open>Buffer\<close> objects of the freelists are not deleted.
\<close>

definition destroy_HugeAlloc :: "(nat \<Rightarrow> 'w \<Rightarrow> int \<times> 'w) \<Rightarrow> HugeAlloc \<Rightarrow> 'w \<Rightarrow> 'w run" where
  "destroy_HugeAlloc shmdt h w = fold_run (\<lambda>r w. let (ret, w') = shmdt (sr_buf r) w
     in if ret \<noteq> 0 then Inl Process_Exit else Inr w') (shm_list h) w"

end
