(* ===== verification/HugeAllocInv.thy ===== *)
theory HugeAllocInv
  imports HugeAlloc
begin

text \<open>
  Correctness of the allocator: the optimised class computation against its reference, the heap
  invariant \<open>huge_wf\<close> (every live buffer has exactly one class, live buffers never overlap, the
  freelists hold live buffers once), its preservation by every operation, and the contract
  \<open>buffer_pool\<close> that clients of the allocator rely on.
\<close>

subsection \<open>Size classes\<close>

lemma class_max_size_mono: "c \<le> d \<Longrightarrow> class_max_size c \<le> class_max_size d"
  by (simp add: class_max_size_def)

lemma class_max_size_pos [simp]: "0 < class_max_size c"
  by (simp add: class_max_size_def huge_consts)

lemma class_max_size_Suc: "class_max_size (Suc c) = 2 * class_max_size c"
  by (simp add: class_max_size_def)

lemma class_max_size_inject [simp]: "class_max_size c = class_max_size d \<longleftrightarrow> c = d"
  by (simp add: class_max_size_def huge_consts)

lemma class_max_size_17: "class_max_size (k_num_classes - 1) = k_max_class_size"
  by (simp add: class_max_size_def huge_consts)

definition is_class :: "nat \<Rightarrow> nat \<Rightarrow> bool" where
  "is_class sz c \<longleftrightarrow> sz \<le> class_max_size c \<and> (c = 0 \<or> class_max_size (c - 1) < sz)"

lemma is_class_unique:
  assumes "is_class sz c" "is_class sz d"
  shows "c = d"
proof -
  have False if "is_class sz c" "is_class sz d" "c < d" for c d
  proof -
    have "class_max_size c \<le> class_max_size (d - 1)"
      using that by (intro class_max_size_mono) auto
    with that show False by (auto simp: is_class_def)
  qed
  with assms show ?thesis by (metis linorder_neqE_nat)
qed

lemma is_class_bound: "is_class sz c \<Longrightarrow> sz \<le> k_max_class_size \<Longrightarrow> c < k_num_classes"
proof (rule ccontr)
  assume c: "is_class sz c" and "sz \<le> k_max_class_size" and "\<not> c < k_num_classes"
  then have "class_max_size (k_num_classes - 1) \<le> class_max_size (c - 1)"
    by (intro class_max_size_mono) auto
  then have "k_max_class_size \<le> class_max_size (c - 1)"
    by (simp only: class_max_size_17)
  with c \<open>sz \<le> k_max_class_size\<close> \<open>\<not> c < k_num_classes\<close> show False
    by (simp add: is_class_def k_num_classes_def)
qed

lemma is_class_max [simp]: "is_class (class_max_size c) c"
  by (cases c) (simp_all add: is_class_def class_max_size_Suc)

lemma get_class_is_class:
  assumes "1 \<le> sz" "sz \<le> k_max_class_size"
  obtains c where "get_class sz = Inr c" and "is_class sz c" and "c < k_num_classes"
proof -
  let ?n = "(sz - 1) div 64"
  let ?w = "of_nat ?n :: u32"
  have gc: "get_class sz = msb_index ?w"
    using assms by (simp add: get_class_def k_min_class_bit_shift_def drop_bit_eq_div)
  have small: "?n < 2 ^ 17" using assms by (simp add: k_max_class_size_def)
  then have un: "unat ?w = ?n" by (simp add: of_nat_inverse)
  have "\<exists>c. get_class sz = Inr c \<and> is_class sz c"
  proof (cases "?n = 0")
    case True
    then have "sz \<le> 64" by linarith
    with True gc show ?thesis
      by (intro exI [of _ 0]) (simp add: is_class_def class_max_size_def huge_consts)
  next
    case False
    then have "0 < unat ?w" by (simp only: un)
    moreover have "unat ?w < 2 ^ 30 - 1" using small by (simp only: un) simp
    ultimately obtain k where "msb_index ?w = Inr k" "0 < k" "2 ^ (k - 1) \<le> unat ?w" "unat ?w < 2 ^ k"
      by (rule msb_index_bounds)
    then have k: "msb_index ?w = Inr k" "0 < k" "2 ^ (k - 1) \<le> ?n" "?n < 2 ^ k"
      by (simp_all only: un)
    have "sz \<le> 64 * 2 ^ k" using k(4) by linarith
    moreover have "64 * 2 ^ (k - 1) < sz" using k(3) assms(1) by linarith
    ultimately show ?thesis using gc k(1)
      by (intro exI [of _ k]) (simp add: is_class_def class_max_size_def huge_consts)
  qed
  with assms(2) that show thesis by (auto intro: is_class_bound)
qed

lemma get_class_eq_iff:
  assumes "1 \<le> sz" "sz \<le> k_max_class_size"
  shows "get_class sz = Inr c \<longleftrightarrow> is_class sz c"
  using assms by (metis get_class_is_class is_class_unique sum.inject(2))

lemma get_class_slow_is_class:
  assumes "1 \<le> sz" "sz \<le> k_max_class_size"
  obtains c where "get_class_slow sz = Inr c" and "is_class sz c"
proof -
  let ?b = "\<lambda>(c::nat, l). sz > l" and ?f = "\<lambda>(c, l). (Suc c, l * 2)"
  let ?P = "\<lambda>(c, l). l = class_max_size c \<and> (c = 0 \<or> class_max_size (c - 1) < sz)"
  have "case while ?b ?f (0, k_min_class_size) of (c, l) \<Rightarrow> is_class sz c"
  proof (rule while_rule [where P = ?P and r = "measure (\<lambda>(c, l). sz - l)"])
    show "?P (0, k_min_class_size)" by (simp add: class_max_size_def)
  next
    fix s assume "?P s" "?b s"
    then show "?P (?f s)" by (auto simp: class_max_size_Suc)
  next
    fix s assume "?P s" "\<not> ?b s"
    then show "case s of (c, l) \<Rightarrow> is_class sz c" by (auto simp: is_class_def)
  next
    show "wf (measure (\<lambda>(c, l). sz - l))" by simp
  next
    fix s assume "?P s" "?b s"
    then show "(?f s, s) \<in> measure (\<lambda>(c, l). sz - l)"
      by (auto intro: diff_less_mono2)
  qed
  with assms that show thesis
    by (auto simp: get_class_slow_def split: prod.splits)
qed

text \<open>
  C11. \<open>get_class\<close> (a bit scan) computes what its reference \<open>get_class_slow\<close> (a loop) computes,
  for every argument: the asserts fail for the same sizes, and otherwise the class is the same.
\<close>

theorem get_class_eq_slow: "get_class sz = get_class_slow sz"
proof (cases "1 \<le> sz \<and> sz \<le> k_max_class_size")
  case True
  then obtain c where "get_class_slow sz = Inr c" "is_class sz c"
    using get_class_slow_is_class by blast
  with True show ?thesis by (simp add: get_class_eq_iff)
next
  case False
  then show ?thesis by (auto simp: get_class_def get_class_slow_def assert_run_def)
qed

subsection \<open>The heap invariant\<close>

definition buffer_of_class :: "HugeAlloc \<Rightarrow> nat \<Rightarrow> nat \<Rightarrow> bool" where
  "buffer_of_class h p c \<longleftrightarrow>
     (case buffers h p of None \<Rightarrow> False | Some b \<Rightarrow> b_class_size b = class_max_size c)"

definition live_disjoint :: "(nat \<rightharpoonup> Buffer) \<Rightarrow> bool" where
  "live_disjoint m \<longleftrightarrow>
     (\<forall>p q b b'. m p = Some b \<longrightarrow> m q = Some b' \<longrightarrow> p \<noteq> q \<longrightarrow> extent_of b \<inter> extent_of b' = {})"

definition live_classed :: "HugeAlloc \<Rightarrow> bool" where
  "live_classed h \<longleftrightarrow>
     (\<forall>p b. buffers h p = Some b \<longrightarrow>
        p < fresh h \<and> b_buf b \<noteq> 0 \<and> (\<exists>c<k_num_classes. b_class_size b = class_max_size c))"

definition free_ok :: "HugeAlloc \<Rightarrow> bool" where
  "free_ok h \<longleftrightarrow>
     length (freelist h) = k_num_classes \<and>
     (\<forall>c<k_num_classes. distinct (freelist h ! c) \<and>
        (\<forall>p \<in> set (freelist h ! c). buffer_of_class h p c))"

definition huge_wf :: "HugeAlloc \<Rightarrow> bool" where
  "huge_wf h \<longleftrightarrow> free_ok h \<and> live_classed h \<and> live_disjoint (buffers h)"

text \<open>The buffers that are out: live, and on no freelist. The bytes the allocator manages.\<close>

definition free_ptrs :: "HugeAlloc \<Rightarrow> nat set" where
  "free_ptrs h = set (concat (freelist h))"

definition held :: "HugeAlloc \<Rightarrow> nat set" where
  "held h = dom (buffers h) - free_ptrs h"

definition covered :: "HugeAlloc \<Rightarrow> nat set" where
  "covered h = \<Union> (extent_of ` ran (buffers h))"

lemma buffer_of_classE:
  assumes "buffer_of_class h p c"
  obtains b where "buffers h p = Some b" "b_class_size b = class_max_size c"
  using assms by (auto simp: buffer_of_class_def split: option.splits)

lemma buffer_of_class_unique:
  "buffer_of_class h p c \<Longrightarrow> buffer_of_class h p d \<Longrightarrow> c = d"
  by (auto simp: buffer_of_class_def split: option.splits)

lemma free_ptrs_iff:
  "free_ok h \<Longrightarrow> p \<in> free_ptrs h \<longleftrightarrow> (\<exists>c<k_num_classes. p \<in> set (freelist h ! c))"
  by (simp add: free_ptrs_def free_ok_def) (metis in_set_conv_nth)

lemma free_ok_disjoint:
  "free_ok h \<Longrightarrow> c < k_num_classes \<Longrightarrow> d < k_num_classes \<Longrightarrow>
   p \<in> set (freelist h ! c) \<Longrightarrow> p \<in> set (freelist h ! d) \<Longrightarrow> c = d"
  by (meson buffer_of_class_unique free_ok_def)

lemma live_disjoint_new:
  assumes "live_disjoint m" "\<And>q b'. m q = Some b' \<Longrightarrow> extent_of b \<inter> extent_of b' = {}"
  shows "live_disjoint (m(p \<mapsto> b))"
  using assms unfolding live_disjoint_def by (auto simp: Int_commute)

lemma live_disjoint_del: "live_disjoint m \<Longrightarrow> live_disjoint (m(p := None))"
  by (auto simp: live_disjoint_def)

lemma live_disjoint_upd:
  assumes "live_disjoint m" "m p = Some b" "extent_of b' \<subseteq> extent_of b"
  shows "live_disjoint (m(p \<mapsto> b'))"
proof -
  have "live_disjoint ((m(p := None))(p \<mapsto> b'))"
  proof (rule live_disjoint_new [OF live_disjoint_del [OF assms(1)]])
    fix q c
    assume "(m(p := None)) q = Some c"
    then have "extent_of b \<inter> extent_of c = {}"
      using assms(1,2) unfolding live_disjoint_def by (auto split: if_splits)
    with assms(3) show "extent_of b' \<inter> extent_of c = {}" by blast
  qed
  then show ?thesis by simp
qed

lemma new_HugeAlloc_wf:
  "new_HugeAlloc sz node = Inr h \<Longrightarrow> huge_wf h \<and> held h = {} \<and> covered h = {}"
  by (auto simp: new_HugeAlloc_def bind_assert_run huge_wf_def free_ok_def live_classed_def
      live_disjoint_def held_def covered_def split: if_splits)

subsection \<open>Bytes\<close>

lemma extent_split:
  assumes "b_class_size b = class_max_size (Suc c)"
  shows "extent_of (new_Buffer (b_buf b) (b_class_size b div 2) k) \<union>
           extent_of (new_Buffer (b_buf b + b_class_size b div 2) (b_class_size b div 2) k') = extent_of b"
    and "extent_of (new_Buffer (b_buf b) (b_class_size b div 2) k) \<inter>
           extent_of (new_Buffer (b_buf b + b_class_size b div 2) (b_class_size b div 2) k') = {}"
  using assms by (auto simp: extent_of_def class_max_size_Suc)

lemma covered_del:
  assumes "m p = Some b"
  shows "\<Union> (extent_of ` ran m) = extent_of b \<union> \<Union> (extent_of ` ran (m(p := None)))"
proof -
  have "m = (m(p := None))(p \<mapsto> b)" using assms by auto
  then have "ran m = insert b (ran (m(p := None)))"
    by (metis fun_upd_same ran_map_upd)
  then show ?thesis by simp
qed

subsection \<open>The elementary moves: pop a freelist, delete an object, push a new one\<close>

definition pop_free :: "nat \<Rightarrow> HugeAlloc \<Rightarrow> HugeAlloc" where
  "pop_free c h = h\<lparr>freelist := (freelist h)[c := butlast (freelist h ! c)]\<rparr>"

definition delete_buf :: "nat \<Rightarrow> HugeAlloc \<Rightarrow> HugeAlloc" where
  "delete_buf p h = h\<lparr>buffers := (buffers h)(p := None)\<rparr>"

lemma wf_last_free:
  assumes "huge_wf h" "c < k_num_classes" "freelist h ! c \<noteq> []"
  obtains b where "buffers h (last (freelist h ! c)) = Some b" "b_class_size b = class_max_size c"
proof -
  have "buffer_of_class h (last (freelist h ! c)) c"
    using assms by (simp add: huge_wf_def free_ok_def)
  then show thesis using that by (rule buffer_of_classE)
qed

lemma wf_fresh: "huge_wf h \<Longrightarrow> fresh h \<le> p \<Longrightarrow> buffers h p = None"
  by (metis huge_wf_def live_classed_def not_None_eq not_le)

lemma wf_free_live: "huge_wf h \<Longrightarrow> free_ptrs h \<subseteq> dom (buffers h)"
  by (meson buffer_of_classE domI free_ok_def free_ptrs_iff huge_wf_def subsetI)

lemma pop_free_in:
  assumes "free_ok h" "c < k_num_classes" "freelist h ! c \<noteq> []" "d < k_num_classes"
  shows "q \<in> set (freelist (pop_free c h) ! d) \<longleftrightarrow>
     q \<in> set (freelist h ! d) \<and> q \<noteq> last (freelist h ! c)"
proof (cases "d = c")
  case True
  then show ?thesis using assms set_butlast_last [OF assms(3)] distinct_butlast_last [OF _ assms(3)]
    by (auto simp: pop_free_def free_ok_def)
next
  case False
  then have "last (freelist h ! c) \<notin> set (freelist h ! d)"
    using free_ok_disjoint [OF assms(1,4,2)] last_in_set [OF assms(3)] by blast
  with False show ?thesis by (auto simp: pop_free_def)
qed

lemma pop_free_ok:
  assumes "free_ok h" "c < k_num_classes" "freelist h ! c \<noteq> []"
  shows "free_ok (pop_free c h)"
    and "free_ptrs (pop_free c h) = free_ptrs h - {last (freelist h ! c)}"
proof -
  have [simp]: "buffer_of_class (pop_free c h) = buffer_of_class h"
    by (intro ext) (simp add: pop_free_def buffer_of_class_def)
  show *: "free_ok (pop_free c h)" unfolding free_ok_def
  proof (intro conjI allI impI ballI)
    show "length (freelist (pop_free c h)) = k_num_classes"
      using assms by (simp add: pop_free_def free_ok_def)
  next
    fix d assume "d < k_num_classes"
    with assms show "distinct (freelist (pop_free c h) ! d)"
      by (cases "d = c") (auto simp: pop_free_def free_ok_def distinct_butlast)
  next
    fix d q assume "d < k_num_classes" "q \<in> set (freelist (pop_free c h) ! d)"
    with assms show "buffer_of_class (pop_free c h) q d"
      using pop_free_in [OF assms] by (auto simp: free_ok_def)
  qed
  show "free_ptrs (pop_free c h) = free_ptrs h - {last (freelist h ! c)}"
    using assms
    by (simp add: set_eq_iff free_ptrs_iff [OF *] free_ptrs_iff pop_free_in cong: conj_cong) blast
qed

lemma pop_free_wf:
  assumes "huge_wf h" "c < k_num_classes" "freelist h ! c \<noteq> []"
  shows "huge_wf (pop_free c h)"
    and "held (pop_free c h) = insert (last (freelist h ! c)) (held h)"
    and "last (freelist h ! c) \<notin> held h"
    and "covered (pop_free c h) = covered h"
proof -
  have fo: "free_ok h" using assms by (simp add: huge_wf_def)
  have lc: "live_classed (pop_free c h) = live_classed h"
    by (simp add: live_classed_def pop_free_def)
  show "huge_wf (pop_free c h)"
    using assms pop_free_ok(1) [OF fo assms(2,3)] by (simp add: huge_wf_def lc) (simp add: pop_free_def)
  have "last (freelist h ! c) \<in> dom (buffers h)"
    using wf_last_free [OF assms] by blast
  then show "held (pop_free c h) = insert (last (freelist h ! c)) (held h)"
    using pop_free_ok(2) [OF fo assms(2,3)] by (auto simp: held_def) (auto simp: pop_free_def)
  show "last (freelist h ! c) \<notin> held h"
    using assms by (auto simp: held_def free_ptrs_iff [OF fo])
  show "covered (pop_free c h) = covered h" by (simp add: covered_def pop_free_def)
qed

lemma delete_buf_wf:
  assumes "huge_wf h" "p \<in> held h" "buffers h p = Some b"
  shows "huge_wf (delete_buf p h)"
    and "held (delete_buf p h) = held h - {p}"
    and "covered h = extent_of b \<union> covered (delete_buf p h)"
proof -
  have "p \<noteq> q" if "c < k_num_classes" "q \<in> set (freelist h ! c)" for q c
    using assms that by (auto simp: held_def huge_wf_def free_ptrs_iff)
  then have "free_ok (delete_buf p h)"
    using assms(1) by (fastforce simp: huge_wf_def free_ok_def delete_buf_def buffer_of_class_def)
  moreover have "live_classed (delete_buf p h)"
    using assms(1) by (simp add: huge_wf_def live_classed_def delete_buf_def)
  ultimately show "huge_wf (delete_buf p h)"
    using assms(1) by (simp add: huge_wf_def delete_buf_def live_disjoint_del)
  show "held (delete_buf p h) = held h - {p}"
    by (auto simp: held_def delete_buf_def free_ptrs_def)
  show "covered h = extent_of b \<union> covered (delete_buf p h)"
    using covered_del [of "buffers h" p b, OF assms(3)] by (simp add: covered_def delete_buf_def)
qed

lemma push_new_in:
  assumes "free_ok h" "c < k_num_classes" "d < k_num_classes"
  shows "q \<in> set (freelist (push_new c b h) ! d) \<longleftrightarrow>
     q \<in> set (freelist h ! d) \<or> d = c \<and> q = fresh h"
  using assms by (auto simp: push_new_def free_ok_def nth_list_update)

lemma push_new_wf:
  assumes wf: "huge_wf h" and c: "c < k_num_classes"
    and b: "b_buf b \<noteq> 0" "b_class_size b = class_max_size c"
    and dis: "extent_of b \<inter> covered h = {}"
  shows "huge_wf (push_new c b h)"
    and "held (push_new c b h) = held h"
    and "covered (push_new c b h) = extent_of b \<union> covered h"
    and "\<And>q. q \<in> held h \<Longrightarrow> buffers (push_new c b h) q = buffers h q"
proof -
  have fo: "free_ok h" and lc: "live_classed h" and ld: "live_disjoint (buffers h)"
    using wf by (auto simp: huge_wf_def)
  have none: "buffers h (fresh h) = None" using wf_fresh [OF wf] by simp
  have old: "buffer_of_class (push_new c b h) q d" if "buffer_of_class h q d" for q d
    using that none by (auto simp: buffer_of_class_def push_new_def split: option.splits)
  have new: "buffer_of_class (push_new c b h) (fresh h) c"
    using b by (simp add: buffer_of_class_def push_new_def)
  have nfree: "fresh h \<notin> set (freelist h ! d)" if "d < k_num_classes" for d
    using fo none that by (auto simp: free_ok_def elim!: buffer_of_classE dest!: spec bspec)
  have fo': "free_ok (push_new c b h)" unfolding free_ok_def
  proof (intro conjI allI impI ballI)
    show "length (freelist (push_new c b h)) = k_num_classes"
      using fo by (simp add: push_new_def free_ok_def)
  next
    fix d assume "d < k_num_classes"
    with fo c nfree show "distinct (freelist (push_new c b h) ! d)"
      by (cases "d = c") (auto simp: push_new_def free_ok_def)
  next
    fix d q assume "d < k_num_classes" "q \<in> set (freelist (push_new c b h) ! d)"
    with fo c old new show "buffer_of_class (push_new c b h) q d"
      by (auto simp: push_new_in [OF fo] free_ok_def)
  qed
  moreover have "live_classed (push_new c b h)"
    using lc b c by (auto simp: live_classed_def push_new_def intro: less_SucI)
  moreover have "live_disjoint (buffers (push_new c b h))"
    using ld dis by (auto simp: push_new_def covered_def ran_def intro!: live_disjoint_new)
  ultimately show "huge_wf (push_new c b h)" by (simp add: huge_wf_def)
  have "free_ptrs (push_new c b h) = insert (fresh h) (free_ptrs h)"
    using c by (auto simp: set_eq_iff free_ptrs_iff [OF fo'] free_ptrs_iff [OF fo] push_new_in [OF fo]
        cong: conj_cong)
  then show "held (push_new c b h) = held h"
    using none by (auto simp: held_def) (auto simp: push_new_def)
  show "covered (push_new c b h) = extent_of b \<union> covered h"
    using none by (simp add: covered_def push_new_def ran_map_upd)
  show "buffers (push_new c b h) q = buffers h q" if "q \<in> held h" for q
    using that none by (auto simp: held_def push_new_def)
qed

text \<open>What a step that clients must not notice preserves.\<close>

definition quiet :: "HugeAlloc \<Rightarrow> HugeAlloc \<Rightarrow> bool" where
  "quiet h h' \<longleftrightarrow> huge_wf h' \<and> held h' = held h \<and> covered h' = covered h \<and>
     (\<forall>p \<in> held h. buffers h' p = buffers h p) \<and>
     user_alloc_tot h' = user_alloc_tot h \<and> shm_reserved h' = shm_reserved h \<and>
     shm_list h' = shm_list h \<and> numa_node h' = numa_node h"

lemma quiet_refl: "huge_wf h \<Longrightarrow> quiet h h"
  by (simp add: quiet_def)

lemma quiet_trans: "quiet h h' \<Longrightarrow> quiet h' h'' \<Longrightarrow> quiet h h''"
  by (simp add: quiet_def)

text \<open>Splitting is: pop a buffer, delete it, push its two halves one class below.\<close>

lemma split_class_quiet:
  assumes wf: "huge_wf h" and c: "Suc c < k_num_classes"
    and ne: "freelist h ! Suc c \<noteq> []" and em: "freelist h ! c = []"
  obtains h' where "split_class (Suc c) h = Inr h'" and "quiet h h'"
    and "freelist h' ! c \<noteq> []" and "\<And>d. d < c \<Longrightarrow> freelist h' ! d = freelist h ! d"
proof -
  let ?p = "last (freelist h ! Suc c)"
  obtain b where b: "buffers h ?p = Some b" "b_class_size b = class_max_size (Suc c)"
    using wf_last_free [OF wf c ne] .
  define hp where "hp = pop_free (Suc c) h"
  define hd where "hd = delete_buf ?p hp"
  define b0 where "b0 = new_Buffer (b_buf b) (b_class_size b div 2) (b_lkey b)"
  define b1 where "b1 = new_Buffer (b_buf b + b_class_size b div 2) (b_class_size b div 2) (b_lkey b)"
  define h0 where "h0 = push_new c b0 hd"
  define h1 where "h1 = push_new c b1 h0"
  note defs = hp_def hd_def h0_def h1_def pop_free_def delete_buf_def push_new_def
  have res: "split_class (Suc c) h = Inr h1"
    using ne em b c wf unfolding split_class_def deref_def
    by (simp add: Let_def defs b0_def b1_def huge_wf_def free_ok_def)
  note pop = pop_free_wf [OF wf c ne, folded hp_def]
  have bp: "buffers hp ?p = Some b" using b by (simp add: hp_def pop_free_def)
  have "?p \<in> held hp" using pop by simp
  note del = delete_buf_wf [OF pop(1) this bp, folded hd_def]
  have half: "b_class_size b div 2 = class_max_size c" using b by (simp add: class_max_size_Suc)
  have nz: "b_buf b \<noteq> 0" using wf b by (simp add: huge_wf_def live_classed_def)
  have ex: "extent_of b0 \<union> extent_of b1 = extent_of b" "extent_of b0 \<inter> extent_of b1 = {}"
    using extent_split [OF b(2)] by (simp_all add: b0_def b1_def)
  have "extent_of b \<inter> covered hd = {}"
    using pop(1) bp by (fastforce simp: huge_wf_def live_disjoint_def covered_def hd_def
        delete_buf_def ran_def split: if_splits)
  then have e0: "extent_of b0 \<inter> covered hd = {}" and e1: "extent_of b1 \<inter> covered hd = {}"
    using ex(1) by auto
  have c': "c < k_num_classes" using c by simp
  have sz: "b_class_size b0 = class_max_size c" "b_class_size b1 = class_max_size c"
    "b_buf b0 \<noteq> 0" "b_buf b1 \<noteq> 0"
    using half nz by (simp_all add: b0_def b1_def)
  note p0 = push_new_wf [OF del(1) c' sz(3,1) e0, folded h0_def]
  have "extent_of b1 \<inter> covered h0 = {}" using e1 ex(2) p0(3) by auto
  note p1 = push_new_wf [OF p0(1) c' sz(4,2) this, folded h1_def]
  have "held hd = held h" using pop(2,3) del(2) by auto
  moreover have "buffers hd q = buffers h q" if "q \<in> held h" for q
    using that pop(3) by (auto simp: defs)
  moreover have "covered h1 = covered h" using p1 p0 del(3) pop(4) ex by auto
  ultimately have "quiet h h1"
    using p1 p0 by (simp add: quiet_def) (simp add: defs)
  moreover have "freelist h1 ! c \<noteq> []" using c wf by (simp add: defs huge_wf_def free_ok_def)
  moreover have "freelist h1 ! d = freelist h ! d" if "d < c" for d
    using that by (simp add: defs)
  ultimately show thesis using that res by blast
qed

lemma split_chain_quiet:
  assumes "huge_wf h" "c \<le> n" "n < k_num_classes" "freelist h ! n \<noteq> []"
    "\<And>d. c \<le> d \<Longrightarrow> d < n \<Longrightarrow> freelist h ! d = []"
  obtains h' where "fold_run split_class (rev [Suc c ..< Suc n]) h = Inr h'" and "quiet h h'"
    and "freelist h' ! c \<noteq> []"
proof -
  have "\<exists>h'. fold_run split_class (rev [Suc c ..< Suc n]) h = Inr h' \<and> quiet h h' \<and> freelist h' ! c \<noteq> []"
    using assms(2,1,3-)
  proof (induction n arbitrary: h rule: dec_induct)
    case base
    then show ?case by (simp add: quiet_refl)
  next
    case (step m)
    have "freelist h ! m = []" using step.prems(4) step.hyps by simp
    then obtain h1 where h1: "split_class (Suc m) h = Inr h1" "quiet h h1"
      "freelist h1 ! m \<noteq> []" "\<And>d. d < m \<Longrightarrow> freelist h1 ! d = freelist h ! d"
      using split_class_quiet [OF step.prems(1,2,3)] by metis
    have wf1: "huge_wf h1" using h1(2) by (simp add: quiet_def)
    have m: "m < k_num_classes" using step.prems(2) by simp
    have "freelist h1 ! d = []" if "c \<le> d" "d < m" for d
      using h1(4) step.prems(4) that by simp
    from step.IH [OF wf1 m h1(3) this] obtain h2 where
      "fold_run split_class (rev [Suc c ..< Suc m]) h1 = Inr h2" "quiet h1 h2" "freelist h2 ! c \<noteq> []"
      by blast
    moreover have "rev [Suc c ..< Suc (Suc m)] = Suc m # rev [Suc c ..< Suc m]"
      using step.hyps by simp
    ultimately show ?case
      using h1(1) quiet_trans [OF h1(2)] by (simp del: upt_Suc)
  qed
  then show thesis using that by blast
qed

subsection \<open>Allocation and release\<close>

text \<open>What a client may rely on when \<open>alloc\<close> returned buffer \<open>p\<close> for a request of \<open>sz\<close> bytes.\<close>

definition granted :: "nat \<Rightarrow> nat \<Rightarrow> HugeAlloc \<Rightarrow> HugeAlloc \<Rightarrow> bool" where
  "granted sz p h h' \<longleftrightarrow> huge_wf h' \<and> p \<notin> held h \<and> held h' = insert p (held h) \<and>
     covered h' = covered h \<and> (\<forall>q \<in> held h. buffers h' q = buffers h q) \<and>
     (case buffers h' p of None \<Rightarrow> False
      | Some b \<Rightarrow> (\<exists>c<k_num_classes. is_class sz c \<and> b_class_size b = class_max_size c) \<and>
          user_alloc_tot h' = user_alloc_tot h + of_nat (b_class_size b))"

lemma alloc_from_class_granted:
  assumes "huge_wf h" "c < k_num_classes" "freelist h ! c \<noteq> []" "is_class sz c"
  obtains p h' where "alloc_from_class c h = Inr (Some p, h')" and "granted sz p h h'"
proof -
  let ?p = "last (freelist h ! c)"
  obtain b where b: "buffers h ?p = Some b" "b_class_size b = class_max_size c"
    using wf_last_free [OF assms(1-3)] .
  define h' where "h' = (pop_free c h)\<lparr>user_alloc_tot := user_alloc_tot h + of_nat (b_class_size b)\<rparr>"
  have [simp]: "huge_wf h' = huge_wf (pop_free c h)" "held h' = held (pop_free c h)"
    "covered h' = covered (pop_free c h)"
    by (simp_all add: h'_def huge_wf_def free_ok_def buffer_of_class_def live_classed_def held_def
        free_ptrs_def covered_def)
  have bu: "buffers h' = buffers h"
    "user_alloc_tot h' = user_alloc_tot h + of_nat (b_class_size b)"
    by (simp_all add: h'_def pop_free_def)
  have "alloc_from_class c h = Inr (Some ?p, h')"
    using assms b by (simp add: alloc_from_class_def Let_def deref_def h'_def pop_free_def)
  moreover have "granted sz ?p h h'"
    unfolding granted_def using pop_free_wf [OF assms(1-3)] b assms(2,4) bu by auto
  ultimately show thesis by (rule that)
qed

lemma quiet_granted: "quiet h h' \<Longrightarrow> granted sz p h' h'' \<Longrightarrow> granted sz p h h''"
  by (auto simp: quiet_def granted_def split: option.splits)

lemma alloc_cases:
  assumes wf: "huge_wf h" and sz: "1 \<le> sz" "sz \<le> k_max_class_size"
  obtains (exhausted) c where "alloc sz h = Inr (None, h)" and "is_class sz c"
      and "\<forall>d. c \<le> d \<longrightarrow> d < k_num_classes \<longrightarrow> freelist h ! d = []"
  | (grant) p h' where "alloc sz h = Inr (Some p, h')" and "granted sz p h h'"
proof -
  obtain c where c: "get_class sz = Inr c" "is_class sz c" "c < k_num_classes"
    using get_class_is_class [OF sz] .
  show thesis
  proof (cases "freelist h ! c = []")
    case False
    then obtain p h' where p: "alloc_from_class c h = Inr (Some p, h')" "granted sz p h h'"
      using alloc_from_class_granted wf c by blast
    then have "alloc sz h = Inr (Some p, h')" using False sz c by (simp add: alloc_def)
    then show thesis using p(2) that(2) by blast
  next
    case empty: True
    show thesis
    proof (cases "find (\<lambda>c. freelist h ! c \<noteq> []) [Suc c ..< k_num_classes]")
      case None
      then have "\<forall>d. c \<le> d \<longrightarrow> d < k_num_classes \<longrightarrow> freelist h ! d = []"
        using empty by (auto simp: find_None_iff le_eq_less_or_eq)
      moreover have "alloc sz h = Inr (None, h)"
        using sz c empty None by (simp add: alloc_def)
      ultimately show thesis using c(2) that(1) by blast
    next
      case (Some n)
      then obtain i where i: "i < k_num_classes - Suc c" "n = Suc c + i" "freelist h ! n \<noteq> []"
        "\<forall>j<i. freelist h ! (Suc c + j) = []"
        by (auto simp: find_Some_iff)
      have "freelist h ! d = []" if "c \<le> d" "d < n" for d
        using that i(2,4) empty by (cases "d = c") (auto dest!: spec [of _ "d - Suc c"])
      moreover have "c \<le> n" "n < k_num_classes" using i by auto
      ultimately obtain h' where h': "fold_run split_class (rev [Suc c ..< Suc n]) h = Inr h'"
        "quiet h h'" "freelist h' ! c \<noteq> []"
        using split_chain_quiet [OF wf _ _ i(3)] by blast
      then have "huge_wf h'" by (simp add: quiet_def)
      then obtain p h'' where p: "alloc_from_class c h' = Inr (Some p, h'')" "granted sz p h' h''"
        using alloc_from_class_granted c h'(3) by blast
      have "alloc sz h = Inr (Some p, h'')"
        using sz c empty Some h' p by (simp add: alloc_def del: upt_Suc)
      with p(2) h'(2) show thesis using quiet_granted that(2) by blast
    qed
  qed
qed

text \<open>
  \<open>free_buf\<close> of a held buffer: the buffer goes back to the freelist of its class and becomes
  \<open>kFREE_BUF\<close> with length 0; everything else is untouched.
\<close>

definition released :: "nat \<Rightarrow> HugeAlloc \<Rightarrow> HugeAlloc \<Rightarrow> bool" where
  "released p h h' \<longleftrightarrow> huge_wf h' \<and> held h' = held h - {p} \<and> covered h' = covered h \<and>
     (\<forall>q \<in> held h - {p}. buffers h' q = buffers h q) \<and>
     (case buffers h p of None \<Rightarrow> False
      | Some b \<Rightarrow> user_alloc_tot h' = user_alloc_tot h - of_nat (b_class_size b) \<and>
          buffers h' p = Some (b\<lparr>b_length := 0, b_state := kFREE_BUF\<rparr>))"

lemma get_class_of_class: "c < k_num_classes \<Longrightarrow> get_class (class_max_size c) = Inr c"
proof -
  assume "c < k_num_classes"
  then have "c \<le> k_num_classes - 1" by (simp add: k_num_classes_def)
  then have "class_max_size c \<le> k_max_class_size"
    using class_max_size_mono class_max_size_17 by metis
  then show ?thesis
    using class_max_size_pos [of c] by (intro get_class_eq_iff [THEN iffD2]) (simp_all del: class_max_size_pos)
qed

lemma put_free_wf:
  assumes wf: "huge_wf h" and p: "p \<in> held h" "buffers h p = Some b"
    and c: "c < k_num_classes" "b_class_size b = class_max_size c"
    and b': "b_buf b' = b_buf b" "b_class_size b' = b_class_size b"
    and h': "h' = h\<lparr>buffers := (buffers h)(p \<mapsto> b'),
      freelist := (freelist h)[c := freelist h ! c @ [p]], user_alloc_tot := u\<rparr>"
  shows "huge_wf h'" and "held h' = held h - {p}" and "covered h' = covered h"
proof -
  have fo: "free_ok h" and lc: "live_classed h" and ld: "live_disjoint (buffers h)"
    using wf by (auto simp: huge_wf_def)
  have ex: "extent_of b' = extent_of b" by (simp add: extent_of_def b')
  have nf: "p \<notin> set (freelist h ! d)" if "d < k_num_classes" for d
    using p(1) that by (auto simp: held_def free_ptrs_iff [OF fo])
  have oc: "buffer_of_class h' q d" if "buffer_of_class h q d" for q d
    using that p b' by (auto simp: buffer_of_class_def h' split: option.splits)
  have pc: "buffer_of_class h' p c" using c b' by (simp add: buffer_of_class_def h')
  have in': "q \<in> set (freelist h' ! d) \<longleftrightarrow> q \<in> set (freelist h ! d) \<or> d = c \<and> q = p"
    if "d < k_num_classes" for q d
    using that c fo by (auto simp: h' free_ok_def nth_list_update)
  have fo': "free_ok h'" unfolding free_ok_def
  proof (intro conjI allI impI ballI)
    show "length (freelist h') = k_num_classes" using fo by (simp add: h' free_ok_def)
  next
    fix d assume "d < k_num_classes"
    with fo c nf show "distinct (freelist h' ! d)" by (cases "d = c") (auto simp: h' free_ok_def)
  next
    fix d q assume "d < k_num_classes" "q \<in> set (freelist h' ! d)"
    with fo c oc pc show "buffer_of_class h' q d" by (auto simp: in' free_ok_def)
  qed
  moreover have "live_classed h'" using lc p b' by (auto simp: live_classed_def h')
  moreover have "live_disjoint (buffers h')"
    using live_disjoint_upd [OF ld p(2)] ex by (simp add: h')
  ultimately show "huge_wf h'" by (simp add: huge_wf_def)
  have "free_ptrs h' = insert p (free_ptrs h)"
    using c by (auto simp: set_eq_iff free_ptrs_iff [OF fo'] free_ptrs_iff [OF fo] in' cong: conj_cong)
  then show "held h' = held h - {p}"
    using p by (auto simp: held_def) (auto simp: h')
  have "covered h' = extent_of b' \<union> \<Union> (extent_of ` ran ((buffers h)(p := None)))"
    using covered_del [of "buffers h'" p b'] by (simp add: covered_def h')
  then show "covered h' = covered h"
    using covered_del [of "buffers h" p b, OF p(2)] by (simp add: covered_def ex)
qed

lemma free_buf_released:
  assumes wf: "huge_wf h" and p: "p \<in> held h"
  obtains h' where "free_buf p h = Inr h'" and "released p h h'"
proof -
  obtain b where b: "buffers h p = Some b" using p by (auto simp: held_def)
  with wf obtain c where c: "c < k_num_classes" "b_class_size b = class_max_size c" and nz: "b_buf b \<noteq> 0"
    by (auto simp: huge_wf_def live_classed_def)
  define b' where "b' = b\<lparr>b_length := 0, b_state := kFREE_BUF\<rparr>"
  define h' where "h' = h\<lparr>buffers := (buffers h)(p \<mapsto> b'),
      freelist := (freelist h)[c := freelist h ! c @ [p]],
      user_alloc_tot := user_alloc_tot h - of_nat (b_class_size b)\<rparr>"
  have "free_buf p h = Inr h'"
    using b c nz by (simp add: free_buf_def deref_def get_class_of_class h'_def b'_def)
  moreover have "released p h h'"
    using put_free_wf [OF wf p b c _ _ h'_def] b
    by (auto simp: released_def b'_def) (auto simp: h'_def b'_def)
  ultimately show thesis by (rule that)
qed

subsection \<open>Adding memory\<close>

definition region :: "nat \<Rightarrow> nat \<Rightarrow> nat set" where
  "region base n = {base ..< base + n * k_max_class_size}"

text \<open>What a step that brings in the bytes \<open>R\<close> preserves.\<close>

definition grown :: "nat set \<Rightarrow> HugeAlloc \<Rightarrow> HugeAlloc \<Rightarrow> bool" where
  "grown R h h' \<longleftrightarrow> huge_wf h' \<and> held h' = held h \<and> covered h' = R \<union> covered h \<and>
     (\<forall>q \<in> held h. buffers h' q = buffers h q)"

lemma push_max_buffers_grown:
  assumes "huge_wf h" "0 < base" "region base n \<inter> covered h = {}"
  shows "grown (region base n) h (push_max_buffers base k n h)"
  using assms(3)
proof (induction n)
  case 0
  then show ?case using assms(1) by (simp add: push_max_buffers_def region_def grown_def)
next
  case (Suc n)
  let ?b = "new_Buffer (base + n * k_max_class_size) k_max_class_size k"
  let ?h = "push_max_buffers base k n h"
  have reg: "region base (Suc n) = extent_of ?b \<union> region base n" "extent_of ?b \<inter> region base n = {}"
    by (auto simp: region_def extent_of_def)
  then have IH: "grown (region base n) h ?h" using Suc by auto
  then have wf: "huge_wf ?h" by (simp add: grown_def)
  have top: "k_num_classes - 1 < k_num_classes" and nz: "b_buf ?b \<noteq> 0"
    and sz: "b_class_size ?b = class_max_size (k_num_classes - 1)"
    using assms(2) by (simp_all only: class_max_size_17 new_Buffer_simps) (simp_all add: k_num_classes_def)
  have dis: "extent_of ?b \<inter> covered ?h = {}" using IH reg Suc.prems by (auto simp: grown_def)
  then have "grown (extent_of ?b) ?h (push_new (k_num_classes - 1) ?b ?h)"
    unfolding grown_def using push_new_wf [OF wf top nz sz dis] IH by (auto simp: grown_def)
  moreover have "push_max_buffers base k (Suc n) h = push_new (k_num_classes - 1) ?b ?h"
    by (simp add: push_max_buffers_def)
  ultimately show ?case using IH reg by (auto simp: grown_def)
qed

lemma add_raw_buffer_multiple:
  assumes "0 < n"
  shows "add_raw_buffer buf (n * k_max_class_size) h = Inr (push_max_buffers (b_buf buf) (b_lkey buf) n h)"
  using assms by (subst add_raw_buffer.simps) (simp add: k_max_class_size_def)

lemma push_new_nth:
  "c < length (freelist h) \<Longrightarrow> last (freelist (push_new c b h) ! c) = fresh h \<and>
   freelist (push_new c b h) ! c \<noteq> [] \<and> buffers (push_new c b h) (fresh h) = Some b"
  by (simp add: push_new_def)

lemma length_push_new [simp]: "length (freelist (push_new c b h)) = length (freelist h)"
  by (simp add: push_new_def)

lemma length_push_max_buffers [simp]:
  "length (freelist (push_max_buffers base k n h)) = length (freelist h)"
  by (induction n) (simp_all add: push_max_buffers_def)

lemma class_index_less_size: "c < class_max_size c"
proof -
  have "c < 2 ^ c" by (rule less_exp)
  also have "\<dots> \<le> class_max_size c" by (simp add: class_max_size_def huge_consts)
  finally show ?thesis .
qed

lemma add_small_poisons:
  assumes "length (freelist h) = k_num_classes" "1 \<le> sz" "sz < k_max_class_size"
  shows "\<exists>h'. add_raw_buffer buf sz h = Inr h' \<and> alloc sz h' = Inl Assert_Failed"
proof -
  obtain c where c: "get_class sz = Inr c" "c < k_num_classes"
    using get_class_is_class [of sz] assms by auto
  let ?h = "push_new c (new_Buffer (b_buf buf) c (b_lkey buf)) h"
  have "add_raw_buffer buf sz h = Inr ?h"
    using assms c by (subst add_raw_buffer.simps) simp
  moreover have "c \<noteq> class_max_size c" using class_index_less_size [of c] by linarith
  then have "alloc sz ?h = Inl Assert_Failed"
    using push_new_nth [of c h "new_Buffer (b_buf buf) c (b_lkey buf)"] assms c
    by (simp add: alloc_def alloc_from_class_def Let_def deref_def assert_run_def)
  ultimately show ?thesis by blast
qed

lemma add_raw_poisons:
  assumes "length (freelist h) = k_num_classes" "sz mod k_max_class_size \<noteq> 0"
  shows "\<exists>h'. add_raw_buffer buf sz h = Inr h' \<and> alloc (sz mod k_max_class_size) h' = Inl Assert_Failed"
proof (cases "sz < k_max_class_size")
  case True
  with assms add_small_poisons [of h sz] show ?thesis by simp
next
  case False
  let ?h = "push_max_buffers (b_buf buf) (b_lkey buf) (sz div k_max_class_size) h"
  have m: "0 < k_max_class_size" by (simp add: k_max_class_size_def)
  have "add_raw_buffer buf sz h = add_raw_buffer buf (sz mod k_max_class_size) ?h"
    using False assms(2) m
    by (subst add_raw_buffer.simps) (simp add: Let_def assert_run_def div_eq_0_iff Suc_le_eq)
  with add_small_poisons [of ?h "sz mod k_max_class_size" buf] assms m show ?thesis by simp
qed

subsection \<open>The contract of the allocator\<close>

text \<open>
  What the channels rely on when they take receive and transmit buffers: a request is granted or
  refused without a fatal exit, a granted buffer is large enough and overlaps no buffer that is
  out, and a release ends exactly the lease it names.
\<close>

locale buffer_pool =
  fixes get :: "nat \<Rightarrow> 's \<Rightarrow> (nat option \<times> 's) run"
    and put :: "nat \<Rightarrow> 's \<Rightarrow> 's run"
    and ok :: "'s \<Rightarrow> bool"
    and leased :: "'s \<Rightarrow> nat set"
    and bytes :: "'s \<Rightarrow> nat \<Rightarrow> nat set"
    and limit :: nat
  assumes get_cases: "\<lbrakk>ok s; 1 \<le> n; n \<le> limit\<rbrakk> \<Longrightarrow>
      get n s = Inr (None, s) \<or>
      (\<exists>p s'. get n s = Inr (Some p, s') \<and> ok s' \<and> p \<notin> leased s \<and> leased s' = insert p (leased s) \<and>
         n \<le> card (bytes s' p) \<and> (\<forall>q \<in> leased s. bytes s' q = bytes s q))"
    and put_ok: "\<lbrakk>ok s; p \<in> leased s\<rbrakk> \<Longrightarrow>
      \<exists>s'. put p s = Inr s' \<and> ok s' \<and> leased s' = leased s - {p} \<and>
         (\<forall>q \<in> leased s'. bytes s' q = bytes s q)"
    and bytes_disjoint: "\<lbrakk>ok s; p \<in> leased s; q \<in> leased s; p \<noteq> q\<rbrakk> \<Longrightarrow> bytes s p \<inter> bytes s q = {}"
begin

lemma grant_disjoint:
  assumes "ok s" "1 \<le> n" "n \<le> limit" "get n s = Inr (Some p, s')" "q \<in> leased s"
  shows "bytes s' p \<inter> bytes s q = {}"
proof -
  have *: "ok s'" "p \<notin> leased s" "leased s' = insert p (leased s)" "bytes s' q = bytes s q"
    using get_cases [OF assms(1-3)] assms(4,5) by auto
  then have "bytes s' p \<inter> bytes s' q = {}"
    using assms(5) by (intro bytes_disjoint) auto
  with * show ?thesis by simp
qed

lemma get_put:
  assumes "ok s" "1 \<le> n" "n \<le> limit" "get n s = Inr (Some p, s')"
  shows "\<exists>s''. put p s' = Inr s'' \<and> ok s'' \<and> leased s'' = leased s \<and>
    (\<forall>q \<in> leased s. bytes s'' q = bytes s q)"
proof -
  have *: "ok s'" "p \<notin> leased s" "leased s' = insert p (leased s)"
    "\<forall>q \<in> leased s. bytes s' q = bytes s q"
    using get_cases [OF assms(1-3)] assms(4) by auto
  then obtain s'' where s'': "put p s' = Inr s''" "ok s''" "leased s'' = leased s' - {p}"
    "\<forall>q \<in> leased s''. bytes s'' q = bytes s' q"
    using put_ok [of s' p] by auto
  then have "leased s'' = leased s" using * by auto
  with * s'' show ?thesis by auto
qed

lemma put_all:
  assumes "ok s" "distinct ps" "set ps \<subseteq> leased s"
  shows "\<exists>s'. fold_run put ps s = Inr s' \<and> ok s' \<and> leased s' = leased s - set ps"
  using assms
proof (induction ps arbitrary: s)
  case Nil
  then show ?case by simp
next
  case (Cons p ps)
  then obtain s1 where s1: "put p s = Inr s1" "ok s1" "leased s1 = leased s - {p}"
    using put_ok [of s p] by auto
  with Cons have "set ps \<subseteq> leased s1" by auto
  with Cons.IH [OF s1(2)] Cons.prems(2) obtain s2 where
    "fold_run put ps s1 = Inr s2" "ok s2" "leased s2 = leased s1 - set ps"
    by auto
  with s1 show ?case by auto
qed

end

text \<open>The bytes behind a pointer, empty when it is not live.\<close>

definition bytes_of :: "HugeAlloc \<Rightarrow> nat \<Rightarrow> nat set" where
  "bytes_of h p = (case buffers h p of None \<Rightarrow> {} | Some b \<Rightarrow> extent_of b)"

lemma held_bytes_disjoint:
  "huge_wf h \<Longrightarrow> p \<in> held h \<Longrightarrow> q \<in> held h \<Longrightarrow> p \<noteq> q \<Longrightarrow> bytes_of h p \<inter> bytes_of h q = {}"
  by (auto simp: huge_wf_def live_disjoint_def bytes_of_def split: option.splits)

interpretation huge: buffer_pool alloc free_buf huge_wf held bytes_of k_max_class_size
proof unfold_locales
  fix h n assume *: "huge_wf h" "1 \<le> n" "n \<le> k_max_class_size"
  show "alloc n h = Inr (None, h) \<or>
      (\<exists>p h'. alloc n h = Inr (Some p, h') \<and> huge_wf h' \<and> p \<notin> held h \<and> held h' = insert p (held h) \<and>
         n \<le> card (bytes_of h' p) \<and> (\<forall>q \<in> held h. bytes_of h' q = bytes_of h q))"
    using * by (cases rule: alloc_cases)
      (auto simp: granted_def bytes_of_def extent_of_def is_class_def split: option.splits)
next
  fix h p assume "huge_wf h" "p \<in> held h"
  then obtain h' where "free_buf p h = Inr h'" "released p h h'" by (rule free_buf_released)
  then show "\<exists>h'. free_buf p h = Inr h' \<and> huge_wf h' \<and> held h' = held h - {p} \<and>
     (\<forall>q \<in> held h'. bytes_of h' q = bytes_of h q)"
    by (auto simp: released_def bytes_of_def)
qed (rule held_bytes_disjoint)

lemma is_class_least: "is_class sz c \<Longrightarrow> sz \<le> class_max_size d \<Longrightarrow> c \<le> d"
proof (rule ccontr)
  assume "is_class sz c" "sz \<le> class_max_size d" "\<not> c \<le> d"
  moreover from this have "class_max_size d \<le> class_max_size (c - 1)"
    by (intro class_max_size_mono) simp
  ultimately show False by (auto simp: is_class_def)
qed

lemma alloc_refuses:
  assumes "huge_wf h" "1 \<le> sz" "sz \<le> k_max_class_size"
    and none: "\<forall>c<k_num_classes. sz \<le> class_max_size c \<longrightarrow> freelist h ! c = []"
  shows "alloc sz h = Inr (None, h)"
proof -
  obtain c where c: "get_class sz = Inr c" "is_class sz c" "c < k_num_classes"
    using get_class_is_class assms(2,3) by blast
  have e: "freelist h ! d = []" if "c \<le> d" "d < k_num_classes" for d
    using none that c(2) class_max_size_mono [OF that(1)] by (auto simp: is_class_def)
  then have "find (\<lambda>c. freelist h ! c \<noteq> []) [Suc c ..< k_num_classes] = None"
    by (simp add: find_None_iff)
  with e [of c] c assms(3) show ?thesis by (simp add: alloc_def)
qed

lemma alloc_grants:
  assumes "huge_wf h" "1 \<le> sz" "sz \<le> k_max_class_size"
    and some: "\<exists>c<k_num_classes. sz \<le> class_max_size c \<and> freelist h ! c \<noteq> []"
  shows "\<exists>p h'. alloc sz h = Inr (Some p, h') \<and> granted sz p h h'"
  using assms(1-3)
proof (cases rule: alloc_cases)
  case (exhausted c)
  with some show ?thesis using is_class_least by blast
next
  case (grant p h')
  then show ?thesis by blast
qed

subsection \<open>Properties of the allocator\<close>

text \<open>
  C12. \<open>alloc\<close> on a well-formed heap never fails fatally. It returns the null pointer and changes
  nothing exactly when no freelist from the request's class up has a buffer; otherwise it
  returns a buffer that was not out, of the smallest class that holds the request, and keeps
  the heap well-formed, the managed bytes the same and every buffer that was out untouched.
\<close>

theorem alloc_spec:
  assumes "huge_wf h" and "1 \<le> sz" and "sz \<le> k_max_class_size"
  shows "(if \<exists>c<k_num_classes. sz \<le> class_max_size c \<and> freelist h ! c \<noteq> []
      then \<exists>p h'. alloc sz h = Inr (Some p, h') \<and> granted sz p h h'
      else alloc sz h = Inr (None, h))"
  using assms alloc_grants [OF assms] alloc_refuses [OF assms] by auto

text \<open>
  C13. Releasing a buffer that is out succeeds, ends exactly that lease, resets the buffer's
  length and state, and keeps the heap well-formed, its bytes and every other lease.
\<close>

theorem free_buf_spec:
  assumes "huge_wf h" and "p \<in> held h"
  shows "\<exists>h'. free_buf p h = Inr h' \<and> released p h h'"
  using free_buf_released [OF assms] by blast

text \<open>
  C14. Two buffers that are out never share a byte, also not a buffer granted now and one
  granted before.
\<close>

theorem alloc_no_overlap:
  assumes "huge_wf h" and "1 \<le> sz" and "sz \<le> k_max_class_size"
    and "alloc sz h = Inr (Some p, h')" and "q \<in> held h"
  shows "bytes_of h' p \<inter> bytes_of h q = {}"
  by (rule huge.grant_disjoint [OF assms])

text \<open>
  C15. A reservation whose size is a multiple of the largest class, at a mapped region apart
  from the managed bytes, keeps the heap well-formed and adds exactly the region's bytes.
\<close>

theorem add_raw_buffer_grows:
  assumes "huge_wf h" and "0 < n" and "b_buf buf \<noteq> 0" and "region (b_buf buf) n \<inter> covered h = {}"
  shows "\<exists>h'. add_raw_buffer buf (n * k_max_class_size) h = Inr h' \<and> grown (region (b_buf buf) n) h h'"
  using push_max_buffers_grown [OF assms(1) _ assms(4), of "b_lkey buf"] assms(2,3)
  by (auto simp: add_raw_buffer_multiple)

text \<open>
  C16. A raw buffer whose size is not a multiple of the largest class leaves a buffer with the
  class index in the place of its size: the next request of that size fails the assert of
  \<open>alloc_from_class\<close>.
\<close>

theorem add_raw_buffer_remainder:
  assumes "length (freelist h) = k_num_classes" and "sz mod k_max_class_size \<noteq> 0"
  shows "\<exists>h'. add_raw_buffer buf sz h = Inr h' \<and> alloc (sz mod k_max_class_size) h' = Inl Assert_Failed"
  using assms by (rule add_raw_poisons)

subsection \<open>Witnesses\<close>

definition h0_ex :: HugeAlloc where
  "h0_ex = \<lparr>buffers = Map.empty, fresh = 0, freelist = replicate k_num_classes [], shm_list = [],
     numa_node = 0, prev_allocation_size = k_max_class_size, shm_reserved = 0, user_alloc_tot = 0\<rparr>"

definition h1_ex :: HugeAlloc where
  "h1_ex = push_max_buffers 4096 7 1 h0_ex"

lemma h0_ex_wf: "huge_wf h0_ex \<and> held h0_ex = {} \<and> covered h0_ex = {}"
  by (rule new_HugeAlloc_wf [of 0 0]) (simp add: new_HugeAlloc_def h0_ex_def kMaxNumaNodes_def)

lemma h1_ex_wf: "huge_wf h1_ex \<and> held h1_ex = {}"
  using push_max_buffers_grown [of h0_ex 4096 1 7] h0_ex_wf by (auto simp: grown_def h1_ex_def)

lemma h1_ex_fields: "freelist h1_ex = (replicate 17 []) @ [[0]]" "buffers h1_ex 0 =
    Some (new_Buffer 4096 k_max_class_size 7)"
  by (simp_all add: h1_ex_def push_max_buffers_def push_new_def h0_ex_def k_num_classes_def
      numeral_eq_Suc)

definition h2_ex :: HugeAlloc where
  "h2_ex = pop_free 17 (push_max_buffers 4096 7 2 h0_ex)"

lemma h2_ex_fields: "freelist h2_ex = (replicate 17 []) @ [[0]]"
  "freelist (push_max_buffers 4096 7 2 h0_ex) = (replicate 17 []) @ [[0, 1]]"
  by (simp_all add: h2_ex_def pop_free_def push_max_buffers_def push_new_def h0_ex_def
      k_num_classes_def numeral_eq_Suc)

lemma h2_ex_wf: "huge_wf h2_ex \<and> held h2_ex = {1}"
proof -
  have "grown (region 4096 2) h0_ex (push_max_buffers 4096 7 2 h0_ex)"
    using h0_ex_wf by (intro push_max_buffers_grown) auto
  then show ?thesis
    using pop_free_wf [of "push_max_buffers 4096 7 2 h0_ex" 17] h0_ex_wf h2_ex_fields(2)
    by (simp add: h2_ex_def grown_def k_num_classes_def nth_append)
qed

lemma class_17_free:
  "freelist h = (replicate 17 []) @ [[x]] \<Longrightarrow> sz \<le> k_max_class_size \<Longrightarrow>
   \<exists>c<k_num_classes. sz \<le> class_max_size c \<and> freelist h ! c \<noteq> []"
  by (rule exI [of _ 17]) (simp add: class_max_size_def huge_consts nth_append)

theorem alloc_spec_witness:
  "\<exists>p h'. alloc 100 h1_ex = Inr (Some p, h') \<and> granted 100 p h1_ex h'"
proof -
  have "\<exists>c<k_num_classes. 100 \<le> class_max_size c \<and> freelist h1_ex ! c \<noteq> []"
    using h1_ex_fields by (intro class_17_free) (auto simp: k_max_class_size_def)
  with alloc_spec [of h1_ex 100] h1_ex_wf show ?thesis by (simp add: k_max_class_size_def)
qed

theorem free_buf_spec_witness:
  "\<exists>h'. free_buf 1 h2_ex = Inr h' \<and> released 1 h2_ex h'"
  using free_buf_spec [of h2_ex 1] h2_ex_wf by simp

theorem alloc_no_overlap_witness:
  "\<exists>p h'. alloc 100 h2_ex = Inr (Some p, h') \<and> bytes_of h' p \<inter> bytes_of h2_ex 1 = {}"
proof -
  have "\<exists>c<k_num_classes. 100 \<le> class_max_size c \<and> freelist h2_ex ! c \<noteq> []"
    using h2_ex_fields by (intro class_17_free) (auto simp: k_max_class_size_def)
  then obtain p h' where p: "alloc 100 h2_ex = Inr (Some p, h')"
    using alloc_grants [of h2_ex 100] h2_ex_wf by (auto simp: k_max_class_size_def)
  with alloc_no_overlap [of h2_ex 100 p h' 1] h2_ex_wf show ?thesis
    by (auto simp: k_max_class_size_def)
qed

theorem add_raw_buffer_grows_witness:
  "\<exists>h'. add_raw_buffer (new_Buffer 4096 0 7) (3 * k_max_class_size) h0_ex = Inr h' \<and>
     grown (region 4096 3) h0_ex h'"
  using add_raw_buffer_grows [of h0_ex 3 "new_Buffer 4096 0 7"] h0_ex_wf by simp

theorem add_raw_buffer_remainder_witness:
  "\<exists>h'. add_raw_buffer (new_Buffer 4096 0 7) (k_max_class_size + 4096) h0_ex = Inr h' \<and>
     alloc 4096 h' = Inl Assert_Failed"
  using add_raw_buffer_remainder [of h0_ex "k_max_class_size + 4096" "new_Buffer 4096 0 7"]
  by (simp add: h0_ex_def k_max_class_size_def)

end
