(* ===== verification/HugeAllocStats.thy ===== *)
theory HugeAllocStats
  imports HugeAlloc
begin

text \<open>
  The two statistics of the hugepage allocator: every operation keeps them multiples of the
  smallest class and of the page size, so the checks of their accessors never fail.
\<close>

definition stats_ok :: "HugeAlloc \<Rightarrow> bool" where
  "stats_ok h \<longleftrightarrow> 64 dvd unat (user_alloc_tot h) \<and> kHugepageSize dvd unat (shm_reserved h)"

lemma dvd_unat_arith:
  assumes "d dvd unat a" "d dvd n" "d dvd 2 ^ 64"
  shows "d dvd unat (a + of_nat n :: u64)" "d dvd unat (a - of_nat n :: u64)"
proof -
  have n: "d dvd unat (of_nat n :: u64)" using assms(2,3) by (simp add: unat_of_nat dvd_mod)
  show "d dvd unat (a + of_nat n)" using assms n unfolding unat_word_ariths by (simp add: dvd_mod)
  have "d dvd 2 ^ 64 - unat (of_nat n :: u64)" using n assms(3) by (rule dvd_diff_nat [rotated])
  then have "d dvd unat a + (2 ^ 64 - unat (of_nat n :: u64))" using assms(1) by simp
  moreover have "unat (of_nat n :: u64) < 2 ^ 64" using unsigned_less [of "of_nat n :: u64", where 'a = nat] by simp
  ultimately show "d dvd unat (a - of_nat n)"
    using assms(1) n by (simp only: unat_sub_if_size word_size) (simp add: dvd_diff_nat)
qed

lemma class_size_64: "64 dvd class_max_size c"
  by (simp add: class_max_size_def k_min_class_size_def)

lemma split_class_stats: "split_class c h = Inr h' \<Longrightarrow> user_alloc_tot h' = user_alloc_tot h \<and> shm_reserved h' = shm_reserved h"
  by (auto simp: split_class_def bind_run_eq_Inr Let_def)

lemma alloc_from_class_stats:
  assumes "alloc_from_class c h = Inr (p, h')" "stats_ok h"
  shows "stats_ok h'"
  using assms dvd_unat_arith(1) [of 64 "user_alloc_tot h" "class_max_size c"] class_size_64 [of c]
  by (auto simp: alloc_from_class_def bind_run_eq_Inr stats_ok_def Let_def split: if_splits)

lemma alloc_stats:
  assumes "alloc sz h = Inr (p, h')" "stats_ok h"
  shows "stats_ok h'"
proof -
  have "stats_ok h1" if "fold_run split_class cs h = Inr h1" for cs h1
    using that assms(2) by (rule fold_run_invariant) (auto simp: stats_ok_def dest: split_class_stats)
  from alloc_from_class_stats this show ?thesis
    using assms unfolding alloc_def by (auto simp: bind_run_eq_Inr split: if_splits option.splits simp del: fold_run.simps)
qed

lemma free_buf_stats:
  assumes "free_buf p h = Inr h'" "stats_ok h"
  shows "stats_ok h'"
proof -
  have "\<exists>c. user_alloc_tot h' = user_alloc_tot h - of_nat (class_max_size c) \<and> shm_reserved h' = shm_reserved h"
    using assms(1) by (auto simp: free_buf_def bind_run_eq_Inr) metis
  then obtain c where "user_alloc_tot h' = user_alloc_tot h - of_nat (class_max_size c)" "shm_reserved h' = shm_reserved h"
    by blast
  with assms(2) dvd_unat_arith(2) [of 64 "user_alloc_tot h" "class_max_size c"] class_size_64 [of c] show ?thesis
    by (simp add: stats_ok_def)
qed

lemma alloc_raw_stats:
  assumes "alloc_raw api sz r h = Some (Inr (b, h'))" "stats_ok h"
  shows "stats_ok h'"
proof -
  let ?n = "unat (round_up (of_nat kHugepageSize) (of_nat sz) :: u64)"
  obtain x where "shm_key_loop api ?n 0 = Some x" using assms(1) by (auto simp: alloc_raw_def Let_def split: option.splits)
  then have "h' = h \<or> (?n mod kHugepageSize = 0 \<and> user_alloc_tot h' = user_alloc_tot h \<and>
      shm_reserved h' = shm_reserved h + of_nat ?n)"
    using assms(1) by (auto simp only: alloc_raw_def Let_def option.case option.inject)
      (auto simp: bind_run_eq_Inr split: option.splits if_splits)
  moreover have "kHugepageSize dvd 2 ^ 64" by (simp add: kHugepageSize_def)
  ultimately show ?thesis
    using assms(2) dvd_unat_arith(1) [of kHugepageSize "shm_reserved h" ?n] by (auto simp: stats_ok_def mod_eq_0_iff_dvd)
qed

lemma stats_returned:
  assumes "stats_ok h"
  shows "get_stat_user_alloc_tot h = Inr (user_alloc_tot h)" "get_stat_shm_reserved h = Inr (shm_reserved h)"
proof -
  have "x mod of_nat d = 0" if "d dvd unat x" "d < 2 ^ 64" for x :: u64 and d
    using that by (intro word_unat_eq_iff [THEN iffD2]) (simp add: unat_mod unat_of_nat mod_eq_0_iff_dvd)
  from this [of 64] this [of kHugepageSize] assms
  show "get_stat_user_alloc_tot h = Inr (user_alloc_tot h)" "get_stat_shm_reserved h = Inr (shm_reserved h)"
    by (simp_all add: stats_ok_def get_stat_user_alloc_tot_def get_stat_shm_reserved_def k_min_class_size_def kHugepageSize_def)
qed

end
