(* ===== verification/SocQueue.thy ===== *)
theory SocQueue
  imports NiccTypes
begin

text \<open>
  The lock-free single-producer single-consumer ring of \<open>lib/common/soc_queue.h\<close>
  (\<open>soc_shm_lock_free_queue\<close>), its refinement to a bounded FIFO, the FIFO contract
  \<open>bounded_fifo\<close> with the facts its clients use, and the interleaved execution of one
  producer and one consumer.

  \<open>head_\<close> and \<open>tail_\<close> are \<open>size_t\<close> words; the slots hold \<open>uint8_t*\<close>, with \<open>None\<close> for the null
  pointer.
\<close>

unbundle bit_operations_syntax


definition kWsQueueSize :: nat where "kWsQueueSize = 1024"

definition mask_q :: u64 where "mask_q = of_nat (kWsQueueSize - 1)"

record soc_shm_lock_free_queue =
  queue_q :: "ptr list"
  head_q :: u64
  tail_q :: u64

definition new_soc_queue :: soc_shm_lock_free_queue where
  "new_soc_queue = \<lparr>queue_q = replicate kWsQueueSize None, head_q = 0, tail_q = 0\<rparr>"

definition enqueue :: "ptr \<Rightarrow> soc_shm_lock_free_queue \<Rightarrow> bool \<times> soc_shm_lock_free_queue" where
  "enqueue pkt q =
     (let next_tail = (tail_q q + 1) AND mask_q
      in if next_tail = head_q q then (False, q)
         else (True, q\<lparr>queue_q := (queue_q q)[unat (tail_q q) := pkt], tail_q := next_tail\<rparr>))"

definition dequeue :: "soc_shm_lock_free_queue \<Rightarrow> ptr \<times> soc_shm_lock_free_queue" where
  "dequeue q =
     (if head_q q = tail_q q then (None, q)
      else (queue_q q ! unat (head_q q), q\<lparr>head_q := (head_q q + 1) AND mask_q\<rparr>))"

definition reset_head :: "soc_shm_lock_free_queue \<Rightarrow> soc_shm_lock_free_queue" where
  "reset_head q = q\<lparr>head_q := 0\<rparr>"

definition reset_tail :: "soc_shm_lock_free_queue \<Rightarrow> soc_shm_lock_free_queue" where
  "reset_tail q = q\<lparr>tail_q := 0\<rparr>"

definition get_size :: "soc_shm_lock_free_queue \<Rightarrow> u64" where
  "get_size q = (tail_q q - head_q q) AND mask_q"

definition is_empty_q :: "soc_shm_lock_free_queue \<Rightarrow> bool" where
  "is_empty_q q \<longleftrightarrow> head_q q = tail_q q"

definition is_full_q :: "soc_shm_lock_free_queue \<Rightarrow> bool" where
  "is_full_q q \<longleftrightarrow> (tail_q q + 1) AND mask_q = head_q q"

subsection \<open>Masked indices\<close>

lemma mask_q_eq: "mask_q = mask 10"
  by (simp add: mask_q_def kWsQueueSize_def mask_eq_decr_exp)

lemma unat_and_mask_q: "unat (x AND mask_q) = unat x mod kWsQueueSize"
  by (simp only: mask_q_eq take_bit_eq_mask [symmetric] unsigned_take_bit_eq)
    (simp add: take_bit_eq_mod kWsQueueSize_def)

lemma unat_inc_mask_q [ring_simps]: "unat ((x + 1) AND mask_q) = (unat x + 1) mod kWsQueueSize"
proof -
  have "unat (x + 1) mod kWsQueueSize = (unat x + 1) mod 2 ^ 64 mod kWsQueueSize"
    by (simp add: unat_word_ariths)
  also have "\<dots> = (unat x + 1) mod kWsQueueSize"
    by (rule mod_mod_cancel) (simp add: kWsQueueSize_def)
  finally show ?thesis by (simp add: unat_and_mask_q)
qed

lemma ring_distance:
  "h < n \<Longrightarrow> t < n \<Longrightarrow> (t + n - h) mod n = (if h \<le> t then t - h else t + n - (h::nat))"
  by (auto simp: mod_if le_mod_geq)

lemma unat_diff_mask_q [ring_simps]:
  assumes "unat h < kWsQueueSize" "unat t < kWsQueueSize"
  shows "unat ((t - h) AND mask_q) = (unat t + kWsQueueSize - unat h) mod kWsQueueSize"
proof (cases "unat h \<le> unat t")
  case True
  with assms show ?thesis by (simp add: unat_and_mask_q unat_sub_if' ring_distance)
next
  case False
  let ?k = "unat t + kWsQueueSize - unat h"
  have "unat (t - h) = ?k + kWsQueueSize * (2 ^ 54 - 1)"
    using False assms by (simp add: unat_sub_if' kWsQueueSize_def)
  then have "unat (t - h) mod kWsQueueSize = ?k mod kWsQueueSize" by (metis mod_mult_self2)
  then show ?thesis by (simp add: unat_and_mask_q)
qed

subsection \<open>Refinement to a bounded FIFO\<close>

definition queue_wf :: "soc_shm_lock_free_queue \<Rightarrow> bool" where
  "queue_wf q \<longleftrightarrow> length (queue_q q) = kWsQueueSize \<and>
     unat (head_q q) < kWsQueueSize \<and> unat (tail_q q) < kWsQueueSize"

definition queue_count :: "soc_shm_lock_free_queue \<Rightarrow> nat" where
  "queue_count q = (unat (tail_q q) + kWsQueueSize - unat (head_q q)) mod kWsQueueSize"

definition queue_abs :: "soc_shm_lock_free_queue \<Rightarrow> ptr list" where
  "queue_abs q = ring_slice kWsQueueSize (unat (head_q q)) (queue_count q) (\<lambda>i. queue_q q ! i)"

definition queue_cap :: nat where "queue_cap = kWsQueueSize - 1"

lemma length_queue_abs [simp]: "length (queue_abs q) = queue_count q"
  by (simp add: queue_abs_def)

lemma queue_count_dist:
  assumes "queue_wf q"
  shows "queue_count q = (if unat (head_q q) \<le> unat (tail_q q) then unat (tail_q q) - unat (head_q q)
     else unat (tail_q q) + kWsQueueSize - unat (head_q q))"
  unfolding queue_count_def using assms by (intro ring_distance) (auto simp: queue_wf_def)

lemma queue_count_le: "queue_wf q \<Longrightarrow> queue_count q \<le> queue_cap"
  by (auto simp: queue_count_dist queue_wf_def queue_cap_def)

lemma count_zero_iff: "queue_wf q \<Longrightarrow> queue_count q = 0 \<longleftrightarrow> head_q q = tail_q q"
  by (auto simp: queue_count_dist queue_wf_def word_unat_eq_iff)

lemma inc_mod: "i < n \<Longrightarrow> (i + 1) mod n = (if i + 1 = n then 0 else i + (1::nat))"
  by simp

lemma count_full_iff:
  "queue_wf q \<Longrightarrow> queue_count q = queue_cap \<longleftrightarrow> (tail_q q + 1) AND mask_q = head_q q"
  by (auto simp: queue_count_dist queue_wf_def word_unat_eq_iff ring_simps queue_cap_def inc_mod
      simp del: One_nat_def)

lemma tail_index: "queue_wf q \<Longrightarrow> (unat (head_q q) + queue_count q) mod kWsQueueSize = unat (tail_q q)"
  by (auto simp: queue_count_dist queue_wf_def)

text \<open>Moving the tail one step adds a slot at the end; moving the head drops the first one.\<close>

lemma count_tail_step:
  assumes "queue_wf q" "queue_count q \<noteq> queue_cap"
  shows "queue_count (q\<lparr>queue_q := xs, tail_q := (tail_q q + 1) AND mask_q\<rparr>) = Suc (queue_count q)"
  using assms
  by (auto simp: queue_count_dist queue_count_def [of "tail_q_update _ _"] ring_simps ring_distance
      queue_wf_def queue_cap_def mod_Suc)

lemma count_head_step:
  assumes "queue_wf q" "queue_count q \<noteq> 0"
  shows "queue_count q = Suc (queue_count (q\<lparr>head_q := (head_q q + 1) AND mask_q\<rparr>))"
  using assms
  by (auto simp: queue_count_dist queue_count_def [of "head_q_update _ _"] ring_simps ring_distance
      queue_wf_def mod_Suc split: if_splits)

definition store_tail :: "ptr \<Rightarrow> soc_shm_lock_free_queue \<Rightarrow> soc_shm_lock_free_queue" where
  "store_tail p q = q\<lparr>queue_q := (queue_q q)[unat (tail_q q) := p]\<rparr>"

definition step_tail :: "soc_shm_lock_free_queue \<Rightarrow> soc_shm_lock_free_queue" where
  "step_tail q = q\<lparr>tail_q := (tail_q q + 1) AND mask_q\<rparr>"

definition step_head :: "soc_shm_lock_free_queue \<Rightarrow> soc_shm_lock_free_queue" where
  "step_head q = q\<lparr>head_q := (head_q q + 1) AND mask_q\<rparr>"

lemma store_tail_fields [simp]:
  "head_q (store_tail p q) = head_q q" "tail_q (store_tail p q) = tail_q q"
  "queue_count (store_tail p q) = queue_count q"
  by (simp_all add: store_tail_def queue_count_def)

lemma store_tail_abs:
  assumes "queue_wf q"
  shows "queue_wf (store_tail p q)" and "queue_abs (store_tail p q) = queue_abs q"
    and "queue_q (store_tail p q) ! unat (tail_q q) = p"
proof -
  show "queue_wf (store_tail p q)" "queue_q (store_tail p q) ! unat (tail_q q) = p"
    using assms by (simp_all add: queue_wf_def store_tail_def)
  have c: "queue_count q < kWsQueueSize"
    using queue_count_le [OF assms] by (simp add: queue_cap_def kWsQueueSize_def)
  have "unat (tail_q q) \<noteq> (unat (head_q q) + i) mod kWsQueueSize" if "i < queue_count q" for i
    using that c tail_index [OF assms] mod_add_inj [of i kWsQueueSize "queue_count q" "unat (head_q q)"]
    by auto
  then show "queue_abs (store_tail p q) = queue_abs q"
    unfolding queue_abs_def store_tail_fields by (intro ring_slice_cong) (simp add: store_tail_def)
qed

lemma step_tail_abs:
  assumes "queue_wf q" "queue_count q \<noteq> queue_cap"
  shows "queue_wf (step_tail q)" and "queue_abs (step_tail q) = queue_abs q @ [queue_q q ! unat (tail_q q)]"
proof -
  show "queue_wf (step_tail q)" using assms(1) by (simp add: step_tail_def queue_wf_def ring_simps)
  have "queue_count (step_tail q) = Suc (queue_count q)"
    using count_tail_step [OF assms, of "queue_q q"] by (simp add: step_tail_def)
  then show "queue_abs (step_tail q) = queue_abs q @ [queue_q q ! unat (tail_q q)]"
    by (simp add: queue_abs_def ring_slice_Suc) (simp add: step_tail_def tail_index [OF assms(1)])
qed

lemma step_head_abs:
  assumes "queue_wf q" "queue_count q \<noteq> 0"
  shows "queue_wf (step_head q)" and "queue_abs q = (queue_q q ! unat (head_q q)) # queue_abs (step_head q)"
proof -
  show "queue_wf (step_head q)" using assms(1) by (simp add: step_head_def queue_wf_def ring_simps)
  have c: "queue_count q = Suc (queue_count (step_head q))"
    unfolding step_head_def using assms by (rule count_head_step)
  have h: "unat (head_q q) mod kWsQueueSize = unat (head_q q)"
    using assms(1) by (simp add: queue_wf_def)
  show "queue_abs q = (queue_q q ! unat (head_q q)) # queue_abs (step_head q)"
    unfolding queue_abs_def c ring_slice_Cons h by (simp add: step_head_def ring_simps)
qed

lemma enqueue_eq:
  "queue_wf q \<Longrightarrow> enqueue p q =
     (if queue_count q = queue_cap then (False, q) else (True, step_tail (store_tail p q)))"
  by (simp add: enqueue_def Let_def count_full_iff step_tail_def store_tail_def)

lemma dequeue_eq:
  "queue_wf q \<Longrightarrow> dequeue q =
     (if queue_count q = 0 then (None, q) else (hd (queue_abs q), step_head q))"
  using step_head_abs(2) [of q] by (simp add: dequeue_def count_zero_iff step_head_def)

subsection \<open>The FIFO contract\<close>

text \<open>A sequence of inserts (a full queue refuses), and a sequence of removals.\<close>

fun enq_seq :: "('a \<Rightarrow> 'q \<Rightarrow> bool \<times> 'q) \<Rightarrow> 'a list \<Rightarrow> 'q \<Rightarrow> bool list \<times> 'q" where
  "enq_seq enq [] q = ([], q)"
| "enq_seq enq (x # xs) q =
     (let (b, q') = enq x q; (bs, q'') = enq_seq enq xs q' in (b # bs, q''))"

fun deq_seq :: "('q \<Rightarrow> 'a \<times> 'q) \<Rightarrow> nat \<Rightarrow> 'q \<Rightarrow> 'a list \<times> 'q" where
  "deq_seq deq 0 q = ([], q)"
| "deq_seq deq (Suc n) q = (let (x, q') = deq q; (xs, q'') = deq_seq deq n q' in (x # xs, q''))"

locale bounded_fifo =
  fixes enq :: "'a \<Rightarrow> 'q \<Rightarrow> bool \<times> 'q"
    and deq :: "'q \<Rightarrow> 'a \<times> 'q"
    and ok :: "'q \<Rightarrow> bool"
    and items :: "'q \<Rightarrow> 'a list"
    and cap :: nat
    and null :: 'a
  assumes enq_room: "ok q \<Longrightarrow> length (items q) < cap \<Longrightarrow>
      \<exists>q'. enq x q = (True, q') \<and> ok q' \<and> items q' = items q @ [x]"
    and enq_full: "ok q \<Longrightarrow> \<not> length (items q) < cap \<Longrightarrow> enq x q = (False, q)"
    and deq_some: "ok q \<Longrightarrow> items q \<noteq> [] \<Longrightarrow>
      \<exists>q'. deq q = (hd (items q), q') \<and> ok q' \<and> items q' = tl (items q)"
    and deq_none: "ok q \<Longrightarrow> items q = [] \<Longrightarrow> deq q = (null, q)"
    and bounded: "ok q \<Longrightarrow> length (items q) \<le> cap"
begin

lemma enq_seq_items:
  assumes "ok q"
  shows "\<exists>q'. enq_seq enq xs q =
      (replicate (min (length xs) (cap - length (items q))) True @
       replicate (length xs - (cap - length (items q))) False, q') \<and>
    ok q' \<and> items q' = items q @ take (cap - length (items q)) xs"
  using assms
proof (induction xs arbitrary: q)
  case Nil
  then show ?case by simp
next
  case (Cons x xs)
  show ?case
  proof (cases "length (items q) < cap")
    case True
    then obtain q1 where q1: "enq x q = (True, q1)" "ok q1" "items q1 = items q @ [x]"
      using enq_room [OF Cons.prems] by blast
    obtain k where k: "cap - length (items q) = Suc k" "cap - length (items q1) = k"
      using True q1(3) by (metis Suc_diff_Suc Suc_eq_plus1 length_append_singleton)
    show ?thesis using Cons.IH [OF q1(2)] q1 k by auto
  next
    case False
    then have "enq x q = (False, q)" "cap - length (items q) = 0"
      using enq_full [OF Cons.prems] by simp_all
    then show ?thesis using Cons.IH [OF Cons.prems] by auto
  qed
qed

lemma deq_seq_items:
  assumes "ok q" "n \<le> length (items q)"
  shows "\<exists>q'. deq_seq deq n q = (take n (items q), q') \<and> ok q' \<and> items q' = drop n (items q)"
  using assms
proof (induction n arbitrary: q)
  case 0
  then show ?case by simp
next
  case (Suc n)
  then have ne: "items q \<noteq> []" by auto
  then obtain q1 where q1: "deq q = (hd (items q), q1)" "ok q1" "items q1 = tl (items q)"
    using deq_some [OF Suc.prems(1)] by blast
  then obtain q2 where "deq_seq deq n q1 = (take n (items q1), q2)" "ok q2" "items q2 = drop n (items q1)"
    using Suc.IH [OF q1(2)] Suc.prems(2) by (metis Suc_le_D diff_Suc_1 length_tl not_less_eq_eq)
  with q1 ne show ?case by (auto simp: take_Suc drop_Suc)
qed

text \<open>What goes in while there is room comes out in the same order.\<close>

lemma enq_deq_order:
  assumes "ok q" "items q = []" "length xs \<le> cap"
  shows "\<exists>q1 q2. enq_seq enq xs q = (replicate (length xs) True, q1) \<and>
    deq_seq deq (length xs) q1 = (xs, q2) \<and> ok q2 \<and> items q2 = []"
proof -
  obtain q1 where q1: "enq_seq enq xs q = (replicate (length xs) True, q1)" "ok q1" "items q1 = xs"
    using enq_seq_items [OF assms(1), of xs] assms(2,3) by auto
  with deq_seq_items [OF q1(2), of "length xs"] show ?thesis by auto
qed

end

interpretation sq: bounded_fifo enqueue dequeue queue_wf queue_abs queue_cap None
proof unfold_locales
  fix q :: soc_shm_lock_free_queue and x
  assume wf: "queue_wf q"
  show "\<exists>q'. enqueue x q = (True, q') \<and> queue_wf q' \<and> queue_abs q' = queue_abs q @ [x]"
    if "length (queue_abs q) < queue_cap"
    using that wf store_tail_abs [OF wf, of x] step_tail_abs [of "store_tail x q"]
    by (simp add: enqueue_eq)
  show "enqueue x q = (False, q)" if "\<not> length (queue_abs q) < queue_cap"
    using that queue_count_le [OF wf] by (simp add: enqueue_eq [OF wf])
  show "\<exists>q'. dequeue q = (hd (queue_abs q), q') \<and> queue_wf q' \<and> queue_abs q' = tl (queue_abs q)"
    if "queue_abs q \<noteq> []"
    using that step_head_abs [OF wf] by (auto simp: dequeue_eq [OF wf] simp flip: length_0_conv)
  show "dequeue q = (None, q)" if "queue_abs q = []"
    using that by (auto simp: dequeue_eq [OF wf] simp flip: length_0_conv)
  show "length (queue_abs q) \<le> queue_cap"
    using queue_count_le [OF wf] by simp
qed

lemma new_soc_queue_wf: "queue_wf new_soc_queue \<and> queue_abs new_soc_queue = []"
  by (simp add: new_soc_queue_def queue_wf_def queue_abs_def queue_count_def kWsQueueSize_def)

lemma get_size_count: "queue_wf q \<Longrightarrow> unat (get_size q) = queue_count q"
  by (simp add: get_size_def ring_simps queue_count_def queue_wf_def)

subsection \<open>One producer and one consumer, interleaved\<close>

text \<open>
  The memory accesses of \<open>enqueue\<close> and \<open>dequeue\<close> in program order: the producer reads \<open>head_\<close>
  and decides, stores the slot, then publishes \<open>tail_\<close>; the consumer reads \<open>tail_\<close> and decides,
  reads the slot, then publishes \<open>head_\<close>. A step is one access to memory that the other side may
  write (each side also reads its own index, which only it writes); the ghost lists \<open>sp_in\<close> and
  \<open>sp_out\<close> record what \<open>enqueue\<close> accepted and what \<open>dequeue\<close> returned. Memory is sequentially
  consistent here; the source relies on \<open>volatile\<close>, without fences.
\<close>

datatype producer_pc = P_Idle | P_Checked ptr u64 | P_Stored ptr u64
datatype consumer_pc = C_Idle | C_Checked | C_Read ptr

record spsc =
  sp_q :: soc_shm_lock_free_queue
  sp_prod :: producer_pc
  sp_cons :: consumer_pc
  sp_in :: "ptr list"
  sp_out :: "ptr list"

inductive spsc_step :: "spsc \<Rightarrow> spsc \<Rightarrow> bool" where
  p_check: "sp_prod s = P_Idle \<Longrightarrow> n = (tail_q (sp_q s) + 1) AND mask_q \<Longrightarrow> n \<noteq> head_q (sp_q s) \<Longrightarrow>
     spsc_step s (s\<lparr>sp_prod := P_Checked p n\<rparr>)"
| p_store: "sp_prod s = P_Checked p n \<Longrightarrow>
     spsc_step s (s\<lparr>sp_q := (sp_q s)\<lparr>queue_q := (queue_q (sp_q s))[unat (tail_q (sp_q s)) := p]\<rparr>,
                   sp_prod := P_Stored p n\<rparr>)"
| p_publish: "sp_prod s = P_Stored p n \<Longrightarrow>
     spsc_step s (s\<lparr>sp_q := (sp_q s)\<lparr>tail_q := n\<rparr>, sp_prod := P_Idle, sp_in := sp_in s @ [p]\<rparr>)"
| c_check: "sp_cons s = C_Idle \<Longrightarrow> head_q (sp_q s) \<noteq> tail_q (sp_q s) \<Longrightarrow>
     spsc_step s (s\<lparr>sp_cons := C_Checked\<rparr>)"
| c_read: "sp_cons s = C_Checked \<Longrightarrow>
     spsc_step s (s\<lparr>sp_cons := C_Read (queue_q (sp_q s) ! unat (head_q (sp_q s)))\<rparr>)"
| c_publish: "sp_cons s = C_Read x \<Longrightarrow>
     spsc_step s (s\<lparr>sp_q := (sp_q s)\<lparr>head_q := (head_q (sp_q s) + 1) AND mask_q\<rparr>,
                   sp_cons := C_Idle, sp_out := sp_out s @ [x]\<rparr>)"

definition spsc_init :: spsc where
  "spsc_init = \<lparr>sp_q = new_soc_queue, sp_prod = P_Idle, sp_cons = C_Idle, sp_in = [], sp_out = []\<rparr>"

definition spsc_reachable :: "spsc \<Rightarrow> bool" where
  "spsc_reachable s \<longleftrightarrow> spsc_step\<^sup>*\<^sup>* spsc_init s"

definition producer_ok :: "spsc \<Rightarrow> bool" where
  "producer_ok s \<longleftrightarrow> (case sp_prod s of P_Idle \<Rightarrow> True
     | P_Checked p n \<Rightarrow> n = (tail_q (sp_q s) + 1) AND mask_q \<and> queue_count (sp_q s) \<noteq> queue_cap
     | P_Stored p n \<Rightarrow> n = (tail_q (sp_q s) + 1) AND mask_q \<and> queue_count (sp_q s) \<noteq> queue_cap \<and>
         queue_q (sp_q s) ! unat (tail_q (sp_q s)) = p)"

definition consumer_ok :: "spsc \<Rightarrow> bool" where
  "consumer_ok s \<longleftrightarrow> (case sp_cons s of C_Idle \<Rightarrow> True
     | C_Checked \<Rightarrow> queue_count (sp_q s) \<noteq> 0
     | C_Read x \<Rightarrow> queue_count (sp_q s) \<noteq> 0 \<and> x = hd (queue_abs (sp_q s)))"

definition spsc_inv :: "spsc \<Rightarrow> bool" where
  "spsc_inv s \<longleftrightarrow> queue_wf (sp_q s) \<and> producer_ok s \<and> consumer_ok s \<and>
     sp_in s = sp_out s @ queue_abs (sp_q s)"

lemmas spsc_defs = spsc_inv_def producer_ok_def consumer_ok_def

lemma hd_append_count: "queue_count q \<noteq> 0 \<Longrightarrow> hd (queue_abs q @ xs) = hd (queue_abs q)"
  by (cases "queue_abs q") (simp_all flip: length_queue_abs)

lemma spsc_step_inv:
  assumes "spsc_step s t" "spsc_inv s"
  shows "spsc_inv t"
  using assms
proof (cases rule: spsc_step.cases)
  case (p_check n p)
  then show ?thesis using assms(2) count_full_iff [of "sp_q s"]
    by (auto simp: spsc_defs split: consumer_pc.splits)
next
  case (p_store p n)
  let ?q = "store_tail p (sp_q s)"
  have wf: "queue_wf (sp_q s)" using assms(2) by (simp add: spsc_inv_def)
  have t: "t = s\<lparr>sp_q := ?q, sp_prod := P_Stored p n\<rparr>"
    using p_store by (simp add: store_tail_def)
  show ?thesis using assms(2) p_store(2) store_tail_abs [OF wf, of p]
    unfolding t by (auto simp: spsc_defs split: consumer_pc.splits)
next
  case (p_publish p n)
  let ?q = "step_tail (sp_q s)"
  have wf: "queue_wf (sp_q s)" and nf: "queue_count (sp_q s) \<noteq> queue_cap"
    using assms(2) p_publish(2) by (simp_all add: spsc_defs)
  have t: "t = s\<lparr>sp_q := ?q, sp_prod := P_Idle, sp_in := sp_in s @ [p]\<rparr>"
    using assms(2) p_publish by (simp add: step_tail_def spsc_defs)
  have "queue_count ?q = Suc (queue_count (sp_q s))"
    using step_tail_abs(2) [OF wf nf] by (simp flip: length_queue_abs)
  then show ?thesis using assms(2) p_publish(2) step_tail_abs [OF wf nf]
    unfolding t by (auto simp: spsc_defs hd_append_count split: consumer_pc.splits)
next
  case c_check
  have wf: "queue_wf (sp_q s)" using assms(2) by (simp add: spsc_inv_def)
  then have "queue_count (sp_q s) \<noteq> 0" using c_check count_zero_iff by blast
  then show ?thesis using assms(2) c_check
    by (auto simp: spsc_defs split: producer_pc.splits)
next
  case c_read
  have wf: "queue_wf (sp_q s)" and "queue_count (sp_q s) \<noteq> 0" using assms(2) c_read by (simp_all add: spsc_defs)
  then show ?thesis using assms(2) c_read step_head_abs(2) [OF wf]
    by (auto simp: spsc_defs split: producer_pc.splits)
next
  case (c_publish x)
  let ?q = "step_head (sp_q s)"
  have wf: "queue_wf (sp_q s)" and ne: "queue_count (sp_q s) \<noteq> 0"
    using assms(2) c_publish(2) by (simp_all add: spsc_defs)
  have t: "t = s\<lparr>sp_q := ?q, sp_cons := C_Idle, sp_out := sp_out s @ [x]\<rparr>"
    using c_publish by (simp add: step_head_def)
  note h = step_head_abs [OF wf ne]
  have "queue_count (sp_q s) = Suc (queue_count ?q)"
    using h(2) by (metis length_Cons length_queue_abs)
  then have "queue_count ?q \<noteq> queue_cap" using queue_count_le [OF wf] by simp
  moreover have "queue_q ?q = queue_q (sp_q s)" "tail_q ?q = tail_q (sp_q s)"
    by (simp_all add: step_head_def)
  ultimately show ?thesis using assms(2) c_publish(2) h
    unfolding t by (auto simp: spsc_defs split: producer_pc.splits)
qed

lemma spsc_reachable_inv: "spsc_reachable s \<Longrightarrow> spsc_inv s"
  unfolding spsc_reachable_def
proof (induction rule: rtranclp_induct)
  case base
  show ?case using new_soc_queue_wf by (simp add: spsc_defs spsc_init_def)
next
  case (step s t)
  then show ?case using spsc_step_inv by blast
qed

subsection \<open>Properties of the queue\<close>

text \<open>
  C17. \<open>enqueue\<close> and \<open>dequeue\<close> refine a bounded FIFO: on the list of queued pointers, \<open>enqueue\<close>
  appends while fewer than 1023 are queued and refuses, unchanged, otherwise; \<open>dequeue\<close> takes
  the first pointer, and returns null, unchanged, on an empty queue; \<open>get_size\<close>, \<open>is_empty\<close> and
  \<open>is_full\<close> answer for the same list.
\<close>

theorem soc_queue_refines_fifo:
  assumes "queue_wf q"
  shows "(if length (queue_abs q) < 1023
      then \<exists>q'. enqueue p q = (True, q') \<and> queue_wf q' \<and> queue_abs q' = queue_abs q @ [p]
      else enqueue p q = (False, q)) \<and>
    (case queue_abs q of [] \<Rightarrow> dequeue q = (None, q)
      | x # xs \<Rightarrow> \<exists>q'. dequeue q = (x, q') \<and> queue_wf q' \<and> queue_abs q' = xs) \<and>
    unat (get_size q) = length (queue_abs q) \<and>
    is_empty_q q = (queue_abs q = []) \<and> is_full_q q = (length (queue_abs q) = 1023)"
proof -
  have cap: "queue_cap = 1023" by (simp add: queue_cap_def kWsQueueSize_def)
  have "is_empty_q q = (queue_abs q = [])"
    using count_zero_iff [OF assms] by (auto simp: is_empty_q_def simp flip: length_0_conv)
  moreover have "is_full_q q = (length (queue_abs q) = 1023)"
    using count_full_iff [OF assms] cap by (simp add: is_full_q_def)
  moreover have "case queue_abs q of [] \<Rightarrow> dequeue q = (None, q)
      | x # xs \<Rightarrow> \<exists>q'. dequeue q = (x, q') \<and> queue_wf q' \<and> queue_abs q' = xs"
    using sq.deq_some [OF assms] sq.deq_none [OF assms] by (auto split: list.split)
  ultimately show ?thesis
    using sq.enq_room [OF assms] sq.enq_full [OF assms] get_size_count [OF assms]
    unfolding cap by simp
qed

text \<open>
  A batch of at most 1023 pointers put into an empty queue comes out complete and in order.
\<close>

lemma soc_queue_batch_order:
  assumes "queue_wf q" and "queue_abs q = []" and "length xs \<le> 1023"
  shows "\<exists>q1 q2. enq_seq enqueue xs q = (replicate (length xs) True, q1) \<and>
    deq_seq dequeue (length xs) q1 = (xs, q2) \<and> queue_wf q2 \<and> queue_abs q2 = []"
  using assms by (intro sq.enq_deq_order) (simp_all add: queue_cap_def kWsQueueSize_def)

text \<open>
  C18. With one producer and one consumer interleaved access by access, what \<open>dequeue\<close> has returned
  is always a prefix of what \<open>enqueue\<close> has accepted, and the difference, at most 1023 pointers,
  is what the ring holds: no pointer is lost, duplicated, reordered or read before its store. What
  a consumer finds after its check is still there when it reads the slot, and what it has read is
  the next pointer in order.
\<close>

theorem spsc_fifo:
  assumes "spsc_reachable s"
  shows "sp_in s = sp_out s @ queue_abs (sp_q s) \<and> length (queue_abs (sp_q s)) \<le> 1023 \<and>
    (case sp_cons s of C_Idle \<Rightarrow> True | C_Checked \<Rightarrow> sp_in s \<noteq> sp_out s
     | C_Read x \<Rightarrow> \<exists>xs. sp_in s = sp_out s @ x # xs)"
proof -
  have inv: "spsc_inv s" by (rule spsc_reachable_inv [OF assms])
  have "\<exists>xs. sp_in s = sp_out s @ x # xs" if "sp_cons s = C_Read x" for x
    using inv that by (cases "queue_abs (sp_q s)")
      (auto simp: spsc_defs simp flip: length_queue_abs)
  moreover have "sp_in s \<noteq> sp_out s" if "sp_cons s = C_Checked"
    using inv that by (auto simp: spsc_defs simp flip: length_queue_abs)
  ultimately show ?thesis using inv queue_count_le [of "sp_q s"]
    by (auto simp: spsc_inv_def queue_cap_def kWsQueueSize_def split: consumer_pc.split)
qed

subsection \<open>Witnesses of the queue\<close>

theorem soc_queue_refines_fifo_witness:
  "\<exists>q'. enqueue (Some 7) new_soc_queue = (True, q') \<and> queue_wf q' \<and> queue_abs q' = [Some 7]"
  using soc_queue_refines_fifo [of new_soc_queue "Some 7"] new_soc_queue_wf by simp

text \<open>One pointer put in, and read by the consumer, which has not moved its head yet.\<close>

definition spsc_ex :: spsc where
  "spsc_ex = \<lparr>sp_q = new_soc_queue\<lparr>queue_q := (queue_q new_soc_queue)[0 := Some 5], tail_q := 1\<rparr>,
     sp_prod = P_Idle, sp_cons = C_Read (Some 5), sp_in = [Some 5], sp_out = []\<rparr>"

lemma spsc_ex_reachable: "spsc_reachable spsc_ex"
proof -
  let ?s1 = "spsc_init\<lparr>sp_prod := P_Checked (Some 5) 1\<rparr>"
  let ?s2 = "?s1\<lparr>sp_q := (sp_q ?s1)\<lparr>queue_q := (queue_q (sp_q ?s1))[unat (tail_q (sp_q ?s1)) := Some 5]\<rparr>, sp_prod := P_Stored (Some 5) 1\<rparr>"
  let ?s3 = "?s2\<lparr>sp_q := (sp_q ?s2)\<lparr>tail_q := 1\<rparr>, sp_prod := P_Idle, sp_in := sp_in ?s2 @ [Some 5]\<rparr>"
  let ?s4 = "?s3\<lparr>sp_cons := C_Checked\<rparr>"
  let ?s5 = "?s4\<lparr>sp_cons := C_Read (queue_q (sp_q ?s4) ! unat (head_q (sp_q ?s4)))\<rparr>"
  have "(0 + 1 :: u64) AND mask_q = 1" by (simp add: mask_q_def kWsQueueSize_def)
  then have "spsc_step spsc_init ?s1" by (intro p_check) (simp_all add: spsc_init_def new_soc_queue_def)
  moreover have "spsc_step ?s1 ?s2" by (rule p_store) simp
  moreover have "spsc_step ?s2 ?s3" by (rule p_publish) simp
  moreover have "spsc_step ?s3 ?s4" by (rule c_check) (simp_all add: spsc_init_def new_soc_queue_def)
  moreover have "spsc_step ?s4 ?s5" by (rule c_read) simp
  ultimately have "spsc_reachable ?s5"
    unfolding spsc_reachable_def by (meson converse_rtranclp_into_rtranclp rtranclp.rtrancl_refl)
  moreover have "?s5 = spsc_ex" by (simp add: spsc_ex_def spsc_init_def new_soc_queue_def kWsQueueSize_def)
  ultimately show ?thesis by simp
qed

theorem spsc_fifo_witness:
  "sp_in spsc_ex = sp_out spsc_ex @ queue_abs (sp_q spsc_ex) \<and> length (queue_abs (sp_q spsc_ex)) \<le> 1023 \<and>
   (\<exists>xs. sp_in spsc_ex = sp_out spsc_ex @ Some 5 # xs)"
proof -
  have c: "sp_cons spsc_ex = C_Read (Some 5)" by (simp add: spsc_ex_def)
  show ?thesis using spsc_fifo [OF spsc_ex_reachable] unfolding c consumer_pc.case by blast
qed

end
