(* ===== verification/Doubles.thy ===== *)
theory Doubles
  imports MathUtils Complex_Main
begin

text \<open>
  Double precision arithmetic, and the two helpers of \<open>lib/common/math_utils.h\<close> that use it.
  A \<open>double\<close> is a real number and every operation rounds its exact result with \<open>rnd\<close>, a
  parameter for the rounding of IEEE 754; infinities and NaN do not occur in the code modelled
  here. Integers up to \<open>2^53\<close> are exact, so their conversions and literals are not rounded.
\<close>

text \<open>What IEEE 754 promises of a rounding to nearest on the normal range.\<close>

definition ieee_round :: "(real \<Rightarrow> real) \<Rightarrow> bool" where
  "ieee_round rnd \<longleftrightarrow> mono rnd \<and> (\<forall>n :: int. \<bar>n\<bar> \<le> 2 ^ 53 \<longrightarrow> rnd (of_int n) = of_int n) \<and>
     (\<forall>x. rnd x = x \<longrightarrow> rnd (of_int \<lfloor>x\<rfloor>) = of_int \<lfloor>x\<rfloor>) \<and>
     (\<forall>x. 2 powr - 1022 \<le> \<bar>x\<bar> \<longrightarrow> \<bar>rnd x - x\<bar> \<le> \<bar>x\<bar> / 2 ^ 53)"

lemma ieee_round_id: "ieee_round (\<lambda>x. x)"
  by (simp add: ieee_round_def mono_def)

lemma round_mono: "ieee_round rnd \<Longrightarrow> x \<le> y \<Longrightarrow> rnd x \<le> rnd y"
  by (simp add: ieee_round_def mono_def)

lemma round_int: "ieee_round rnd \<Longrightarrow> \<bar>n\<bar> \<le> 2 ^ 53 \<Longrightarrow> rnd (of_int n) = of_int n"
  by (simp add: ieee_round_def)

lemma round_floor: "ieee_round rnd \<Longrightarrow> rnd x = x \<Longrightarrow> rnd (of_int \<lfloor>x\<rfloor>) = of_int \<lfloor>x\<rfloor>"
  by (simp add: ieee_round_def)

lemma round_below:
  assumes "ieee_round rnd" "1 \<le> x"
  shows "x * (1 - 1 / 2 ^ 53) \<le> rnd x"
proof -
  have "2 powr - 1022 \<le> (2 :: real) powr 0" by (rule powr_mono) simp_all
  then have "2 powr - 1022 \<le> \<bar>x\<bar>" using assms(2) by simp
  have "\<forall>x. 2 powr - 1022 \<le> \<bar>x\<bar> \<longrightarrow> \<bar>rnd x - x\<bar> \<le> \<bar>x\<bar> / 2 ^ 53"
    using assms(1) unfolding ieee_round_def by (elim conjE)
  from spec [OF this, of x] \<open>2 powr - 1022 \<le> \<bar>x\<bar>\<close> assms(2) have "\<bar>rnd x - x\<bar> \<le> x / 2 ^ 53" by simp
  then have "x - x / 2 ^ 53 \<le> rnd x" by linarith
  then show ?thesis by (simp add: right_diff_distrib)
qed

text \<open>\<open>static_cast<size_t>\<close> of a double, which drops the fraction, and the conversion back.\<close>

definition size_of_double :: "real \<Rightarrow> u64" where
  "size_of_double x = word_of_int (if 0 \<le> x then \<lfloor>x\<rfloor> else \<lceil>x\<rceil>)"

definition double_of_size :: "(real \<Rightarrow> real) \<Rightarrow> u64 \<Rightarrow> real" where
  "double_of_size rnd n = rnd (of_nat (unat n))"

lemma unat_size_of_double:
  assumes "0 \<le> x" "x < 2 ^ 64"
  shows "unat (size_of_double x) = nat \<lfloor>x\<rfloor>"
proof -
  have "0 \<le> \<lfloor>x\<rfloor>" "\<lfloor>x\<rfloor> < 2 ^ 64" using assms by (simp_all add: floor_less_iff)
  then have "uint (word_of_int \<lfloor>x\<rfloor> :: u64) = \<lfloor>x\<rfloor>" by (simp add: uint_word_of_int_eq take_bit_int_eq_self)
  then show ?thesis using assms(1) by (simp add: size_of_double_def unat_eq_nat_uint)
qed

lemma size_of_double_range:
  assumes "of_nat a \<le> x" "x \<le> of_nat b" "b < 2 ^ 64"
  shows "a \<le> unat (size_of_double x)" "unat (size_of_double x) \<le> b"
proof -
  have "real b < real (2 ^ 64)" using assms(3) by (simp only: of_nat_less_iff)
  then have "0 \<le> x" "x < 2 ^ 64" using assms(1,2) by simp_all
  moreover have "int a \<le> \<lfloor>x\<rfloor>" "\<lfloor>x\<rfloor> \<le> int b" using assms(1,2) by (simp_all add: le_floor_iff floor_le_iff)
  ultimately show "a \<le> unat (size_of_double x)" "unat (size_of_double x) \<le> b"
    by (simp_all add: unat_size_of_double)
qed

text \<open>The \<open>constexpr\<close> \<open>ceil\<close>.\<close>

definition ceil :: "(real \<Rightarrow> real) \<Rightarrow> real \<Rightarrow> u64" where
  "ceil rnd num = (if double_of_size rnd (size_of_double num) = num then size_of_double num
     else size_of_double num + (if num > 0 then 1 else 0))"

lemma ceil_correct:
  assumes "ieee_round rnd" "rnd x = x" "0 \<le> x" "x < 2 ^ 64 - 1"
  shows "unat (ceil rnd x) = nat \<lceil>x\<rceil>"
proof -
  have u: "unat (size_of_double x) = nat \<lfloor>x\<rfloor>" using assms by (intro unat_size_of_double) simp_all
  have "real (nat \<lfloor>x\<rfloor>) = of_int \<lfloor>x\<rfloor>" using assms(3) by simp
  then have d: "double_of_size rnd (size_of_double x) = of_int \<lfloor>x\<rfloor>"
    unfolding double_of_size_def u using round_floor [OF assms(1,2)] by simp
  show ?thesis
  proof (cases "of_int \<lfloor>x\<rfloor> = x")
    case True
    then have "\<lceil>x\<rceil> = \<lfloor>x\<rfloor>" by (metis ceiling_of_int)
    then show ?thesis using True by (simp add: ceil_def d u)
  next
    case False
    then have c: "\<lceil>x\<rceil> = \<lfloor>x\<rfloor> + 1" by (simp add: ceiling_altdef)
    have "x > 0" using False assms(3) by (cases "x = 0") auto
    moreover have "\<lfloor>x\<rfloor> < 2 ^ 64 - 1" using assms(4) by (simp add: floor_less_iff)
    then have "nat \<lfloor>x\<rfloor> < nat (2 ^ 64 - 1)" using assms(3) by (subst nat_less_eq_zless) simp_all
    then have "unat (size_of_double x) + 1 < 2 ^ 64" using u by simp
    ultimately show ?thesis using False assms(3) u
      by (simp add: ceil_def d c unat_word_ariths nat_add_distrib)
  qed
qed

text \<open>\<open>stddev\<close> of a vector.\<close>

definition stddev :: "(real \<Rightarrow> real) \<Rightarrow> real list \<Rightarrow> real" where
  "stddev rnd v =
     (if v = [] then 0
      else let total = foldl (\<lambda>s x. rnd (s + x)) 0 v;
               n = double_of_size rnd (of_nat (length v));
               mean = rnd (total / n);
               sq_sum = foldl (\<lambda>s x. rnd (s + rnd (x * x))) 0 v;
               var = rnd (rnd (sq_sum / n) - rnd (mean * mean))
           in if var < 0 then 0 else rnd (sqrt var))"

text \<open>With exact arithmetic it is the standard deviation.\<close>

lemma foldl_sum_list: "foldl (\<lambda>s x. s + f x) a v = a + sum_list (map f v)" for a :: real
  by (induction v arbitrary: a) (simp_all add: add.assoc)

lemma sum_list_deviations:
  "(\<Sum>x\<leftarrow>v. (x - m)\<^sup>2) = (\<Sum>x\<leftarrow>v. x * x) - 2 * m * sum_list v + real (length v) * m\<^sup>2" for m :: real
  by (induction v) (simp_all add: power2_eq_square algebra_simps)

lemma stddev_exact:
  assumes "v \<noteq> []" "length v < 2 ^ 64"
  defines "m \<equiv> sum_list v / length v"
  shows "stddev (\<lambda>x. x) v = sqrt ((\<Sum>x\<leftarrow>v. (x - m)\<^sup>2) / length v)"
proof -
  have n: "double_of_size (\<lambda>x. x) (of_nat (length v)) = length v"
    using assms(2) by (simp add: double_of_size_def unat_of_nat)
  have pos: "real (length v) > 0" using assms(1) by simp
  have "(\<Sum>x\<leftarrow>v. (x - m)\<^sup>2) / length v = (\<Sum>x\<leftarrow>v. x * x) / length v - m * m"
    using pos unfolding sum_list_deviations by (simp add: m_def field_simps power2_eq_square)
  moreover have "0 \<le> (\<Sum>x\<leftarrow>v. (x - m)\<^sup>2) / length v"
    using pos by (intro divide_nonneg_pos sum_list_nonneg) auto
  ultimately show ?thesis
    using assms(1) foldl_sum_list [of "\<lambda>x. x" 0 v] foldl_sum_list [of "\<lambda>x. x * x" 0 v]
    by (simp add: stddev_def n m_def Let_def)
qed

end
