(* ===== verification/Timers.thy ===== *)
theory Timers
  imports Doubles
begin

text \<open>
  \<open>lib/common/timer.h\<close> and \<open>runtime/include/utils/rand.h\<close>: the time stamp counter, its frequency,
  conversions between time and cycles, the two timers, and the pseudo random numbers. Of the two
  processor branches of the header the model follows the one for Arm, which the cores of the SoC
  compile: the counter and its frequency are system registers, fields of \<open>soc_clock\<close>.
\<close>

record 'w soc_clock =
  rdtsc :: "'w \<Rightarrow> u64 \<times> 'w"
  cntfrq_el0 :: u32
  fp_round :: "real \<Rightarrow> real"
  hr_now :: "'w \<Rightarrow> int \<times> 'w"

subsection \<open>Frequency and conversions\<close>

definition measure_rdtsc_freq :: "'w soc_clock \<Rightarrow> real run" where
  "measure_rdtsc_freq clk =
     (let freq_ghz = fp_round clk (of_nat (unat (cntfrq_el0 clk)) / 1000000000)
      in if fp_round clk (2 / 10) \<le> freq_ghz \<and> freq_ghz \<le> 3 then Inr freq_ghz else Inl Process_Exit)"

definition to_sec :: "(real \<Rightarrow> real) \<Rightarrow> u64 \<Rightarrow> real \<Rightarrow> real" where
  "to_sec rnd cycles freq_ghz = rnd (double_of_size rnd cycles / rnd (freq_ghz * 1000000000))"

definition to_msec :: "(real \<Rightarrow> real) \<Rightarrow> u64 \<Rightarrow> real \<Rightarrow> real" where
  "to_msec rnd cycles freq_ghz = rnd (double_of_size rnd cycles / rnd (freq_ghz * 1000000))"

definition to_usec :: "(real \<Rightarrow> real) \<Rightarrow> u64 \<Rightarrow> real \<Rightarrow> real" where
  "to_usec rnd cycles freq_ghz = rnd (double_of_size rnd cycles / rnd (freq_ghz * 1000))"

definition to_nsec :: "(real \<Rightarrow> real) \<Rightarrow> u64 \<Rightarrow> real \<Rightarrow> real" where
  "to_nsec rnd cycles freq_ghz = rnd (double_of_size rnd cycles / freq_ghz)"

definition ms_to_cycles :: "(real \<Rightarrow> real) \<Rightarrow> real \<Rightarrow> real \<Rightarrow> u64" where
  "ms_to_cycles rnd ms freq_ghz = size_of_double (rnd (rnd (rnd (ms * 1000) * 1000) * freq_ghz))"

definition us_to_cycles :: "(real \<Rightarrow> real) \<Rightarrow> real \<Rightarrow> real \<Rightarrow> u64" where
  "us_to_cycles rnd us freq_ghz = size_of_double (rnd (rnd (us * 1000) * freq_ghz))"

definition ns_to_cycles :: "(real \<Rightarrow> real) \<Rightarrow> real \<Rightarrow> real \<Rightarrow> u64" where
  "ns_to_cycles rnd ns freq_ghz = size_of_double (rnd (ns * freq_ghz))"

text \<open>The frequency that passes the check lies between 200 MHz and 3 GHz, up to rounding.\<close>

lemma measured_freq:
  assumes "measure_rdtsc_freq clk = Inr f"
  shows "fp_round clk (2 / 10) \<le> f" "f \<le> 3"
  using assms by (auto simp: measure_rdtsc_freq_def Let_def split: if_splits)

lemma round_fifth:
  assumes "ieee_round rnd"
  shows "199999999 / 1000000000 \<le> rnd (2 / 10)"
proof -
  have "2 powr - 1022 \<le> (2 :: real) powr - 3" by (rule powr_mono) simp_all
  then have "2 powr - 1022 \<le> \<bar>2 / 10 :: real\<bar>" by (simp add: powr_minus powr_realpow)
  moreover have "\<forall>x. 2 powr - 1022 \<le> \<bar>x\<bar> \<longrightarrow> \<bar>rnd x - x\<bar> \<le> \<bar>x\<bar> / 2 ^ 53"
    using assms unfolding ieee_round_def by (elim conjE)
  ultimately have "\<bar>rnd (2 / 10) - 2 / 10\<bar> \<le> \<bar>2 / 10\<bar> / 2 ^ 53" by blast
  then have "2 / 10 - 2 / 10 / 2 ^ 53 \<le> rnd (2 / 10)" by linarith
  then show ?thesis by simp
qed

lemma cycles_range:
  assumes "ieee_round rnd" "rnd (2 / 10) \<le> f" "f \<le> 3" "1000 \<le> n" "n \<le> 10 ^ 12"
  shows "real n * 199 / 1000 \<le> rnd (real n * f)" "rnd (real n * f) \<le> real (3 * n)"
proof -
  have f: "199999999 / 1000000000 \<le> f" using round_fifth [OF assms(1)] assms(2) by simp
  have "real n * (199999999 / 1000000000) \<le> real n * f" using f by (intro mult_left_mono) simp_all
  moreover have "1 \<le> real n * (199999999 / 1000000000)" using assms(4) by simp
  ultimately have low: "real n * (199999999 / 1000000000) \<le> real n * f" "1 \<le> real n * f" by linarith+
  have "real n * 199 / 1000 \<le> real n * (199999999 / 1000000000) * (1 - 1 / 2 ^ 53)" using assms(4) by simp
  also have "\<dots> \<le> real n * f * (1 - 1 / 2 ^ 53)" using low(1) by (intro mult_right_mono) simp_all
  also have "\<dots> \<le> rnd (real n * f)" by (rule round_below [OF assms(1) low(2)])
  finally show "real n * 199 / 1000 \<le> rnd (real n * f)" .
  have "f * real n \<le> 3 * real n" using assms(3) by (rule mult_right_mono) simp
  then have "real n * f \<le> of_int (int (3 * n))" by (simp add: mult.commute)
  from round_mono [OF assms(1) this] round_int [OF assms(1), of "int (3 * n)"] assms(5)
  show "rnd (real n * f) \<le> real (3 * n)" by simp
qed

text \<open>The two cycle counts of the datapath thread: ten seconds and one microsecond.\<close>

lemma run_cycles_range:
  assumes "ieee_round (fp_round clk)" "measure_rdtsc_freq clk = Inr f"
  shows "1990000000 \<le> unat (ms_to_cycles (fp_round clk) 10000 f)" "unat (ms_to_cycles (fp_round clk) 10000 f) \<le> 30000000000"
    "199 \<le> unat (us_to_cycles (fp_round clk) 1 f)" "unat (us_to_cycles (fp_round clk) 1 f) \<le> 3000"
proof -
  note r = round_int [OF assms(1)]
  have i: "fp_round clk 10000000 = 10000000" "fp_round clk 10000000000 = 10000000000" "fp_round clk 1000 = 1000"
    using r [of 10000000] r [of 10000000000] r [of 1000] by simp_all
  note f = measured_freq [OF assms(2)]
  note c = cycles_range [OF assms(1) f, of 10000000000] cycles_range [OF assms(1) f, of 1000]
  have ms: "ms_to_cycles (fp_round clk) 10000 f = size_of_double (fp_round clk (10000000000 * f))"
    and us: "us_to_cycles (fp_round clk) 1 f = size_of_double (fp_round clk (1000 * f))"
    by (simp_all add: ms_to_cycles_def us_to_cycles_def i)
  show "1990000000 \<le> unat (ms_to_cycles (fp_round clk) 10000 f)"
    "unat (ms_to_cycles (fp_round clk) 10000 f) \<le> 30000000000"
    unfolding ms using c size_of_double_range [of 1990000000 "fp_round clk (10000000000 * f)" 30000000000] by simp_all
  show "199 \<le> unat (us_to_cycles (fp_round clk) 1 f)" "unat (us_to_cycles (fp_round clk) 1 f) \<le> 3000"
    unfolding us using c size_of_double_range [of 199 "fp_round clk (1000 * f)" 3000] by simp_all
qed

subsection \<open>Waiting\<close>

partial_function (option) spin :: "'w soc_clock \<Rightarrow> u64 \<Rightarrow> u64 \<Rightarrow> u64 \<Rightarrow> 'w \<Rightarrow> 'w option" where
  "spin clk start upp end_tsc w =
     (if end_tsc - start < upp then let (t, w) = rdtsc clk w in spin clk start upp t w else Some w)"

definition nano_sleep :: "'w soc_clock \<Rightarrow> u64 \<Rightarrow> real \<Rightarrow> 'w \<Rightarrow> 'w option" where
  "nano_sleep clk ns freq_ghz w =
     (let (start, w) = rdtsc clk w
      in spin clk start (size_of_double (fp_round clk (freq_ghz * double_of_size (fp_round clk) ns))) start w)"

text \<open>
  A counter that advances by at least one and fewer than \<open>2^32\<close> cycles between two reads, as long as
  fewer than \<open>2^63\<close> cycles have passed since \<open>start\<close>, ends every wait of at most \<open>2^63\<close> cycles.
\<close>

lemma spin_returns:
  assumes "\<And>w. \<exists>d. fst (rdtsc clk w) = ticks w + of_nat d \<and> 0 < d \<and> d < 2 ^ 32 \<and> ticks (snd (rdtsc clk w)) = ticks w + of_nat d"
    and "unat upp \<le> 2 ^ 63"
  shows "\<exists>w'. spin clk start upp (ticks w) w = Some w'"
proof (induction "unat upp - unat (ticks w - start)" arbitrary: w rule: less_induct)
  case less
  show ?case
  proof (cases "ticks w - start < upp")
    case False
    then show ?thesis by (subst spin.simps) simp
  next
    case True
    obtain d where d: "fst (rdtsc clk w) = ticks w + of_nat d" "0 < d" "d < 2 ^ 32"
        "ticks (snd (rdtsc clk w)) = ticks w + of_nat d"
      using assms(1) by blast
    let ?w = "snd (rdtsc clk w)"
    have u: "unat (of_nat d :: u64) = d" using d(3) by (simp add: unat_of_nat)
    have a: "unat (ticks w - start) < unat upp" using True by (simp add: word_less_nat_alt)
    have e: "ticks ?w - start = (ticks w - start) + of_nat d" by (simp add: d(4))
    have "unat (ticks w - start) + d < 2 ^ 64" using a assms(2) d(3) by simp
    then have "unat (ticks ?w - start) = unat (ticks w - start) + d"
      by (simp add: e unat_word_ariths u)
    then have "unat upp - unat (ticks ?w - start) < unat upp - unat (ticks w - start)" using a d(2) by simp
    from less [OF this] obtain w' where "spin clk start upp (ticks ?w) ?w = Some w'" by blast
    then show ?thesis using True d by (subst spin.simps) (simp add: split_beta)
  qed
qed

subsection \<open>Timers\<close>

record ChronoTimer =
  start_time :: int

definition chrono_reset :: "'w soc_clock \<Rightarrow> 'w \<Rightarrow> ChronoTimer \<times> 'w" where
  "chrono_reset clk w = (let (t, w) = hr_now clk w in (\<lparr>start_time = t\<rparr>, w))"

definition chrono_get_ns :: "'w soc_clock \<Rightarrow> ChronoTimer \<Rightarrow> 'w \<Rightarrow> u64 \<times> 'w" where
  "chrono_get_ns clk c w = (let (t, w) = hr_now clk w in (word_of_int (t - start_time c), w))"

definition chrono_get :: "'w soc_clock \<Rightarrow> real \<Rightarrow> ChronoTimer \<Rightarrow> 'w \<Rightarrow> real \<times> 'w" where
  "chrono_get clk ns_per_unit c w =
     (let (n, w) = chrono_get_ns clk c w
      in (fp_round clk (double_of_size (fp_round clk) n / ns_per_unit), w))"

definition chrono_get_sec :: "'w soc_clock \<Rightarrow> ChronoTimer \<Rightarrow> 'w \<Rightarrow> real \<times> 'w" where
  "chrono_get_sec clk = chrono_get clk 1000000000"

definition chrono_get_ms :: "'w soc_clock \<Rightarrow> ChronoTimer \<Rightarrow> 'w \<Rightarrow> real \<times> 'w" where
  "chrono_get_ms clk = chrono_get clk 1000000"

definition chrono_get_us :: "'w soc_clock \<Rightarrow> ChronoTimer \<Rightarrow> 'w \<Rightarrow> real \<times> 'w" where
  "chrono_get_us clk = chrono_get clk 1000"

record TscTimer =
  tt_start_tsc :: u64
  tt_tsc_sum :: u64
  tt_num_calls :: u64

definition new_TscTimer :: TscTimer where
  "new_TscTimer = \<lparr>tt_start_tsc = 0, tt_tsc_sum = 0, tt_num_calls = 0\<rparr>"

definition tsc_start :: "'w soc_clock \<Rightarrow> TscTimer \<Rightarrow> 'w \<Rightarrow> TscTimer \<times> 'w" where
  "tsc_start clk t w = (let (c, w) = rdtsc clk w in (t\<lparr>tt_start_tsc := c\<rparr>, w))"

definition tsc_stop :: "'w soc_clock \<Rightarrow> TscTimer \<Rightarrow> 'w \<Rightarrow> TscTimer \<times> 'w" where
  "tsc_stop clk t w = (let (c, w) = rdtsc clk w
     in (t\<lparr>tt_tsc_sum := tt_tsc_sum t + (c - tt_start_tsc t), tt_num_calls := tt_num_calls t + 1\<rparr>, w))"

definition tsc_reset :: "TscTimer \<Rightarrow> TscTimer" where
  "tsc_reset t = t\<lparr>tt_start_tsc := 0, tt_tsc_sum := 0, tt_num_calls := 0\<rparr>"

text \<open>The integer division by zero of a timer that was never stopped.\<close>

definition avg_cycles :: "TscTimer \<Rightarrow> u64 run" where
  "avg_cycles t = (if tt_num_calls t = 0 then Inl Bad_Access else Inr (tt_tsc_sum t div tt_num_calls t))"

definition avg_sec :: "(real \<Rightarrow> real) \<Rightarrow> real \<Rightarrow> TscTimer \<Rightarrow> real run" where
  "avg_sec rnd freq_ghz t = bind_run (avg_cycles t) (\<lambda>c. Inr (to_sec rnd c freq_ghz))"

definition avg_usec :: "(real \<Rightarrow> real) \<Rightarrow> real \<Rightarrow> TscTimer \<Rightarrow> real run" where
  "avg_usec rnd freq_ghz t = bind_run (avg_cycles t) (\<lambda>c. Inr (to_usec rnd c freq_ghz))"

definition avg_nsec :: "(real \<Rightarrow> real) \<Rightarrow> real \<Rightarrow> TscTimer \<Rightarrow> real run" where
  "avg_nsec rnd freq_ghz t = bind_run (avg_cycles t) (\<lambda>c. Inr (to_nsec rnd c freq_ghz))"

text \<open>A timer that is started and stopped around each of several pieces of work.\<close>

fun time_calls :: "'w soc_clock \<Rightarrow> ('w \<Rightarrow> 'w) list \<Rightarrow> TscTimer \<Rightarrow> 'w \<Rightarrow> TscTimer \<times> 'w" where
  "time_calls clk [] t w = (t, w)"
| "time_calls clk (f # fs) t w = (let (t, w) = tsc_start clk t w; (t, w) = tsc_stop clk t (f w) in time_calls clk fs t w)"

fun call_cycles :: "'w soc_clock \<Rightarrow> ('w \<Rightarrow> 'w) list \<Rightarrow> 'w \<Rightarrow> u64 list" where
  "call_cycles clk [] w = []"
| "call_cycles clk (f # fs) w =
     (let (a, w) = rdtsc clk w; (b, w) = rdtsc clk (f w) in (b - a) # call_cycles clk fs w)"

lemma time_calls_sum:
  "tt_tsc_sum (fst (time_calls clk fs t w)) = tt_tsc_sum t + sum_list (call_cycles clk fs w)"
  "tt_num_calls (fst (time_calls clk fs t w)) = tt_num_calls t + of_nat (length fs)"
  by (induction clk fs t w rule: time_calls.induct)
    (simp_all add: tsc_start_def tsc_stop_def Let_def split_beta add.assoc)

subsection \<open>Random numbers\<close>

text \<open>The seed comes from \<open>SlowRand\<close>, which asks the random device of the standard library.\<close>

definition new_FastRand :: "u64 \<Rightarrow> u64" where "new_FastRand slow_rand = slow_rand"

definition lcg_step :: "u64 \<Rightarrow> u64" where "lcg_step seed = seed * 1103515245 + 12345"

definition next_u64 :: "u64 \<Rightarrow> u64 \<times> u64" where "next_u64 seed = (lcg_step seed, lcg_step seed)"
definition next_u32 :: "u64 \<Rightarrow> u32 \<times> u64" where "next_u32 seed = (ucast (drop_bit 32 (lcg_step seed)), lcg_step seed)"
definition next_u16 :: "u64 \<Rightarrow> u16 \<times> u64" where "next_u16 seed = (ucast (drop_bit 48 (lcg_step seed)), lcg_step seed)"
definition next_u8 :: "u64 \<Rightarrow> u8 \<times> u64" where "next_u8 seed = (ucast (drop_bit 56 (lcg_step seed)), lcg_step seed)"

text \<open>No two seeds have the same successor: the multiplier is odd.\<close>

lemma lcg_step_inj: "inj lcg_step"
proof (rule injI)
  have one: "(1103515245 :: u64) * 17850689345304521573 = 1" by simp
  fix a b assume "lcg_step a = lcg_step b"
  then have "a * (1103515245 * 17850689345304521573) = b * (1103515245 * 17850689345304521573)"
    unfolding mult.assoc [symmetric] by (simp only: lcg_step_def add_right_cancel)
  then show "a = b" unfolding one by simp
qed

end
