(* ===== verification/SocWrapper.thy ===== *)
theory SocWrapper
  imports SocQueue HugeAlloc Timers
begin

text \<open>
  The SoC datapath: the RDMA queue pair of \<open>lib/common/soc_queue.h\<close> (\<open>RDMA_SoC_QP\<close>) and the
  wrapper of \<open>lib/wrapper/soc\<close> (\<open>SoCWrapper\<close>) that moves packet buffers between the NIC, the
  dispatcher and the worker.

  Buffers live on the heap of \<open>HugeAlloc\<close>. The verbs calls are outside the repository: they are
  the fields of a parameter \<open>soc_verbs\<close> over a world of type \<open>'w\<close>. A queue pair is named by its
  \<open>qp_id\<close>, a posted work request by its scatter/gather element. The two worker queues are
  objects of the wrapper, and the queue pairs hold references to them.
\<close>

subsection \<open>Queue pairs\<close>

type_synonym heap = "nat \<rightharpoonup> Buffer"

definition kNumRxRingEntries :: nat where "kNumRxRingEntries = 2048"
definition kNumTxRingEntries :: nat where "kNumTxRingEntries = 2048"
definition kMTU :: nat where "kMTU = 4096"

record sge =
  sg_addr :: u64
  sg_length :: u32
  sg_lkey :: u32

datatype worker_queue_ref = Tmp_Rx | Tmp_Tx

record RDMA_SoC_QP =
  qp_id :: nat
  send_wr_next :: "ptr list"
  send_sgl :: "sge list"
  send_head :: nat
  send_tail :: nat
  sw_ring :: "ptr list"
  tx_queue :: "ptr list"
  tx_queue_idx :: nat
  recv_wr_next :: "ptr list"
  recv_sgl :: "sge list"
  recv_head :: nat
  rx_ring :: "ptr list"
  ring_head :: nat
  collect_worker_queue :: "worker_queue_ref option"
  disp_worker_queue :: "worker_queue_ref option"
  free_send_wr_num :: nat
  wait_for_disp :: nat

text \<open>\<open>size_t\<close> plus a signed \<open>int\<close>.\<close>

definition add_int :: "nat \<Rightarrow> int \<Rightarrow> nat" where
  "add_int n r = nat ((int n + r) mod 2 ^ 64)"

subsection \<open>Verbs\<close>

record 'w soc_verbs =
  post_recv :: "nat \<Rightarrow> sge list \<Rightarrow> 'w \<Rightarrow> int \<times> 'w"
  poll_recv :: "nat \<Rightarrow> nat \<Rightarrow> 'w \<Rightarrow> (int \<times> u32 list) \<times> 'w"
  post_send :: "nat \<Rightarrow> sge list \<Rightarrow> 'w \<Rightarrow> int \<times> 'w"
  poll_send :: "nat \<Rightarrow> nat \<Rightarrow> 'w \<Rightarrow> int \<times> 'w"

text \<open>
  The list of work requests that starts at index \<open>i\<close>, along \<open>next\<close>. The fuel is the number of
  work requests of the ring, which a list cut somewhere cannot exceed.
\<close>

fun wr_chain :: "nat \<Rightarrow> ptr list \<Rightarrow> nat \<Rightarrow> nat list" where
  "wr_chain 0 nxt i = []"
| "wr_chain (Suc n) nxt i = i # (case nxt ! i of None \<Rightarrow> [] | Some j \<Rightarrow> wr_chain n nxt j)"

definition deref_buf :: "heap \<Rightarrow> ptr \<Rightarrow> (nat \<times> Buffer) run" where
  "deref_buf h p = (case p of None \<Rightarrow> Inl Bad_Access
     | Some a \<Rightarrow> (case h a of None \<Rightarrow> Inl Bad_Access | Some b \<Rightarrow> Inr (a, b)))"

definition set_state :: "u8 \<Rightarrow> nat \<Rightarrow> heap \<Rightarrow> heap" where
  "set_state st a h = h(a := map_option (\<lambda>b. b\<lparr>b_state := st\<rparr>) (h a))"

subsection \<open>Receiving\<close>

definition post_recvs ::
  "'w soc_verbs \<Rightarrow> nat \<Rightarrow> RDMA_SoC_QP \<Rightarrow> 'w \<Rightarrow> (RDMA_SoC_QP \<times> 'w) run" where
  "post_recvs api num_recvs qp w =
     (let first_wr_i = recv_head qp;
          last_wr_0 = first_wr_i + (num_recvs - 1);
          last_wr_i = (if last_wr_0 \<ge> kNumRxRingEntries then last_wr_0 - kNumRxRingEntries else last_wr_0);
          temp_wr = recv_wr_next qp ! last_wr_i;
          cut = (recv_wr_next qp)[last_wr_i := None];
          wrs = wr_chain kNumRxRingEntries cut first_wr_i;
          (ret, w') = post_recv api (qp_id qp) (map ((!) (recv_sgl qp)) wrs) w
      in if ret \<noteq> 0 then Inl Nicc_Shutdown
         else Inr (qp\<lparr>recv_wr_next := cut[last_wr_i := temp_wr],
                     recv_head := (last_wr_i + 1) mod kNumRxRingEntries\<rparr>, w'))"

text \<open>The loop that hands free buffers back to the NIC, from entry \<open>e\<close> on.\<close>

partial_function (option) repost :: "ptr \<Rightarrow> nat \<Rightarrow> heap \<Rightarrow> (nat \<times> heap) exec" where
  "repost e n h = bind_exec (Some (deref_buf h e)) (\<lambda>(a, b).
     if b_state b = kFREE_BUF then repost (b_next b) (Suc n) (set_state kPOSTED a h)
     else Some (Inr (n, h)))"

definition set_length :: "RDMA_SoC_QP \<Rightarrow> u32 list \<Rightarrow> nat \<Rightarrow> heap \<Rightarrow> heap run" where
  "set_length qp lens i h =
     bind_run (deref_buf h (rx_ring qp ! ((ring_head qp + wait_for_disp qp + i) mod kNumRxRingEntries)))
       (\<lambda>(a, b). Inr (h(a \<mapsto> b\<lparr>b_length := lens ! i\<rparr>)))"

definition kRxBatchSize :: nat where "kRxBatchSize = 128"
definition kTxBatchSize :: nat where "kTxBatchSize = 32"
definition kAppRxMsgBatchSize :: nat where "kAppRxMsgBatchSize = 32"

definition rx_burst ::
  "'w soc_verbs \<Rightarrow> RDMA_SoC_QP \<Rightarrow> heap \<Rightarrow> 'w \<Rightarrow> (int \<times> RDMA_SoC_QP \<times> heap \<times> 'w) exec" where
  "rx_burst api qp h w =
     bind_exec (repost (rx_ring qp ! recv_head qp) 0 h) (\<lambda>(num_recvs, h1).
     Some (bind_run (if num_recvs \<noteq> 0 then post_recvs api num_recvs qp w else Inr (qp, w)) (\<lambda>(qp1, w1).
       let ((ret, lens), w2) = poll_recv api (qp_id qp1) kRxBatchSize w1
       in bind_run (fold_run (set_length qp1 lens) [0 ..< nat ret] h1) (\<lambda>h2.
          Inr (ret, qp1\<lparr>wait_for_disp := add_int (wait_for_disp qp1) ret\<rparr>, h2, w2)))))"

subsection \<open>Dispatching and collecting\<close>

fun dispatch_loop ::
  "nat \<Rightarrow> ptr \<Rightarrow> nat \<Rightarrow> heap \<Rightarrow> soc_shm_lock_free_queue \<Rightarrow> (nat \<times> heap \<times> soc_shm_lock_free_queue) run"
where
  "dispatch_loop 0 e tot h q = Inr (tot, h, q)"
| "dispatch_loop (Suc n) e tot h q =
     (let (enqueued, q') = enqueue e q
      in bind_run (deref_buf h e) (\<lambda>(a, b).
           if \<not> enqueued then dispatch_loop n (b_next b) tot (set_state kFREE_BUF a h) q'
           else dispatch_loop n (b_next b) (Suc tot) (set_state kAPP_OWNED_BUF a h) q'))"

definition dispatch_rx_pkts ::
  "RDMA_SoC_QP \<Rightarrow> heap \<Rightarrow> soc_shm_lock_free_queue \<Rightarrow>
   (nat \<times> RDMA_SoC_QP \<times> heap \<times> soc_shm_lock_free_queue) run" where
  "dispatch_rx_pkts qp h q =
     bind_run (dispatch_loop (wait_for_disp qp) (rx_ring qp ! ring_head qp) 0 h q) (\<lambda>(tot, h', q').
       Inr (tot, qp\<lparr>ring_head := (ring_head qp + wait_for_disp qp) mod kNumRxRingEntries,
                      wait_for_disp := 0\<rparr>, h', q'))"

fun collect_loop ::
  "nat \<Rightarrow> RDMA_SoC_QP \<Rightarrow> soc_shm_lock_free_queue \<Rightarrow> RDMA_SoC_QP \<times> soc_shm_lock_free_queue" where
  "collect_loop 0 qp q = (qp, q)"
| "collect_loop (Suc n) qp q =
     (let (m, q') = dequeue q
      in collect_loop n (qp\<lparr>tx_queue := (tx_queue qp)[tx_queue_idx qp := m],
                           tx_queue_idx := Suc (tx_queue_idx qp)\<rparr>) q')"

definition collect_tx_pkts ::
  "RDMA_SoC_QP \<Rightarrow> soc_shm_lock_free_queue \<Rightarrow> nat \<times> RDMA_SoC_QP \<times> soc_shm_lock_free_queue" where
  "collect_tx_pkts qp q =
     (let remain_ring_size = kNumTxRingEntries - tx_queue_idx qp;
          tx_size = (if unat (get_size q) > remain_ring_size then remain_ring_size
                     else unat (get_size q));
          (qp', q') = collect_loop tx_size qp q
      in (tx_size, qp', q'))"

subsection \<open>Sending\<close>

text \<open>The completed buffers at the head of the software ring become free.\<close>

definition complete_one :: "nat \<Rightarrow> RDMA_SoC_QP \<times> heap \<Rightarrow> (RDMA_SoC_QP \<times> heap) run" where
  "complete_one i s = (case s of (qp, h) \<Rightarrow>
     bind_run (deref_buf h (sw_ring qp ! send_head qp)) (\<lambda>(a, b).
       Inr (qp\<lparr>send_head := (send_head qp + 1) mod kNumTxRingEntries\<rparr>, set_state kFREE_BUF a h)))"

definition sge_of :: "Buffer \<Rightarrow> sge" where
  "sge_of b = \<lparr>sg_addr = of_nat (b_buf b), sg_length = b_length b, sg_lkey = b_lkey b\<rparr>"

text \<open>
  Mounting buffers on send work requests while there are free ones; \<open>tail\<close> is the last one
  used.
\<close>

fun mount ::
  "ptr list \<Rightarrow> nat \<Rightarrow> ptr \<Rightarrow> RDMA_SoC_QP \<Rightarrow> heap \<Rightarrow> (nat \<times> ptr \<times> RDMA_SoC_QP \<times> heap) run" where
  "mount [] n tail qp h = Inr (n, tail, qp, h)"
| "mount (m # ms) n tail qp h =
     (if free_send_wr_num qp = 0 then Inr (n, tail, qp, h)
      else bind_run (deref_buf h m) (\<lambda>(a, b).
        mount ms (Suc n) (Some (send_tail qp))
          (qp\<lparr>send_sgl := (send_sgl qp)[send_tail qp := sge_of b],
             sw_ring := (sw_ring qp)[send_tail qp := m],
             send_tail := (send_tail qp + 1) mod kNumTxRingEntries,
             free_send_wr_num := free_send_wr_num qp - 1\<rparr>)
          (set_state kPOSTED a h)))"

definition tx_burst ::
  "'w soc_verbs \<Rightarrow> ptr list \<Rightarrow> RDMA_SoC_QP \<Rightarrow> heap \<Rightarrow> 'w \<Rightarrow> (nat \<times> RDMA_SoC_QP \<times> heap \<times> 'w) run" where
  "tx_burst api tx qp h w =
     (let (ret, w1) = poll_send api (qp_id qp) kNumTxRingEntries w
      in bind_run (assert_run (ret \<ge> 0)) (\<lambda>_.
         bind_run (fold_run complete_one [0 ..< nat ret]
                    (qp\<lparr>free_send_wr_num := add_int (free_send_wr_num qp) ret\<rparr>, h)) (\<lambda>(qp1, h1).
         let first_wr = send_tail qp1
         in bind_run (mount tx 0 None qp1 h1) (\<lambda>(nb_tx_res, tail, qp2, h2).
              case tail of
                None \<Rightarrow> Inr (nb_tx_res, qp2, h2, w1)
              | Some t \<Rightarrow>
                  let temp_wr = send_wr_next qp2 ! t;
                      cut = (send_wr_next qp2)[t := None];
                      wrs = wr_chain kNumTxRingEntries cut first_wr;
                      (ret', w2) = post_send api (qp_id qp2) (map ((!) (send_sgl qp2)) wrs) w1
                  in if ret' \<noteq> 0 then Inl Nicc_Shutdown
                     else Inr (nb_tx_res, qp2\<lparr>send_wr_next := cut[t := temp_wr]\<rparr>, h2, w2)))))"

text \<open>The loop of \<open>tx_flush\<close>: the pointer \<open>tx\<close> is \<open>tx_total\<close> entries into the transmit queue.\<close>

partial_function (option) flush_loop ::
  "'w soc_verbs \<Rightarrow> nat \<Rightarrow> RDMA_SoC_QP \<Rightarrow> heap \<Rightarrow> 'w \<Rightarrow> (nat \<times> RDMA_SoC_QP \<times> heap \<times> 'w) exec" where
  "flush_loop api tx_total qp h w =
     (if tx_total < tx_queue_idx qp
      then bind_exec (Some (tx_burst api (drop tx_total (take (tx_queue_idx qp) (tx_queue qp))) qp h w))
             (\<lambda>(nb_tx, qp', h', w'). flush_loop api (tx_total + nb_tx) qp' h' w')
      else Some (Inr (tx_total, qp, h, w)))"

definition tx_flush ::
  "'w soc_verbs \<Rightarrow> RDMA_SoC_QP \<Rightarrow> heap \<Rightarrow> 'w \<Rightarrow> (nat \<times> RDMA_SoC_QP \<times> heap \<times> 'w) exec" where
  "tx_flush api qp h w =
     bind_exec (flush_loop api 0 qp h w) (\<lambda>(tx_total, qp', h', w').
       Some (Inr (tx_total, qp'\<lparr>tx_queue_idx := 0\<rparr>, h', w')))"

definition direct_move :: "RDMA_SoC_QP \<Rightarrow> nat \<Rightarrow> RDMA_SoC_QP \<Rightarrow> RDMA_SoC_QP" where
  "direct_move rx_qp i tx_qp =
     tx_qp\<lparr>tx_queue := (tx_queue tx_qp)[tx_queue_idx tx_qp :=
               rx_ring rx_qp ! ((ring_head rx_qp + i) mod kNumRxRingEntries)],
           tx_queue_idx := Suc (tx_queue_idx tx_qp)\<rparr>"

definition direct_tx_burst :: "RDMA_SoC_QP \<Rightarrow> RDMA_SoC_QP \<Rightarrow> nat \<times> RDMA_SoC_QP \<times> RDMA_SoC_QP" where
  "direct_tx_burst rx_qp tx_qp =
     (let remain_tx_queue_size =
            (if kNumTxRingEntries - tx_queue_idx tx_qp > wait_for_disp rx_qp then wait_for_disp rx_qp
             else kNumTxRingEntries - tx_queue_idx tx_qp);
          tx_qp' = fold (direct_move rx_qp) [0 ..< remain_tx_queue_size] tx_qp
      in (remain_tx_queue_size,
          rx_qp\<lparr>ring_head := (ring_head rx_qp + remain_tx_queue_size) mod kNumRxRingEntries,
                wait_for_disp := wait_for_disp rx_qp - remain_tx_queue_size\<rparr>,
          tx_qp'))"

subsection \<open>The wrapper\<close>

datatype soc_wrapper_type_t = kSoC_Invalid | kSoC_Dispatcher | kSoC_Worker

text \<open>
  The user's handlers: \<open>init_handler\<close> returns the user state and its size (\<open>None\<close> for a null
  state), \<open>msg_handler\<close> processes a message buffer.
\<close>

record ('u, 'w) SoCWrapperContext =
  init_handler :: "(heap \<Rightarrow> 'w \<Rightarrow> ('u option \<times> nat) \<times> heap \<times> 'w) option"
  msg_handler :: "(ptr \<Rightarrow> 'u option \<Rightarrow> heap \<Rightarrow> 'w \<Rightarrow> nicc_retval_t \<times> 'u option \<times> heap \<times> 'w) option"
  cleanup_handler :: "('u option \<Rightarrow> heap \<Rightarrow> 'w \<Rightarrow> heap \<times> 'w) option"

record ('u, 'w) SoCWrapper =
  w_type :: soc_wrapper_type_t
  w_qp_prior :: RDMA_SoC_QP
  w_qp_next :: RDMA_SoC_QP
  w_rx_queue :: soc_shm_lock_free_queue
  w_tx_queue :: soc_shm_lock_free_queue
  w_user :: "'u option"
  w_user_size :: nat
  w_heap :: heap
  w_world :: 'w

definition worker_queue :: "('u, 'w) SoCWrapper \<Rightarrow> worker_queue_ref option \<Rightarrow> soc_shm_lock_free_queue run" where
  "worker_queue s r = (case r of None \<Rightarrow> Inl Bad_Access | Some Tmp_Rx \<Rightarrow> Inr (w_rx_queue s)
     | Some Tmp_Tx \<Rightarrow> Inr (w_tx_queue s))"

definition set_worker_queue ::
  "worker_queue_ref option \<Rightarrow> soc_shm_lock_free_queue \<Rightarrow> ('u, 'w) SoCWrapper \<Rightarrow> ('u, 'w) SoCWrapper" where
  "set_worker_queue r q s = (case r of None \<Rightarrow> s | Some Tmp_Rx \<Rightarrow> s\<lparr>w_rx_queue := q\<rparr>
     | Some Tmp_Tx \<Rightarrow> s\<lparr>w_tx_queue := q\<rparr>)"

definition init_dispatcher :: "('u, 'w) SoCWrapper \<Rightarrow> nicc_retval_t \<times> ('u, 'w) SoCWrapper" where
  "init_dispatcher s =
     (NICC_SUCCESS,
      s\<lparr>w_qp_prior := (w_qp_prior s)\<lparr>disp_worker_queue := Some Tmp_Rx\<rparr>,
        w_qp_next := (w_qp_next s)\<lparr>collect_worker_queue := Some Tmp_Tx\<rparr>\<rparr>)"

definition init_worker :: "('u, 'w) SoCWrapper \<Rightarrow> nicc_retval_t \<times> ('u, 'w) SoCWrapper" where
  "init_worker s = (NICC_SUCCESS, s)"

definition call_init_handler ::
  "('u, 'w) SoCWrapperContext \<Rightarrow> ('u, 'w) SoCWrapper \<Rightarrow> ('u, 'w) SoCWrapper" where
  "call_init_handler ctx s = (case init_handler ctx of
       Some f \<Rightarrow>
         (let ((st, sz), h, w) = f (w_heap s) (w_world s)
          in s\<lparr>w_user := st, w_user_size := (if st = None then 0 else sz), w_heap := h, w_world := w\<rparr>)
     | None \<Rightarrow> s\<lparr>w_user := None, w_user_size := 0\<rparr>)"

text \<open>The constructor up to the call of \<open>__run\<close>. \<open>NICC_ERROR_C\<close> throws on an invalid type.\<close>

definition new_SoCWrapper ::
  "('u, 'w) SoCWrapperContext \<Rightarrow> soc_wrapper_type_t \<Rightarrow> RDMA_SoC_QP \<Rightarrow> RDMA_SoC_QP \<Rightarrow> heap \<Rightarrow> 'w \<Rightarrow>
   ('u, 'w) SoCWrapper run" where
  "new_SoCWrapper ctx type prior nxt h w =
     (if type = kSoC_Invalid then Inl Nicc_Shutdown
      else let s = \<lparr>w_type = type, w_qp_prior = prior, w_qp_next = nxt, w_rx_queue = new_soc_queue,
                    w_tx_queue = new_soc_queue, w_user = None, w_user_size = 0, w_heap = h,
                    w_world = w\<rparr>;
               (r, s') = (if type = kSoC_Dispatcher then init_dispatcher s else init_worker s)
           in if r \<noteq> NICC_SUCCESS then Inl Nicc_Shutdown else Inr (call_init_handler ctx s'))"

definition destroy_SoCWrapper :: "('u, 'w) SoCWrapperContext \<Rightarrow> ('u, 'w) SoCWrapper \<Rightarrow> ('u, 'w) SoCWrapper" where
  "destroy_SoCWrapper ctx s = (case cleanup_handler ctx of
       Some f \<Rightarrow>
         (if w_user s \<noteq> None
          then let (h, w) = f (w_user s) (w_heap s) (w_world s)
               in s\<lparr>w_heap := h, w_world := w, w_user := None\<rparr>
          else s)
     | None \<Rightarrow> s)"

text \<open>
  One round of the worker: take a message, run the user's handler on it, and forward it whatever
  the handler returned. The result of the \<open>enqueue\<close> is ignored.
\<close>

definition worker_one ::
  "('u, 'w) SoCWrapperContext \<Rightarrow> ('u, 'w) SoCWrapper \<Rightarrow> ('u, 'w) SoCWrapper" where
  "worker_one ctx s =
     (let (m, rx) = dequeue (w_rx_queue s); s1 = s\<lparr>w_rx_queue := rx\<rparr>
      in case msg_handler ctx of
           Some f \<Rightarrow>
             (let (ret, u, h, w) = f m (w_user s1) (w_heap s1) (w_world s1);
                  s2 = s1\<lparr>w_user := u, w_heap := h, w_world := w\<rparr>
              in if ret = NICC_SUCCESS then s2\<lparr>w_tx_queue := snd (enqueue m (w_tx_queue s2))\<rparr>
                 else s2\<lparr>w_tx_queue := snd (enqueue m (w_tx_queue s2))\<rparr>)
         | None \<Rightarrow> s1\<lparr>w_tx_queue := snd (enqueue m (w_tx_queue s1))\<rparr>)"

fun worker_loop :: "('u, 'w) SoCWrapperContext \<Rightarrow> nat \<Rightarrow> ('u, 'w) SoCWrapper \<Rightarrow> ('u, 'w) SoCWrapper" where
  "worker_loop ctx 0 s = s"
| "worker_loop ctx (Suc n) s = worker_loop ctx n (worker_one ctx s)"

definition worker_phase :: "('u, 'w) SoCWrapperContext \<Rightarrow> ('u, 'w) SoCWrapper \<Rightarrow> ('u, 'w) SoCWrapper" where
  "worker_phase ctx s =
     (let msg_num = unat (get_size (w_rx_queue s)) div 1
      in if msg_num > kAppRxMsgBatchSize then worker_loop ctx (msg_num * 1) s else s)"

definition launch_rx ::
  "'w soc_verbs \<Rightarrow> ('u, 'w) SoCWrapper \<Rightarrow> ('u, 'w) SoCWrapper exec" where
  "launch_rx api s =
     bind_exec (rx_burst api (w_qp_prior s) (w_heap s) (w_world s)) (\<lambda>(nb_rx, prior, h, w).
     Some (bind_run (worker_queue s (disp_worker_queue prior)) (\<lambda>q.
       bind_run (dispatch_rx_pkts prior h q) (\<lambda>(nb_disp, prior', h', q').
         Inr (set_worker_queue (disp_worker_queue prior) q'
                (s\<lparr>w_qp_prior := prior', w_heap := h', w_world := w\<rparr>))))))"

definition launch_collect :: "('u, 'w) SoCWrapper \<Rightarrow> ('u, 'w) SoCWrapper run" where
  "launch_collect s =
     bind_run (worker_queue s (collect_worker_queue (w_qp_next s))) (\<lambda>q.
       let (nb, nxt, q') = collect_tx_pkts (w_qp_next s) q
       in Inr (set_worker_queue (collect_worker_queue (w_qp_next s)) q' (s\<lparr>w_qp_next := nxt\<rparr>)))"

text \<open>The body of the event loop, in the order of the code.\<close>

definition launch ::
  "'w soc_verbs \<Rightarrow> ('u, 'w) SoCWrapperContext \<Rightarrow> ('u, 'w) SoCWrapper \<Rightarrow> ('u, 'w) SoCWrapper exec" where
  "launch api ctx s =
     bind_exec (launch_rx api s) (\<lambda>s1.
     bind_exec (Some (launch_collect (worker_phase ctx s1))) (\<lambda>s2.
     bind_exec
       (if tx_queue_idx (w_qp_next s2) \<ge> kTxBatchSize
        then bind_exec (tx_flush api (w_qp_next s2) (w_heap s2) (w_world s2)) (\<lambda>(n, nxt, h, w).
               Some (Inr (s2\<lparr>w_qp_next := nxt, w_heap := h, w_world := w\<rparr>)))
        else Some (Inr s2)) (\<lambda>s3.
     bind_exec (rx_burst api (w_qp_next s3) (w_heap s3) (w_world s3)) (\<lambda>(nb_rx, nxt, h, w).
       let (nb_direct_tx, nxt', prior) = direct_tx_burst nxt (w_qp_prior s3)
       in bind_exec (tx_flush api prior h w) (\<lambda>(nb_tx, prior', h', w').
            Some (Inr (s3\<lparr>w_qp_prior := prior', w_qp_next := nxt', w_heap := h', w_world := w'\<rparr>)))))))"

subsection \<open>The thread\<close>

definition read_tsc :: "'w soc_clock \<Rightarrow> ('u, 'w) SoCWrapper \<Rightarrow> u64 \<times> ('u, 'w) SoCWrapper" where
  "read_tsc clk s = (let (t, w) = rdtsc clk (w_world s) in (t, s\<lparr>w_world := w\<rparr>))"

text \<open>The first test of the loop: a launch when the interval has passed since the last one.\<close>

definition run_tick ::
  "'w soc_clock \<Rightarrow> 'w soc_verbs \<Rightarrow> ('u, 'w) SoCWrapperContext \<Rightarrow> u64 \<Rightarrow> u64 \<Rightarrow> ('u, 'w) SoCWrapper \<Rightarrow>
   (u64 \<times> ('u, 'w) SoCWrapper) exec" where
  "run_tick clk api ctx interval_tsc loop_tsc s =
     (let (t, s) = read_tsc clk s
      in if t - loop_tsc > interval_tsc
         then let (t', s) = read_tsc clk s
              in bind_exec (launch api ctx s) (\<lambda>s. Some (Inr (t', s)))
         else Some (Inr (loop_tsc, s)))"

partial_function (option) event_loop ::
  "'w soc_clock \<Rightarrow> 'w soc_verbs \<Rightarrow> ('u, 'w) SoCWrapperContext \<Rightarrow> u64 \<Rightarrow> u64 \<Rightarrow> u64 \<Rightarrow> u64 \<Rightarrow>
   ('u, 'w) SoCWrapper \<Rightarrow> ('u, 'w) SoCWrapper exec" where
  "event_loop clk api ctx interval_tsc timeout_tsc start_tsc loop_tsc s =
     bind_exec (run_tick clk api ctx interval_tsc loop_tsc s) (\<lambda>(loop_tsc, s).
       let (t, s) = read_tsc clk s
       in if t - start_tsc > timeout_tsc then Some (Inr s)
          else event_loop clk api ctx interval_tsc timeout_tsc start_tsc loop_tsc s)"

definition run_wrapper ::
  "'w soc_clock \<Rightarrow> 'w soc_verbs \<Rightarrow> ('u, 'w) SoCWrapperContext \<Rightarrow> real \<Rightarrow> ('u, 'w) SoCWrapper \<Rightarrow>
   ('u, 'w) SoCWrapper exec" where
  "run_wrapper clk api ctx seconds s =
     bind_exec (Some (measure_rdtsc_freq clk)) (\<lambda>freq_ghz.
       let timeout_tsc = ms_to_cycles (fp_round clk) (fp_round clk (1000 * seconds)) freq_ghz;
           interval_tsc = us_to_cycles (fp_round clk) 1 freq_ghz;
           (start_tsc, s) = read_tsc clk s
       in event_loop clk api ctx interval_tsc timeout_tsc start_tsc start_tsc s)"

text \<open>The thread of a SoC block: the whole constructor, which runs the datapath for ten seconds.\<close>

definition soc_wrapper_thread ::
  "'w soc_clock \<Rightarrow> 'w soc_verbs \<Rightarrow> ('u, 'w) SoCWrapperContext \<Rightarrow> soc_wrapper_type_t \<Rightarrow>
   RDMA_SoC_QP \<Rightarrow> RDMA_SoC_QP \<Rightarrow> heap \<Rightarrow> 'w \<Rightarrow> ('u, 'w) SoCWrapper exec" where
  "soc_wrapper_thread clk api ctx type prior nxt h w =
     bind_exec (Some (new_SoCWrapper ctx type prior nxt h w)) (run_wrapper clk api ctx 10)"

end
