(* ===== verification/SocDatapath.thy ===== *)
theory SocDatapath
  imports SocWrapper
begin

text \<open>
  Correctness of the SoC datapath: work request chains, the receive ring (\<open>ring_linked\<close>), the
  reposting loop ends, dispatching, collecting and direct forwarding keep order, and the
  transmit side sends every queued buffer once and in order.
\<close>

subsection \<open>Work request rings\<close>

text \<open>The links \<open>__init_recvs\<close> and \<open>__init_sends\<close> build: each request points to the next one.\<close>

definition wr_circular :: "nat \<Rightarrow> ptr list \<Rightarrow> bool" where
  "wr_circular n nxt \<longleftrightarrow> length nxt = n \<and> (\<forall>i<n. nxt ! i = Some ((i + 1) mod n))"

definition ring_indices :: "nat \<Rightarrow> nat \<Rightarrow> nat \<Rightarrow> nat list" where
  "ring_indices n i k = ring_slice n i k (\<lambda>j. j)"

lemma length_ring_indices [simp]: "length (ring_indices n i k) = k"
  by (simp add: ring_indices_def)

lemma ring_indices_0 [simp]: "ring_indices n i 0 = []"
  by (simp add: ring_indices_def)

lemma ring_indices_Suc: "ring_indices n i (Suc k) = i mod n # ring_indices n (Suc i) k"
  by (simp add: ring_indices_def ring_slice_Cons)

lemma ring_indices_mod [simp]: "ring_indices n (i mod n) k = ring_indices n i k"
  by (simp add: ring_indices_def)

lemma ring_slice_map: "ring_slice n i k f = map f (ring_indices n i k)"
  by (simp add: ring_indices_def ring_slice_def)

lemma distinct_ring_indices: "k \<le> n \<Longrightarrow> distinct (ring_indices n i k)"
  unfolding ring_indices_def ring_slice_def distinct_map
  by (auto intro!: inj_onI dest: mod_add_inj [rotated 2])

lemma ring_indices_less: "0 < n \<Longrightarrow> j \<in> set (ring_indices n i k) \<Longrightarrow> j < n"
  by (auto simp: ring_indices_def ring_slice_def)

text \<open>Cutting the ring after \<open>k\<close> requests leaves the chain of exactly those requests.\<close>

lemma wr_chain_cut:
  assumes "wr_circular n nxt" "0 < k" "k \<le> n" "k \<le> fuel" "i < n"
  shows "wr_chain fuel (nxt[(i + (k - 1)) mod n := None]) i = ring_indices n i k"
  using assms(2-)
proof (induction k arbitrary: i fuel)
  case 0
  then show ?case by simp
next
  case (Suc k)
  then obtain f where f: "fuel = Suc f" by (cases fuel) auto
  have n: "length nxt = n" "nxt ! i = Some ((i + 1) mod n)"
    using assms(1) Suc.prems by (auto simp: wr_circular_def)
  show ?case
  proof (cases "k = 0")
    case True
    with Suc.prems f n show ?thesis by (simp add: ring_indices_Suc)
  next
    case False
    have "(i + k) mod n \<noteq> i"
      using mod_add_inj [of k n 0 i] Suc.prems False by auto
    moreover have "(i + k) mod n = ((i + 1) mod n + (k - 1)) mod n"
      using False by (cases k) (simp_all add: mod_add_left_eq)
    ultimately show ?thesis
      using Suc.IH [of f "(i + 1) mod n"] Suc.prems f n False by (simp add: ring_indices_Suc)
  qed
qed

lemma last_index_mod:
  "i < n \<Longrightarrow> k \<le> n \<Longrightarrow> 0 < k \<Longrightarrow>
   (if n \<le> i + (k - 1) then i + (k - 1) - n else i + (k - 1)) = (i + (k - 1)) mod (n::nat)"
  by (auto simp: le_mod_geq)

lemma post_recvs_chain:
  assumes "wr_circular kNumRxRingEntries (recv_wr_next qp)" "0 < k" "k \<le> kNumRxRingEntries"
    "recv_head qp < kNumRxRingEntries"
  shows "post_recvs api k qp w =
    (let (ret, w') = post_recv api (qp_id qp)
           (map ((!) (recv_sgl qp)) (ring_indices kNumRxRingEntries (recv_head qp) k)) w
     in if ret \<noteq> 0 then Inl Nicc_Shutdown
        else Inr (qp\<lparr>recv_head := (recv_head qp + k) mod kNumRxRingEntries\<rparr>, w'))"
proof -
  let ?n = kNumRxRingEntries and ?i = "recv_head qp"
  have restore: "(recv_wr_next qp)[(?i + (k - 1)) mod ?n := None, (?i + (k - 1)) mod ?n := recv_wr_next qp ! ((?i + (k - 1)) mod ?n)] = recv_wr_next qp"
    by simp
  have head: "((?i + (k - 1)) mod ?n + 1) mod ?n = (?i + k) mod ?n"
    using assms(2) by (cases k) (simp_all add: mod_Suc_eq)
  show ?thesis
    unfolding post_recvs_def Let_def last_index_mod [OF assms(4,3,2)]
      wr_chain_cut [OF assms(1-3) order.refl [THEN order.trans, OF assms(3)] assms(4)] restore head
    by (simp add: case_prod_beta)
qed

subsection \<open>The receive ring\<close>

text \<open>
  The ring \<open>__init_recvs\<close> builds: every slot holds a live buffer of its own, and the \<open>next_\<close>
  pointers of the buffers follow the slots.
\<close>

definition next_is :: "heap \<Rightarrow> ptr \<Rightarrow> ptr \<Rightarrow> bool" where
  "next_is h p e \<longleftrightarrow> (case p of None \<Rightarrow> False
     | Some a \<Rightarrow> (case h a of None \<Rightarrow> False | Some b \<Rightarrow> b_next b = e))"

definition ring_linked :: "nat \<Rightarrow> ptr list \<Rightarrow> heap \<Rightarrow> bool" where
  "ring_linked n ring h \<longleftrightarrow> length ring = n \<and> distinct ring \<and>
     (\<forall>i<n. next_is h (ring ! i) (ring ! ((i + 1) mod n)))"

text \<open>A path along \<open>next_\<close> through the listed addresses, from pointer \<open>e\<close> to pointer \<open>e'\<close>.\<close>

fun path :: "heap \<Rightarrow> ptr \<Rightarrow> nat list \<Rightarrow> ptr \<Rightarrow> bool" where
  "path h e [] e' \<longleftrightarrow> e = e'"
| "path h e (a # as) e' \<longleftrightarrow> e = Some a \<and> (case h a of None \<Rightarrow> False | Some b \<Rightarrow> path h (b_next b) as e')"

definition slots :: "nat \<Rightarrow> ptr list \<Rightarrow> nat \<Rightarrow> nat \<Rightarrow> nat list" where
  "slots n ring i k = map (\<lambda>j. the (ring ! j)) (ring_indices n i k)"

lemma length_slots [simp]: "length (slots n ring i k) = k"
  by (simp add: slots_def)

lemma ring_linkedE:
  assumes "ring_linked n ring h" "i < n"
  obtains a b where "ring ! i = Some a" "h a = Some b" "b_next b = ring ! ((i + 1) mod n)"
proof -
  have "next_is h (ring ! i) (ring ! ((i + 1) mod n))"
    using assms by (simp add: ring_linked_def)
  then show thesis using that by (auto simp: next_is_def split: option.splits)
qed

lemma map_Some_slots:
  "ring_linked n ring h \<Longrightarrow> 0 < n \<Longrightarrow>
   map Some (slots n ring i k) = map ((!) ring) (ring_indices n i k)"
  by (auto simp: slots_def elim!: ring_linkedE dest!: ring_indices_less)

lemma distinct_slots:
  assumes "ring_linked n ring h" "k \<le> n"
  shows "distinct (slots n ring i k)"
proof (cases "k = 0")
  case False
  then have "0 < n" using assms(2) by simp
  have "distinct (map ((!) ring) (ring_indices n i k))"
    unfolding distinct_map
  proof (intro conjI inj_onI distinct_ring_indices assms(2))
    fix x y assume "x \<in> set (ring_indices n i k)" "y \<in> set (ring_indices n i k)" "ring ! x = ring ! y"
    then show "x = y"
      using assms(1) ring_indices_less [OF \<open>0 < n\<close>] by (metis nth_eq_iff_index_eq ring_linked_def)
  qed
  then show ?thesis
    unfolding map_Some_slots [OF assms(1) \<open>0 < n\<close>, symmetric] by (simp add: distinct_map)
qed (simp add: slots_def)

lemma ring_path:
  "ring_linked n ring h \<Longrightarrow> i < n \<Longrightarrow> path h (ring ! i) (slots n ring i k) (ring ! ((i + k) mod n))"
proof (induction k arbitrary: i)
  case 0
  then show ?case by (simp add: slots_def)
next
  case (Suc k)
  obtain a b where ab: "ring ! i = Some a" "h a = Some b" "b_next b = ring ! ((i + 1) mod n)"
    using Suc.prems by (rule ring_linkedE)
  have "path h (ring ! ((i + 1) mod n)) (slots n ring ((i + 1) mod n) k) (ring ! (((i + 1) mod n + k) mod n))"
    using Suc.prems by (intro Suc.IH) auto
  then show ?case using ab Suc.prems(2)
    by (simp add: slots_def ring_indices_Suc mod_add_left_eq)
qed

text \<open>Changing the states of a set of buffers.\<close>

definition mark :: "u8 \<Rightarrow> nat set \<Rightarrow> heap \<Rightarrow> heap" where
  "mark st A h = (\<lambda>a. if a \<in> A then map_option (\<lambda>b. b\<lparr>b_state := st\<rparr>) (h a) else h a)"

lemma mark_empty [simp]: "mark st {} h = h"
  by (simp add: mark_def)

lemma mark_insert: "mark st (insert a A) h = mark st A (set_state st a h)"
  by (auto simp: mark_def set_state_def option.map_comp o_def intro!: ext)

lemma set_state_mark: "set_state st a (mark st A h) = mark st (insert a A) h"
  by (auto simp: mark_def set_state_def option.map_comp o_def intro!: ext)

lemma mark_insert_commute: "a \<notin> A \<Longrightarrow> mark st A (set_state st' a h) = set_state st' a (mark st A h)"
  by (auto simp: mark_def set_state_def intro!: ext)

lemma mark_path: "path (mark st A h) e as e' = path h e as e'"
  by (induction as arbitrary: e) (auto simp: mark_def split: option.splits)

lemma set_state_path [simp]: "path (set_state st a h) e as e' = path h e as e'"
  using mark_path [of st "{a}" h] by (simp add: mark_insert)

lemma mark_next_is [simp]: "next_is (mark st A h) = next_is h"
  by (intro ext) (auto simp: next_is_def mark_def split: option.splits)

lemma mark_ring_linked [simp]: "ring_linked n ring (mark st A h) = ring_linked n ring h"
  by (simp add: ring_linked_def)

lemma path_live: "path h e as e' \<Longrightarrow> a \<in> set as \<Longrightarrow> \<exists>b. h a = Some b"
  by (induction as arbitrary: e) (auto split: option.splits)

subsection \<open>Reposting\<close>

definition state_of :: "heap \<Rightarrow> nat \<Rightarrow> u8 option" where
  "state_of h a = map_option b_state (h a)"

lemma repost_step:
  assumes "h a = Some b"
  shows "repost (Some a) n h = (if b_state b = kFREE_BUF then repost (b_next b) (Suc n) (set_state kPOSTED a h)
     else Some (Inr (n, h)))"
  using assms by (subst repost.simps) (simp add: deref_buf_def)

text \<open>
  The loop stops at the first buffer that is not free; a buffer it has already taken is not
  free any more, so it also stops after one turn round the ring.
\<close>

lemma repost_path:
  assumes "path h e as (Some z)" "distinct as" "\<And>a. a \<in> set as \<Longrightarrow> state_of h a = Some kFREE_BUF"
    and "mark kPOSTED (set as) h z = Some bz" "b_state bz \<noteq> kFREE_BUF"
  shows "repost e n h = Some (Inr (n + length as, mark kPOSTED (set as) h))"
  using assms
proof (induction as arbitrary: e n h)
  case Nil
  then show ?case by (simp add: repost_step)
next
  case (Cons a as)
  then obtain b where b: "e = Some a" "h a = Some b" "path h (b_next b) as (Some z)"
    by (auto split: option.splits)
  have free: "b_state b = kFREE_BUF" using Cons.prems(3) [of a] b by (simp add: state_of_def)
  let ?h = "set_state kPOSTED a h"
  have "state_of ?h x = Some kFREE_BUF" if "x \<in> set as" for x
    using Cons.prems(2,3) that by (auto simp: state_of_def set_state_def)
  then have "repost (b_next b) (Suc n) ?h = Some (Inr (Suc n + length as, mark kPOSTED (set as) ?h))"
    using Cons.prems b by (intro Cons.IH) (auto simp: mark_insert)
  then show ?case using b free by (simp add: repost_step mark_insert)
qed

definition free_run :: "nat \<Rightarrow> ptr list \<Rightarrow> nat \<Rightarrow> heap \<Rightarrow> nat" where
  "free_run n ring i h = length (takeWhile (\<lambda>a. state_of h a = Some kFREE_BUF) (slots n ring i n))"

lemma free_run_le: "free_run n ring i h \<le> n"
  using length_takeWhile_le [of _ "slots n ring i n"] by (simp add: free_run_def)

lemma take_slots: "k \<le> m \<Longrightarrow> take k (slots n ring i m) = slots n ring i k"
  by (simp add: slots_def ring_indices_def ring_slice_def take_map)

lemma repost_ring:
  assumes "ring_linked n ring h" "i < n"
  shows "repost (ring ! i) 0 h =
    Some (Inr (free_run n ring i h, mark kPOSTED (set (slots n ring i (free_run n ring i h))) h))"
proof -
  let ?k = "free_run n ring i h" and ?P = "\<lambda>a. state_of h a = Some kFREE_BUF"
  let ?as = "slots n ring i ?k"
  have as: "?as = takeWhile ?P (slots n ring i n)"
    by (metis free_run_def free_run_le take_slots takeWhile_eq_take)
  obtain z bz where z: "ring ! ((i + ?k) mod n) = Some z" "h z = Some bz"
    using ring_linkedE [OF assms(1), of "(i + ?k) mod n"] assms(2) by (metis mod_less_divisor gr_implies_not0 neq0_conv)
  have p: "path h (ring ! i) ?as (Some z)" using ring_path [OF assms, of ?k] z by simp
  have "\<exists>b. mark kPOSTED (set ?as) h z = Some b \<and> b_state b \<noteq> kFREE_BUF"
  proof (cases "?k = n")
    case True
    then have "ring ! i = Some z" using z assms(2) by simp
    then have "z \<in> set ?as"
      using assms True by (cases n) (simp_all add: slots_def ring_indices_Suc)
    then show ?thesis using z by (simp add: mark_def kFREE_BUF_def kPOSTED_def)
  next
    case False
    then have k: "?k < n" using free_run_le by (metis le_neq_implies_less)
    then have "slots n ring i n ! ?k = z"
      using z by (simp add: slots_def ring_indices_def ring_slice_def)
    then have "\<not> ?P z"
      using k nth_length_takeWhile [of ?P "slots n ring i n"] by (simp add: free_run_def)
    moreover from this have "z \<notin> set ?as" unfolding as by (metis set_takeWhileD)
    ultimately show ?thesis using z by (simp add: mark_def state_of_def)
  qed
  then obtain b where "mark kPOSTED (set ?as) h z = Some b" "b_state b \<noteq> kFREE_BUF" by blast
  moreover have "?P a" if "a \<in> set ?as" for a
    using that set_takeWhileD unfolding as by fast
  ultimately show ?thesis
    using repost_path [OF p distinct_slots [OF assms(1) free_run_le], of b 0] by simp
qed

subsection \<open>Receiving a burst\<close>

lemma set_lengths:
  assumes "ring_linked kNumRxRingEntries (rx_ring qp) h" "r \<le> kNumRxRingEntries"
  shows "\<exists>h'. fold_run (set_length qp lens) [0 ..< r] h = Inr h' \<and>
     state_of h' = state_of h \<and> next_is h' = next_is h \<and>
     (\<forall>i<r. \<exists>b. h' (the (rx_ring qp ! ((ring_head qp + wait_for_disp qp + i) mod kNumRxRingEntries))) = Some b \<and>
        b_length b = lens ! i)"
  using assms(2)
proof (induction r)
  case 0
  then show ?case by simp
next
  case (Suc r)
  let ?n = kNumRxRingEntries and ?s = "\<lambda>i. (ring_head qp + wait_for_disp qp + i) mod kNumRxRingEntries"
  obtain h1 where h1: "fold_run (set_length qp lens) [0 ..< r] h = Inr h1" "state_of h1 = state_of h"
    "next_is h1 = next_is h" "\<forall>i<r. \<exists>b. h1 (the (rx_ring qp ! ?s i)) = Some b \<and> b_length b = lens ! i"
    using Suc by auto
  then have linked: "ring_linked ?n (rx_ring qp) h1" using assms(1) by (simp add: ring_linked_def)
  have "?s r < ?n" using Suc.prems by simp
  with linked obtain a b where ab: "rx_ring qp ! ?s r = Some a" "h1 a = Some b"
    by (rule ring_linkedE)
  let ?h = "h1(a \<mapsto> b\<lparr>b_length := lens ! r\<rparr>)"
  have "fold_run (set_length qp lens) [0 ..< Suc r] h = Inr ?h"
    using h1 ab by (simp add: fold_run_append set_length_def deref_buf_def)
  moreover have "state_of ?h = state_of h1" using ab by (auto simp: state_of_def)
  moreover have "next_is ?h = next_is h1"
    using ab by (intro ext) (auto simp: next_is_def split: option.splits)
  moreover have "\<exists>b. ?h (the (rx_ring qp ! ?s i)) = Some b \<and> b_length b = lens ! i" if "i < Suc r" for i
  proof (cases "i = r")
    case True
    then show ?thesis using ab by simp
  next
    case False
    then have i: "i < r" using that by simp
    then have ne: "?s i \<noteq> ?s r"
      using Suc.prems mod_add_inj [of i ?n r] by auto
    have lt: "?s i < ?n" using Suc.prems by simp
    obtain a' b' where ab': "rx_ring qp ! ?s i = Some a'" "h1 a' = Some b'"
      using linked lt by (rule ring_linkedE)
    have "a' \<noteq> a"
      using ne lt \<open>?s r < ?n\<close> ab ab' linked nth_eq_iff_index_eq [of "rx_ring qp" "?s i" "?s r"]
      by (auto simp: ring_linked_def)
    with ab' h1(4) i show ?thesis by auto
  qed
  ultimately show ?case using h1 by auto
qed

lemma add_int_nonneg: "0 \<le> r \<Longrightarrow> n + nat r < 2 ^ 64 \<Longrightarrow> add_int n r = n + nat r"
  by (auto simp: add_int_def nat_add_distrib nat_mod_distrib)

text \<open>What a burst posts: the receive requests of the free run at the receive head.\<close>

definition rx_posted :: "RDMA_SoC_QP \<Rightarrow> heap \<Rightarrow> sge list" where
  "rx_posted qp h = map ((!) (recv_sgl qp))
     (ring_indices kNumRxRingEntries (recv_head qp) (free_run kNumRxRingEntries (rx_ring qp) (recv_head qp) h))"

lemma rx_burst_result:
  fixes api :: "'w soc_verbs" and w :: 'w
  defines "k \<equiv> \<lambda>qp h. free_run kNumRxRingEntries (rx_ring qp) (recv_head qp) h"
  assumes linked: "ring_linked kNumRxRingEntries (rx_ring qp) h" and head: "recv_head qp < kNumRxRingEntries"
    and wrs: "wr_circular kNumRxRingEntries (recv_wr_next qp)"
    and post: "(if rx_posted qp h = [] then (0, w) else post_recv api (qp_id qp) (rx_posted qp h) w) = (0, w1)"
    and poll: "poll_recv api (qp_id qp) kRxBatchSize w1 = ((int r, lens), w2)" and r: "r \<le> kNumRxRingEntries"
    and wait: "wait_for_disp qp + r < 2 ^ 64"
  shows "\<exists>h'. rx_burst api qp h w = Some (Inr (int r,
        qp\<lparr>recv_head := (recv_head qp + k qp h) mod kNumRxRingEntries, wait_for_disp := wait_for_disp qp + r\<rparr>, h', w2)) \<and>
      state_of h' = state_of (mark kPOSTED (set (slots kNumRxRingEntries (rx_ring qp) (recv_head qp) (k qp h))) h) \<and>
      next_is h' = next_is h \<and>
      (\<forall>i<r. \<exists>b. h' (the (rx_ring qp ! ((ring_head qp + wait_for_disp qp + i) mod kNumRxRingEntries))) = Some b \<and>
        b_length b = lens ! i)"
proof -
  let ?k = "k qp h" and ?n = kNumRxRingEntries
  let ?h1 = "mark kPOSTED (set (slots ?n (rx_ring qp) (recv_head qp) ?k)) h"
  let ?q1 = "qp\<lparr>recv_head := (recv_head qp + ?k) mod ?n\<rparr>"
  have le: "?k \<le> ?n" by (simp add: k_def free_run_le)
  have nil: "rx_posted qp h = [] \<longleftrightarrow> ?k = 0"
    by (auto simp: rx_posted_def k_def simp flip: length_0_conv)
  have rep: "repost (rx_ring qp ! recv_head qp) 0 h = Some (Inr (?k, ?h1))"
    using repost_ring [OF linked head] by (simp add: k_def)
  have pr: "(if ?k \<noteq> 0 then post_recvs api ?k qp w else Inr (qp, w)) = Inr (?q1, w1)"
    using post nil post_recvs_chain [OF wrs _ le head, of api w] head
    by (auto simp: rx_posted_def k_def split: if_splits)
  have l1: "ring_linked ?n (rx_ring ?q1) ?h1" using linked by simp
  obtain h2 where h2: "fold_run (set_length ?q1 lens) [0 ..< r] ?h1 = Inr h2" "state_of h2 = state_of ?h1"
    "next_is h2 = next_is ?h1"
    "\<forall>i<r. \<exists>b. h2 (the (rx_ring qp ! ((ring_head qp + wait_for_disp qp + i) mod ?n))) = Some b \<and> b_length b = lens ! i"
    using set_lengths [OF l1 r, of lens] by auto
  have "rx_burst api qp h w = Some (Inr (int r, ?q1\<lparr>wait_for_disp := wait_for_disp qp + r\<rparr>, h2, w2))"
    unfolding rx_burst_def rep bind_exec_simps prod.case pr using poll h2(1) wait
    by (simp add: add_int_nonneg)
  with h2 show ?thesis by auto
qed

subsection \<open>Dispatching\<close>

text \<open>How many buffers still fit into a queue.\<close>

definition queue_room :: "soc_shm_lock_free_queue \<Rightarrow> nat" where
  "queue_room q = queue_cap - length (queue_abs q)"

lemma dispatch_loop_path:
  assumes "path h e as e'" "distinct as" "queue_wf q"
  shows "\<exists>q'. dispatch_loop (length as) e t h q =
      Inr (t + min (length as) (queue_room q),
           mark kFREE_BUF (set (drop (queue_room q) as)) (mark kAPP_OWNED_BUF (set (take (queue_room q) as)) h), q') \<and>
    queue_wf q' \<and> queue_abs q' = queue_abs q @ map Some (take (queue_room q) as)"
  using assms
proof (induction as arbitrary: e t h q)
  case Nil
  then show ?case by simp
next
  case (Cons a as)
  then obtain b where b: "e = Some a" "h a = Some b" "path h (b_next b) as e'"
    by (auto split: option.splits)
  then have d: "deref_buf h e = Inr (a, b)" by (simp add: deref_buf_def)
  show ?case
  proof (cases "length (queue_abs q) < queue_cap")
    case True
    then obtain q1 where q1: "enqueue e q = (True, q1)" "queue_wf q1" "queue_abs q1 = queue_abs q @ [e]"
      using sq.enq_room [OF Cons.prems(3)] by blast
    then have room: "queue_room q = Suc (queue_room q1)" using True by (simp add: queue_room_def)
    have p1: "path (set_state kAPP_OWNED_BUF a h) (b_next b) as e'" using b by simp
    show ?thesis using Cons.IH [OF p1 _ q1(2), of "Suc t"] Cons.prems(2) q1 d room b(1)
      by (auto simp: mark_insert)
  next
    case False
    then have q1: "enqueue e q = (False, q)" and room: "queue_room q = 0"
      using sq.enq_full [OF Cons.prems(3)] by (simp_all add: queue_room_def)
    have p1: "path (set_state kFREE_BUF a h) (b_next b) as e'" using b by simp
    show ?thesis using Cons.IH [OF p1 _ Cons.prems(3), of t] Cons.prems(2) q1 d room
      by (auto simp: mark_insert)
  qed
qed

lemma dispatch_result:
  assumes linked: "ring_linked kNumRxRingEntries (rx_ring qp) h" and head: "ring_head qp < kNumRxRingEntries"
    and wait: "wait_for_disp qp \<le> kNumRxRingEntries" and q: "queue_wf q"
  defines "bufs \<equiv> slots kNumRxRingEntries (rx_ring qp) (ring_head qp) (wait_for_disp qp)"
  shows "\<exists>q'. dispatch_rx_pkts qp h q =
      Inr (min (length bufs) (queue_room q),
           qp\<lparr>ring_head := (ring_head qp + length bufs) mod kNumRxRingEntries, wait_for_disp := 0\<rparr>,
           mark kFREE_BUF (set (drop (queue_room q) bufs)) (mark kAPP_OWNED_BUF (set (take (queue_room q) bufs)) h), q') \<and>
    queue_wf q' \<and> queue_abs q' = queue_abs q @ map Some (take (queue_room q) bufs)"
  using dispatch_loop_path [OF ring_path [OF linked head] distinct_slots [OF linked wait] q, of 0]
  by (auto simp: dispatch_rx_pkts_def bufs_def)

subsection \<open>Worker and collection\<close>

lemma worker_one_forwards:
  assumes "queue_wf (w_rx_queue s)" "queue_wf (w_tx_queue s)" "queue_abs (w_rx_queue s) = m # ms"
    "length (queue_abs (w_tx_queue s)) < queue_cap"
  shows "queue_wf (w_rx_queue (worker_one ctx s)) \<and> queue_abs (w_rx_queue (worker_one ctx s)) = ms \<and>
    queue_wf (w_tx_queue (worker_one ctx s)) \<and>
    queue_abs (w_tx_queue (worker_one ctx s)) = queue_abs (w_tx_queue s) @ [m] \<and>
    w_qp_prior (worker_one ctx s) = w_qp_prior s \<and> w_qp_next (worker_one ctx s) = w_qp_next s"
proof -
  obtain rx where rx: "dequeue (w_rx_queue s) = (m, rx)" "queue_wf rx" "queue_abs rx = ms"
    using sq.deq_some [OF assms(1)] assms(3) by auto
  obtain tx where tx: "enqueue m (w_tx_queue s) = (True, tx)" "queue_wf tx"
    "queue_abs tx = queue_abs (w_tx_queue s) @ [m]"
    using sq.enq_room [OF assms(2,4)] by blast
  show ?thesis using rx tx
    by (simp add: worker_one_def Let_def split: option.split prod.split)
qed

lemma worker_loop_forwards:
  assumes "queue_wf (w_rx_queue s)" "queue_wf (w_tx_queue s)" "n \<le> length (queue_abs (w_rx_queue s))"
    "length (queue_abs (w_tx_queue s)) + n \<le> queue_cap"
  shows "queue_wf (w_rx_queue (worker_loop ctx n s)) \<and> queue_wf (w_tx_queue (worker_loop ctx n s)) \<and>
    queue_abs (w_rx_queue (worker_loop ctx n s)) = drop n (queue_abs (w_rx_queue s)) \<and>
    queue_abs (w_tx_queue (worker_loop ctx n s)) = queue_abs (w_tx_queue s) @ take n (queue_abs (w_rx_queue s)) \<and>
    w_qp_prior (worker_loop ctx n s) = w_qp_prior s \<and> w_qp_next (worker_loop ctx n s) = w_qp_next s"
  using assms
proof (induction n arbitrary: s)
  case 0
  then show ?case by simp
next
  case (Suc n)
  then obtain m ms where m: "queue_abs (w_rx_queue s) = m # ms"
    by (cases "queue_abs (w_rx_queue s)") auto
  have "length (queue_abs (w_tx_queue s)) < queue_cap" using Suc.prems(4) by simp
  note w = worker_one_forwards [OF Suc.prems(1,2) m this, of ctx]
  have "n \<le> length (queue_abs (w_rx_queue (worker_one ctx s)))"
    using Suc.prems(3) m w by (metis Suc_le_mono length_Cons)
  moreover have "length (queue_abs (w_tx_queue (worker_one ctx s))) + n \<le> queue_cap"
    using Suc.prems(4) w by (metis add_Suc_right add_Suc length_append_singleton)
  ultimately show ?case using Suc.IH [of "worker_one ctx s"] w m by simp
qed

lemma worker_phase_forwards:
  assumes "queue_wf (w_rx_queue s)" "queue_wf (w_tx_queue s)"
    "length (queue_abs (w_tx_queue s)) + length (queue_abs (w_rx_queue s)) \<le> queue_cap"
  defines "n \<equiv> (if length (queue_abs (w_rx_queue s)) > kAppRxMsgBatchSize
                then length (queue_abs (w_rx_queue s)) else 0)"
  shows "queue_wf (w_rx_queue (worker_phase ctx s)) \<and> queue_wf (w_tx_queue (worker_phase ctx s)) \<and>
    queue_abs (w_rx_queue (worker_phase ctx s)) = drop n (queue_abs (w_rx_queue s)) \<and>
    queue_abs (w_tx_queue (worker_phase ctx s)) = queue_abs (w_tx_queue s) @ take n (queue_abs (w_rx_queue s)) \<and>
    w_qp_prior (worker_phase ctx s) = w_qp_prior s \<and> w_qp_next (worker_phase ctx s) = w_qp_next s"
proof -
  have "worker_phase ctx s = worker_loop ctx n s"
    using get_size_count [OF assms(1)] by (simp add: worker_phase_def n_def Let_def)
  moreover have "n \<le> length (queue_abs (w_rx_queue s))" by (simp add: n_def)
  moreover have "length (queue_abs (w_tx_queue s)) + n \<le> queue_cap" using assms(3) by (simp add: n_def)
  ultimately show ?thesis using worker_loop_forwards [OF assms(1,2)] by metis
qed

lemma take_Suc_update:
  "i < length xs \<Longrightarrow> take (Suc i) (xs[i := x]) = take i xs @ [x]"
  by (simp add: take_Suc_conv_app_nth)

lemma collect_loop_result:
  assumes "queue_wf q" "n \<le> length (queue_abs q)" "tx_queue_idx qp + n \<le> length (tx_queue qp)"
  shows "\<exists>txq q'. collect_loop n qp q = (qp\<lparr>tx_queue := txq, tx_queue_idx := tx_queue_idx qp + n\<rparr>, q') \<and>
    length txq = length (tx_queue qp) \<and>
    take (tx_queue_idx qp + n) txq = take (tx_queue_idx qp) (tx_queue qp) @ take n (queue_abs q) \<and>
    queue_wf q' \<and> queue_abs q' = drop n (queue_abs q)"
  using assms
proof (induction n arbitrary: qp q)
  case 0
  then show ?case by (intro exI [of _ "tx_queue qp"]) simp
next
  case (Suc n)
  obtain m ms where m: "queue_abs q = m # ms" using Suc.prems(2) by (cases "queue_abs q") auto
  obtain q1 where q1: "dequeue q = (m, q1)" "queue_wf q1" "queue_abs q1 = ms"
    using sq.deq_some [OF Suc.prems(1)] m by auto
  let ?qp = "qp\<lparr>tx_queue := (tx_queue qp)[tx_queue_idx qp := m], tx_queue_idx := Suc (tx_queue_idx qp)\<rparr>"
  have "n \<le> length (queue_abs q1)" using Suc.prems(2) m q1(3) by (metis Suc_le_mono length_Cons)
  moreover have "tx_queue_idx ?qp + n \<le> length (tx_queue ?qp)" using Suc.prems(3) by simp
  ultimately obtain txq q2 where "collect_loop n ?qp q1 = (?qp\<lparr>tx_queue := txq, tx_queue_idx := tx_queue_idx ?qp + n\<rparr>, q2)"
    "length txq = length (tx_queue ?qp)"
    "take (tx_queue_idx ?qp + n) txq = take (tx_queue_idx ?qp) (tx_queue ?qp) @ take n (queue_abs q1)"
    "queue_wf q2" "queue_abs q2 = drop n (queue_abs q1)"
    using Suc.IH [OF q1(2)] by blast
  then show ?case using q1 m Suc.prems(3) by (auto simp: take_Suc_update)
qed

lemma collect_result:
  assumes "queue_wf q" "length (tx_queue qp) = kNumTxRingEntries" "tx_queue_idx qp \<le> kNumTxRingEntries"
  defines "n \<equiv> min (length (queue_abs q)) (kNumTxRingEntries - tx_queue_idx qp)"
  shows "\<exists>txq q'. collect_tx_pkts qp q = (n, qp\<lparr>tx_queue := txq, tx_queue_idx := tx_queue_idx qp + n\<rparr>, q') \<and>
    length txq = kNumTxRingEntries \<and>
    take (tx_queue_idx qp + n) txq = take (tx_queue_idx qp) (tx_queue qp) @ take n (queue_abs q) \<and>
    queue_wf q' \<and> queue_abs q' = drop n (queue_abs q)"
proof -
  have n: "(if unat (get_size q) > kNumTxRingEntries - tx_queue_idx qp then kNumTxRingEntries - tx_queue_idx qp
      else unat (get_size q)) = n"
    using get_size_count [OF assms(1)] by (simp add: n_def)
  show ?thesis
    using collect_loop_result [OF assms(1), of n qp] assms(2,3)
    unfolding collect_tx_pkts_def Let_def n by (auto simp: n_def)
qed

subsection \<open>Direct forwarding\<close>

lemma direct_move_fold:
  assumes "tx_queue_idx qp + n \<le> length (tx_queue qp)"
  shows "\<exists>txq. fold (direct_move rx) [0 ..< n] qp = qp\<lparr>tx_queue := txq, tx_queue_idx := tx_queue_idx qp + n\<rparr> \<and>
    length txq = length (tx_queue qp) \<and>
    take (tx_queue_idx qp + n) txq = take (tx_queue_idx qp) (tx_queue qp) @
      map ((!) (rx_ring rx)) (ring_indices kNumRxRingEntries (ring_head rx) n)"
  using assms
proof (induction n)
  case 0
  then show ?case by (intro exI [of _ "tx_queue qp"]) simp
next
  case (Suc n)
  then obtain txq where txq: "fold (direct_move rx) [0 ..< n] qp = qp\<lparr>tx_queue := txq, tx_queue_idx := tx_queue_idx qp + n\<rparr>"
    "length txq = length (tx_queue qp)"
    "take (tx_queue_idx qp + n) txq = take (tx_queue_idx qp) (tx_queue qp) @
      map ((!) (rx_ring rx)) (ring_indices kNumRxRingEntries (ring_head rx) n)"
    by auto
  then have "fold (direct_move rx) [0 ..< Suc n] qp =
      direct_move rx n (qp\<lparr>tx_queue := txq, tx_queue_idx := tx_queue_idx qp + n\<rparr>)"
    by simp
  also have "\<dots> = qp\<lparr>tx_queue := txq[tx_queue_idx qp + n := rx_ring rx ! ((ring_head rx + n) mod kNumRxRingEntries)],
      tx_queue_idx := tx_queue_idx qp + Suc n\<rparr>"
    by (simp add: direct_move_def)
  finally show ?case using txq(2,3) Suc.prems
    by (auto simp: take_Suc_update ring_indices_def ring_slice_Suc)
qed

lemma direct_result:
  fixes rx tx :: RDMA_SoC_QP
  assumes "length (tx_queue tx) = kNumTxRingEntries" "tx_queue_idx tx \<le> kNumTxRingEntries"
  defines "n \<equiv> min (wait_for_disp rx) (kNumTxRingEntries - tx_queue_idx tx)"
  shows "\<exists>txq. direct_tx_burst rx tx =
      (n, rx\<lparr>ring_head := (ring_head rx + n) mod kNumRxRingEntries, wait_for_disp := wait_for_disp rx - n\<rparr>,
       tx\<lparr>tx_queue := txq, tx_queue_idx := tx_queue_idx tx + n\<rparr>) \<and>
    length txq = kNumTxRingEntries \<and>
    take (tx_queue_idx tx + n) txq = take (tx_queue_idx tx) (tx_queue tx) @
      map ((!) (rx_ring rx)) (ring_indices kNumRxRingEntries (ring_head rx) n)"
proof -
  have n: "(if kNumTxRingEntries - tx_queue_idx tx > wait_for_disp rx then wait_for_disp rx
      else kNumTxRingEntries - tx_queue_idx tx) = n"
    by (simp add: n_def)
  show ?thesis
    using direct_move_fold [of tx n rx] assms(1,2) unfolding direct_tx_burst_def Let_def n
    by (auto simp: n_def)
qed

subsection \<open>The transmit side\<close>

text \<open>
  With \<open>n\<close> sends outstanding: the ring positions, and a live buffer in each software slot that a
  completion will free.
\<close>

definition live_ptr :: "heap \<Rightarrow> ptr \<Rightarrow> bool" where
  "live_ptr h p \<longleftrightarrow> (case p of None \<Rightarrow> False | Some a \<Rightarrow> h a \<noteq> None)"

definition send_ring :: "nat \<Rightarrow> RDMA_SoC_QP \<Rightarrow> heap \<Rightarrow> bool" where
  "send_ring n qp h \<longleftrightarrow> length (sw_ring qp) = kNumTxRingEntries \<and>
     length (send_sgl qp) = kNumTxRingEntries \<and> wr_circular kNumTxRingEntries (send_wr_next qp) \<and>
     send_head qp < kNumTxRingEntries \<and> n \<le> kNumTxRingEntries \<and>
     send_tail qp = (send_head qp + n) mod kNumTxRingEntries \<and>
     (\<forall>i<n. live_ptr h (sw_ring qp ! ((send_head qp + i) mod kNumTxRingEntries)))"

definition send_wf :: "nat \<Rightarrow> RDMA_SoC_QP \<Rightarrow> heap \<Rightarrow> bool" where
  "send_wf n qp h \<longleftrightarrow> send_ring n qp h \<and> free_send_wr_num qp = kNumTxRingEntries - n"

text \<open>What a send reads from a buffer, and heaps that agree on it.\<close>

definition buf_sge :: "heap \<Rightarrow> ptr \<Rightarrow> sge" where
  "buf_sge h p = sge_of (the (h (the p)))"

definition same_data :: "heap \<Rightarrow> heap \<Rightarrow> bool" where
  "same_data h h' \<longleftrightarrow> (\<forall>a. map_option sge_of (h' a) = map_option sge_of (h a))"

lemma same_data_refl [simp]: "same_data h h"
  by (simp add: same_data_def)

lemma same_data_trans: "same_data h h' \<Longrightarrow> same_data h' h'' \<Longrightarrow> same_data h h''"
  by (simp add: same_data_def)

lemma sge_of_state [simp]: "sge_of (b\<lparr>b_state := st\<rparr>) = sge_of b"
  by (simp add: sge_of_def)

lemma same_data_set_state [simp]: "same_data h (set_state st a h)"
  by (auto simp: same_data_def set_state_def option.map_comp o_def)

lemma same_data_live: "same_data h h' \<Longrightarrow> live_ptr h' p = live_ptr h p"
proof -
  assume "same_data h h'"
  then have "map_option sge_of (h' a) = None \<longleftrightarrow> map_option sge_of (h a) = None" for a
    by (simp add: same_data_def)
  then show ?thesis by (simp add: live_ptr_def split: option.split)
qed

lemma same_data_sge: "same_data h h' \<Longrightarrow> live_ptr h p \<Longrightarrow> buf_sge h' p = buf_sge h p"
proof -
  assume same: "same_data h h'" and "live_ptr h p"
  then obtain a b where b: "p = Some a" "h a = Some b"
    by (auto simp: live_ptr_def split: option.splits)
  then have "map_option sge_of (h' a) = Some (sge_of b)" using same by (simp add: same_data_def)
  with b show ?thesis by (auto simp: buf_sge_def)
qed

lemma live_deref: "live_ptr h p \<Longrightarrow> \<exists>a b. deref_buf h p = Inr (a, b) \<and> p = Some a \<and> h a = Some b"
  by (auto simp: live_ptr_def deref_buf_def split: option.splits)

text \<open>The buffers of the \<open>n\<close> outstanding sends, oldest first.\<close>

definition sending :: "RDMA_SoC_QP \<Rightarrow> nat \<Rightarrow> ptr list" where
  "sending qp n = ring_slice kNumTxRingEntries (send_head qp) n ((!) (sw_ring qp))"

lemma length_sending [simp]: "length (sending qp n) = n"
  by (simp add: sending_def)

lemma sending_0 [simp]: "sending qp 0 = []"
  by (simp add: sending_def)

lemma sending_Suc: "sending qp (Suc n) = sending qp n @ [sw_ring qp ! ((send_head qp + n) mod kNumTxRingEntries)]"
  by (simp add: sending_def ring_slice_Suc)

lemma sending_take: "r \<le> n \<Longrightarrow> take r (sending qp n) = sending qp r"
  by (simp add: sending_def ring_slice_def take_map)

lemma sending_complete:
  assumes "r \<le> n"
  shows "sending (qp\<lparr>send_head := (send_head qp + r) mod kNumTxRingEntries\<rparr>) (n - r) = drop r (sending qp n)"
proof -
  obtain m where "n = r + m" using assms by (metis le_Suc_ex)
  then show ?thesis by (simp add: sending_def ring_slice_append)
qed

lemma complete_run:
  assumes "send_ring n qp h" "r \<le> n"
  shows "\<exists>h'. fold_run complete_one [0 ..< r] (qp, h) =
      Inr (qp\<lparr>send_head := (send_head qp + r) mod kNumTxRingEntries\<rparr>, h') \<and> same_data h h' \<and>
      h' = mark kFREE_BUF (the ` set (sending qp r)) h"
  using assms(2)
proof (induction r)
  case 0
  then show ?case using assms(1) by (auto simp: send_ring_def)
next
  case (Suc r)
  then obtain h1 where h1: "fold_run complete_one [0 ..< r] (qp, h) =
      Inr (qp\<lparr>send_head := (send_head qp + r) mod kNumTxRingEntries\<rparr>, h1)" "same_data h h1"
    "h1 = mark kFREE_BUF (the ` set (sending qp r)) h"
    by auto
  have "live_ptr h1 (sw_ring qp ! ((send_head qp + r) mod kNumTxRingEntries))"
    using assms(1) Suc.prems same_data_live [OF h1(2)] by (simp add: send_ring_def)
  then obtain a b where "deref_buf h1 (sw_ring qp ! ((send_head qp + r) mod kNumTxRingEntries)) = Inr (a, b)"
    "sw_ring qp ! ((send_head qp + r) mod kNumTxRingEntries) = Some a"
    using live_deref by blast
  then have "fold_run complete_one [0 ..< Suc r] (qp, h) =
      Inr (qp\<lparr>send_head := (send_head qp + Suc r) mod kNumTxRingEntries\<rparr>, set_state kFREE_BUF a h1)"
    using h1(1) by (simp add: fold_run_append complete_one_def mod_Suc_eq)
  moreover have "set_state kFREE_BUF a h1 = mark kFREE_BUF (the ` set (sending qp (Suc r))) h"
    using h1(3) \<open>_ = Some a\<close> by (simp add: sending_Suc set_state_mark)
  ultimately show ?case using same_data_trans [OF h1(2)] by (metis same_data_set_state)
qed

lemma send_ring_complete:
  assumes "send_ring n qp h" "r \<le> n" "same_data h h'"
  shows "send_ring (n - r) (qp\<lparr>free_send_wr_num := f, send_head := (send_head qp + r) mod kNumTxRingEntries\<rparr>) h'"
proof -
  have "live_ptr h' (sw_ring qp ! ((send_head qp + (r + i)) mod kNumTxRingEntries))" if "i < n - r" for i
    using assms that by (simp add: send_ring_def same_data_live)
  moreover have "(send_head qp + n) mod kNumTxRingEntries =
      ((send_head qp + r) mod kNumTxRingEntries + (n - r)) mod kNumTxRingEntries"
  proof -
    obtain m where "n = r + m" using assms(2) by (metis le_Suc_ex)
    then show ?thesis by (simp add: mod_add_left_eq add.assoc)
  qed
  ultimately show ?thesis using assms by (auto simp: send_ring_def mod_add_left_eq add.assoc)
qed

text \<open>Mounting a list of live buffers uses the free work requests in ring order.\<close>

lemma send_ring_mount_one:
  assumes "send_ring n qp h" "n < kNumTxRingEntries" "live_ptr h m"
  shows "send_ring (Suc n) (qp\<lparr>send_sgl := (send_sgl qp)[send_tail qp := x],
      sw_ring := (sw_ring qp)[send_tail qp := m],
      send_tail := (send_tail qp + 1) mod kNumTxRingEntries, free_send_wr_num := f\<rparr>)
    (set_state kPOSTED a h)"
proof -
  let ?n = kNumTxRingEntries
  have t: "send_tail qp = (send_head qp + n) mod ?n" "send_tail qp < ?n" "length (sw_ring qp) = ?n"
    using assms(1,2) by (auto simp: send_ring_def)
  have "live_ptr h ((sw_ring qp)[send_tail qp := m] ! ((send_head qp + i) mod ?n))" if "i < Suc n" for i
  proof (cases "i = n")
    case True
    with t assms(3) show ?thesis by simp
  next
    case False
    with that have "i < n" by simp
    then have "(send_head qp + i) mod ?n \<noteq> send_tail qp"
      using t mod_add_inj [of i ?n n "send_head qp"] assms(2) by auto
    with \<open>i < n\<close> assms(1) show ?thesis by (simp add: send_ring_def)
  qed
  then have "\<forall>i<Suc n. live_ptr (set_state kPOSTED a h) ((sw_ring qp)[send_tail qp := m] ! ((send_head qp + i) mod ?n))"
    using same_data_live [OF same_data_set_state, of kPOSTED a h] by blast
  moreover have "(send_tail qp + 1) mod ?n = (send_head qp + Suc n) mod ?n"
    using t(1) by (simp add: mod_Suc_eq)
  ultimately show ?thesis using assms(1,2) by (simp add: send_ring_def)
qed

definition mounted :: "RDMA_SoC_QP \<Rightarrow> RDMA_SoC_QP \<Rightarrow> heap \<Rightarrow> ptr list \<Rightarrow> bool" where
  "mounted qp qp' h ms \<longleftrightarrow>
     map ((!) (send_sgl qp')) (ring_indices kNumTxRingEntries (send_tail qp) (length ms)) = map (buf_sge h) ms \<and>
     (\<exists>sgl sw t f. qp' = qp\<lparr>send_sgl := sgl, sw_ring := sw, send_tail := t, free_send_wr_num := f\<rparr>)"

lemma mounted_refl: "mounted qp qp h []"
proof -
  have "qp = qp\<lparr>send_sgl := send_sgl qp, sw_ring := sw_ring qp, send_tail := send_tail qp,
      free_send_wr_num := free_send_wr_num qp\<rparr>"
    by simp
  then show ?thesis unfolding mounted_def by (simp only: list.size list.map ring_indices_0) blast
qed

lemma sending_mount:
  assumes "send_ring n qp h" "n < kNumTxRingEntries"
  shows "sending (qp\<lparr>send_sgl := x, sw_ring := (sw_ring qp)[send_tail qp := m], send_tail := t,
      free_send_wr_num := f\<rparr>) (Suc n) = sending qp n @ [m]"
proof -
  let ?n = kNumTxRingEntries and ?sw = "(sw_ring qp)[send_tail qp := m]"
  have t: "send_tail qp = (send_head qp + n) mod ?n" "send_tail qp < ?n" "length (sw_ring qp) = ?n"
    using assms by (auto simp: send_ring_def)
  have "(send_head qp + i) mod ?n \<noteq> send_tail qp" if "i < n" for i
    using t that mod_add_inj [of i ?n n "send_head qp"] assms(2) by auto
  then have "ring_slice ?n (send_head qp) n ((!) ?sw) = ring_slice ?n (send_head qp) n ((!) (sw_ring qp))"
    by (intro ring_slice_cong) (metis nth_list_update_neq)
  then show ?thesis using t by (simp add: sending_def ring_slice_Suc)
qed

lemma mount_run:
  assumes "send_wf n qp h" "\<forall>m \<in> set ms. live_ptr h m"
    and "k = min (length ms) (kNumTxRingEntries - n)"
  shows "\<exists>qp' h'. mount ms c tail qp h =
      Inr (c + k, (if k = 0 then tail else Some ((send_tail qp + (k - 1)) mod kNumTxRingEntries)), qp', h') \<and>
    send_wf (n + k) qp' h' \<and> same_data h h' \<and> mounted qp qp' h (take k ms) \<and>
    (\<forall>j<kNumTxRingEntries. j \<notin> set (ring_indices kNumTxRingEntries (send_tail qp) k) \<longrightarrow>
       send_sgl qp' ! j = send_sgl qp ! j) \<and>
    sending qp' (n + k) = sending qp n @ take k ms \<and> h' = mark kPOSTED (the ` set (take k ms)) h"
  using assms
proof (induction ms arbitrary: n qp h c tail k)
  case Nil
  then show ?case by (simp add: mounted_refl)
next
  case (Cons m ms)
  let ?n = kNumTxRingEntries
  show ?case
  proof (cases "n = ?n")
    case True
    then have "free_send_wr_num qp = 0" "k = 0"
      using Cons.prems(1,3) by (simp_all add: send_wf_def)
    then show ?thesis using Cons.prems(1) by (simp add: mounted_refl)
  next
    case False
    then have n: "n < ?n" and ring: "send_ring n qp h" and free: "free_send_wr_num qp = ?n - n"
      using Cons.prems(1) by (auto simp: send_wf_def send_ring_def)
    obtain a b where ab: "deref_buf h m = Inr (a, b)" "m = Some a" "h a = Some b"
      using live_deref [of h m] Cons.prems(2) by auto
    define q1 where "q1 = qp\<lparr>send_sgl := (send_sgl qp)[send_tail qp := sge_of b],
             sw_ring := (sw_ring qp)[send_tail qp := m],
             send_tail := (send_tail qp + 1) mod ?n, free_send_wr_num := free_send_wr_num qp - 1\<rparr>"
    define h1 where "h1 = set_state kPOSTED a h"
    have wf1: "send_wf (Suc n) q1 h1"
      using send_ring_mount_one [OF ring n] Cons.prems(2) free
      by (auto simp: send_wf_def q1_def h1_def)
    have same: "same_data h h1" by (simp add: h1_def)
    then have live1: "\<forall>m \<in> set ms. live_ptr h1 m" using Cons.prems(2) same_data_live by simp
    define k1 where "k1 = min (length ms) (?n - Suc n)"
    have k: "k = Suc k1" using n by (simp add: Cons.prems(3) k1_def)
    obtain q2 h2 where IH: "mount ms (Suc c) (Some (send_tail qp)) q1 h1 =
        Inr (Suc c + k1, (if k1 = 0 then Some (send_tail qp) else Some ((send_tail q1 + (k1 - 1)) mod ?n)), q2, h2)"
      "send_wf (Suc n + k1) q2 h2" "same_data h1 h2" "mounted q1 q2 h1 (take k1 ms)"
      "\<forall>j<?n. j \<notin> set (ring_indices ?n (send_tail q1) k1) \<longrightarrow> send_sgl q2 ! j = send_sgl q1 ! j"
      "sending q2 (Suc n + k1) = sending q1 (Suc n) @ take k1 ms"
      "h2 = mark kPOSTED (the ` set (take k1 ms)) h1"
      using Cons.IH [OF wf1 live1 k1_def] by metis
    have "sending q2 (n + k) = sending qp n @ take k (m # ms)"
      using IH(6) sending_mount [OF ring n] by (simp add: q1_def k)
    moreover have "h2 = mark kPOSTED (the ` set (take k (m # ms))) h"
      using IH(7) ab(2) by (simp add: h1_def k mark_insert)
    note sent = calculation this
    have t: "send_tail qp < ?n" "send_tail q1 = (send_tail qp + 1) mod ?n" "length (send_sgl qp) = ?n"
      using ring n by (auto simp: send_ring_def q1_def)
    have res: "mount (m # ms) c tail qp h = mount ms (Suc c) (Some (send_tail qp)) q1 h1"
      using ab(1) free n by (simp add: q1_def h1_def)
    have ri: "ring_indices ?n (send_tail qp) k = send_tail qp # ring_indices ?n (send_tail q1) k1"
      using t by (simp add: k ring_indices_Suc)
    have "distinct (ring_indices ?n (send_tail qp) k)"
      using n by (intro distinct_ring_indices) (simp add: k k1_def)
    then have "send_sgl q2 ! send_tail qp = sge_of b"
      using IH(5) t unfolding ri by (simp add: q1_def)
    moreover have "map (buf_sge h1) (take k1 ms) = map (buf_sge h) (take k1 ms)"
      using Cons.prems(2) same_data_sge [OF same] by (auto dest!: in_set_takeD)
    moreover have "length (take k1 ms) = k1" "length (take k (m # ms)) = k"
      by (simp_all add: k k1_def)
    ultimately have "mounted qp q2 h (take k (m # ms))"
      using IH(4) ab(2,3) unfolding mounted_def
      by (auto simp: ri [unfolded k] k q1_def buf_sge_def [of h "Some a"] simp del: map_eq_conv)
    moreover have "(send_tail q1 + (k1 - 1)) mod ?n = (send_tail qp + (k - 1)) mod ?n" if "k1 \<noteq> 0"
      using that t(2) by (cases k1) (simp_all add: k mod_Suc_eq mod_add_left_eq)
    moreover have "send_sgl q2 ! j = send_sgl qp ! j"
      if "j < ?n" "j \<notin> set (ring_indices ?n (send_tail qp) k)" for j
      using that IH(5) by (auto simp: ri q1_def)
    ultimately show ?thesis using res IH(1-3) t(1) same_data_trans [OF same] k sent by auto
  qed
qed

text \<open>
  What the send queue of the NIC does, as verbs document it: with \<open>outst w\<close> requests outstanding
  and \<open>sent w\<close> the requests it has accepted, a poll reports some of the outstanding ones, a post
  that fits is accepted whole, and a full queue completes a request after at most \<open>delay w\<close> empty
  polls.
\<close>

definition send_nic ::
  "'w soc_verbs \<Rightarrow> nat \<Rightarrow> ('w \<Rightarrow> nat) \<Rightarrow> ('w \<Rightarrow> sge list) \<Rightarrow> ('w \<Rightarrow> nat) \<Rightarrow> bool" where
  "send_nic api q outst sent delay \<longleftrightarrow>
     (\<forall>w n. case poll_send api q n w of (r, w') \<Rightarrow>
        0 \<le> r \<and> nat r \<le> outst w \<and> outst w' = outst w - nat r \<and> sent w' = sent w \<and>
        (outst w = kNumTxRingEntries \<longrightarrow> 0 < r \<or> delay w' < delay w)) \<and>
     (\<forall>w l. outst w + length l \<le> kNumTxRingEntries \<longrightarrow>
        (case post_send api q l w of (r, w') \<Rightarrow>
           r = 0 \<and> outst w' = outst w + length l \<and> sent w' = sent w @ l))"

definition sent_ok ::
  "('w \<Rightarrow> nat) \<Rightarrow> ('w \<Rightarrow> sge list) \<Rightarrow> ptr list \<Rightarrow> RDMA_SoC_QP \<Rightarrow> heap \<Rightarrow> 'w \<Rightarrow>
   RDMA_SoC_QP \<Rightarrow> heap \<Rightarrow> 'w \<Rightarrow> bool" where
  "sent_ok outst sent ms qp h w qp' h' w' \<longleftrightarrow>
     send_wf (outst w') qp' h' \<and> same_data h h' \<and> sent w' = sent w @ map (buf_sge h) ms \<and>
     qp_id qp' = qp_id qp \<and> tx_queue qp' = tx_queue qp \<and> tx_queue_idx qp' = tx_queue_idx qp \<and>
     rx_ring qp' = rx_ring qp \<and> recv_head qp' = recv_head qp \<and> ring_head qp' = ring_head qp \<and>
     wait_for_disp qp' = wait_for_disp qp"

lemma sent_ok_trans:
  assumes "sent_ok outst sent ms qp h w q1 h1 w1" "sent_ok outst sent ms' q1 h1 w1 q2 h2 w2"
    "\<forall>m \<in> set ms'. live_ptr h m"
  shows "sent_ok outst sent (ms @ ms') qp h w q2 h2 w2"
proof -
  have "map (buf_sge h1) ms' = map (buf_sge h) ms'"
    using assms(1,3) same_data_sge by (auto simp: sent_ok_def)
  then show ?thesis using assms(1,2) same_data_trans by (auto simp: sent_ok_def)
qed

lemma tx_burst_exact:
  assumes nic: "send_nic api (qp_id qp) outst sent delay"
    and wf: "send_wf (outst w) qp h" and live: "\<forall>m \<in> set ms. live_ptr h m"
  shows "\<exists>k qp' h' w'. tx_burst api ms qp h w = Inr (k, qp', h', w') \<and> k \<le> length ms \<and>
    sent_ok outst sent (take k ms) qp h w qp' h' w' \<and> (ms \<noteq> [] \<longrightarrow> 0 < k \<or> delay w' < delay w) \<and>
    (\<exists>r \<le> outst w. outst w' = outst w - r + k \<and>
       sending qp' (outst w') = drop r (sending qp (outst w)) @ take k ms \<and>
       h' = mark kPOSTED (the ` set (take k ms)) (mark kFREE_BUF (the ` set (take r (sending qp (outst w)))) h)) \<and>
    (\<exists>sgl sw hd tl f. qp' = qp\<lparr>send_sgl := sgl, send_head := hd, sw_ring := sw, send_tail := tl, free_send_wr_num := f\<rparr>)"
proof -
  let ?n = kNumTxRingEntries
  have ring: "send_ring (outst w) qp h" and free: "free_send_wr_num qp = ?n - outst w"
    and le: "outst w \<le> ?n"
    using wf by (auto simp: send_wf_def send_ring_def)
  obtain r w1 where poll: "poll_send api (qp_id qp) ?n w = (r, w1)" by (cases "poll_send api (qp_id qp) ?n w")
  then have p: "0 \<le> r" "nat r \<le> outst w" "outst w1 = outst w - nat r" "sent w1 = sent w"
    "outst w = ?n \<longrightarrow> 0 < r \<or> delay w1 < delay w"
    using nic by (auto simp: send_nic_def dest!: spec [of _ w] spec [of _ ?n])
  define f where "f = ?n - outst w1"
  have f: "add_int (free_send_wr_num qp) r = f"
    using p le free add_int_nonneg [OF p(1), of "free_send_wr_num qp"]
    by (simp add: f_def kNumTxRingEntries_def)
  let ?q0 = "qp\<lparr>free_send_wr_num := f\<rparr>"
  have "send_ring (outst w) ?q0 h" using ring by (simp add: send_ring_def)
  define q1 where "q1 = ?q0\<lparr>send_head := (send_head qp + nat r) mod ?n\<rparr>"
  obtain h1 where h1: "fold_run complete_one [0 ..< nat r] (?q0, h) = Inr (q1, h1)" "same_data h h1"
    "h1 = mark kFREE_BUF (the ` set (sending qp (nat r))) h"
    using complete_run [OF \<open>send_ring (outst w) ?q0 h\<close> p(2)] by (auto simp: q1_def sending_def)
  have wf1: "send_wf (outst w1) q1 h1"
    using send_ring_complete [OF ring p(2) h1(2), of f] p(3) by (simp add: send_wf_def q1_def f_def)
  have live1: "\<forall>m \<in> set ms. live_ptr h1 m" using live same_data_live [OF h1(2)] by simp
  define k where "k = min (length ms) (?n - outst w1)"
  obtain q2 h2 where m: "mount ms 0 None q1 h1 =
      Inr (0 + k, (if k = 0 then None else Some ((send_tail q1 + (k - 1)) mod ?n)), q2, h2)"
    "send_wf (outst w1 + k) q2 h2" "same_data h1 h2" "mounted q1 q2 h1 (take k ms)"
    "sending q2 (outst w1 + k) = sending q1 (outst w1) @ take k ms" "h2 = mark kPOSTED (the ` set (take k ms)) h1"
    using mount_run [OF wf1 live1 k_def] by blast
  have moved: "\<exists>r \<le> outst w. outst w1 + k = outst w - r + k \<and>
       sending q2 (outst w1 + k) = drop r (sending qp (outst w)) @ take k ms \<and>
       h2 = mark kPOSTED (the ` set (take k ms)) (mark kFREE_BUF (the ` set (take r (sending qp (outst w)))) h)"
  proof (intro exI [of _ "nat r"] conjI)
    have "sending q1 (outst w1) = drop (nat r) (sending qp (outst w))"
      using sending_complete [OF p(2), of qp] p(3) by (simp add: sending_def q1_def)
    then show "sending q2 (outst w1 + k) = drop (nat r) (sending qp (outst w)) @ take k ms"
      using m(5) by simp
  qed (use p(2,3) m(6) h1(3) sending_take [OF p(2), of qp] in simp_all)
  have shape: "\<exists>sgl sw hd tl f. q2 = qp\<lparr>send_sgl := sgl, send_head := hd, sw_ring := sw, send_tail := tl, free_send_wr_num := f\<rparr>"
  proof -
    obtain sgl sw t f' where "q2 = q1\<lparr>send_sgl := sgl, sw_ring := sw, send_tail := t, free_send_wr_num := f'\<rparr>"
      using m(4) by (auto simp: mounted_def)
    then have "q2 = qp\<lparr>send_sgl := sgl, send_head := (send_head qp + nat r) mod ?n, sw_ring := sw, send_tail := t,
        free_send_wr_num := f'\<rparr>"
      by (simp add: q1_def)
    then show ?thesis by blast
  qed
  have lk: "length (take k ms) = k" by (simp add: k_def)
  have same: "same_data h h2" by (rule same_data_trans [OF h1(2) m(3)])
  have sg: "map (buf_sge h1) (take k ms) = map (buf_sge h) (take k ms)"
    using live same_data_sge [OF h1(2)] by (auto dest!: in_set_takeD)
  have keep: "qp_id q2 = qp_id qp" "tx_queue q2 = tx_queue qp" "tx_queue_idx q2 = tx_queue_idx qp"
    "rx_ring q2 = rx_ring qp" "recv_head q2 = recv_head qp" "ring_head q2 = ring_head qp"
    "wait_for_disp q2 = wait_for_disp qp" "send_wr_next q2 = send_wr_next qp"
    using m(4) by (auto simp: mounted_def q1_def)
  have burst: "tx_burst api ms qp h w = (if k = 0 then Inr (0, q2, h2, w1)
      else let t = (send_tail q1 + (k - 1)) mod ?n;
               wrs = wr_chain ?n ((send_wr_next q2)[t := None]) (send_tail q1);
               (ret', w2) = post_send api (qp_id q2) (map ((!) (send_sgl q2)) wrs) w1
           in if ret' \<noteq> 0 then Inl Nicc_Shutdown else Inr (k, q2, h2, w2))"
    using poll p(1) h1(1) m(1)
    by (simp add: tx_burst_def f Let_def case_prod_beta)
  show ?thesis
  proof (cases "k = 0")
    case True
    have "sent_ok outst sent (take k ms) qp h w q2 h2 w1"
      using m(2) True same p(4) keep by (simp add: sent_ok_def)
    moreover have "delay w1 < delay w" if "ms \<noteq> []"
    proof -
      have "?n - outst w1 = 0" using True that by (simp add: k_def min_def split: if_splits)
      then have "nat r = 0" "outst w = ?n"
        using p(2,3) le by (simp_all add: kNumTxRingEntries_def)
      with p(5) show ?thesis by auto
    qed
    ultimately show ?thesis using burst True moved shape by auto
  next
    case False
    have "send_tail q1 < ?n" using wf1 by (auto simp: send_wf_def send_ring_def)
    moreover have "wr_circular ?n (send_wr_next q2)" using m(2) by (simp add: send_wf_def send_ring_def)
    ultimately have "wr_chain ?n ((send_wr_next q2)[(send_tail q1 + (k - 1)) mod ?n := None]) (send_tail q1) =
        ring_indices ?n (send_tail q1) k"
      using False by (intro wr_chain_cut) (auto simp: k_def)
    moreover have "map ((!) (send_sgl q2)) (ring_indices ?n (send_tail q1) k) = map (buf_sge h) (take k ms)"
      using m(4) lk sg by (simp add: mounted_def)
    moreover obtain w2 where w2: "post_send api (qp_id q2) (map (buf_sge h) (take k ms)) w1 = (0, w2)"
      "outst w2 = outst w1 + k" "sent w2 = sent w1 @ map (buf_sge h) (take k ms)"
    proof -
      have "outst w1 + length (map (buf_sge h) (take k ms)) \<le> ?n"
        using p(3) le lk by (simp add: k_def)
      with nic keep(1) lk show ?thesis using that
        by (cases "post_send api (qp_id q2) (map (buf_sge h) (take k ms)) w1")
          (force simp: send_nic_def dest!: spec [of _ w1] spec [of _ "map (buf_sge h) (take k ms)"])
    qed
    ultimately have "tx_burst api ms qp h w = Inr (k, q2, h2, w2)"
      using burst False by (simp add: Let_def)
    moreover have "sent_ok outst sent (take k ms) qp h w q2 h2 w2"
      using m(2) same p(4) keep w2 by (simp add: sent_ok_def)
    moreover have "k \<le> length ms" by (simp add: k_def)
    ultimately show ?thesis using False moved shape w2(2) by auto
  qed
qed

lemma sent_ok_refl: "send_wf (outst w) qp h \<Longrightarrow> sent_ok outst sent [] qp h w qp h w"
  by (simp add: sent_ok_def)

lemma flush_loop_result:
  assumes nic: "send_nic api (qp_id qp) outst sent delay" and wf: "send_wf (outst w) qp h"
    and live: "\<forall>m \<in> set (drop n (take (tx_queue_idx qp) (tx_queue qp))). live_ptr h m"
    and n: "n \<le> tx_queue_idx qp" and len: "tx_queue_idx qp \<le> length (tx_queue qp)"
  shows "\<exists>qp' h' w'. flush_loop api n qp h w = Some (Inr (tx_queue_idx qp, qp', h', w')) \<and>
    sent_ok outst sent (drop n (take (tx_queue_idx qp) (tx_queue qp))) qp h w qp' h' w'"
  using assms
proof (induction "(tx_queue_idx qp - n, delay w)" arbitrary: n qp h w
    rule: wf_induct_rule [OF wf_lex_prod [OF wf_less_than wf_less_than]])
  case 1
  let ?ms = "drop n (take (tx_queue_idx qp) (tx_queue qp))"
  show ?case
  proof (cases "n < tx_queue_idx qp")
    case False
    with 1 show ?thesis by (subst flush_loop.simps) (simp add: sent_ok_refl)
  next
    case True
    have ne: "?ms \<noteq> []" and lms: "length ?ms = tx_queue_idx qp - n" using True 1(6) by auto
    obtain k q1 h1 w1 where b: "tx_burst api ?ms qp h w = Inr (k, q1, h1, w1)" "k \<le> length ?ms"
      "sent_ok outst sent (take k ?ms) qp h w q1 h1 w1" "0 < k \<or> delay w1 < delay w"
      using tx_burst_exact [OF 1(2,3,4)] ne by blast
    have keep: "tx_queue q1 = tx_queue qp" "tx_queue_idx q1 = tx_queue_idx qp" "qp_id q1 = qp_id qp"
      "same_data h h1" "send_wf (outst w1) q1 h1"
      using b(3) by (auto simp: sent_ok_def)
    have rest: "drop (n + k) (take (tx_queue_idx q1) (tx_queue q1)) = drop k ?ms"
      by (simp add: keep add.commute)
    have "\<forall>m \<in> set (drop k ?ms). live_ptr h1 m"
      using 1(4) same_data_live [OF keep(4)] set_drop_subset [of k ?ms] by blast
    moreover have "((tx_queue_idx q1 - (n + k), delay w1), tx_queue_idx qp - n, delay w) \<in> less_than <*lex*> less_than"
      using b(2,4) lms keep(2) True by auto
    moreover have "n + k \<le> tx_queue_idx q1" using b(2) lms keep(2) True by simp
    ultimately obtain q2 h2 w2 where "flush_loop api (n + k) q1 h1 w1 = Some (Inr (tx_queue_idx q1, q2, h2, w2))"
      "sent_ok outst sent (drop k ?ms) q1 h1 w1 q2 h2 w2"
      using 1(1) [of q1 "n + k" w1 h1] 1(2,6) keep unfolding rest by auto
    moreover from this have "sent_ok outst sent ?ms qp h w q2 h2 w2"
      using sent_ok_trans [OF b(3), of "drop k ?ms"] 1(4) set_drop_subset [of k ?ms]
      by (metis (no_types, lifting) append_take_drop_id subset_iff)
    ultimately show ?thesis using True b(1) keep by (subst flush_loop.simps) simp
  qed
qed

lemma tx_flush_result:
  assumes "send_nic api (qp_id qp) outst sent delay" "send_wf (outst w) qp h"
    and "\<forall>m \<in> set (take (tx_queue_idx qp) (tx_queue qp)). live_ptr h m"
    and "tx_queue_idx qp \<le> length (tx_queue qp)"
  shows "\<exists>qp' h' w'. tx_flush api qp h w = Some (Inr (tx_queue_idx qp, qp', h', w')) \<and>
    sent w' = sent w @ map (buf_sge h) (take (tx_queue_idx qp) (tx_queue qp)) \<and>
    tx_queue_idx qp' = 0 \<and> send_wf (outst w') qp' h' \<and> same_data h h'"
proof -
  obtain qp' h' w' where r: "flush_loop api 0 qp h w = Some (Inr (tx_queue_idx qp, qp', h', w'))"
    "sent_ok outst sent (take (tx_queue_idx qp) (tx_queue qp)) qp h w qp' h' w'"
    using flush_loop_result [OF assms(1,2), of 0] assms(3,4) by auto
  have "send_wf (outst w') (qp'\<lparr>tx_queue_idx := 0\<rparr>) h'"
    using r(2) by (simp add: sent_ok_def send_wf_def send_ring_def)
  with r show ?thesis by (auto simp: tx_flush_def sent_ok_def)
qed

end
