(* ===== verification/SocProps.thy ===== *)
theory SocProps
  imports SocDatapath
begin

text \<open>
  The properties of the SoC datapath, and an example wrapper (full rings of 2048 buffers, a NIC
  that completes every send at the next poll) at which their hypotheses hold.
\<close>

subsection \<open>Properties of the datapath\<close>

text \<open>
  C19. A receive burst ends, posts exactly the receive requests of the maximal run of free buffers
  at the receive head (each once, in ring order, also when the whole ring is free), marks those
  buffers posted, advances the receive head past them, stores the length of every completed
  packet in its ring buffer and adds the completions to the packets waiting for dispatch.
\<close>

theorem rx_burst_spec:
  fixes api :: "'w soc_verbs" and w :: 'w and qp :: RDMA_SoC_QP
  assumes "ring_linked kNumRxRingEntries (rx_ring qp) h" and "recv_head qp < kNumRxRingEntries"
    and "wr_circular kNumRxRingEntries (recv_wr_next qp)"
    and "(if rx_posted qp h = [] then (0, w) else post_recv api (qp_id qp) (rx_posted qp h) w) = (0, w1)"
    and "poll_recv api (qp_id qp) kRxBatchSize w1 = ((int r, lens), w2)" and "r \<le> kNumRxRingEntries"
    and "wait_for_disp qp + r < 2 ^ 64"
  shows "\<exists>h' k. k = free_run kNumRxRingEntries (rx_ring qp) (recv_head qp) h \<and>
      rx_burst api qp h w = Some (Inr (int r,
        qp\<lparr>recv_head := (recv_head qp + k) mod kNumRxRingEntries, wait_for_disp := wait_for_disp qp + r\<rparr>, h', w2)) \<and>
      state_of h' = state_of (mark kPOSTED (set (slots kNumRxRingEntries (rx_ring qp) (recv_head qp) k)) h) \<and>
      next_is h' = next_is h \<and>
      (\<forall>i<r. \<exists>b. h' (the (rx_ring qp ! ((ring_head qp + wait_for_disp qp + i) mod kNumRxRingEntries))) = Some b \<and>
        b_length b = lens ! i)"
  using rx_burst_result [OF assms] by simp

text \<open>
  C20. Dispatching empties the waiting packets in ring order: as many as the worker queue has room
  for are appended to it, in order, and become owned by the application; the others are dropped
  and become free; the ring head moves past all of them.
\<close>

theorem dispatch_spec:
  assumes "ring_linked kNumRxRingEntries (rx_ring qp) h" and "ring_head qp < kNumRxRingEntries"
    and "wait_for_disp qp \<le> kNumRxRingEntries" and "queue_wf q"
  shows "\<exists>q' bufs. bufs = slots kNumRxRingEntries (rx_ring qp) (ring_head qp) (wait_for_disp qp) \<and>
      dispatch_rx_pkts qp h q =
      Inr (min (length bufs) (queue_room q),
           qp\<lparr>ring_head := (ring_head qp + length bufs) mod kNumRxRingEntries, wait_for_disp := 0\<rparr>,
           mark kFREE_BUF (set (drop (queue_room q) bufs)) (mark kAPP_OWNED_BUF (set (take (queue_room q) bufs)) h), q') \<and>
    queue_wf q' \<and> queue_abs q' = queue_abs q @ map Some (take (queue_room q) bufs)"
  using dispatch_result [OF assms] by blast

lemma launch_collect_result:
  assumes "collect_worker_queue (w_qp_next s) = Some Tmp_Tx" "queue_wf (w_tx_queue s)"
    "length (tx_queue (w_qp_next s)) = kNumTxRingEntries"
    "tx_queue_idx (w_qp_next s) + length (queue_abs (w_tx_queue s)) \<le> kNumTxRingEntries"
  shows "\<exists>s'. launch_collect s = Inr s' \<and> queue_abs (w_tx_queue s') = [] \<and> w_rx_queue s' = w_rx_queue s \<and>
    take (tx_queue_idx (w_qp_next s')) (tx_queue (w_qp_next s')) =
      take (tx_queue_idx (w_qp_next s)) (tx_queue (w_qp_next s)) @ queue_abs (w_tx_queue s)"
proof -
  have "min (length (queue_abs (w_tx_queue s))) (kNumTxRingEntries - tx_queue_idx (w_qp_next s)) =
      length (queue_abs (w_tx_queue s))"
    using assms(4) by simp
  moreover have "tx_queue_idx (w_qp_next s) \<le> kNumTxRingEntries" using assms(4) by simp
  ultimately obtain txq q' where c: "collect_tx_pkts (w_qp_next s) (w_tx_queue s) =
      (length (queue_abs (w_tx_queue s)),
       (w_qp_next s)\<lparr>tx_queue := txq, tx_queue_idx := tx_queue_idx (w_qp_next s) + length (queue_abs (w_tx_queue s))\<rparr>, q')"
    "take (tx_queue_idx (w_qp_next s) + length (queue_abs (w_tx_queue s))) txq =
       take (tx_queue_idx (w_qp_next s)) (tx_queue (w_qp_next s)) @ queue_abs (w_tx_queue s)"
    "queue_abs q' = []"
    using collect_result [OF assms(2,3)] by fastforce
  then show ?thesis using assms(1)
    by (simp add: launch_collect_def worker_queue_def set_worker_queue_def)
qed

text \<open>
  C21. Every message the worker takes reaches the transmit queue of the next hop, in arrival order
  and whatever the user's handler does or returns: with more than 32 messages queued, worker and
  collection together move all of them; with 32 or fewer they all stay queued. This is from a state
  as every round of the loop starts in, with nothing between worker and collection, and with at most
  1024 messages in the transmit queue, so that the whole worker queue fits.
\<close>

theorem worker_forwards_in_order:
  assumes "queue_wf (w_rx_queue s)" and "queue_wf (w_tx_queue s)" and "queue_abs (w_tx_queue s) = []"
    and "collect_worker_queue (w_qp_next s) = Some Tmp_Tx"
    and "length (tx_queue (w_qp_next s)) = kNumTxRingEntries" and "tx_queue_idx (w_qp_next s) \<le> 1024"
  shows "\<exists>s'. launch_collect (worker_phase ctx s) = Inr s' \<and> queue_abs (w_tx_queue s') = [] \<and>
    (if length (queue_abs (w_rx_queue s)) > 32
     then queue_abs (w_rx_queue s') = [] \<and>
       take (tx_queue_idx (w_qp_next s')) (tx_queue (w_qp_next s')) =
         take (tx_queue_idx (w_qp_next s)) (tx_queue (w_qp_next s)) @ queue_abs (w_rx_queue s)
     else queue_abs (w_rx_queue s') = queue_abs (w_rx_queue s) \<and>
       take (tx_queue_idx (w_qp_next s')) (tx_queue (w_qp_next s')) =
         take (tx_queue_idx (w_qp_next s)) (tx_queue (w_qp_next s)))"
proof -
  let ?s = "worker_phase ctx s" and ?R = "queue_abs (w_rx_queue s)"
  have cap: "length ?R \<le> 1023"
    using sq.bounded [OF assms(1)] by (simp add: queue_cap_def kWsQueueSize_def)
  have w: "queue_wf (w_tx_queue ?s)" "w_qp_next ?s = w_qp_next s"
    "queue_abs (w_rx_queue ?s) = (if length ?R > 32 then [] else ?R)"
    "queue_abs (w_tx_queue ?s) = (if length ?R > 32 then ?R else [])"
    using worker_phase_forwards [OF assms(1,2), of ctx] assms(3) cap
    by (auto simp: queue_cap_def kWsQueueSize_def kAppRxMsgBatchSize_def)
  have "\<exists>s'. launch_collect ?s = Inr s' \<and> queue_abs (w_tx_queue s') = [] \<and> w_rx_queue s' = w_rx_queue ?s \<and>
    take (tx_queue_idx (w_qp_next s')) (tx_queue (w_qp_next s')) =
      take (tx_queue_idx (w_qp_next ?s)) (tx_queue (w_qp_next ?s)) @ queue_abs (w_tx_queue ?s)"
    using w(1,2,4) assms(4-6) cap
    by (intro launch_collect_result) (auto simp: kNumTxRingEntries_def)
  with w(2-4) show ?thesis by auto
qed

text \<open>
  C22. A flush of the transmit queue ends and sends every queued buffer exactly once, in order,
  with its address, length and key, whatever backlog the send queue has: it returns the number
  of queued buffers and leaves the queue empty and the send ring consistent.
\<close>

theorem tx_flush_sends_all:
  assumes "send_nic api (qp_id qp) outst sent delay" and "send_wf (outst w) qp h"
    and "\<forall>m \<in> set (take (tx_queue_idx qp) (tx_queue qp)). live_ptr h m"
    and "tx_queue_idx qp \<le> length (tx_queue qp)"
  shows "\<exists>qp' h' w'. tx_flush api qp h w = Some (Inr (tx_queue_idx qp, qp', h', w')) \<and>
    sent w' = sent w @ map (buf_sge h) (take (tx_queue_idx qp) (tx_queue qp)) \<and>
    tx_queue_idx qp' = 0 \<and> send_wf (outst w') qp' h' \<and> same_data h h'"
  using assms by (rule tx_flush_result)

subsection \<open>An example\<close>

definition buf_ex :: "nat \<Rightarrow> Buffer" where
  "buf_ex a = (new_Buffer (65536 + 4096 * a) 4096 7)\<lparr>b_next := Some ((a + 1) mod 2048)\<rparr>"

definition heap_ex :: heap where
  "heap_ex a = (if a < 2048 then Some (buf_ex a) else None)"

definition links_ex :: "ptr list" where
  "links_ex = map (\<lambda>i. Some ((i + 1) mod 2048)) [0 ..< 2048]"

definition qp_ex :: RDMA_SoC_QP where
  "qp_ex = \<lparr>qp_id = 1, send_wr_next = links_ex, send_sgl = replicate 2048 (sge_of (buf_ex 0)),
     send_head = 5, send_tail = 5, sw_ring = replicate 2048 None,
     tx_queue = map Some [0 ..< 2048], tx_queue_idx = 3, recv_wr_next = links_ex,
     recv_sgl = map (\<lambda>i. sge_of (buf_ex i)) [0 ..< 2048], recv_head = 2000,
     rx_ring = map Some [0 ..< 2048], ring_head = 2047, collect_worker_queue = Some Tmp_Tx,
     disp_worker_queue = Some Tmp_Rx, free_send_wr_num = 2048, wait_for_disp = 4\<rparr>"

text \<open>The example NIC: its world is the number of outstanding sends and the log of accepted ones.\<close>

definition api_ex :: "(nat \<times> sge list) soc_verbs" where
  "api_ex = \<lparr>post_recv = \<lambda>q l w. (0, w), poll_recv = \<lambda>q n w. ((2, [64, 128]), w),
     post_send = \<lambda>q l w. (0, (fst w + length l, snd w @ l)),
     poll_send = \<lambda>q n w. (int (fst w), (0, snd w))\<rparr>"

lemma ring_ex: "ring_linked kNumRxRingEntries (rx_ring qp_ex) heap_ex"
proof -
  have "next_is heap_ex (map Some [0 ..< 2048] ! i) (map Some [0 ..< 2048] ! ((i + 1) mod 2048))"
    if "i < 2048" for i
    using that by (simp add: next_is_def heap_ex_def buf_ex_def)
  then show ?thesis
    by (simp add: ring_linked_def qp_ex_def kNumRxRingEntries_def distinct_map)
qed

lemma links_ex_circular: "wr_circular 2048 links_ex"
  by (simp add: wr_circular_def links_ex_def)

lemma send_nic_ex: "send_nic api_ex q fst snd (\<lambda>_. 0)"
  by (auto simp: send_nic_def api_ex_def kNumTxRingEntries_def)

lemma send_wf_ex: "send_wf 0 qp_ex heap_ex"
  using links_ex_circular
  by (simp add: send_wf_def send_ring_def qp_ex_def kNumTxRingEntries_def)

lemma qp_ex_fields:
  "recv_head qp_ex = 2000" "ring_head qp_ex = 2047" "wait_for_disp qp_ex = 4" "qp_id qp_ex = 1"
  "tx_queue_idx qp_ex = 3" "length (tx_queue qp_ex) = 2048" "recv_wr_next qp_ex = links_ex"
  "collect_worker_queue qp_ex = Some Tmp_Tx"
  by (simp_all add: qp_ex_def del: upt_rec_numeral)

lemma rx_ring_ex: "i < 2048 \<Longrightarrow> rx_ring qp_ex ! i = Some i"
  by (simp add: qp_ex_def del: upt_rec_numeral)

lemma slots_ex: "slots kNumRxRingEntries (rx_ring qp_ex) 2047 4 = [2047, 0, 1, 2]"
proof -
  have "ring_indices 2048 2047 (Suc (Suc (Suc (Suc 0)))) = [2047, 0, 1, 2]"
    by (simp only: ring_indices_Suc ring_indices_0) simp
  then show ?thesis
    by (simp add: slots_def kNumRxRingEntries_def rx_ring_ex numeral_eq_Suc)
qed

theorem rx_burst_spec_witness:
  "\<exists>h' k. k = free_run kNumRxRingEntries (rx_ring qp_ex) 2000 heap_ex \<and>
    rx_burst api_ex qp_ex heap_ex (0, []) = Some (Inr (2,
      qp_ex\<lparr>recv_head := (2000 + k) mod kNumRxRingEntries, wait_for_disp := 6\<rparr>, h', (0, [])))"
proof -
  have "post_recv api_ex (qp_id qp_ex) l (0, []) = (0, (0, []))"
    "poll_recv api_ex (qp_id qp_ex) kRxBatchSize (0, []) = ((int 2, [64, 128]), (0, []))" for l
    by (simp_all add: api_ex_def)
  moreover from this(1) have "(if rx_posted qp_ex heap_ex = [] then (0, (0, []))
      else post_recv api_ex (qp_id qp_ex) (rx_posted qp_ex heap_ex) (0, [])) = (0, (0, []))"
    by simp
  ultimately show ?thesis
    using rx_burst_spec [where qp = qp_ex and h = heap_ex and api = api_ex and w = "(0, [])" and
      ?w1.0 = "(0, [])" and r = 2 and lens = "[64, 128]" and ?w2.0 = "(0, [])"] ring_ex links_ex_circular
    by (simp add: kNumRxRingEntries_def qp_ex_fields del: length_0_conv split del: if_split) blast
qed

theorem dispatch_spec_witness:
  "\<exists>q' h'. dispatch_rx_pkts qp_ex heap_ex new_soc_queue =
      Inr (4, qp_ex\<lparr>ring_head := 3, wait_for_disp := 0\<rparr>, h', q') \<and>
    queue_abs q' = [Some 2047, Some 0, Some 1, Some 2]"
proof -
  have "queue_room new_soc_queue = 1023"
    using new_soc_queue_wf by (simp add: queue_room_def queue_cap_def kWsQueueSize_def)
  with dispatch_spec [of qp_ex heap_ex new_soc_queue] ring_ex new_soc_queue_wf slots_ex
  show ?thesis by (simp add: qp_ex_fields kNumRxRingEntries_def) blast
qed

text \<open>A wrapper with the \<open>n\<close> messages 0 to \<open>n - 1\<close> in its worker queue.\<close>

definition wrapper_ex :: "nat \<Rightarrow> (unit, nat \<times> sge list) SoCWrapper" where
  "wrapper_ex n = \<lparr>w_type = kSoC_Dispatcher, w_qp_prior = qp_ex, w_qp_next = qp_ex,
     w_rx_queue = snd (enq_seq enqueue (map Some [0 ..< n]) new_soc_queue), w_tx_queue = new_soc_queue, w_user = None,
     w_user_size = 0, w_heap = heap_ex, w_world = (0, [])\<rparr>"

definition ctx_ex :: "(unit, nat \<times> sge list) SoCWrapperContext" where
  "ctx_ex = \<lparr>init_handler = None, msg_handler = None, cleanup_handler = None\<rparr>"

lemma wrapper_ex_rx:
  assumes "n \<le> 1023"
  shows "queue_wf (w_rx_queue (wrapper_ex n)) \<and> queue_abs (w_rx_queue (wrapper_ex n)) = map Some [0 ..< n]"
  using sq.enq_seq_items [of new_soc_queue "map Some [0 ..< n]"] new_soc_queue_wf assms
  by (auto simp: wrapper_ex_def queue_cap_def kWsQueueSize_def)

text \<open>Of 40 messages all move behind the three in the transmit queue, of 32 messages none does.\<close>

theorem worker_forwards_in_order_witness:
  "(\<exists>s'. launch_collect (worker_phase ctx_ex (wrapper_ex 40)) = Inr s' \<and> queue_abs (w_rx_queue s') = [] \<and>
     take (tx_queue_idx (w_qp_next s')) (tx_queue (w_qp_next s')) = [Some 0, Some 1, Some 2] @ map Some [0 ..< 40]) \<and>
   (\<exists>s'. launch_collect (worker_phase ctx_ex (wrapper_ex 32)) = Inr s' \<and> queue_abs (w_rx_queue s') = map Some [0 ..< 32])"
proof -
  have f: "w_tx_queue (wrapper_ex n) = new_soc_queue" "w_qp_next (wrapper_ex n) = qp_ex" for n
    by (simp_all add: wrapper_ex_def)
  have t: "take 3 (tx_queue qp_ex) = [Some 0, Some 1, Some 2]"
    by (simp add: qp_ex_def take_map take_upt del: upt_rec_numeral) (simp add: upt_rec)
  have q: "queue_wf new_soc_queue" "queue_abs new_soc_queue = []" using new_soc_queue_wf by simp_all
  have len: "length (map Some [0 ..< n]) = n" for n by simp
  have run: "\<exists>s'. launch_collect (worker_phase ctx_ex (wrapper_ex n)) = Inr s' \<and> queue_abs (w_tx_queue s') = [] \<and>
    (if n > 32 then queue_abs (w_rx_queue s') = [] \<and>
       take (tx_queue_idx (w_qp_next s')) (tx_queue (w_qp_next s')) = [Some 0, Some 1, Some 2] @ map Some [0 ..< n]
     else queue_abs (w_rx_queue s') = map Some [0 ..< n])" if "n \<le> 1023" for n
  proof -
    note rx = wrapper_ex_rx [OF that]
    show ?thesis
      using worker_forwards_in_order [of "wrapper_ex n" ctx_ex] rx q
      unfolding f qp_ex_fields kNumTxRingEntries_def t conjunct2 [OF rx] len by auto
  qed
  from run [of 40] run [of 32] show ?thesis by auto
qed

theorem tx_flush_sends_all_witness:
  "\<exists>qp' h' w'. tx_flush api_ex qp_ex heap_ex (0, []) = Some (Inr (3, qp', h', w')) \<and>
    snd w' = map (buf_sge heap_ex) [Some 0, Some 1, Some 2] \<and> tx_queue_idx qp' = 0"
proof -
  have t: "take 3 (tx_queue qp_ex) = [Some 0, Some 1, Some 2]"
    by (simp add: qp_ex_def take_map take_upt del: upt_rec_numeral) (simp add: upt_rec)
  have "\<forall>m \<in> set (take (tx_queue_idx qp_ex) (tx_queue qp_ex)). live_ptr heap_ex m"
    by (simp add: qp_ex_fields t live_ptr_def heap_ex_def)
  with tx_flush_sends_all [OF send_nic_ex, where qp = qp_ex and h = heap_ex and w = "(0, [])"] send_wf_ex
  show ?thesis by (fastforce simp: qp_ex_fields t)
qed

end
