(* ===== verification/SocLoop.thy ===== *)
theory SocLoop
  imports SocDatapath "HOL-Library.Multiset"
begin

text \<open>
  The whole event loop of the SoC wrapper. A \<^emph>\<open>lane\<close> follows the buffers of one receive ring:
  \<open>rx_held\<close> are those in the hands of the NIC or waiting for dispatch, \<open>out\<close> those on their way
  through the worker queues and the transmit side of the other queue pair. The lane invariant
  says that each buffer is in at most one of these places and is marked free exactly when it is
  in none. One lemma per movement (posting, moving on, marking, retiring) is shared by all
  steps of the loop; the theorems on the loop are in \<open>SocRun\<close>.
\<close>

subsection \<open>Heap changes\<close>

text \<open>Every buffer stays alive and linked, and only the states of \<open>A\<close> may change.\<close>

definition heap_step :: "nat set \<Rightarrow> heap \<Rightarrow> heap \<Rightarrow> bool" where
  "heap_step A h h' \<longleftrightarrow> next_is h' = next_is h \<and> (\<forall>a. state_of h' a = None \<longleftrightarrow> state_of h a = None) \<and>
     (\<forall>a. a \<notin> A \<longrightarrow> state_of h' a = state_of h a)"

lemma heap_step_refl [simp]: "heap_step A h h"
  by (simp add: heap_step_def)

lemma heap_step_trans: "heap_step A h h' \<Longrightarrow> heap_step A h' h'' \<Longrightarrow> heap_step A h h''"
  by (simp add: heap_step_def)

lemma heap_step_mono: "heap_step A h h' \<Longrightarrow> A \<subseteq> B \<Longrightarrow> heap_step B h h'"
  by (auto simp: heap_step_def)

lemma state_of_mark: "state_of (mark st A h) a = (if a \<in> A then map_option (\<lambda>_. st) (state_of h a) else state_of h a)"
  by (simp add: state_of_def mark_def option.map_comp o_def)

lemma heap_step_mark: "heap_step A h (mark st A h)"
  by (simp add: heap_step_def state_of_mark)

lemma live_ptr_state: "live_ptr h p \<longleftrightarrow> (case p of None \<Rightarrow> False | Some a \<Rightarrow> state_of h a \<noteq> None)"
  by (simp add: live_ptr_def state_of_def split: option.split)

lemma heap_step_live: "heap_step A h h' \<Longrightarrow> live_ptr h' p = live_ptr h p"
  by (auto simp: live_ptr_state heap_step_def split: option.split)

lemma heap_step_ring: "heap_step A h h' \<Longrightarrow> ring_linked n ring h' = ring_linked n ring h"
  by (simp add: ring_linked_def heap_step_def)

lemma heap_step_send: "heap_step A h h' \<Longrightarrow> send_wf n qp h \<Longrightarrow> send_wf n qp h'"
  by (simp add: send_wf_def send_ring_def heap_step_live)

subsection \<open>Lanes\<close>

definition rx_held :: "RDMA_SoC_QP \<Rightarrow> nat \<Rightarrow> ptr list" where
  "rx_held rq p = ring_slice kNumRxRingEntries (ring_head rq) (wait_for_disp rq + p) ((!) (rx_ring rq))"

definition lane_held :: "RDMA_SoC_QP \<Rightarrow> nat \<Rightarrow> ptr list \<Rightarrow> ptr multiset" where
  "lane_held rq p out = mset (rx_held rq p) + mset out"

definition accounted :: "ptr list \<Rightarrow> ptr multiset \<Rightarrow> heap \<Rightarrow> bool" where
  "accounted ring held h \<longleftrightarrow> (\<forall>x. count held x \<le> 1) \<and> set_mset held \<subseteq> set ring \<and>
     (\<forall>x \<in> set ring. state_of h (the x) = Some kFREE_BUF \<longleftrightarrow> x \<notin># held)"

definition lane :: "RDMA_SoC_QP \<Rightarrow> nat \<Rightarrow> ptr list \<Rightarrow> heap \<Rightarrow> bool" where
  "lane rq p out h \<longleftrightarrow> ring_linked kNumRxRingEntries (rx_ring rq) h \<and>
     wr_circular kNumRxRingEntries (recv_wr_next rq) \<and> ring_head rq < kNumRxRingEntries \<and>
     wait_for_disp rq + p \<le> kNumRxRingEntries \<and>
     recv_head rq = (ring_head rq + (wait_for_disp rq + p)) mod kNumRxRingEntries \<and>
     accounted (rx_ring rq) (lane_held rq p out) h"

abbreviation ring_addrs :: "RDMA_SoC_QP \<Rightarrow> nat set" where
  "ring_addrs rq \<equiv> the ` set (rx_ring rq)"

lemma ring_slot_live:
  assumes "ring_linked n ring h" "x \<in> set ring"
  shows "\<exists>a. x = Some a \<and> state_of h a \<noteq> None"
proof -
  obtain i where "i < n" "x = ring ! i"
    using assms by (auto simp: ring_linked_def in_set_conv_nth)
  moreover obtain a b where "ring ! i = Some a" "h a = Some b"
    using ring_linkedE [OF assms(1) \<open>i < n\<close>] by blast
  ultimately show ?thesis by (simp add: state_of_def)
qed

lemma ring_the_inj:
  assumes "ring_linked n ring h" "x \<in> set ring" "y \<in> set ring" "the x = the y"
  shows "x = y"
  using ring_slot_live [OF assms(1,2)] ring_slot_live [OF assms(1,3)] assms(4) by auto

lemma lane_live: "lane rq p out h \<Longrightarrow> x \<in> set out \<Longrightarrow> live_ptr h x"
proof -
  assume l: "lane rq p out h" and "x \<in> set out"
  then have "x \<in> set (rx_ring rq)" by (auto simp: lane_def accounted_def lane_held_def)
  with l ring_slot_live [of kNumRxRingEntries "rx_ring rq" h x] show ?thesis
    by (auto simp: lane_def live_ptr_state)
qed

lemma lane_mset: "mset out = mset out' \<Longrightarrow> lane rq p out h = lane rq p out' h"
  by (simp add: lane_def lane_held_def)

lemma lane_subset: "lane rq p out h \<Longrightarrow> set out \<subseteq> set (rx_ring rq)"
  by (auto simp: lane_def accounted_def lane_held_def)

text \<open>No more buffers are under way than the ring has.\<close>

lemma lane_bound:
  assumes "lane rq p out h"
  shows "length out \<le> kNumRxRingEntries"
proof -
  have a: "accounted (rx_ring rq) (lane_held rq p out) h" and len: "length (rx_ring rq) = kNumRxRingEntries"
    using assms by (auto simp: lane_def ring_linked_def)
  have "count (mset out) x \<le> 1" for x
  proof -
    have "count (lane_held rq p out) x \<le> 1" using a by (simp add: accounted_def)
    then show ?thesis by (simp add: lane_held_def)
  qed
  then have "distinct out" by (metis distinct_count_atmost_1 nat_le_linear le_antisym not_in_iff
      count_greater_eq_one_iff set_mset_mset)
  then have "length out = card (set out)" by (simp add: distinct_card)
  also have "\<dots> \<le> card (set (rx_ring rq))" using lane_subset [OF assms] by (intro card_mono) auto
  also have "\<dots> \<le> length (rx_ring rq)" by (rule card_length)
  finally show ?thesis by (simp add: len)
qed

text \<open>A change of the heap elsewhere.\<close>

lemma accounted_cong:
  assumes "accounted ring held h" "\<And>x. x \<in> set ring \<Longrightarrow> state_of h' (the x) = state_of h (the x)"
  shows "accounted ring held h'"
  using assms by (simp add: accounted_def)

lemma lane_other:
  assumes "lane rq p out h" "heap_step A h h'" "ring_addrs rq \<inter> A = {}"
  shows "lane rq p out h'"
proof -
  have "state_of h' (the x) = state_of h (the x)" if "x \<in> set (rx_ring rq)" for x
    using assms(2,3) that by (auto simp: heap_step_def)
  with assms(1,2) show ?thesis
    unfolding lane_def by (metis accounted_cong heap_step_ring)
qed

text \<open>Only these fields of the queue pair matter.\<close>

lemma lane_fields:
  assumes "lane rq p out h" "rx_ring rq' = rx_ring rq" "recv_wr_next rq' = recv_wr_next rq"
    "recv_head rq' = recv_head rq" "ring_head rq' = ring_head rq" "wait_for_disp rq' = wait_for_disp rq"
  shows "lane rq' p out h"
  using assms by (simp add: lane_def lane_held_def rx_held_def)

text \<open>The oldest waiting buffers move on.\<close>

definition rx_front :: "RDMA_SoC_QP \<Rightarrow> nat \<Rightarrow> ptr list" where
  "rx_front rq j = ring_slice kNumRxRingEntries (ring_head rq) j ((!) (rx_ring rq))"

lemma lane_move:
  assumes "lane rq p out h" "j \<le> wait_for_disp rq"
  shows "lane (rq\<lparr>ring_head := (ring_head rq + j) mod kNumRxRingEntries, wait_for_disp := wait_for_disp rq - j\<rparr>)
    p (rx_front rq j @ out) h"
proof -
  obtain m where m: "wait_for_disp rq = j + m" using assms(2) by (metis le_Suc_ex)
  have held: "rx_held rq p = rx_front rq j @ ring_slice kNumRxRingEntries (ring_head rq + j) (m + p) ((!) (rx_ring rq))"
    by (simp add: rx_held_def rx_front_def m ring_slice_append [symmetric] add.assoc)
  then have "lane_held (rq\<lparr>ring_head := (ring_head rq + j) mod kNumRxRingEntries, wait_for_disp := m\<rparr>)
      p (rx_front rq j @ out) = lane_held rq p out"
    by (simp add: lane_held_def rx_held_def)
  then show ?thesis
    using assms(1) by (simp add: lane_def m mod_add_left_eq add.assoc kNumRxRingEntries_def)
qed

text \<open>Buffers under way change their state, but not to free.\<close>

lemma lane_mark:
  assumes "lane rq p out h" "set xs \<subseteq> set out" "st \<noteq> kFREE_BUF"
  shows "lane rq p out (mark st (the ` set xs) h)"
proof -
  have l: "ring_linked kNumRxRingEntries (rx_ring rq) h" "accounted (rx_ring rq) (lane_held rq p out) h"
    using assms(1) by (auto simp: lane_def)
  have sub: "set xs \<subseteq> set (rx_ring rq)" using assms(2) lane_subset [OF assms(1)] by simp
  have "accounted (rx_ring rq) (lane_held rq p out) (mark st (the ` set xs) h)"
    unfolding accounted_def
  proof (intro conjI ballI)
    fix x assume x: "x \<in> set (rx_ring rq)"
    have "the x \<in> the ` set xs \<longleftrightarrow> x \<in> set xs"
      using ring_the_inj [OF l(1) x] sub by auto
    moreover have "x \<in># lane_held rq p out" if "x \<in> set xs"
      using that assms(2) by (auto simp: lane_held_def)
    ultimately show "state_of (mark st (the ` set xs) h) (the x) = Some kFREE_BUF \<longleftrightarrow> x \<notin># lane_held rq p out"
      using l(2) x assms(3) by (auto simp: accounted_def state_of_mark)
  qed (use l(2) in \<open>auto simp: accounted_def\<close>)
  then show ?thesis using assms(1) by (simp add: lane_def)
qed

text \<open>Buffers under way come to their end and become free.\<close>

lemma lane_retire:
  assumes "lane rq p (xs @ out) h"
  shows "lane rq p out (mark kFREE_BUF (the ` set xs) h)"
proof -
  have l: "ring_linked kNumRxRingEntries (rx_ring rq) h" "accounted (rx_ring rq) (lane_held rq p (xs @ out)) h"
    using assms by (auto simp: lane_def)
  have sub: "set xs \<subseteq> set (rx_ring rq)" using lane_subset [OF assms] by simp
  have held: "lane_held rq p (xs @ out) = mset xs + lane_held rq p out"
    by (simp add: lane_held_def)
  have one: "count (mset xs) x + count (lane_held rq p out) x \<le> 1" for x
    using l(2) unfolding accounted_def held by (metis count_union)
  have "accounted (rx_ring rq) (lane_held rq p out) (mark kFREE_BUF (the ` set xs) h)"
    unfolding accounted_def
  proof (intro conjI ballI allI)
    fix x show "count (lane_held rq p out) x \<le> 1" using one [of x] by simp
  next
    show "set_mset (lane_held rq p out) \<subseteq> set (rx_ring rq)"
      using l(2) by (auto simp: accounted_def held)
  next
    fix x assume x: "x \<in> set (rx_ring rq)"
    have "the x \<in> the ` set xs \<longleftrightarrow> x \<in> set xs"
      using ring_the_inj [OF l(1) x] sub by auto
    moreover have "x \<notin># lane_held rq p out" if "x \<in> set xs"
    proof -
      have "0 < count (mset xs) x" using that by (simp add: count_greater_zero_iff)
      with one [of x] have "count (lane_held rq p out) x = 0" by linarith
      then show ?thesis by (simp add: not_in_iff)
    qed
    moreover have "state_of h (the x) \<noteq> None" using ring_slot_live [OF l(1) x] by auto
    ultimately show "state_of (mark kFREE_BUF (the ` set xs) h) (the x) = Some kFREE_BUF \<longleftrightarrow> x \<notin># lane_held rq p out"
      using l(2) x by (auto simp: accounted_def state_of_mark held)
  qed
  then show ?thesis using assms by (simp add: lane_def)
qed

subsection \<open>Posting\<close>

text \<open>The free buffers at the receive head are none of those held, so they fit into the ring.\<close>

lemma slots_ptrs:
  "ring_linked n ring h \<Longrightarrow> 0 < n \<Longrightarrow> map Some (slots n ring i k) = ring_slice n i k ((!) ring)"
  by (simp add: map_Some_slots ring_slice_map)

lemma the_slots:
  "ring_linked n ring h \<Longrightarrow> 0 < n \<Longrightarrow> set (slots n ring i k) = the ` set (ring_slice n i k ((!) ring))"
  by (simp flip: slots_ptrs add: image_image)

lemma free_run_free:
  assumes "x \<in> set (slots n ring i (free_run n ring i h))"
  shows "state_of h x = Some kFREE_BUF"
proof -
  have "slots n ring i (free_run n ring i h) = takeWhile (\<lambda>a. state_of h a = Some kFREE_BUF) (slots n ring i n)"
    by (metis free_run_def free_run_le take_slots takeWhile_eq_take)
  with assms show ?thesis by (metis (mono_tags, lifting) set_takeWhileD)
qed

lemma free_run_room:
  assumes "lane rq p out h"
  shows "wait_for_disp rq + p + free_run kNumRxRingEntries (rx_ring rq) (recv_head rq) h \<le> kNumRxRingEntries"
proof (rule ccontr)
  let ?n = kNumRxRingEntries and ?k = "free_run kNumRxRingEntries (rx_ring rq) (recv_head rq) h"
    and ?m = "wait_for_disp rq + p"
  assume no: "\<not> ?m + ?k \<le> ?n"
  have l: "ring_linked ?n (rx_ring rq) h" "accounted (rx_ring rq) (lane_held rq p out) h"
      "recv_head rq = (ring_head rq + ?m) mod ?n" "?m \<le> ?n" "ring_head rq < ?n"
    using assms by (auto simp: lane_def)
  have le: "?k \<le> ?n" by (rule free_run_le)
  then have pos: "0 < ?m" using no by linarith
  define j where "j = ?n - ?m"
  have j: "j < ?k" using no pos l(4) unfolding j_def by linarith
  have idx: "(recv_head rq + j) mod ?n = ring_head rq"
  proof -
    have "(recv_head rq + j) mod ?n = (ring_head rq + (?m + j)) mod ?n"
      by (simp only: l(3) mod_add_left_eq add.assoc)
    also have "?m + j = ?n" using l(4) by (simp add: j_def)
    finally show ?thesis using l(5) by simp
  qed
  let ?x = "rx_ring rq ! ring_head rq"
  have "?x \<in> set (rx_held rq p)"
    using pos l(5) by (auto simp: rx_held_def ring_slice_def image_iff intro!: bexI [of _ 0])
  then have held: "?x \<in># lane_held rq p out" by (simp add: lane_held_def)
  have "the ?x \<in> set (slots ?n (rx_ring rq) (recv_head rq) ?k)"
    using j idx by (auto simp: slots_def ring_indices_def ring_slice_def image_iff intro!: bexI [of _ j])
  from free_run_free [OF this] have "state_of h (the ?x) = Some kFREE_BUF" .
  moreover have "?x \<in> set (rx_ring rq)" using l(1,5) by (simp add: ring_linked_def)
  ultimately show False using l(2) held by (auto simp: accounted_def)
qed

lemma lane_post:
  fixes rq
  assumes "lane rq p out h"
  defines "k \<equiv> free_run kNumRxRingEntries (rx_ring rq) (recv_head rq) h"
  assumes r: "r \<le> p + k"
    and h': "state_of h' = state_of (mark kPOSTED (set (slots kNumRxRingEntries (rx_ring rq) (recv_head rq) k)) h)"
      "next_is h' = next_is h"
  shows "lane (rq\<lparr>recv_head := (recv_head rq + k) mod kNumRxRingEntries, wait_for_disp := wait_for_disp rq + r\<rparr>)
      (p + k - r) out h'"
    and "heap_step (ring_addrs rq) h h'"
proof -
  let ?n = kNumRxRingEntries and ?new = "ring_slice kNumRxRingEntries (recv_head rq) k ((!) (rx_ring rq))"
  let ?rq = "rq\<lparr>recv_head := (recv_head rq + k) mod ?n, wait_for_disp := wait_for_disp rq + r\<rparr>"
  have l: "ring_linked ?n (rx_ring rq) h" "accounted (rx_ring rq) (lane_held rq p out) h"
      "recv_head rq = (ring_head rq + (wait_for_disp rq + p)) mod ?n" "ring_head rq < ?n"
    using assms(1) by (auto simp: lane_def)
  have n: "0 < ?n" by (simp add: kNumRxRingEntries_def)
  have room: "wait_for_disp rq + p + k \<le> ?n" using free_run_room [OF assms(1)] by (simp add: k_def)
  have new: "set (slots ?n (rx_ring rq) (recv_head rq) k) = the ` set ?new"
    using the_slots [OF l(1) n] .
  have sub: "set ?new \<subseteq> set (rx_ring rq)"
    using l(1) n by (auto simp: ring_slice_def ring_linked_def)
  have dist: "distinct ?new"
    using distinct_slots [OF l(1), of k] room slots_ptrs [OF l(1) n, of "recv_head rq" k, symmetric]
    by (simp add: distinct_map)
  have free: "x \<notin># lane_held rq p out" if "x \<in> set ?new" for x
  proof -
    have "the x \<in> set (slots ?n (rx_ring rq) (recv_head rq) k)" using that new by simp
    then have "state_of h (the x) = Some kFREE_BUF" unfolding k_def by (rule free_run_free)
    with l(2) sub that show ?thesis by (auto simp: accounted_def)
  qed
  have st: "state_of h' a = (if a \<in> the ` set ?new then map_option (\<lambda>_. kPOSTED) (state_of h a) else state_of h a)" for a
    by (simp only: h'(1) state_of_mark new)
  have "the ` set ?new \<subseteq> ring_addrs rq" using sub by blast
  then show hs: "heap_step (ring_addrs rq) h h'"
    using h'(2) by (auto simp: heap_step_def st)
  have "rx_held ?rq (p + k - r) = rx_held rq p @ ?new"
  proof -
    have "wait_for_disp rq + r + (p + k - r) = (wait_for_disp rq + p) + k" using r by simp
    then have "rx_held ?rq (p + k - r) = ring_slice ?n (ring_head rq) ((wait_for_disp rq + p) + k) ((!) (rx_ring rq))"
      by (simp add: rx_held_def add.assoc)
    then show ?thesis by (simp add: rx_held_def ring_slice_append l(3))
  qed
  then have held: "lane_held ?rq (p + k - r) out = lane_held rq p out + mset ?new"
    by (simp add: lane_held_def)
  have "accounted (rx_ring rq) (lane_held ?rq (p + k - r) out) h'"
    unfolding accounted_def held
  proof (intro conjI ballI allI)
    fix x
    have "count (lane_held rq p out) x \<le> 1" using l(2) by (simp add: accounted_def)
    moreover have "count (mset ?new) x = (if x \<in> set ?new then 1 else 0)"
      using dist by (simp add: distinct_count_atmost_1)
    moreover have "count (lane_held rq p out) x = 0" if "x \<in> set ?new"
      using free [OF that] by (simp add: not_in_iff)
    ultimately show "count (lane_held rq p out + mset ?new) x \<le> 1" by (auto split: if_splits)
  next
    show "set_mset (lane_held rq p out + mset ?new) \<subseteq> set (rx_ring rq)"
      using l(2) sub by (auto simp: accounted_def)
  next
    fix x assume x: "x \<in> set (rx_ring rq)"
    have "the x \<in> the ` set ?new \<longleftrightarrow> x \<in> set ?new"
      using ring_the_inj [OF l(1) x] sub by auto
    then show "state_of h' (the x) = Some kFREE_BUF \<longleftrightarrow> x \<notin># lane_held rq p out + mset ?new"
      using l(2) x by (auto simp: accounted_def st kPOSTED_def kFREE_BUF_def)
  qed
  moreover have "(recv_head rq + k) mod ?n = (ring_head rq + (wait_for_disp rq + p + k)) mod ?n"
    by (simp only: l(3) mod_add_left_eq add.assoc)
  moreover have "ring_linked ?n (rx_ring rq) h'" using heap_step_ring [OF hs] l(1) by simp
  ultimately show "lane ?rq (p + k - r) out h'"
    using assms(1) room r by (simp add: lane_def add.assoc)
qed

subsection \<open>The NIC and the user's handlers\<close>

text \<open>
  What is observed of the world: per queue pair the posted receives not completed, the
  outstanding sends, the log of accepted sends and a bound on the empty polls of a full send
  queue; and how many more reads of the clock come before the deadline.
\<close>

record 'w nic_view =
  nv_rcv :: "nat \<Rightarrow> 'w \<Rightarrow> nat"
  nv_out :: "nat \<Rightarrow> 'w \<Rightarrow> nat"
  nv_log :: "nat \<Rightarrow> 'w \<Rightarrow> sge list"
  nv_delay :: "nat \<Rightarrow> 'w \<Rightarrow> nat"
  nv_left :: "'w \<Rightarrow> nat"

definition sends_only :: "'w nic_view \<Rightarrow> nat \<Rightarrow> 'w \<Rightarrow> 'w \<Rightarrow> bool" where
  "sends_only v q w w' \<longleftrightarrow> (\<forall>x. nv_rcv v x w' = nv_rcv v x w) \<and>
     (\<forall>x. x \<noteq> q \<longrightarrow> nv_out v x w' = nv_out v x w \<and> nv_log v x w' = nv_log v x w) \<and> nv_left v w' \<le> nv_left v w"

definition recvs_only :: "'w nic_view \<Rightarrow> nat \<Rightarrow> 'w \<Rightarrow> 'w \<Rightarrow> bool" where
  "recvs_only v q w w' \<longleftrightarrow> (\<forall>x. x \<noteq> q \<longrightarrow> nv_rcv v x w' = nv_rcv v x w) \<and>
     (\<forall>x. nv_out v x w' = nv_out v x w \<and> nv_log v x w' = nv_log v x w) \<and> nv_left v w' \<le> nv_left v w"

definition nic_idle :: "'w nic_view \<Rightarrow> 'w \<Rightarrow> 'w \<Rightarrow> bool" where
  "nic_idle v w w' \<longleftrightarrow> (\<forall>x. nv_rcv v x w' = nv_rcv v x w) \<and>
     (\<forall>x. nv_out v x w' = nv_out v x w \<and> nv_log v x w' = nv_log v x w) \<and> nv_left v w' \<le> nv_left v w"

text \<open>
  Verbs as documented: a receive that fits into the receive queue is accepted, completions are
  reported once each and at most as many as asked for, the send side is as in \<open>send_nic\<close>, and a
  call on one queue pair leaves the others alone.
\<close>

definition nic_ok :: "'w soc_verbs \<Rightarrow> 'w nic_view \<Rightarrow> nat \<Rightarrow> bool" where
  "nic_ok api v q \<longleftrightarrow>
     send_nic api q (nv_out v q) (nv_log v q) (nv_delay v q) \<and>
     (\<forall>n w. sends_only v q w (snd (poll_send api q n w))) \<and>
     (\<forall>l w. sends_only v q w (snd (post_send api q l w))) \<and>
     (\<forall>l w. recvs_only v q w (snd (post_recv api q l w))) \<and>
     (\<forall>n w. recvs_only v q w (snd (poll_recv api q n w))) \<and>
     (\<forall>l w. nv_rcv v q w + length l \<le> kNumRxRingEntries \<longrightarrow>
        fst (post_recv api q l w) = 0 \<and> nv_rcv v q (snd (post_recv api q l w)) = nv_rcv v q w + length l) \<and>
     (\<forall>n w. case poll_recv api q n w of ((r, lens), w') \<Rightarrow>
        0 \<le> r \<and> nat r \<le> n \<and> nat r \<le> nv_rcv v q w \<and> length lens = nat r \<and> nv_rcv v q w' = nv_rcv v q w - nat r)"

lemma nic_ok_send: "nic_ok api v q \<Longrightarrow> send_nic api q (nv_out v q) (nv_log v q) (nv_delay v q)"
  by (simp add: nic_ok_def)

lemma nic_ok_frames:
  assumes "nic_ok api v q"
  shows "sends_only v q w (snd (poll_send api q n w))" "sends_only v q w (snd (post_send api q l w))"
    "recvs_only v q w (snd (post_recv api q l w))" "recvs_only v q w (snd (poll_recv api q n w))"
  using assms by (simp_all add: nic_ok_def)

lemma nic_ok_post:
  assumes "nic_ok api v q" "nv_rcv v q w + length l \<le> kNumRxRingEntries"
  obtains w' where "post_recv api q l w = (0, w')" "nv_rcv v q w' = nv_rcv v q w + length l" "recvs_only v q w w'"
proof -
  obtain r w' where p: "post_recv api q l w = (r, w')" by (cases "post_recv api q l w")
  have "fst (post_recv api q l w) = 0" "nv_rcv v q (snd (post_recv api q l w)) = nv_rcv v q w + length l"
    using assms by (simp_all add: nic_ok_def)
  with p nic_ok_frames(3) [OF assms(1), of w l] show thesis by (auto intro: that)
qed

lemma nic_ok_poll:
  assumes "nic_ok api v q"
  obtains r lens w' where "poll_recv api q n w = ((int r, lens), w')" "r \<le> n" "r \<le> nv_rcv v q w"
    "nv_rcv v q w' = nv_rcv v q w - r" "recvs_only v q w w'"
proof -
  obtain r lens w' where p: "poll_recv api q n w = ((r, lens), w')" by (metis surj_pair)
  have "\<forall>n w. case poll_recv api q n w of ((r, lens), w') \<Rightarrow>
      0 \<le> r \<and> nat r \<le> n \<and> nat r \<le> nv_rcv v q w \<and> length lens = nat r \<and> nv_rcv v q w' = nv_rcv v q w - nat r"
    using assms unfolding nic_ok_def by (elim conjE)
  from spec [OF spec [OF this, of n], of w] p nic_ok_frames(4) [OF assms, of w n] show thesis
    by (intro that [of "nat r" lens w']) auto
qed

lemma recvs_only_refl [simp]: "recvs_only v q w w"
  by (simp add: recvs_only_def)

lemma recvs_only_trans: "recvs_only v q w w' \<Longrightarrow> recvs_only v q w' w'' \<Longrightarrow> recvs_only v q w w''"
  by (auto simp: recvs_only_def)

lemma sends_only_refl [simp]: "sends_only v q w w"
  by (simp add: sends_only_def)

lemma sends_only_trans: "sends_only v q w w' \<Longrightarrow> sends_only v q w' w'' \<Longrightarrow> sends_only v q w w''"
  by (auto simp: sends_only_def)

lemma nic_idle_refl [simp]: "nic_idle v w w"
  by (simp add: nic_idle_def)

lemma nic_idle_trans: "nic_idle v w w' \<Longrightarrow> nic_idle v w' w'' \<Longrightarrow> nic_idle v w w''"
  by (auto simp: nic_idle_def)

text \<open>
  A message handler works on the contents of buffers and on its own state: it keeps the states
  and links of buffers, which belong to the datapath, and does not use its queue pairs.
\<close>

definition handler_ok :: "('u, 'w) SoCWrapperContext \<Rightarrow> 'w nic_view \<Rightarrow> bool" where
  "handler_ok ctx v \<longleftrightarrow> (case msg_handler ctx of None \<Rightarrow> True
     | Some f \<Rightarrow> \<forall>m u h w. case f m u h w of (ret, u', h', w') \<Rightarrow> heap_step {} h h' \<and> nic_idle v w w')"

subsection \<open>Steps of the loop on lanes\<close>

text \<open>Receiving on \<open>rq\<close>.\<close>

lemma lane_rx_burst:
  assumes nic: "nic_ok api v (qp_id rq)" and l: "lane rq (nv_rcv v (qp_id rq) w) out h"
  shows "\<exists>r rq' h' w'. rx_burst api rq h w = Some (Inr (int r, rq', h', w')) \<and>
    lane rq' (nv_rcv v (qp_id rq) w') out h' \<and> heap_step (ring_addrs rq) h h' \<and>
    recvs_only v (qp_id rq) w w' \<and>
    (\<exists>i. rq' = rq\<lparr>recv_head := i, wait_for_disp := wait_for_disp rq + r\<rparr>)"
proof -
  let ?n = kNumRxRingEntries and ?q = "qp_id rq"
  define k where "k = free_run ?n (rx_ring rq) (recv_head rq) h"
  define p where "p = nv_rcv v ?q w"
  have ring: "ring_linked ?n (rx_ring rq) h" "recv_head rq < ?n" "wr_circular ?n (recv_wr_next rq)"
    using l by (auto simp: lane_def kNumRxRingEntries_def)
  have room: "wait_for_disp rq + p + k \<le> ?n" using free_run_room [OF l] by (simp add: k_def p_def)
  have len: "length (rx_posted rq h) = k" by (simp add: rx_posted_def k_def)
  obtain w1 where w1: "(if rx_posted rq h = [] then (0, w) else post_recv api ?q (rx_posted rq h) w) = (0, w1)"
    "nv_rcv v ?q w1 = p + k" "recvs_only v ?q w w1"
  proof (cases "rx_posted rq h = []")
    case True
    then have "k = 0" using len by simp
    with True that [of w] show thesis by (simp add: p_def)
  next
    case False
    have "nv_rcv v ?q w + length (rx_posted rq h) \<le> ?n" using room len by (simp add: p_def)
    from nic_ok_post [OF nic this] False len that show thesis by (metis p_def)
  qed
  obtain r lens w2 where w2: "poll_recv api ?q kRxBatchSize w1 = ((int r, lens), w2)" "r \<le> kRxBatchSize"
    "r \<le> p + k" "nv_rcv v ?q w2 = p + k - r" "recvs_only v ?q w1 w2"
    using nic_ok_poll [OF nic, of kRxBatchSize w1] w1(2) by metis
  have small: "r \<le> ?n" "wait_for_disp rq + r < 2 ^ 64"
    using w2(2,3) room by (simp_all add: kNumRxRingEntries_def)
  obtain h' where b: "rx_burst api rq h w = Some (Inr (int r,
        rq\<lparr>recv_head := (recv_head rq + k) mod ?n, wait_for_disp := wait_for_disp rq + r\<rparr>, h', w2))"
      "state_of h' = state_of (mark kPOSTED (set (slots ?n (rx_ring rq) (recv_head rq) k)) h)"
      "next_is h' = next_is h"
    using rx_burst_result [OF ring w1(1) w2(1) small] by (auto simp: k_def)
  have "r \<le> nv_rcv v ?q w + k" using w2(3) by (simp add: p_def)
  note post = lane_post [OF l this [unfolded k_def] b(2,3) [unfolded k_def]]
  have "recvs_only v ?q w w2" using recvs_only_trans [OF w1(3) w2(5)] .
  with b(1) post w2(4) show ?thesis unfolding k_def p_def by fastforce
qed

text \<open>Dispatching from \<open>rq\<close> into the worker queue; what does not fit is dropped and free again.\<close>

lemma rx_front_slots:
  "lane rq p out h \<Longrightarrow> rx_front rq j = map Some (slots kNumRxRingEntries (rx_ring rq) (ring_head rq) j)"
  unfolding lane_def rx_front_def by (elim conjE) (subst slots_ptrs, auto simp: kNumRxRingEntries_def)

lemma lane_dispatch:
  assumes l: "lane rq p (queue_abs q @ rest) h" and q: "queue_wf q"
  shows "\<exists>n rq' h' q'. dispatch_rx_pkts rq h q = Inr (n, rq', h', q') \<and> queue_wf q' \<and>
    lane rq' p (queue_abs q' @ rest) h' \<and> heap_step (ring_addrs rq) h h' \<and>
    rq' = rq\<lparr>ring_head := (ring_head rq + wait_for_disp rq) mod kNumRxRingEntries, wait_for_disp := 0\<rparr>"
proof -
  let ?n = kNumRxRingEntries
  define bufs where "bufs = slots ?n (rx_ring rq) (ring_head rq) (wait_for_disp rq)"
  define xs ys where "xs = take (queue_room q) bufs" and "ys = drop (queue_room q) bufs"
  define rq' where "rq' = rq\<lparr>ring_head := (ring_head rq + wait_for_disp rq) mod ?n, wait_for_disp := 0\<rparr>"
  have ring: "ring_linked ?n (rx_ring rq) h" "ring_head rq < ?n" "wait_for_disp rq \<le> ?n"
    using l by (auto simp: lane_def)
  obtain q' where d: "dispatch_rx_pkts rq h q = Inr (min (length bufs) (queue_room q), rq',
        mark kFREE_BUF (set ys) (mark kAPP_OWNED_BUF (set xs) h), q')"
      "queue_wf q'" "queue_abs q' = queue_abs q @ map Some xs"
    using dispatch_result [OF ring q] by (auto simp: bufs_def xs_def ys_def rq'_def)
  have "rx_front rq (wait_for_disp rq) = map Some (xs @ ys)"
    using rx_front_slots [OF l] by (simp add: bufs_def xs_def ys_def)
  then have "lane rq' p (map Some (xs @ ys) @ queue_abs q @ rest) h"
    using lane_move [OF l order.refl] by (simp add: rq'_def)
  then have "lane rq' p (map Some ys @ queue_abs q' @ rest) h"
    by (subst (asm) lane_mset [where out' = "map Some ys @ queue_abs q' @ rest"]) (simp_all add: d(3))
  then have "lane rq' p (map Some ys @ queue_abs q' @ rest) (mark kAPP_OWNED_BUF (the ` set (map Some xs)) h)"
    by (rule lane_mark) (auto simp: d(3) kAPP_OWNED_BUF_def kFREE_BUF_def)
  note l2 = lane_retire [OF this]
  have img: "the ` set (map Some zs) = set zs" for zs :: "nat list" by force
  have l3: "lane rq' p (queue_abs q' @ rest) (mark kFREE_BUF (set ys) (mark kAPP_OWNED_BUF (set xs) h))"
    using l2 unfolding img .
  have "set (map Some (xs @ ys)) \<subseteq> set (rx_ring rq)"
    using lane_subset [OF \<open>lane rq' p (map Some (xs @ ys) @ queue_abs q @ rest) h\<close>] by (simp add: rq'_def)
  then have "set xs \<subseteq> ring_addrs rq" "set ys \<subseteq> ring_addrs rq" by (auto intro!: rev_image_eqI)
  then have "heap_step (ring_addrs rq) h (mark kFREE_BUF (set ys) (mark kAPP_OWNED_BUF (set xs) h))"
    by (blast intro: heap_step_trans heap_step_mono [OF heap_step_mark])
  with d(1,2) l3 show ?thesis unfolding rq'_def by blast
qed

text \<open>Sending on \<open>tq\<close> what came from \<open>rq\<close>.\<close>

lemma complete_qp_id:
  assumes "fold_run complete_one xs (q, h) = Inr (q', h')"
  shows "qp_id q' = qp_id q"
proof -
  have "qp_id (fst (q', h')) = qp_id q"
    using assms by (rule fold_run_invariant [where P = "\<lambda>s. qp_id (fst s) = qp_id q"])
      (auto simp: complete_one_def bind_run_eq_Inr)
  then show ?thesis by simp
qed

lemma mount_qp_id: "mount ms n t q h = Inr (n', t', q', h') \<Longrightarrow> qp_id q' = qp_id q"
proof (induction ms arbitrary: n t q h)
  case Nil
  then show ?case by simp
next
  case (Cons m ms)
  then show ?case by (fastforce simp: bind_run_eq_Inr split: if_splits)
qed

lemma tx_burst_world:
  assumes nic: "nic_ok api v (qp_id tq)" and run: "tx_burst api ms tq h w = Inr (k, tq', h', w')"
  shows "sends_only v (qp_id tq) w w'"
proof -
  obtain r w1 where p: "poll_send api (qp_id tq) kNumTxRingEntries w = (r, w1)"
    by (cases "poll_send api (qp_id tq) kNumTxRingEntries w")
  have s1: "sends_only v (qp_id tq) w w1" using nic_ok_frames(1) [OF nic, of w kNumTxRingEntries] p by simp
  obtain q1 h1 n t q2 h2 where
    c: "fold_run complete_one [0 ..< nat r] (tq\<lparr>free_send_wr_num := add_int (free_send_wr_num tq) r\<rparr>, h) = Inr (q1, h1)"
    and m: "mount ms 0 None q1 h1 = Inr (n, t, q2, h2)"
    and rest: "(case t of None \<Rightarrow> Inr (n, q2, h2, w1) | Some t \<Rightarrow>
                  let temp_wr = send_wr_next q2 ! t;
                      cut = (send_wr_next q2)[t := None];
                      wrs = wr_chain kNumTxRingEntries cut (send_tail q1);
                      (ret', w2) = post_send api (qp_id q2) (map ((!) (send_sgl q2)) wrs) w1
                  in if ret' \<noteq> 0 then Inl Nicc_Shutdown
                     else Inr (n, q2\<lparr>send_wr_next := cut[t := temp_wr]\<rparr>, h2, w2)) = Inr (k, tq', h', w')"
    using run unfolding tx_burst_def p Let_def prod.case bind_run_eq_Inr
    by (auto simp: Let_def bind_run_eq_Inr)
  have id: "qp_id q2 = qp_id tq" using complete_qp_id [OF c] mount_qp_id [OF m] by simp
  show ?thesis
  proof (cases t)
    case None
    with rest s1 show ?thesis by simp
  next
    case (Some i)
    then have "\<exists>l. post_send api (qp_id tq) l w1 = (0, w')"
      using rest by (auto simp: Let_def id split: prod.splits if_splits)
    then obtain l where "w' = snd (post_send api (qp_id tq) l w1)" by (metis snd_conv)
    with sends_only_trans [OF s1 nic_ok_frames(2) [OF nic]] show ?thesis by simp
  qed
qed

lemma mset_take_drop: "mset (take r xs) + mset (drop r xs) = mset xs"
  by (metis append_take_drop_id mset_append)

lemma lane_tx_burst:
  assumes nic: "nic_ok api v (qp_id tq)" and wf: "send_wf (nv_out v (qp_id tq) w) tq h"
    and l: "lane rq p (ms @ sending tq (nv_out v (qp_id tq) w) @ rest) h"
  shows "\<exists>k tq' h' w'. tx_burst api ms tq h w = Inr (k, tq', h', w') \<and> k \<le> length ms \<and>
    (ms \<noteq> [] \<longrightarrow> 0 < k \<or> nv_delay v (qp_id tq) w' < nv_delay v (qp_id tq) w) \<and>
    send_wf (nv_out v (qp_id tq) w') tq' h' \<and>
    lane rq p (drop k ms @ sending tq' (nv_out v (qp_id tq) w') @ rest) h' \<and>
    heap_step (ring_addrs rq) h h' \<and> sends_only v (qp_id tq) w w' \<and>
    (\<exists>sgl sw hd tl f. tq' = tq\<lparr>send_sgl := sgl, send_head := hd, sw_ring := sw, send_tail := tl, free_send_wr_num := f\<rparr>)"
proof -
  let ?q = "qp_id tq" and ?o = "nv_out v (qp_id tq)"
  have live: "\<forall>m \<in> set ms. live_ptr h m" using lane_live [OF l] by simp
  obtain k tq' h' w' r sgl sw hd tl f where b: "tx_burst api ms tq h w = Inr (k, tq', h', w')" "k \<le> length ms"
    "sent_ok ?o (nv_log v ?q) (take k ms) tq h w tq' h' w'"
    "ms \<noteq> [] \<longrightarrow> 0 < k \<or> nv_delay v ?q w' < nv_delay v ?q w" "r \<le> ?o w"
    "sending tq' (?o w') = drop r (sending tq (?o w)) @ take k ms"
    "h' = mark kPOSTED (the ` set (take k ms)) (mark kFREE_BUF (the ` set (take r (sending tq (?o w)))) h)"
    "tq' = tq\<lparr>send_sgl := sgl, send_head := hd, sw_ring := sw, send_tail := tl, free_send_wr_num := f\<rparr>"
    using tx_burst_exact [OF nic_ok_send [OF nic] wf live] by (elim exE conjE) (rule that; assumption)
  let ?done = "take r (sending tq (?o w))" and ?left = "drop r (sending tq (?o w))"
  have "mset (ms @ sending tq (?o w) @ rest) = mset (?done @ ms @ ?left @ rest)"
    using mset_take_drop [of r "sending tq (?o w)"] by simp
  then have "lane rq p (?done @ ms @ ?left @ rest) h" using l lane_mset by blast
  note l1 = lane_retire [OF this]
  have "lane rq p (ms @ ?left @ rest) h'"
    unfolding b(7) by (rule lane_mark [OF l1]) (auto dest: in_set_takeD simp: kPOSTED_def kFREE_BUF_def)
  moreover have "mset (ms @ ?left @ rest) = mset (drop k ms @ sending tq' (?o w') @ rest)"
    using mset_take_drop [of k ms] by (simp add: b(6) add.commute)
  ultimately have l2: "lane rq p (drop k ms @ sending tq' (?o w') @ rest) h'" using lane_mset by blast
  have "set ?done \<subseteq> set (rx_ring rq)" "set (take k ms) \<subseteq> set (rx_ring rq)"
    using lane_subset [OF l] by (auto dest!: in_set_takeD)
  then have "heap_step (ring_addrs rq) h h'"
    unfolding b(7) by (intro heap_step_trans [OF heap_step_mono [OF heap_step_mark] heap_step_mono [OF heap_step_mark]] image_mono)
  moreover have "send_wf (?o w') tq' h'" using b(3) by (simp add: sent_ok_def)
  moreover note tx_burst_world [OF nic b(1)]
  moreover have "\<exists>sgl sw hd tl f. tq' = tq\<lparr>send_sgl := sgl, send_head := hd, sw_ring := sw, send_tail := tl, free_send_wr_num := f\<rparr>"
    using b(8) by blast
  ultimately show ?thesis using b(1,2,4) l2 by (intro exI [of _ k] exI [of _ tq'] exI [of _ h'] exI [of _ w'] conjI)
qed

text \<open>What a transmission leaves of a queue pair as it was.\<close>

definition same_rx :: "RDMA_SoC_QP \<Rightarrow> RDMA_SoC_QP \<Rightarrow> bool" where
  "same_rx q q' \<longleftrightarrow> qp_id q' = qp_id q \<and> rx_ring q' = rx_ring q \<and> recv_wr_next q' = recv_wr_next q \<and>
     recv_head q' = recv_head q \<and> ring_head q' = ring_head q \<and> wait_for_disp q' = wait_for_disp q \<and>
     collect_worker_queue q' = collect_worker_queue q \<and> disp_worker_queue q' = disp_worker_queue q"

lemma same_rx_trans: "same_rx q q' \<Longrightarrow> same_rx q' q'' \<Longrightarrow> same_rx q q''"
  by (simp add: same_rx_def)

lemma lane_same_rx: "same_rx q q' \<Longrightarrow> lane q p out h \<Longrightarrow> lane q' p out h"
  by (rule lane_fields) (auto simp: same_rx_def)

lemma lane_flush_loop:
  assumes "nic_ok api v (qp_id tq)" "send_wf (nv_out v (qp_id tq) w) tq h"
    and "lane rq p (drop n (take (tx_queue_idx tq) (tx_queue tq)) @ sending tq (nv_out v (qp_id tq) w) @ rest) h"
    and "n \<le> tx_queue_idx tq" "tx_queue_idx tq \<le> length (tx_queue tq)"
  shows "\<exists>tq' h' w'. flush_loop api n tq h w = Some (Inr (tx_queue_idx tq, tq', h', w')) \<and>
    send_wf (nv_out v (qp_id tq) w') tq' h' \<and> lane rq p (sending tq' (nv_out v (qp_id tq) w') @ rest) h' \<and>
    heap_step (ring_addrs rq) h h' \<and> sends_only v (qp_id tq) w w' \<and> same_rx tq tq' \<and> tx_queue tq' = tx_queue tq"
  using assms
proof (induction "(tx_queue_idx tq - n, nv_delay v (qp_id tq) w)" arbitrary: n tq h w
    rule: wf_induct_rule [OF wf_lex_prod [OF wf_less_than wf_less_than]])
  case 1
  let ?q = "qp_id tq" and ?ms = "drop n (take (tx_queue_idx tq) (tx_queue tq))"
  show ?case
  proof (cases "n < tx_queue_idx tq")
    case False
    with 1 show ?thesis by (subst flush_loop.simps) (simp add: same_rx_def)
  next
    case True
    have ne: "?ms \<noteq> []" and lms: "length ?ms = tx_queue_idx tq - n" using True 1(6) by auto
    obtain k q1 h1 w1 where b: "tx_burst api ?ms tq h w = Inr (k, q1, h1, w1)" "k \<le> length ?ms"
      "0 < k \<or> nv_delay v ?q w1 < nv_delay v ?q w" "send_wf (nv_out v ?q w1) q1 h1"
      "lane rq p (drop k ?ms @ sending q1 (nv_out v ?q w1) @ rest) h1" "heap_step (ring_addrs rq) h h1"
      "sends_only v ?q w w1"
      "\<exists>sgl sw hd tl f. q1 = tq\<lparr>send_sgl := sgl, send_head := hd, sw_ring := sw, send_tail := tl, free_send_wr_num := f\<rparr>"
      using lane_tx_burst [OF 1(2-4)] ne by blast
    have keep: "tx_queue q1 = tx_queue tq" "tx_queue_idx q1 = tx_queue_idx tq" "qp_id q1 = ?q" "same_rx tq q1"
      using b(8) by (auto simp: same_rx_def)
    have rest: "drop (n + k) (take (tx_queue_idx q1) (tx_queue q1)) = drop k ?ms"
      by (simp add: keep add.commute)
    have less: "((tx_queue_idx q1 - (n + k), nv_delay v (qp_id q1) w1), tx_queue_idx tq - n, nv_delay v ?q w)
        \<in> less_than <*lex*> less_than"
      using b(2,3) lms keep(2,3) True by auto
    have "n + k \<le> tx_queue_idx q1" using b(2) lms keep(2) True by simp
    moreover have "tx_queue_idx q1 \<le> length (tx_queue q1)" using 1(6) keep by simp
    ultimately obtain q2 h2 w2 where
      "flush_loop api (n + k) q1 h1 w1 = Some (Inr (tx_queue_idx q1, q2, h2, w2))"
      "send_wf (nv_out v ?q w2) q2 h2" "lane rq p (sending q2 (nv_out v ?q w2) @ rest) h2"
      "heap_step (ring_addrs rq) h1 h2" "sends_only v ?q w1 w2" "same_rx q1 q2" "tx_queue q2 = tx_queue q1"
      using 1(1) [OF less, of h1] 1(2) b(4,5) keep(3) unfolding rest by auto
    moreover from this have "heap_step (ring_addrs rq) h h2" "sends_only v ?q w w2" "same_rx tq q2"
      using heap_step_trans [OF b(6)] sends_only_trans [OF b(7)] same_rx_trans [OF keep(4)] by simp_all
    ultimately show ?thesis using True b(1) keep by (subst flush_loop.simps) simp
  qed
qed

lemma lane_tx_flush:
  assumes "nic_ok api v (qp_id tq)" "send_wf (nv_out v (qp_id tq) w) tq h"
    and "lane rq p (take (tx_queue_idx tq) (tx_queue tq) @ sending tq (nv_out v (qp_id tq) w) @ rest) h"
    and "tx_queue_idx tq \<le> length (tx_queue tq)"
  shows "\<exists>tq' h' w'. tx_flush api tq h w = Some (Inr (tx_queue_idx tq, tq', h', w')) \<and>
    send_wf (nv_out v (qp_id tq) w') tq' h' \<and> lane rq p (sending tq' (nv_out v (qp_id tq) w') @ rest) h' \<and>
    heap_step (ring_addrs rq) h h' \<and> sends_only v (qp_id tq) w w' \<and> same_rx tq tq' \<and>
    tx_queue tq' = tx_queue tq \<and> tx_queue_idx tq' = 0"
proof -
  have "lane rq p (drop 0 (take (tx_queue_idx tq) (tx_queue tq)) @ sending tq (nv_out v (qp_id tq) w) @ rest) h"
    using assms(3) by simp
  from lane_flush_loop [OF assms(1,2) this _ assms(4)] obtain tq' h' w' where
    r: "flush_loop api 0 tq h w = Some (Inr (tx_queue_idx tq, tq', h', w'))"
    "send_wf (nv_out v (qp_id tq) w') tq' h'" "lane rq p (sending tq' (nv_out v (qp_id tq) w') @ rest) h'"
    "heap_step (ring_addrs rq) h h'" "sends_only v (qp_id tq) w w'" "same_rx tq tq'" "tx_queue tq' = tx_queue tq"
    by blast
  have "send_wf (nv_out v (qp_id tq) w') (tq'\<lparr>tx_queue_idx := 0\<rparr>) h'"
    using r(2) by (simp add: send_wf_def send_ring_def)
  moreover have "same_rx tq (tq'\<lparr>tx_queue_idx := 0\<rparr>)" using r(6) by (simp add: same_rx_def)
  moreover have "sending (tq'\<lparr>tx_queue_idx := 0\<rparr>) n = sending tq' n" for n by (simp add: sending_def)
  ultimately show ?thesis using r by (simp add: tx_flush_def)
qed

text \<open>The worker, with any handler that keeps to its contract.\<close>

lemma worker_one_quiet:
  assumes "handler_ok ctx v"
  shows "heap_step {} (w_heap s) (w_heap (worker_one ctx s)) \<and> nic_idle v (w_world s) (w_world (worker_one ctx s))"
proof (cases "msg_handler ctx")
  case None
  then show ?thesis by (simp add: worker_one_def Let_def split: prod.split)
next
  case (Some f)
  obtain m rx where d: "dequeue (w_rx_queue s) = (m, rx)" by (cases "dequeue (w_rx_queue s)")
  obtain r u h w where f: "f m (w_user s) (w_heap s) (w_world s) = (r, u, h, w)" by (metis surj_pair)
  have "\<forall>m u h w. case f m u h w of (ret, u', h', w') \<Rightarrow> heap_step {} h h' \<and> nic_idle v w w'"
    using assms by (simp add: handler_ok_def Some)
  from spec [OF spec [OF spec [OF spec [OF this, of m], of "w_user s"], of "w_heap s"], of "w_world s"] f show ?thesis by (simp add: worker_one_def Let_def d Some)
qed

lemma worker_loop_quiet:
  assumes "handler_ok ctx v"
  shows "heap_step {} (w_heap s) (w_heap (worker_loop ctx n s)) \<and> nic_idle v (w_world s) (w_world (worker_loop ctx n s))"
proof (induction n arbitrary: s)
  case 0
  then show ?case by simp
next
  case (Suc n)
  then show ?case using worker_one_quiet [OF assms] heap_step_trans nic_idle_trans
    by (metis worker_loop.simps(2))
qed

lemma worker_phase_quiet:
  "handler_ok ctx v \<Longrightarrow> heap_step {} (w_heap s) (w_heap (worker_phase ctx s)) \<and>
     nic_idle v (w_world s) (w_world (worker_phase ctx s))"
  using worker_loop_quiet [of ctx v s] by (simp add: worker_phase_def Let_def)

end
