(* ===== verification/StrUtils.thy ===== *)
theory StrUtils
  imports NiccTypes
begin

text \<open>
  The \<open>std::string\<close> operations the parsers use: \<open>find\<close> of a character and of a substring
  (\<open>npos\<close> is \<open>None\<close>), \<open>substr\<close>, and the conversions \<open>stoul\<close> and \<open>stoi\<close> with their exceptions.
\<close>

text \<open>\<open>s.find(c, from)\<close> and \<open>s.find(pat)\<close>.\<close>

fun find_char :: "char \<Rightarrow> string \<Rightarrow> nat option" where
  "find_char c [] = None"
| "find_char c (x # xs) = (if x = c then Some 0 else map_option Suc (find_char c xs))"

definition find_char_from :: "char \<Rightarrow> nat \<Rightarrow> string \<Rightarrow> nat option" where
  "find_char_from c n s = map_option ((+) n) (find_char c (drop n s))"

fun find_str :: "string \<Rightarrow> string \<Rightarrow> nat option" where
  "find_str pat [] = (if pat = [] then Some 0 else None)"
| "find_str pat (x # xs) =
     (if take (length pat) (x # xs) = pat then Some 0 else map_option Suc (find_str pat xs))"

definition substr :: "nat \<Rightarrow> nat \<Rightarrow> string \<Rightarrow> string" where
  "substr pos n s = take n (drop pos s)"

lemma find_char_append:
  "c \<notin> set xs \<Longrightarrow> find_char c (xs @ c # ys) = Some (length xs)"
  by (induction xs) auto

lemma find_char_None: "find_char c s = None \<longleftrightarrow> c \<notin> set s"
  by (induction s) auto

lemma find_char_Some: "find_char c s = Some i \<Longrightarrow> i < length s \<and> s ! i = c \<and> c \<notin> set (take i s)"
proof (induction s arbitrary: i)
  case (Cons x s)
  then show ?case by (cases i) (auto split: if_splits)
qed simp

lemma find_str_2_absent:
  "b \<notin> set s \<or> a \<notin> set s \<Longrightarrow> find_str [a, b] s = None"
proof (induction s)
  case (Cons x s)
  then show ?case by (cases s) auto
qed simp

lemma find_str_2_at:
  "a \<notin> set xs \<or> b \<notin> set xs \<and> a \<noteq> b \<Longrightarrow> find_str [a, b] (xs @ a # b # ys) = Some (length xs)"
proof (induction xs)
  case (Cons x xs)
  then show ?case by (cases xs) auto
qed simp

subsection \<open>Numbers\<close>

definition is_space :: "char \<Rightarrow> bool" where
  "is_space c \<longleftrightarrow> c = CHR '' '' \<or> (9 \<le> (of_char c :: nat) \<and> (of_char c :: nat) \<le> 13)"

definition is_digit :: "char \<Rightarrow> bool" where
  "is_digit c \<longleftrightarrow> 48 \<le> (of_char c :: nat) \<and> (of_char c :: nat) \<le> 57"

definition digit_val :: "char \<Rightarrow> nat" where
  "digit_val c = of_char c - 48"

definition dec_val :: "string \<Rightarrow> nat" where
  "dec_val ds = foldl (\<lambda>n c. 10 * n + digit_val c) 0 ds"

text \<open>The prefix \<open>strtol\<close>-style functions read: blanks, a sign, and at least one digit.\<close>

definition split_number :: "string \<Rightarrow> (bool \<times> nat) option" where
  "split_number s =
     (let s1 = dropWhile is_space s;
          (neg, s2) = (case s1 of [] \<Rightarrow> (False, [])
             | c # cs \<Rightarrow> if c = CHR ''-'' then (True, cs) else if c = CHR ''+'' then (False, cs) else (False, s1));
          ds = takeWhile is_digit s2
      in if ds = [] then None else Some (neg, dec_val ds))"

text \<open>\<open>std::stoul\<close>: a sign is accepted and the value negated modulo \<open>2^64\<close>.\<close>

definition stoul :: "string \<Rightarrow> u64 run" where
  "stoul s = (case split_number s of None \<Rightarrow> Inl Std_Exception
     | Some (neg, n) \<Rightarrow>
         if n \<ge> 2 ^ 64 then Inl Std_Exception
         else Inr (if neg then - of_nat n else of_nat n))"

text \<open>\<open>std::stoi\<close>: a value that does not fit \<open>int\<close> throws.\<close>

definition stoi :: "string \<Rightarrow> int run" where
  "stoi s = (case split_number s of None \<Rightarrow> Inl Std_Exception
     | Some (neg, n) \<Rightarrow>
         let v = (if neg then - int n else int n)
         in if v < - (2 ^ 31) \<or> v \<ge> 2 ^ 31 then Inl Std_Exception else Inr v)"

text \<open>Decimal numerals, as \<open>std::to_string\<close> prints them.\<close>

fun to_dec :: "nat \<Rightarrow> string" where
  "to_dec n = (if n < 10 then [char_of (48 + n)] else to_dec (n div 10) @ [char_of (48 + n mod 10)])"

declare to_dec.simps [simp del]

lemma of_char_digit: "d < 10 \<Longrightarrow> of_char (char_of (48 + d)) = (48 + d :: nat)"
  by (simp add: of_char_of)

lemma is_digit_dec: "d < 10 \<Longrightarrow> is_digit (char_of (48 + d :: nat))"
  by (simp add: is_digit_def of_char_digit)

lemma to_dec_digits: "c \<in> set (to_dec n) \<Longrightarrow> is_digit c"
proof (induction n rule: to_dec.induct)
  case (1 n)
  then show ?case
    by (cases "n < 10") (auto simp: to_dec.simps [of n] is_digit_dec)
qed

lemma to_dec_nonempty [simp]: "to_dec n \<noteq> []"
  by (subst to_dec.simps) simp

lemma dec_val_to_dec [simp]: "dec_val (to_dec n) = n"
proof (induction n rule: to_dec.induct)
  case (1 n)
  then show ?case
    by (cases "n < 10")
      (simp_all add: to_dec.simps [of n] dec_val_def digit_val_def of_char_digit)
qed

lemma digit_not_special: "is_digit c \<Longrightarrow> \<not> is_space c \<and> c \<noteq> CHR ''-'' \<and> c \<noteq> CHR ''+''"
  by (auto simp: is_digit_def is_space_def)

lemma split_number_to_dec:
  assumes "rest = [] \<or> \<not> is_digit (hd rest)"
  shows "split_number (to_dec n @ rest) = Some (False, n)"
proof -
  obtain c cs where c: "to_dec n = c # cs" by (cases "to_dec n") auto
  have "is_digit c" using to_dec_digits [of c n] c by simp
  then have d: "\<not> is_space c" "c \<noteq> CHR ''-''" "c \<noteq> CHR ''+''" using digit_not_special by auto
  have "takeWhile is_digit (to_dec n @ rest) = to_dec n"
    using assms to_dec_digits by (cases rest) (simp_all add: takeWhile_append)
  then show ?thesis
    using d dec_val_to_dec [of n] by (simp add: split_number_def Let_def c)
qed

lemma stoul_to_dec: "n < 2 ^ 64 \<Longrightarrow> stoul (to_dec n) = Inr (of_nat n)"
  using split_number_to_dec [of "[]" n] by (simp add: stoul_def)

lemma stoi_to_dec: "n < 2 ^ 31 \<Longrightarrow> stoi (to_dec n) = Inr (int n)"
  using split_number_to_dec [of "[]" n] by (simp add: stoi_def)

lemma stoi_to_dec_overflow: "2 ^ 31 \<le> n \<Longrightarrow> stoi (to_dec n) = Inl Std_Exception"
  using split_number_to_dec [of "[]" n] by (simp add: stoi_def)

end
