(* ===== verification/QPInfo.thy ===== *)
theory QPInfo
  imports StrUtils
begin

text \<open>
  Connection records exchanged with the hosts over the management connection
  (\<open>runtime/include/utils/qpinfo.hh\<close>): the class \<open>QPInfo\<close>, its textual form and the parser.
  The fixed \<open>char\<close> arrays hold NUL-terminated strings; the model keeps the characters before
  the terminator.
\<close>

definition MAX_HOSTNAME_LEN :: nat where "MAX_HOSTNAME_LEN = 64"
definition MAX_NIC_NAME_LEN :: nat where "MAX_NIC_NAME_LEN = 64"

record QPInfo =
  qi_qp_num :: u32
  qi_lid :: u16
  qi_gid :: "u8 list"
  qi_gid_table_index :: u8
  qi_mtu :: u32
  qi_mac_addr :: "u8 list"
  qi_hostname :: string
  qi_nic_name :: string
  qi_is_initialized :: bool

text \<open>\<open>strncpy\<close> of a C string into an array of \<open>n\<close> bytes whose last byte is then cleared.\<close>

definition c_str :: "string \<Rightarrow> string" where
  "c_str s = takeWhile (\<lambda>c. c \<noteq> CHR 0x00) s"

definition copy_name :: "nat \<Rightarrow> string \<Rightarrow> string" where
  "copy_name n s = take (n - 1) (c_str s)"

definition new_QPInfo :: "u32 \<Rightarrow> u16 \<Rightarrow> u8 list option \<Rightarrow> u32 \<Rightarrow> string \<Rightarrow> string \<Rightarrow> QPInfo" where
  "new_QPInfo n l g m host nic = \<lparr>qi_qp_num = n, qi_lid = l,
     qi_gid = (case g of Some bs \<Rightarrow> take 16 bs | None \<Rightarrow> replicate 16 0),
     qi_gid_table_index = 0, qi_mtu = m, qi_mac_addr = replicate 6 0,
     qi_hostname = copy_name MAX_HOSTNAME_LEN host, qi_nic_name = copy_name MAX_NIC_NAME_LEN nic,
     qi_is_initialized = False\<rparr>"

definition set_gid :: "u8 list option \<Rightarrow> QPInfo \<Rightarrow> QPInfo" where
  "set_gid g q = (case g of Some bs \<Rightarrow> q\<lparr>qi_gid := take 16 bs\<rparr> | None \<Rightarrow> q)"

definition set_mac :: "u8 list option \<Rightarrow> QPInfo \<Rightarrow> QPInfo" where
  "set_mac g q = (case g of Some bs \<Rightarrow> q\<lparr>qi_mac_addr := take 6 bs\<rparr> | None \<Rightarrow> q)"

text \<open>
  The copy constructor and the assignment, which leaves an object assigned to itself alone.
  \<open>strncpy\<close> copies up to the terminator.
\<close>

definition copy_fields :: "QPInfo \<Rightarrow> QPInfo" where
  "copy_fields other = \<lparr>qi_qp_num = qi_qp_num other, qi_lid = qi_lid other, qi_gid = take 16 (qi_gid other),
     qi_gid_table_index = qi_gid_table_index other, qi_mtu = qi_mtu other, qi_mac_addr = take 6 (qi_mac_addr other),
     qi_hostname = take MAX_HOSTNAME_LEN (c_str (qi_hostname other)),
     qi_nic_name = take MAX_NIC_NAME_LEN (c_str (qi_nic_name other)), qi_is_initialized = qi_is_initialized other\<rparr>"

definition copy_QPInfo :: "QPInfo \<Rightarrow> QPInfo" where "copy_QPInfo other = copy_fields other"

definition assign_QPInfo :: "bool \<Rightarrow> QPInfo \<Rightarrow> QPInfo \<Rightarrow> QPInfo" where
  "assign_QPInfo same_object other q = (if \<not> same_object then copy_fields other else q)"

subsection \<open>Text\<close>

fun to_hex :: "nat \<Rightarrow> string" where
  "to_hex n = (if n < 16 then [''0123456789abcdef'' ! n] else to_hex (n div 16) @ [''0123456789abcdef'' ! (n mod 16)])"

declare to_hex.simps [simp del]

definition colons :: "string list \<Rightarrow> string" where
  "colons bs = concat (map (\<lambda>i. (if i = 0 then [] else '':'') @ bs ! i) [0 ..< length bs])"

text \<open>The output operator, behind \<open>to_string\<close>: the bytes are in hexadecimal without leading zeros.\<close>

definition qpinfo_to_string :: "QPInfo \<Rightarrow> string" where
  "qpinfo_to_string q =
     ''Hostname: '' @ qi_hostname q @ '', NIC Name: '' @ qi_nic_name q @ '', MTU: '' @ to_dec (unat (qi_mtu q)) @
     '', QP Number: '' @ to_dec (unat (qi_qp_num q)) @ '', LID: '' @ to_dec (unat (qi_lid q)) @
     '', GID Index: '' @ to_dec (unat (qi_gid_table_index q)) @
     '', MAC: '' @ colons (map (\<lambda>b. to_hex (unat b)) (qi_mac_addr q)) @
     '', GID: '' @ colons (map (\<lambda>b. to_hex (unat b)) (qi_gid q))"

definition render_bytes :: "u8 list \<Rightarrow> string" where
  "render_bytes bs = concat (map (\<lambda>b. to_dec (unat b) @ '','') bs)"

definition serialize :: "QPInfo \<Rightarrow> string" where
  "serialize q =
     ''qp_num:'' @ to_dec (unat (qi_qp_num q)) @ '';'' @
     ''lid:'' @ to_dec (unat (qi_lid q)) @ '';'' @
     ''gid:'' @ render_bytes (qi_gid q) @
     '';gid_table_index:'' @ to_dec (unat (qi_gid_table_index q)) @ '';'' @
     ''mac:'' @ render_bytes (qi_mac_addr q) @
     '';mtu:'' @ to_dec (unat (qi_mtu q)) @ '';'' @
     ''hostname:'' @ qi_hostname q @ '';'' @
     ''nic_name:'' @ qi_nic_name q @ '';'' @
     ''is_initialized:'' @ to_dec (if qi_is_initialized q then 1 else 0)"

text \<open>The strings a loop over \<open>std::getline\<close> with delimiter \<open>d\<close> yields.\<close>

fun getlines :: "char \<Rightarrow> string \<Rightarrow> string list" where
  "getlines d [] = []"
| "getlines d (c # cs) = (if c = d then [] # getlines d cs
     else case getlines d cs of [] \<Rightarrow> [[c]] | l # ls \<Rightarrow> (c # l) # ls)"

definition nth_line :: "nat \<Rightarrow> string list \<Rightarrow> string" where
  "nth_line i ls = (if i < length ls then ls ! i else [])"

text \<open>The loops over the byte lists stop when the array is full.\<close>

fun read_bytes :: "string list \<Rightarrow> nat \<Rightarrow> nat \<Rightarrow> u8 list \<Rightarrow> u8 list run" where
  "read_bytes [] i n bs = Inr bs"
| "read_bytes (t # ts) i n bs = (if i < n
     then bind_run (stoi t) (\<lambda>v. read_bytes ts (Suc i) n (bs[i := word_of_int v]))
     else Inr bs)"

definition deserialize_token :: "string \<Rightarrow> QPInfo \<Rightarrow> QPInfo run" where
  "deserialize_token token q =
     (let parts = getlines (CHR '':'') token;
          key = nth_line 0 parts;
          val = nth_line 1 parts
      in if key = ''qp_num'' then bind_run (stoi val) (\<lambda>v. Inr (q\<lparr>qi_qp_num := word_of_int v\<rparr>))
         else if key = ''lid'' then bind_run (stoi val) (\<lambda>v. Inr (q\<lparr>qi_lid := word_of_int v\<rparr>))
         else if key = ''gid'' then
           bind_run (read_bytes (getlines (CHR '','') val) 0 16 (qi_gid q)) (\<lambda>bs. Inr (q\<lparr>qi_gid := bs\<rparr>))
         else if key = ''gid_table_index'' then
           bind_run (stoi val) (\<lambda>v. Inr (q\<lparr>qi_gid_table_index := word_of_int v\<rparr>))
         else if key = ''mac'' then
           bind_run (read_bytes (getlines (CHR '','') val) 0 6 (qi_mac_addr q)) (\<lambda>bs. Inr (q\<lparr>qi_mac_addr := bs\<rparr>))
         else if key = ''mtu'' then bind_run (stoi val) (\<lambda>v. Inr (q\<lparr>qi_mtu := word_of_int v\<rparr>))
         else if key = ''hostname'' then Inr (q\<lparr>qi_hostname := copy_name MAX_HOSTNAME_LEN val\<rparr>)
         else if key = ''nic_name'' then Inr (q\<lparr>qi_nic_name := copy_name MAX_NIC_NAME_LEN val\<rparr>)
         else if key = ''is_initialized'' then
           bind_run (stoi val) (\<lambda>v. Inr (q\<lparr>qi_is_initialized := (v \<noteq> 0)\<rparr>))
         else Inr q)"

definition deserialize :: "string \<Rightarrow> QPInfo \<Rightarrow> QPInfo run" where
  "deserialize s q = fold_run deserialize_token (getlines (CHR '';'') s) q"

subsection \<open>Splitting\<close>

lemma getlines_last: "d \<notin> set s \<Longrightarrow> s \<noteq> [] \<Longrightarrow> getlines d s = [s]"
proof (induction s)
  case (Cons c s)
  then show ?case by (cases s) auto
qed simp

lemma getlines_Cons: "d \<notin> set s \<Longrightarrow> getlines d (s @ d # rest) = s # getlines d rest"
  by (induction s) auto

lemma getlines_render_bytes: "getlines (CHR '','') (render_bytes bs) = map (\<lambda>b. to_dec (unat b)) bs"
proof (induction bs)
  case (Cons b bs)
  have "CHR '','' \<notin> set (to_dec (unat b))"
    using to_dec_digits [of "CHR '',''" "unat b"] by (auto simp: is_digit_def)
  then show ?case using Cons by (simp add: render_bytes_def getlines_Cons)
qed (simp add: render_bytes_def)

lemma stoi_unat: "unat w < 2 ^ 31 \<Longrightarrow> stoi (to_dec (unat w)) = Inr (uint w)"
  using stoi_to_dec [of "unat w"] by simp

lemma unat_small: "LENGTH('a) \<le> 31 \<Longrightarrow> unat (w :: 'a::len word) < 2 ^ 31"
  using unsigned_less [of w, where 'a = nat] power_increasing [of "LENGTH('a)" 31 "2 :: nat"] by linarith

lemma stoi_small: "LENGTH('a) \<le> 31 \<Longrightarrow> stoi (to_dec (unat (w :: 'a::len word))) = Inr (uint w)"
  by (rule stoi_unat, rule unat_small)

lemma read_bytes_map:
  "i + length bs = n \<Longrightarrow> length xs = n \<Longrightarrow>
   read_bytes (map (\<lambda>b. to_dec (unat (b :: u8))) bs) i n xs = Inr (take i xs @ bs)"
proof (induction bs arbitrary: i xs)
  case (Cons b bs)
  have "stoi (to_dec (unat b)) = Inr (uint b)" by (simp add: stoi_small)
  moreover have "take (Suc i) (xs[i := b]) = take i xs @ [b]"
    using Cons.prems by (simp add: take_Suc_conv_app_nth)
  ultimately show ?case using Cons by simp
qed simp

lemma sep_not_digit:
  "CHR '';'' \<notin> set (to_dec n)" "CHR '':'' \<notin> set (to_dec n)"
  using to_dec_digits [of "CHR '';''" n] to_dec_digits [of "CHR '':''" n] by (auto simp: is_digit_def)

lemma sep_not_in_bytes: "CHR '';'' \<notin> set (render_bytes bs)" "CHR '':'' \<notin> set (render_bytes bs)"
  by (auto simp: render_bytes_def sep_not_digit)

text \<open>A token \<open>key:value\<close>, and the tokens of the text form.\<close>

lemma token_parts:
  assumes "CHR '':'' \<notin> set k" "CHR '':'' \<notin> set v"
  shows "nth_line 0 (getlines (CHR '':'') (k @ '':'' @ v)) = k"
    "nth_line (Suc 0) (getlines (CHR '':'') (k @ '':'' @ v)) = v"
proof -
  have "getlines (CHR '':'') (k @ '':'' @ v) = k # (if v = [] then [] else [v])"
    using getlines_Cons [of "CHR '':''" k v] getlines_last [of "CHR '':''" v] assms by simp
  then show "nth_line 0 (getlines (CHR '':'') (k @ '':'' @ v)) = k"
    "nth_line (Suc 0) (getlines (CHR '':'') (k @ '':'' @ v)) = v"
    by (auto simp: nth_line_def)
qed

definition field_token :: "string \<Rightarrow> string \<Rightarrow> string" where
  "field_token k v = k @ '':'' @ v"

lemma serialize_tokens:
  assumes "CHR '';'' \<notin> set (qi_hostname q)" "CHR '';'' \<notin> set (qi_nic_name q)"
  shows "getlines (CHR '';'') (serialize q) =
    [field_token ''qp_num'' (to_dec (unat (qi_qp_num q))), field_token ''lid'' (to_dec (unat (qi_lid q))),
     field_token ''gid'' (render_bytes (qi_gid q)),
     field_token ''gid_table_index'' (to_dec (unat (qi_gid_table_index q))),
     field_token ''mac'' (render_bytes (qi_mac_addr q)), field_token ''mtu'' (to_dec (unat (qi_mtu q))),
     field_token ''hostname'' (qi_hostname q), field_token ''nic_name'' (qi_nic_name q),
     field_token ''is_initialized'' (to_dec (if qi_is_initialized q then 1 else 0))]"
proof -
  have c: "getlines (CHR '';'') (field_token k v @ CHR '';'' # rest) = field_token k v # getlines (CHR '';'') rest"
    if "CHR '';'' \<notin> set k" "CHR '';'' \<notin> set v" for k v rest
    using that getlines_Cons [of "CHR '';''" "field_token k v" rest] by (simp add: field_token_def)
  have l: "getlines (CHR '';'') (field_token k v) = [field_token k v]"
    if "CHR '';'' \<notin> set k" "CHR '';'' \<notin> set v" for k v
    using that getlines_last [of "CHR '';''" "field_token k v"] by (simp add: field_token_def)
  have e: "serialize q =
     field_token ''qp_num'' (to_dec (unat (qi_qp_num q))) @ CHR '';'' #
     field_token ''lid'' (to_dec (unat (qi_lid q))) @ CHR '';'' #
     field_token ''gid'' (render_bytes (qi_gid q)) @ CHR '';'' #
     field_token ''gid_table_index'' (to_dec (unat (qi_gid_table_index q))) @ CHR '';'' #
     field_token ''mac'' (render_bytes (qi_mac_addr q)) @ CHR '';'' #
     field_token ''mtu'' (to_dec (unat (qi_mtu q))) @ CHR '';'' #
     field_token ''hostname'' (qi_hostname q) @ CHR '';'' #
     field_token ''nic_name'' (qi_nic_name q) @ CHR '';'' #
     field_token ''is_initialized'' (to_dec (if qi_is_initialized q then 1 else 0))"
    by (simp add: serialize_def field_token_def)
  show ?thesis unfolding e
    by (simp add: c l assms sep_not_digit sep_not_in_bytes)
qed

text \<open>A connection record whose textual form is read back.\<close>

definition qp_text_ok :: "QPInfo \<Rightarrow> bool" where
  "qp_text_ok q \<longleftrightarrow> unat (qi_qp_num q) < 2 ^ 31 \<and> unat (qi_mtu q) < 2 ^ 31 \<and>
     length (qi_gid q) = 16 \<and> length (qi_mac_addr q) = 6 \<and>
     (\<forall>s \<in> {qi_hostname q, qi_nic_name q}. length s < 64 \<and>
        CHR '';'' \<notin> set s \<and> CHR '':'' \<notin> set s \<and> CHR 0x00 \<notin> set s)"

lemma copy_name_id: "length s < n \<Longrightarrow> CHR 0x00 \<notin> set s \<Longrightarrow> copy_name n s = s"
proof -
  assume len: "length s < n" and "CHR 0x00 \<notin> set s"
  then have tw: "takeWhile (\<lambda>c. c \<noteq> CHR 0x00) s = s"
    by (intro takeWhile_eq_all_conv [THEN iffD2]) auto
  show ?thesis unfolding copy_name_def c_str_def tw using len by simp
qed

lemma c_str_id: "CHR 0x00 \<notin> set s \<Longrightarrow> c_str s = s"
  unfolding c_str_def by (intro takeWhile_eq_all_conv [THEN iffD2]) auto

text \<open>Copies are equal to the original, so the model of the rest of the program passes records by value.\<close>

definition qpinfo_arrays :: "QPInfo \<Rightarrow> bool" where
  "qpinfo_arrays q \<longleftrightarrow> length (qi_gid q) = 16 \<and> length (qi_mac_addr q) = 6 \<and>
     (\<forall>s \<in> {qi_hostname q, qi_nic_name q}. length s < 64 \<and> CHR 0x00 \<notin> set s)"

lemma copy_QPInfo_id: "qpinfo_arrays q \<Longrightarrow> copy_QPInfo q = q"
  by (simp add: qpinfo_arrays_def copy_QPInfo_def copy_fields_def c_str_id MAX_HOSTNAME_LEN_def MAX_NIC_NAME_LEN_def)

lemma assign_QPInfo_eq: "qpinfo_arrays q \<Longrightarrow> (same \<Longrightarrow> p = q) \<Longrightarrow> assign_QPInfo same q p = q"
  using copy_QPInfo_id [of q] by (simp add: assign_QPInfo_def copy_QPInfo_def)

lemma new_QPInfo_arrays:
  "(\<And>bs. g = Some bs \<Longrightarrow> 16 \<le> length bs) \<Longrightarrow> qpinfo_arrays (new_QPInfo n l g m host nic)"
proof -
  have "CHR 0x00 \<notin> set (c_str s)" for s by (auto simp: c_str_def dest: set_takeWhileD)
  then have "CHR 0x00 \<notin> set (copy_name k s)" for k s by (auto simp: copy_name_def dest: in_set_takeD)
  moreover have "length (copy_name 64 s) < 64" for s by (simp add: copy_name_def)
  moreover assume "\<And>bs. g = Some bs \<Longrightarrow> 16 \<le> length bs"
  ultimately show ?thesis
    by (auto simp: qpinfo_arrays_def new_QPInfo_def MAX_HOSTNAME_LEN_def MAX_NIC_NAME_LEN_def split: option.split)
qed

text \<open>
  C32. A connection record with 16 address bytes, 6 MAC bytes, a queue pair number and MTU below
  \<open>2^31\<close>, and host and NIC names of at most 63 characters without semicolon, colon or null character
  is read back unchanged from its textual form, whatever record it is read into.
\<close>

theorem qpinfo_roundtrip:
  assumes "qp_text_ok q" "length (qi_gid q0) = 16" "length (qi_mac_addr q0) = 6"
  shows "deserialize (serialize q) q0 = Inr q"
proof -
  have ns: "CHR '';'' \<notin> set (qi_hostname q)" "CHR '';'' \<notin> set (qi_nic_name q)"
    using assms(1) by (auto simp: qp_text_ok_def)
  have p: "nth_line 0 (getlines (CHR '':'') (field_token k v)) = k"
      "nth_line (Suc 0) (getlines (CHR '':'') (field_token k v)) = v"
    if "CHR '':'' \<notin> set k" "CHR '':'' \<notin> set v" for k v
    using token_parts [OF that] by (simp_all add: field_token_def)
  have n: "CHR '':'' \<notin> set (qi_hostname q)" "CHR '':'' \<notin> set (qi_nic_name q)"
    "copy_name MAX_HOSTNAME_LEN (qi_hostname q) = qi_hostname q"
    "copy_name MAX_NIC_NAME_LEN (qi_nic_name q) = qi_nic_name q"
    using assms(1) by (auto simp: qp_text_ok_def MAX_HOSTNAME_LEN_def MAX_NIC_NAME_LEN_def intro!: copy_name_id)
  have v: "stoi (to_dec (unat (qi_qp_num q))) = Inr (uint (qi_qp_num q))"
    "stoi (to_dec (unat (qi_mtu q))) = Inr (uint (qi_mtu q))"
    "stoi (to_dec (unat (qi_lid q))) = Inr (uint (qi_lid q))"
    "stoi (to_dec (unat (qi_gid_table_index q))) = Inr (uint (qi_gid_table_index q))"
    "stoi (to_dec 0) = Inr 0" "stoi (to_dec (Suc 0)) = Inr 1"
    using assms(1) stoi_to_dec [of 0] stoi_to_dec [of 1] by (auto simp: qp_text_ok_def stoi_unat stoi_small)
  have b: "read_bytes (map (\<lambda>b. to_dec (unat b)) (qi_gid q)) 0 16 (qi_gid q0) = Inr (qi_gid q)"
    "read_bytes (map (\<lambda>b. to_dec (unat b)) (qi_mac_addr q)) 0 6 (qi_mac_addr q0) = Inr (qi_mac_addr q)"
    using assms read_bytes_map [of 0 "qi_gid q" 16 "qi_gid q0"]
      read_bytes_map [of 0 "qi_mac_addr q" 6 "qi_mac_addr q0"] by (auto simp: qp_text_ok_def)
  show ?thesis
    unfolding deserialize_def serialize_tokens [OF ns]
    by (simp add: deserialize_token_def p n v b sep_not_digit sep_not_in_bytes getlines_render_bytes
        Let_def)
qed

definition qpinfo_a :: QPInfo where
  "qpinfo_a = \<lparr>qi_qp_num = 77, qi_lid = 3, qi_gid = replicate 16 254, qi_gid_table_index = 3,
     qi_mtu = 4096, qi_mac_addr = [160, 136, 194, 191, 70, 78], qi_hostname = ''DPA'',
     qi_nic_name = ''mlx5_0'', qi_is_initialized = True\<rparr>"

lemma qpinfo_roundtrip_witness:
  "deserialize (serialize qpinfo_a) (new_QPInfo 0 0 None 0 [] []) = Inr qpinfo_a"
  by (rule qpinfo_roundtrip) (simp_all add: qp_text_ok_def qpinfo_a_def new_QPInfo_def)

text \<open>
  A queue pair number or MTU with the top bit set is printed as unsigned but read with \<open>stoi\<close>.
\<close>

lemma qpinfo_overflow:
  assumes "CHR '';'' \<notin> set (qi_hostname q)" "CHR '';'' \<notin> set (qi_nic_name q)"
    "2 ^ 31 \<le> unat (qi_qp_num q)"
  shows "deserialize (serialize q) q0 = Inl Std_Exception"
proof -
  have "nth_line 0 (getlines (CHR '':'') (field_token ''qp_num'' (to_dec (unat (qi_qp_num q))))) = ''qp_num''"
    "nth_line (Suc 0) (getlines (CHR '':'') (field_token ''qp_num'' (to_dec (unat (qi_qp_num q))))) = to_dec (unat (qi_qp_num q))"
    using token_parts [of "''qp_num''"] sep_not_digit by (simp_all add: field_token_def)
  then show ?thesis
    using stoi_to_dec_overflow [OF assms(3)]
    by (simp add: deserialize_def serialize_tokens [OF assms(1,2)] deserialize_token_def)
qed

end
