(* ===== verification/Channel.thy ===== *)
theory Channel
  imports NiccTypes QPInfo
begin

text \<open>
  What the two channel implementations share: types, modes and connection state of
  \<open>runtime/include/datapath/channel.h\<close>, and the resolution of a device port of
  \<open>runtime/include/utils/verbs_common.h\<close> and of \<open>__roce_resolve_phy_port\<close>, which both channels
  define with the same body. The verbs library and the operating system are parameters.
\<close>

unbundle bit_operations_syntax

datatype channel_typeid_t = UNKONW_TYPE | CH_RDMA | CH_SHM | CH_ETHERNET
datatype channel_mode_t = UNKONW_MODE | PAKT_UNORDERED | PAKT_ORDERED | STREAM_MODE

definition kChannel_State_Uninit :: u16 where "kChannel_State_Uninit = 0x0000"
definition kChannel_State_Prior_Connected :: u16 where "kChannel_State_Prior_Connected = 0x0001"
definition kChannel_State_Next_Connected :: u16 where "kChannel_State_Next_Connected = 0x0010"
definition kChannel_State_Both_Connected :: u16 where "kChannel_State_Both_Connected = 0x0011"

lemmas channel_state_defs = kChannel_State_Uninit_def kChannel_State_Prior_Connected_def
  kChannel_State_Next_Connected_def kChannel_State_Both_Connected_def

record Channel_base =
  typeid_of_prior :: channel_typeid_t
  typeid_of_next :: channel_typeid_t
  mode_of_prior :: channel_mode_t
  mode_of_next :: channel_mode_t
  ch_state :: u16

definition new_Channel :: Channel_base where
  "new_Channel = \<lparr>typeid_of_prior = UNKONW_TYPE, typeid_of_next = UNKONW_TYPE,
     mode_of_prior = UNKONW_MODE, mode_of_next = UNKONW_MODE, ch_state = kChannel_State_Uninit\<rparr>"

text \<open>The test and the update of the connection state in \<open>connect_qp\<close>.\<close>

definition connected_bit :: "bool \<Rightarrow> u16" where
  "connected_bit is_prior =
     (if is_prior then kChannel_State_Prior_Connected else kChannel_State_Next_Connected)"

definition is_connected :: "bool \<Rightarrow> u16 \<Rightarrow> bool" where
  "is_connected is_prior st \<longleftrightarrow> st AND connected_bit is_prior \<noteq> 0"

definition mark_connected :: "bool \<Rightarrow> u16 \<Rightarrow> u16" where
  "mark_connected is_prior st = st OR connected_bit is_prior"

lemma is_connected_mark [simp]:
  "is_connected p (mark_connected q st) \<longleftrightarrow> p = q \<or> is_connected p st"
proof -
  have "(st OR k) AND m = (st AND m) OR (k AND m)" for k m :: u16
    by (rule bit_word_eqI) (auto simp: bit_and_iff bit_or_iff)
  then show ?thesis
    by (cases p; cases q) (auto simp: is_connected_def mark_connected_def connected_bit_def channel_state_defs
        word_eq_iff_unsigned dest: arg_cong)
qed

lemma not_connected_uninit [simp]: "\<not> is_connected p kChannel_State_Uninit"
  by (simp add: is_connected_def channel_state_defs)

text \<open>Access rights of a memory region or a queue pair, \<open>enum ibv_access_flags\<close>.\<close>

datatype ibv_access = ACC_LOCAL_WRITE | ACC_REMOTE_WRITE | ACC_REMOTE_READ | ACC_REMOTE_ATOMIC
  | ACC_RELAXED_ORDERING

subsection \<open>Resolving a port\<close>

record VerbsResolve =
  device_id :: int
  ib_ctx :: ptr
  dev_port_id :: u8
  bandwidth :: nat

record IBResolve = VerbsResolve +
  ipv4_addr :: u32
  port_lid :: u16
  rs_gid :: "u8 list"
  gid_index :: u8
  rs_mac_addr :: "u8 list"

text \<open>The numeric values of \<open>enum ibv_mtu\<close>, and of the link layers.\<close>

fun enum_to_mtu :: "nat \<Rightarrow> nat" where
  "enum_to_mtu m = (if m = 1 then 256 else if m = 2 then 512 else if m = 3 then 1024
     else if m = 4 then 2048 else if m = 5 then 4096 else 0)"

fun link_layer_str :: "nat \<Rightarrow> string" where
  "link_layer_str l = (if l = 0 then ''[Unspecified]'' else if l = 1 then ''[InfiniBand]''
     else if l = 2 then ''[Ethernet]'' else ''[Invalid]'')"

record ibv_port_attr =
  pa_phys_state :: nat
  pa_link_layer :: nat
  pa_active_mtu :: nat
  pa_active_speed :: nat
  pa_active_width :: nat
  pa_lid :: u16

record ibv_gid_entry =
  ge_gid :: "u8 list"
  ge_gid_index :: u8
  ge_roce_v2 :: bool
  ge_ndev_ifindex :: nat

text \<open>
  Calls of libibverbs and of the system: the device list, \<open>ibv_open_device\<close>, the queries (an
  \<open>int\<close> result, zero for success), the interface name, the address file (\<open>None\<close> when it cannot
  be opened, otherwise the number of fields read and the bytes) and the socket and \<open>ioctl\<close> that
  read the IPv4 address.
\<close>

record 'w port_api =
  get_device_list :: "'w \<Rightarrow> string list option"
  open_device :: "nat \<Rightarrow> 'w \<Rightarrow> ptr \<times> 'w"
  query_device :: "nat \<Rightarrow> 'w \<Rightarrow> int"
  query_port :: "nat \<Rightarrow> nat \<Rightarrow> 'w \<Rightarrow> int \<times> ibv_port_attr"
  query_gid_ex :: "nat \<Rightarrow> u8 \<Rightarrow> nat \<Rightarrow> 'w \<Rightarrow> int \<times> ibv_gid_entry"
  indextoname :: "nat \<Rightarrow> 'w \<Rightarrow> string option"
  read_mac_file :: "string \<Rightarrow> 'w \<Rightarrow> (int \<times> u8 list) option"
  open_socket :: "'w \<Rightarrow> int"
  ioctl_ifaddr :: "string \<Rightarrow> 'w \<Rightarrow> int \<times> u32"

text \<open>The speed of a lane in tenths of Gbit/s, and the number of lanes.\<close>

definition lane_speed :: "nat \<Rightarrow> nat run" where
  "lane_speed s = (if s = 1 then Inr 25 else if s = 2 then Inr 50 else if s = 4 then Inr 100
     else if s = 8 then Inr 100 else if s = 16 then Inr 140 else if s = 32 then Inr 250
     else if s = 64 then Inr 500 else if s = 128 then Inr 1000 else Inl Process_Exit)"

definition num_lanes :: "nat \<Rightarrow> nat run" where
  "num_lanes w = (if w = 1 then Inr 1 else if w = 2 then Inr 4 else if w = 4 then Inr 8
     else if w = 8 then Inr 12 else Inl Process_Exit)"

definition IBV_PORT_ACTIVE :: nat where "IBV_PORT_ACTIVE = 4"
definition IBV_PORT_ACTIVE_DEFER :: nat where "IBV_PORT_ACTIVE_DEFER = 5"
definition IBV_LINK_LAYER_ETHERNET :: nat where "IBV_LINK_LAYER_ETHERNET = 2"

definition common_resolve_phy_port ::
  "'w port_api \<Rightarrow> string \<Rightarrow> u8 \<Rightarrow> nat \<Rightarrow> 'a VerbsResolve_scheme \<Rightarrow> 'w \<Rightarrow> ('a VerbsResolve_scheme \<times> 'w) run" where
  "common_resolve_phy_port api dev_name phy_port mtu rs w = (case get_device_list api w of
       None \<Rightarrow> Inl Process_Exit
     | Some devs \<Rightarrow>
         let dev_idx = length (takeWhile (\<lambda>d. d \<noteq> dev_name) devs)
         in if dev_idx = length devs then Inl Process_Exit
            else let (c, w1) = open_device api dev_idx w
                 in case c of
                      None \<Rightarrow> Inl Process_Exit
                    | Some ctx \<Rightarrow>
                        if query_device api ctx w1 \<noteq> 0 then Inl Std_Exception
                        else let (ret, pa) = query_port api ctx (unat phy_port + 1) w1
                             in if ret \<noteq> 0 then Inl Std_Exception
                                else if pa_phys_state pa \<noteq> IBV_PORT_ACTIVE \<and> pa_phys_state pa \<noteq> IBV_PORT_ACTIVE_DEFER
                                then Inl Std_Exception
                                else if pa_link_layer pa \<noteq> IBV_LINK_LAYER_ETHERNET then Inl Std_Exception
                                else if mtu > enum_to_mtu (pa_active_mtu pa) then Inl Std_Exception
                                else bind_run (lane_speed (pa_active_speed pa)) (\<lambda>gbps10.
                                     bind_run (num_lanes (pa_active_width pa)) (\<lambda>lanes.
                                     Inr (rs\<lparr>device_id := int dev_idx, ib_ctx := Some ctx,
                                            dev_port_id := phy_port + 1,
                                            bandwidth := lanes * gbps10 * 10 ^ 8 div 8\<rparr>, w1))))"

text \<open>
  \<open>__roce_resolve_phy_port\<close>, with the default GID index of the channel. A failure leaves the
  fields written so far. The address bytes a short \<open>fscanf\<close> read are stored before the count is
  checked.
\<close>

definition roce_resolve_phy_port ::
  "'w port_api \<Rightarrow> nat \<Rightarrow> IBResolve \<Rightarrow> 'w \<Rightarrow> (nicc_retval_t \<times> IBResolve) run" where
  "roce_resolve_phy_port api gid_idx rs w = (case ib_ctx rs of
       None \<Rightarrow> Inl Assert_Failed
     | Some ctx \<Rightarrow>
         let (ret, pa) = query_port api ctx (unat (dev_port_id rs)) w
         in if ret \<noteq> 0 then Inr (NICC_ERROR_HARDWARE_FAILURE, rs)
            else let rs1 = rs\<lparr>port_lid := pa_lid pa\<rparr>;
                     (ret, ge) = query_gid_ex api ctx (dev_port_id rs) gid_idx w
                 in if ret \<noteq> 0 \<or> \<not> ge_roce_v2 ge then Inr (NICC_ERROR_HARDWARE_FAILURE, rs1)
                    else let rs2 = rs1\<lparr>rs_gid := ge_gid ge, gid_index := ge_gid_index ge\<rparr>
                         in case indextoname api (ge_ndev_ifindex ge) w of
                              None \<Rightarrow> Inr (NICC_ERROR_HARDWARE_FAILURE, rs2)
                            | Some ifname \<Rightarrow> (case read_mac_file api ifname w of
                                  None \<Rightarrow> Inr (NICC_ERROR_HARDWARE_FAILURE, rs2)
                                | Some (n, mac) \<Rightarrow>
                                    let rs3 = rs2\<lparr>rs_mac_addr := take 6 mac @ drop (length mac) (rs_mac_addr rs2)\<rparr>
                                    in if n \<noteq> 6 then Inr (NICC_ERROR_HARDWARE_FAILURE, rs3)
                                       else if open_socket api w < 0 then Inr (NICC_ERROR_HARDWARE_FAILURE, rs3)
                                       else let (ret, ip) = ioctl_ifaddr api ifname w
                                            in if ret < 0 then Inr (NICC_ERROR_HARDWARE_FAILURE, rs3)
                                               else Inr (NICC_SUCCESS, rs3\<lparr>ipv4_addr := ip\<rparr>)))"

text \<open>A port on which every call succeeds, for the witnesses.\<close>

definition demo_port :: "'w port_api" where
  "demo_port = \<lparr>get_device_list = \<lambda>_. Some [''mlx5_0''], open_device = \<lambda>_ w. (Some 1, w),
     query_device = \<lambda>_ _. 0,
     query_port = \<lambda>_ _ _. (0, \<lparr>pa_phys_state = 5, pa_link_layer = 2, pa_active_mtu = 5, pa_active_speed = 32,
        pa_active_width = 2, pa_lid = 0\<rparr>),
     query_gid_ex = \<lambda>_ _ _ _. (0, \<lparr>ge_gid = replicate 16 1, ge_gid_index = 3, ge_roce_v2 = True, ge_ndev_ifindex = 1\<rparr>),
     indextoname = \<lambda>_ _. Some ''p0'', read_mac_file = \<lambda>_ _. Some (6, replicate 6 2),
     open_socket = \<lambda>_. 3, ioctl_ifaddr = \<lambda>_ _. (0, 1)\<rparr>"

definition demo_resolve :: IBResolve where
  "demo_resolve = \<lparr>device_id = 0, ib_ctx = None, dev_port_id = 0, bandwidth = 0, ipv4_addr = 0,
     port_lid = 0, rs_gid = [], gid_index = 0, rs_mac_addr = []\<rparr>"

lemmas port_eval = common_resolve_phy_port_def roce_resolve_phy_port_def demo_port_def lane_speed_def
  num_lanes_def IBV_PORT_ACTIVE_def IBV_PORT_ACTIVE_DEFER_def IBV_LINK_LAYER_ETHERNET_def Let_def

end
