(* ===== verification/SocChannel.thy ===== *)
theory SocChannel
  imports Channel SocDatapath
begin

text \<open>
  The class \<open>Channel_SoC\<close> (\<open>runtime/include/datapath/channel_impl/soc_channel.h\<close>,
  \<open>runtime/src/datapath/channel_impl/soc_channel.cc\<close>): the queue pairs of the SoC, their rings in
  hugepage memory, and the connection to a host. The verbs library is a parameter over the state
  \<open>'w\<close> of the device; \<open>soc_verbs\<close> of the wrapper gives the posting of receives.
\<close>

unbundle bit_operations_syntax

subsection \<open>Constants\<close>

definition kRQDepth :: nat where "kRQDepth = kNumRxRingEntries"
definition kSQDepth :: nat where "kSQDepth = kNumTxRingEntries"
definition kMaxInline :: nat where "kMaxInline = 60"
definition kSgeSize :: nat where "kSgeSize = unat (round_up 4096 (of_nat kMTU) :: u64)"
definition kRecvMbufSize :: nat where "kRecvMbufSize = kSgeSize"
definition kSendMbufSize :: nat where "kSendMbufSize = kSgeSize"
definition kMemRegionSize :: nat where
  "kMemRegionSize = 2 * (kRecvMbufSize * kRQDepth + kSendMbufSize * kSQDepth)"
definition soc_kDefaultGIDIndex :: nat where "soc_kDefaultGIDIndex = 1"
definition kSIZE_MAX :: nat where "kSIZE_MAX = 2 ^ 64 - 1"

subsection \<open>Queue pairs with their verbs objects\<close>

record recv_wr =
  rwr_id :: nat
  rwr_sge :: ptr
  rwr_num_sge :: nat

record send_wr =
  swr_send :: bool
  swr_signaled :: bool
  swr_sge :: ptr
  swr_num_sge :: nat

record soc_qp = RDMA_SoC_QP +
  send_cq :: ptr
  recv_cq :: ptr
  qp_object :: ptr
  remote_qp_id :: nat
  remote_ah :: ptr
  recv_wrs :: "recv_wr list"
  send_wrs :: "send_wr list"

text \<open>\<open>new RDMA_SoC_QP()\<close>: the arrays are zeroed, the other members have their initialisers.\<close>

definition zero_sge :: sge where "zero_sge = \<lparr>sg_addr = 0, sg_length = 0, sg_lkey = 0\<rparr>"

definition new_soc_qp :: soc_qp where
  "new_soc_qp = \<lparr>qp_id = kSIZE_MAX, send_wr_next = replicate kSQDepth None, send_sgl = replicate kSQDepth zero_sge,
     send_head = 0, send_tail = 0, sw_ring = replicate kSQDepth None, tx_queue = replicate kSQDepth None,
     tx_queue_idx = 0, recv_wr_next = replicate kRQDepth None, recv_sgl = replicate kRQDepth zero_sge,
     recv_head = 0, rx_ring = replicate kRQDepth None, ring_head = 0, collect_worker_queue = None,
     disp_worker_queue = None, free_send_wr_num = kNumTxRingEntries, wait_for_disp = 0,
     send_cq = None, recv_cq = None, qp_object = None, remote_qp_id = kSIZE_MAX, remote_ah = None,
     recv_wrs = replicate kRQDepth \<lparr>rwr_id = 0, rwr_sge = None, rwr_num_sge = 0\<rparr>,
     send_wrs = replicate kSQDepth \<lparr>swr_send = False, swr_signaled = False, swr_sge = None, swr_num_sge = 0\<rparr>\<rparr>"

record Channel_SoC = Channel_base +
  qp_prior :: "soc_qp option"
  qp_next :: "soc_qp option"
  info_prior :: QPInfo
  info_next :: QPInfo
  huge_alloc :: "HugeAlloc option"
  soc_resolve :: IBResolve
  soc_pd :: ptr
  local_ah :: ptr
  soc_mr :: ptr

text \<open>The connection records keep the indeterminate values of their memory (\<open>qi\<close>, \<open>qi'\<close>).\<close>

definition new_Channel_SoC :: "channel_typeid_t \<Rightarrow> channel_mode_t \<Rightarrow> channel_typeid_t \<Rightarrow> channel_mode_t
    \<Rightarrow> QPInfo \<Rightarrow> QPInfo \<Rightarrow> Channel_SoC \<Rightarrow> Channel_SoC" where
  "new_Channel_SoC tp mp tn mn qi qi' junk = junk\<lparr>typeid_of_prior := tp, mode_of_prior := mp,
     typeid_of_next := tn, mode_of_next := mn, ch_state := kChannel_State_Uninit,
     info_prior := qi, info_next := qi', huge_alloc := None, soc_pd := None, local_ah := None, soc_mr := None,
     soc_resolve := (soc_resolve junk)\<lparr>device_id := - 1, ib_ctx := None, dev_port_id := 0, bandwidth := 0,
       port_lid := 0, gid_index := 0, rs_mac_addr := replicate 6 0\<rparr>\<rparr>"

subsection \<open>The verbs library\<close>

datatype ib_qp_state = IBV_QPS_INIT | IBV_QPS_RTR | IBV_QPS_RTS

record ib_qp_init_attr =
  ia_send_cq :: ptr
  ia_recv_cq :: ptr
  ia_max_send_wr :: nat
  ia_max_recv_wr :: nat
  ia_max_sge :: nat
  ia_max_inline_data :: nat

record ib_ah_attr =
  aa_port_num :: u8
  aa_dlid :: u16
  aa_dgid :: "u8 list"
  aa_sgid_index :: nat
  aa_hop_limit :: nat

record ib_qp_attr =
  qa_state :: ib_qp_state
  qa_port_num :: u8
  qa_access :: "ibv_access set"
  qa_path_mtu :: nat
  qa_dest_qp_num :: u32
  qa_ah :: ib_ah_attr
  qa_min_rnr_timer :: nat
  qa_timeout :: nat
  qa_retry_cnt :: nat
  qa_rnr_retry :: nat

record 'w soc_ibv =
  ib_alloc_pd :: "nat \<Rightarrow> 'w \<Rightarrow> ptr \<times> 'w"
  ib_create_cq :: "ptr \<Rightarrow> nat \<Rightarrow> 'w \<Rightarrow> ptr \<times> 'w"
  ib_create_qp :: "nat \<Rightarrow> ib_qp_init_attr \<Rightarrow> 'w \<Rightarrow> ptr \<times> 'w"
  ib_qp_num :: "nat \<Rightarrow> u32"
  ib_reg_mr :: "ptr \<Rightarrow> nat \<Rightarrow> nat \<Rightarrow> ibv_access set \<Rightarrow> 'w \<Rightarrow> ptr \<times> 'w"
  ib_mr_lkey :: "nat \<Rightarrow> u32"
  ib_create_ah :: "ptr \<Rightarrow> ib_ah_attr \<Rightarrow> 'w \<Rightarrow> ptr \<times> 'w"
  ib_modify_qp :: "ptr \<Rightarrow> ib_qp_attr \<Rightarrow> 'w \<Rightarrow> int \<times> 'w"
  ib_dereg_mr :: "nat \<Rightarrow> 'w \<Rightarrow> int \<times> 'w"
  ib_destroy_qp :: "ptr \<Rightarrow> 'w \<Rightarrow> int \<times> 'w"
  ib_destroy_cq :: "ptr \<Rightarrow> 'w \<Rightarrow> int \<times> 'w"
  ib_destroy_ah :: "ptr \<Rightarrow> 'w \<Rightarrow> int \<times> 'w"
  ib_dealloc_pd :: "ptr \<Rightarrow> 'w \<Rightarrow> int \<times> 'w"
  ib_close_device :: "ptr \<Rightarrow> 'w \<Rightarrow> int \<times> 'w"
  ib_shmdt :: "nat \<Rightarrow> 'w \<Rightarrow> int \<times> 'w"
  ib_dev_name :: "nat \<Rightarrow> string"

subsection \<open>Creating the queue pairs\<close>

text \<open>\<open>NICC_CHECK_POINTER\<close> on the result of a call.\<close>

definition checked :: "ptr \<times> 'w \<Rightarrow> (ptr \<times> 'w) run" where
  "checked r = (if fst r = None then Inl Assert_Failed else Inr r)"

definition soc_create_qp :: "'w soc_ibv \<Rightarrow> Channel_SoC \<Rightarrow> (soc_qp \<times> 'w) operation" where
  "soc_create_qp api c s = (case s of (qp, w) \<Rightarrow>
     (case soc_pd c of None \<Rightarrow> Inl Assert_Failed | Some pd \<Rightarrow>
        bind_run (checked (ib_create_cq api (ib_ctx (soc_resolve c)) kSQDepth w)) (\<lambda>(scq, w).
        bind_run (checked (ib_create_cq api (ib_ctx (soc_resolve c)) kRQDepth w)) (\<lambda>(rcq, w).
        bind_run (checked (ib_create_qp api pd \<lparr>ia_send_cq = scq, ia_recv_cq = rcq, ia_max_send_wr = kSQDepth,
            ia_max_recv_wr = kRQDepth, ia_max_sge = 1, ia_max_inline_data = kMaxInline\<rparr> w)) (\<lambda>(q, w).
          Inr (NICC_SUCCESS, (qp\<lparr>send_cq := scq, recv_cq := rcq, qp_object := q,
                 qp_id := unat (ib_qp_num api (the q))\<rparr>, w)))))))"

text \<open>The host name of the connection record stays as it was.\<close>

definition soc_set_local_qp_info :: "'w soc_ibv \<Rightarrow> IBResolve \<Rightarrow> soc_qp \<Rightarrow> QPInfo \<Rightarrow> QPInfo run" where
  "soc_set_local_qp_info api rs qp qi =
     bind_run (assert_run (\<not> qi_is_initialized qi)) (\<lambda>_. case ib_ctx rs of
       None \<Rightarrow> Inl Bad_Access
     | Some ctx \<Rightarrow> Inr (qi\<lparr>qi_qp_num := of_nat (qp_id qp), qi_lid := port_lid rs,
         qi_gid := take 16 (rs_gid rs), qi_gid_table_index := gid_index rs, qi_mtu := of_nat kMTU,
         qi_nic_name := c_str (ib_dev_name api ctx), qi_mac_addr := take 6 (rs_mac_addr rs),
         qi_is_initialized := True\<rparr>))"

definition the_qp_of :: "bool \<Rightarrow> Channel_SoC \<Rightarrow> soc_qp option" where
  "the_qp_of is_prior c = (if is_prior then qp_prior c else qp_next c)"

definition set_qp_of :: "bool \<Rightarrow> soc_qp \<Rightarrow> Channel_SoC \<Rightarrow> Channel_SoC" where
  "set_qp_of is_prior q c = (if is_prior then c\<lparr>qp_prior := Some q\<rparr> else c\<lparr>qp_next := Some q\<rparr>)"

definition on_qp :: "bool \<Rightarrow> (Channel_SoC \<Rightarrow> (soc_qp \<times> 'w) operation) \<Rightarrow> (Channel_SoC \<times> 'w) operation" where
  "on_qp is_prior f s = (case s of (c, w) \<Rightarrow> (case the_qp_of is_prior c of
       None \<Rightarrow> Inl Assert_Failed
     | Some q \<Rightarrow> bind_run (f c (q, w)) (\<lambda>(r, q', w'). Inr (r, (set_qp_of is_prior q' c, w')))))"

definition set_local_infos :: "'w soc_ibv \<Rightarrow> (Channel_SoC \<times> 'w) operation" where
  "set_local_infos api s = (case s of (c, w) \<Rightarrow> (case (qp_prior c, qp_next c) of
       (Some p, Some n) \<Rightarrow>
         bind_run (soc_set_local_qp_info api (soc_resolve c) p (info_prior c)) (\<lambda>ip.
         bind_run (soc_set_local_qp_info api (soc_resolve c) n (info_next c)) (\<lambda>inx.
           Inr (NICC_SUCCESS, (c\<lparr>info_prior := ip, info_next := inx\<rparr>, w))))
     | _ \<Rightarrow> Inl Assert_Failed))"

definition init_verbs_structs :: "'w soc_ibv \<Rightarrow> (Channel_SoC \<times> 'w) operation" where
  "init_verbs_structs api s = (case s of (c, w) \<Rightarrow> (case ib_ctx (soc_resolve c) of
       None \<Rightarrow> Inl Assert_Failed
     | Some ctx \<Rightarrow>
         bind_run (checked (ib_alloc_pd api ctx w)) (\<lambda>(pd, w).
         and_then (on_qp True (soc_create_qp api))
        (and_then (on_qp False (soc_create_qp api))
          (set_local_infos api))
          (c\<lparr>qp_prior := Some new_soc_qp, qp_next := Some new_soc_qp, soc_pd := pd\<rparr>, w))))"

subsection \<open>Rings\<close>

text \<open>Entry \<open>i\<close> of the receive ring over the extent \<open>e\<close> of \<open>sz\<close> bytes.\<close>

definition init_recv_entry :: "Buffer \<Rightarrow> nat \<Rightarrow> nat \<Rightarrow> soc_qp \<times> HugeAlloc \<Rightarrow> (soc_qp \<times> HugeAlloc) run" where
  "init_recv_entry e sz i s = (case s of (qp, h) \<Rightarrow>
     let offset = i * kRecvMbufSize in
     bind_run (assert_run (offset + kRecvMbufSize \<le> sz)) (\<lambda>_.
       let p = fresh h; addr = b_buf e + offset
       in Inr (qp\<lparr>recv_sgl := (recv_sgl qp)[i := \<lparr>sg_addr = of_nat addr,
                    sg_length = of_nat kRecvMbufSize, sg_lkey = b_lkey e\<rparr>],
                  recv_wrs := (recv_wrs qp)[i := \<lparr>rwr_id = i, rwr_sge = Some i, rwr_num_sge = 1\<rparr>],
                  rx_ring := (rx_ring qp)[i := Some p],
                  recv_wr_next := (recv_wr_next qp)[i := Some (if i < kRQDepth - 1 then i + 1 else 0)]\<rparr>,
               h\<lparr>buffers := (buffers h)(p \<mapsto> (new_Buffer addr kRecvMbufSize (b_lkey e))\<lparr>b_state := kPOSTED\<rparr>),
                 fresh := Suc p\<rparr>)))"

text \<open>The loop that links the buffers of the ring.\<close>

definition link_rx :: "ptr list \<Rightarrow> nat \<Rightarrow> HugeAlloc \<Rightarrow> HugeAlloc run" where
  "link_rx ring i h = (case ring ! i of
       None \<Rightarrow> Inl Bad_Access
     | Some p \<Rightarrow> bind_run (deref h p) (\<lambda>b.
         Inr (h\<lparr>buffers := (buffers h)(p \<mapsto>
           b\<lparr>b_next := if i < kRQDepth - 1 then ring ! (i + 1) else ring ! 0\<rparr>)\<rparr>)))"

definition init_recvs :: "soc_qp \<times> HugeAlloc \<Rightarrow> (nicc_retval_t \<times> soc_qp \<times> HugeAlloc) run" where
  "init_recvs s = (case s of (qp, h) \<Rightarrow>
     let ring_extent_size = kRQDepth * kRecvMbufSize in
     bind_run (assert_run (ring_extent_size \<le> k_max_class_size)) (\<lambda>_.
     bind_run (alloc ring_extent_size h) (\<lambda>(ring_extent, h).
       case ring_extent of
         None \<Rightarrow> Inl Bad_Access
       | Some p \<Rightarrow> bind_run (deref h p) (\<lambda>e.
           if b_buf e = 0 then Inr (NICC_ERROR_MEMORY_FAILURE, (qp, h))
           else bind_run (fold_run (init_recv_entry e ring_extent_size) [0 ..< kRQDepth] (qp, h)) (\<lambda>(qp, h).
                bind_run (fold_run (link_rx (rx_ring qp)) [0 ..< kRQDepth] h) (\<lambda>h.
                Inr (NICC_SUCCESS, (qp, h))))))))"

definition init_send_entry :: "nat \<Rightarrow> soc_qp \<Rightarrow> soc_qp" where
  "init_send_entry i qp = qp\<lparr>send_wrs := (send_wrs qp)[i := \<lparr>swr_send = True, swr_signaled = True,
       swr_sge = Some i, swr_num_sge = 1\<rparr>],
     send_wr_next := (send_wr_next qp)[i := Some (if i < kSQDepth - 1 then i + 1 else 0)]\<rparr>"

definition init_sends :: "soc_qp \<times> HugeAlloc \<Rightarrow> (nicc_retval_t \<times> soc_qp \<times> HugeAlloc) run" where
  "init_sends s = (case s of (qp, h) \<Rightarrow> Inr (NICC_SUCCESS, (fold init_send_entry [0 ..< kSQDepth] qp, h)))"

text \<open>A step of \<open>__init_rings\<close> on a queue pair and the allocator.\<close>

definition on_ring :: "bool \<Rightarrow> (soc_qp \<times> HugeAlloc) operation \<Rightarrow> (Channel_SoC \<times> 'w) operation" where
  "on_ring is_prior f s = (case s of (c, w) \<Rightarrow> (case (the_qp_of is_prior c, huge_alloc c) of
       (Some q, Some h) \<Rightarrow> bind_run (f (q, h)) (\<lambda>(r, q', h').
          Inr (r, ((set_qp_of is_prior q' c)\<lparr>huge_alloc := Some h'\<rparr>, w)))
     | _ \<Rightarrow> Inl Bad_Access))"

definition fill_rings :: "(Channel_SoC \<times> 'w) operation" where
  "fill_rings = and_then (on_ring True init_recvs)
    (and_then (on_ring True init_sends)
    (and_then (on_ring False init_recvs)
      (on_ring False init_sends)))"

definition init_rings :: "'w soc_ibv \<Rightarrow> shm_api \<Rightarrow> Channel_SoC \<times> 'w
    \<Rightarrow> (nicc_retval_t \<times> Channel_SoC \<times> 'w) exec" where
  "init_rings api sys s = (case s of (c, w) \<Rightarrow> (case huge_alloc c of
       None \<Rightarrow> Some (Inl Bad_Access)
     | Some h \<Rightarrow> bind_exec (alloc_raw sys kMemRegionSize True h) (\<lambda>(raw_mr, h).
         if b_buf raw_mr = 0 then Some (Inr (NICC_ERROR_MEMORY_FAILURE, (c\<lparr>huge_alloc := Some h\<rparr>, w)))
         else Some (
           bind_run (checked (ib_reg_mr api (soc_pd c) (b_buf raw_mr) kMemRegionSize
               {ACC_LOCAL_WRITE, ACC_REMOTE_WRITE, ACC_REMOTE_READ, ACC_REMOTE_ATOMIC} w)) (\<lambda>(mr, w).
           bind_run (add_raw_buffer (raw_mr\<lparr>b_lkey := ib_mr_lkey api (the mr)\<rparr>) kMemRegionSize h) (\<lambda>h.
             fill_rings (c\<lparr>soc_mr := mr, huge_alloc := Some h\<rparr>, w)))))))"

text \<open>
  \<open>Channel_SoC::__roce_resolve_phy_port\<close>: statement by statement the function of the DPA channel,
  with the GID index of this file.
\<close>

definition soc_roce_resolve_phy_port :: "'w port_api \<Rightarrow> IBResolve \<Rightarrow> 'w \<Rightarrow> (nicc_retval_t \<times> IBResolve) run" where
  "soc_roce_resolve_phy_port papi rs w = roce_resolve_phy_port papi soc_kDefaultGIDIndex rs w"

definition soc_allocate_channel :: "'w soc_ibv \<Rightarrow> shm_api \<Rightarrow> 'w port_api \<Rightarrow> string \<Rightarrow> u8 \<Rightarrow> Channel_SoC \<times> 'w
    \<Rightarrow> (nicc_retval_t \<times> Channel_SoC \<times> 'w) exec" where
  "soc_allocate_channel api sys papi dev_name phy_port s = (case s of (c, w) \<Rightarrow>
     bind_exec (Some (
       bind_run (new_HugeAlloc kMemRegionSize 0) (\<lambda>h.
       bind_run (common_resolve_phy_port papi dev_name phy_port kMTU (soc_resolve c) w) (\<lambda>(rs, w).
       bind_run (soc_roce_resolve_phy_port papi rs w) (\<lambda>(r, rs).
         let c = c\<lparr>huge_alloc := Some h, soc_resolve := rs\<rparr>
         in if r \<noteq> NICC_SUCCESS then Inr (r, (c, w)) else init_verbs_structs api (c, w))))))
       (\<lambda>(r, s'). if r \<noteq> NICC_SUCCESS then Some (Inr (r, s')) else init_rings api sys s'))"

subsection \<open>Connecting\<close>

definition local_ah_attr :: "QPInfo \<Rightarrow> u8 \<Rightarrow> ib_ah_attr" where
  "local_ah_attr qi port = \<lparr>aa_port_num = port, aa_dlid = 0, aa_dgid = qi_gid qi,
     aa_sgid_index = soc_kDefaultGIDIndex, aa_hop_limit = 1\<rparr>"

definition remote_ah_attr :: "QPInfo \<Rightarrow> ib_ah_attr" where
  "remote_ah_attr qi = \<lparr>aa_port_num = 1, aa_dlid = qi_lid qi, aa_dgid = take 16 (qi_gid qi),
     aa_sgid_index = soc_kDefaultGIDIndex, aa_hop_limit = 2\<rparr>"

text \<open>The address handles: the local one is created once, for both sides.\<close>

definition create_local_ah :: "'w soc_ibv \<Rightarrow> bool \<Rightarrow> (Channel_SoC \<times> 'w) operation" where
  "create_local_ah api is_prior s = (case s of (c, w) \<Rightarrow>
     if local_ah c = None
     then let (ah, w') = ib_create_ah api (soc_pd c)
                (local_ah_attr (if is_prior then info_prior c else info_next c) (dev_port_id (soc_resolve c))) w
          in Inr (if ah = None then NICC_ERROR_HARDWARE_FAILURE else NICC_SUCCESS, (c\<lparr>local_ah := ah\<rparr>, w'))
     else Inr (NICC_SUCCESS, (c, w)))"

definition create_remote_ah :: "'w soc_ibv \<Rightarrow> bool \<Rightarrow> QPInfo \<Rightarrow> (Channel_SoC \<times> 'w) operation" where
  "create_remote_ah api is_prior remote = on_qp is_prior (\<lambda>c (qp, w).
     let (ah, w') = ib_create_ah api (soc_pd c) (remote_ah_attr remote) w
     in Inr (if ah = None then NICC_ERROR_HARDWARE_FAILURE else NICC_SUCCESS,
          (qp\<lparr>remote_qp_id := unat (qi_qp_num remote), remote_ah := ah\<rparr>, w')))"

definition create_ah :: "'w soc_ibv \<Rightarrow> bool \<Rightarrow> QPInfo \<Rightarrow> (Channel_SoC \<times> 'w) operation" where
  "create_ah api is_prior remote =
     and_then (create_local_ah api is_prior) (create_remote_ah api is_prior remote)"

fun ibv_path_mtu :: "nat \<Rightarrow> nat option" where
  "ibv_path_mtu n = (if n = 1024 then Some 3 else if n = 2048 then Some 4 else if n = 4096 then Some 5 else None)"

text \<open>The attributes of the three transitions; fields a transition does not set are zero.\<close>

definition zero_ah_attr :: ib_ah_attr where
  "zero_ah_attr = \<lparr>aa_port_num = 0, aa_dlid = 0, aa_dgid = replicate 16 0, aa_sgid_index = 0, aa_hop_limit = 0\<rparr>"

definition init_attr :: "u8 \<Rightarrow> ib_qp_attr" where
  "init_attr port = \<lparr>qa_state = IBV_QPS_INIT, qa_port_num = port,
     qa_access = {ACC_LOCAL_WRITE, ACC_REMOTE_WRITE, ACC_REMOTE_READ, ACC_REMOTE_ATOMIC}, qa_path_mtu = 0,
     qa_dest_qp_num = 0, qa_ah = zero_ah_attr, qa_min_rnr_timer = 0, qa_timeout = 0, qa_retry_cnt = 0,
     qa_rnr_retry = 0\<rparr>"

definition rtr_attr :: "QPInfo \<Rightarrow> nat \<Rightarrow> ib_qp_attr" where
  "rtr_attr remote mtu = \<lparr>qa_state = IBV_QPS_RTR, qa_port_num = 0, qa_access = {}, qa_path_mtu = mtu,
     qa_dest_qp_num = qi_qp_num remote, qa_ah = remote_ah_attr remote, qa_min_rnr_timer = 12, qa_timeout = 0,
     qa_retry_cnt = 0, qa_rnr_retry = 0\<rparr>"

definition rts_attr :: "QPInfo \<Rightarrow> nat \<Rightarrow> ib_qp_attr" where
  "rts_attr remote mtu = (rtr_attr remote mtu)\<lparr>qa_state := IBV_QPS_RTS, qa_timeout := 14, qa_retry_cnt := 7,
     qa_rnr_retry := 7\<rparr>"

definition soc_modify :: "'w soc_ibv \<Rightarrow> bool \<Rightarrow> (Channel_SoC \<Rightarrow> ib_qp_attr) \<Rightarrow> (Channel_SoC \<times> 'w) operation" where
  "soc_modify api is_prior attr = on_qp is_prior (\<lambda>c (qp, w).
     let (ret, w') = ib_modify_qp api (qp_object qp) (attr c) w
     in Inr (if ret \<noteq> 0 then NICC_ERROR_HARDWARE_FAILURE else NICC_SUCCESS, (qp, w')))"

definition soc_connect_qp_to_host :: "'w soc_ibv \<Rightarrow> bool \<Rightarrow> QPInfo \<Rightarrow> (Channel_SoC \<times> 'w) operation" where
  "soc_connect_qp_to_host api is_prior remote =
     and_then (soc_modify api is_prior (\<lambda>c. init_attr (dev_port_id (soc_resolve c))))
       (case ibv_path_mtu kMTU of
          None \<Rightarrow> (\<lambda>s. Inr (NICC_ERROR_HARDWARE_FAILURE, s))
        | Some mtu \<Rightarrow> and_then (soc_modify api is_prior (\<lambda>_. rtr_attr remote mtu))
            (and_then (create_ah api is_prior remote)
            (and_then (soc_modify api is_prior (\<lambda>_. rts_attr remote mtu))
              (on_qp is_prior (\<lambda>_ (qp, w).
                 Inr (NICC_SUCCESS, (qp\<lparr>remote_qp_id := unat (qi_qp_num remote)\<rparr>, w)))))))"

definition soc_connect_qp_to_component_block :: "(Channel_SoC \<times> 'w) operation" where
  "soc_connect_qp_to_component_block s = Inr (NICC_ERROR_NOT_IMPLEMENTED, s)"

text \<open>
  The chain is cut after the last request, posted whole from the first one, and closed again only
  when the posting succeeded.
\<close>

definition soc_fill_recv_queue :: "'w soc_verbs \<Rightarrow> Channel_SoC \<Rightarrow> (soc_qp \<times> 'w) operation" where
  "soc_fill_recv_queue vapi c s = (case s of (qp, w) \<Rightarrow>
     let cut = qp\<lparr>recv_wr_next := (recv_wr_next qp)[kRQDepth - 1 := None]\<rparr>;
         wrs = wr_chain kRQDepth (recv_wr_next cut) 0;
         (ret, w') = post_recv vapi (qp_id qp) (map ((!) (recv_sgl qp)) wrs) w
     in if ret \<noteq> 0 then Inr (NICC_ERROR_HARDWARE_FAILURE, (cut, w'))
        else Inr (NICC_SUCCESS, (cut\<lparr>recv_wr_next := (recv_wr_next cut)[kRQDepth - 1 := Some 0]\<rparr>, w')))"

definition soc_connect_qp :: "'w soc_ibv \<Rightarrow> 'w soc_verbs \<Rightarrow> bool \<Rightarrow> ptr \<Rightarrow> QPInfo option
    \<Rightarrow> (Channel_SoC \<times> 'w) operation" where
  "soc_connect_qp api vapi is_prior neighbour qi s = (case s of (c, w) \<Rightarrow>
     bind_run (assert_run (the_qp_of is_prior c \<noteq> None \<and> soc_mr c \<noteq> None)) (\<lambda>_.
     if is_connected is_prior (ch_state c) then Inr (NICC_ERROR_DUPLICATED, (c, w))
     else and_then
       (if neighbour \<noteq> None then soc_connect_qp_to_component_block
        else (case qi of
            None \<Rightarrow> (\<lambda>_. Inl Assert_Failed)
          | Some q \<Rightarrow> and_then (soc_connect_qp_to_host api is_prior q) (on_qp is_prior (soc_fill_recv_queue vapi))))
       (\<lambda>(c, w). Inr (NICC_SUCCESS, (c\<lparr>ch_state := mark_connected is_prior (ch_state c)\<rparr>, w)))
       (c, w)))"

subsection \<open>Releasing\<close>

definition soc_deallocate_channel :: "(Channel_SoC \<times> 'w) operation" where
  "soc_deallocate_channel = op_done"

text \<open>The destructor. \<open>exit_ok\<close> is a call under \<open>exit_assert\<close>.\<close>

definition exit_ok :: "('w \<Rightarrow> int \<times> 'w) \<Rightarrow> 'w \<Rightarrow> 'w run" where
  "exit_ok f w = (let (ret, w') = f w in if ret = 0 then Inr w' else Inl Process_Exit)"

definition delete_rx :: "soc_qp \<Rightarrow> soc_qp \<Rightarrow> nat \<Rightarrow> HugeAlloc \<Rightarrow> HugeAlloc" where
  "delete_rx qp qn i h =
     (let del = (\<lambda>p m. case p of None \<Rightarrow> m | Some a \<Rightarrow> m(a := None))
      in h\<lparr>buffers := del (rx_ring qn ! i) (del (rx_ring qp ! i) (buffers h))\<rparr>)"

definition destroy_Channel_SoC :: "'w soc_ibv \<Rightarrow> Channel_SoC \<Rightarrow> 'w \<Rightarrow> 'w run" where
  "destroy_Channel_SoC api c w = (case (qp_prior c, qp_next c, soc_mr c, huge_alloc c) of
       (Some qp, Some qn, Some mr, Some h) \<Rightarrow>
         let w = snd (ib_dereg_mr api mr w);
             h = fold (delete_rx qp qn) [0 ..< kRQDepth] h
         in bind_run (destroy_HugeAlloc (ib_shmdt api) h w)
             (fold_run (\<lambda>f. exit_ok f)
               [ib_destroy_qp api (qp_object qp), ib_destroy_cq api (send_cq qp), ib_destroy_cq api (recv_cq qp),
                ib_destroy_qp api (qp_object qn), ib_destroy_cq api (send_cq qn), ib_destroy_cq api (recv_cq qn),
                ib_destroy_ah api (local_ah c), ib_destroy_ah api (remote_ah qp), ib_destroy_ah api (remote_ah qn),
                ib_dealloc_pd api (soc_pd c), ib_close_device api (ib_ctx (soc_resolve c))])
     | _ \<Rightarrow> Inl Bad_Access)"

end
