(* ===== verification/SocChannelProps.thy ===== *)
theory SocChannelProps
  imports SocChannel HugeAllocInv
begin

text \<open>
  What the setup of a SoC channel establishes: both receive rings linked, posted and over disjoint
  memory inside the registered region, both send rings empty, which is where the lemmas on the SoC
  datapath start; and the connection of a queue pair.
\<close>

subsection \<open>The loops of the receive ring\<close>

definition rx_buf :: "Buffer \<Rightarrow> nat \<Rightarrow> Buffer" where
  "rx_buf e i = (new_Buffer (b_buf e + i * kRecvMbufSize) kRecvMbufSize (b_lkey e))\<lparr>b_state := kPOSTED\<rparr>"

definition rx_sge :: "Buffer \<Rightarrow> nat \<Rightarrow> sge" where
  "rx_sge e i = \<lparr>sg_addr = of_nat (b_buf e + i * kRecvMbufSize), sg_length = of_nat kRecvMbufSize,
     sg_lkey = b_lkey e\<rparr>"

definition rx_wr :: "nat \<Rightarrow> recv_wr" where
  "rx_wr i = \<lparr>rwr_id = i, rwr_sge = Some i, rwr_num_sge = 1\<rparr>"

definition next_index :: "nat \<Rightarrow> nat \<Rightarrow> nat" where
  "next_index n i = (if i < n - 1 then i + 1 else 0)"

lemma next_index_mod: "i < n \<Longrightarrow> next_index n i = (i + 1) mod n"
  by (auto simp: next_index_def mod_if)

text \<open>The first \<open>k\<close> entries written, the others as they were.\<close>

definition over :: "nat \<Rightarrow> (nat \<Rightarrow> 'a) \<Rightarrow> 'a list \<Rightarrow> 'a list" where
  "over k f xs = map f [0 ..< k] @ drop k xs"

lemma over_0 [simp]: "over 0 f xs = xs"
  by (simp add: over_def)

lemma over_Suc: "k < length xs \<Longrightarrow> (over k f xs)[k := f k] = over (Suc k) f xs"
  by (simp add: over_def list_update_append flip: Cons_nth_drop_Suc)

lemma over_all [simp]: "length xs = k \<Longrightarrow> over k f xs = map f [0 ..< k]"
  by (simp add: over_def)

text \<open>The heap with the new buffers at the addresses from \<open>f\<close> on.\<close>

definition with_bufs :: "nat \<Rightarrow> nat \<Rightarrow> (nat \<Rightarrow> Buffer) \<Rightarrow> heap \<Rightarrow> heap" where
  "with_bufs f k B m = (\<lambda>p. if f \<le> p \<and> p < f + k then Some (B (p - f)) else m p)"

lemma with_bufs_Suc: "(with_bufs f k B m)(f + k \<mapsto> B k) = with_bufs f (Suc k) B m"
  by (auto simp: with_bufs_def fun_eq_iff)

lemma with_bufs_0 [simp]: "with_bufs f 0 B m = m"
  by (auto simp: with_bufs_def fun_eq_iff)

lemma with_bufs_at [simp]: "i < k \<Longrightarrow> with_bufs f k B m (f + i) = Some (B i)"
  by (simp add: with_bufs_def)

lemma with_bufs_other: "p < f \<or> f + k \<le> p \<Longrightarrow> with_bufs f k B m p = m p"
  by (auto simp: with_bufs_def)

definition with_rx :: "Buffer \<Rightarrow> nat \<Rightarrow> nat \<Rightarrow> soc_qp \<Rightarrow> soc_qp" where
  "with_rx e f k q = q\<lparr>recv_sgl := over k (rx_sge e) (recv_sgl q), recv_wrs := over k rx_wr (recv_wrs q),
     rx_ring := over k (\<lambda>i. Some (f + i)) (rx_ring q),
     recv_wr_next := over k (\<lambda>i. Some (next_index kRQDepth i)) (recv_wr_next q)\<rparr>"

definition rx_lengths :: "soc_qp \<Rightarrow> bool" where
  "rx_lengths q \<longleftrightarrow> length (recv_sgl q) = kRQDepth \<and> length (recv_wrs q) = kRQDepth \<and>
     length (rx_ring q) = kRQDepth \<and> length (recv_wr_next q) = kRQDepth"

definition add_bufs :: "nat \<Rightarrow> (nat \<Rightarrow> Buffer) \<Rightarrow> HugeAlloc \<Rightarrow> HugeAlloc" where
  "add_bufs k B h = h\<lparr>buffers := with_bufs (fresh h) k B (buffers h), fresh := fresh h + k\<rparr>"

lemma init_recv_loop:
  assumes "rx_lengths q" "k \<le> kRQDepth" "kRQDepth * kRecvMbufSize \<le> sz"
  shows "fold_run (init_recv_entry e sz) [0 ..< k] (q, h)
    = Inr (with_rx e (fresh h) k q, add_bufs k (rx_buf e) h)"
  using assms(2)
proof (induction k)
  case 0
  then show ?case by (simp add: with_rx_def add_bufs_def)
next
  case (Suc k)
  let ?q = "with_rx e (fresh h) k q" and ?h = "add_bufs k (rx_buf e) h"
  have "k * kRecvMbufSize + kRecvMbufSize \<le> sz"
    using Suc.prems assms(3) mult_le_mono1 [of "Suc k" kRQDepth kRecvMbufSize] by (simp add: add.commute)
  then have "init_recv_entry e sz k (?q, ?h) = Inr (with_rx e (fresh h) (Suc k) q, add_bufs (Suc k) (rx_buf e) h)"
    using assms(1) Suc.prems
    by (simp add: init_recv_entry_def Let_def rx_lengths_def with_rx_def add_bufs_def over_Suc [symmetric]
        with_bufs_Suc [symmetric] rx_sge_def rx_wr_def next_index_def rx_buf_def)
  with Suc show ?case by (simp add: fold_run_append)
qed

definition linked_buf :: "nat \<Rightarrow> (nat \<Rightarrow> Buffer) \<Rightarrow> nat \<Rightarrow> Buffer" where
  "linked_buf f B i = (B i)\<lparr>b_next := Some (f + next_index kRQDepth i)\<rparr>"

lemma link_loop:
  assumes "k \<le> kRQDepth" "\<forall>i<kRQDepth. buffers h (f + i) = Some (B i)"
  shows "fold_run (link_rx (map (\<lambda>i. Some (f + i)) [0 ..< kRQDepth])) [0 ..< k] h
    = Inr (h\<lparr>buffers := with_bufs f k (linked_buf f B) (buffers h)\<rparr>)"
  using assms(1)
proof (induction k)
  case 0
  then show ?case by simp
next
  case (Suc k)
  have "buffers (h\<lparr>buffers := with_bufs f k (linked_buf f B) (buffers h)\<rparr>) (f + k) = Some (B k)"
    using assms(2) Suc.prems by (simp add: with_bufs_other)
  then have "link_rx (map (\<lambda>i. Some (f + i)) [0 ..< kRQDepth]) k
      (h\<lparr>buffers := with_bufs f k (linked_buf f B) (buffers h)\<rparr>)
    = Inr (h\<lparr>buffers := with_bufs f (Suc k) (linked_buf f B) (buffers h)\<rparr>)"
    using Suc.prems by (auto simp: link_rx_def deref_def linked_buf_def next_index_def with_bufs_Suc [symmetric])
  with Suc show ?case by (simp add: fold_run_append)
qed

lemma with_bufs_twice: "with_bufs f k B (with_bufs f k C m) = with_bufs f k B m"
  by (auto simp: with_bufs_def fun_eq_iff)

subsection \<open>The receive ring of a queue pair\<close>

lemma soc_sizes: "kRecvMbufSize = 4096" "kSendMbufSize = 4096" "kRQDepth = 2048" "kSQDepth = 2048"
  "kMemRegionSize = 4 * k_max_class_size" "kRQDepth * kRecvMbufSize = k_max_class_size"
  by (simp_all add: kRecvMbufSize_def kSendMbufSize_def kSgeSize_def kRQDepth_def kSQDepth_def kMTU_def
      kNumRxRingEntries_def kNumTxRingEntries_def kMemRegionSize_def k_max_class_size_def round_up_def)

lemma alloc_top:
  assumes "freelist h ! 17 \<noteq> []" "buffers h (last (freelist h ! 17)) = Some e" "b_class_size e = k_max_class_size"
  shows "alloc k_max_class_size h = Inr (Some (last (freelist h ! 17)),
    h\<lparr>freelist := (freelist h)[17 := butlast (freelist h ! 17)],
      user_alloc_tot := user_alloc_tot h + of_nat k_max_class_size\<rparr>)"
proof -
  have c: "class_max_size 17 = k_max_class_size" using class_max_size_17 by (simp add: k_num_classes_def)
  have g: "get_class k_max_class_size = Inr 17"
    using get_class_of_class [of 17] c by (simp add: k_num_classes_def)
  show ?thesis
    using assms by (simp add: alloc_def g alloc_from_class_def k_num_classes_def deref_def c)
qed

text \<open>The ring a successful \<open>__init_recvs\<close> leaves, over the extent \<open>e\<close>.\<close>

definition rx_ready :: "Buffer \<Rightarrow> soc_qp \<Rightarrow> heap \<Rightarrow> bool" where
  "rx_ready e q m \<longleftrightarrow> (\<exists>f. rx_ring q = map (\<lambda>i. Some (f + i)) [0 ..< kRQDepth] \<and>
     (\<forall>i<kRQDepth. m (f + i) = Some (linked_buf f (rx_buf e) i)) \<and>
     recv_sgl q = map (rx_sge e) [0 ..< kRQDepth] \<and>
     recv_wr_next q = map (\<lambda>i. Some (next_index kRQDepth i)) [0 ..< kRQDepth])"

lemma init_recvs_success:
  assumes "rx_lengths q" "freelist h ! 17 \<noteq> []" "buffers h (last (freelist h ! 17)) = Some e"
    "b_class_size e = k_max_class_size" "b_buf e \<noteq> 0" "\<forall>p \<ge> fresh h. buffers h p = None"
  shows "\<exists>q' h'. init_recvs (q, h) = Inr (NICC_SUCCESS, (q', h')) \<and> rx_ready e q' (buffers h') \<and>
    freelist h' = (freelist h)[17 := butlast (freelist h ! 17)] \<and>
    (\<forall>p < fresh h. buffers h' p = buffers h p) \<and> (\<forall>p \<ge> fresh h'. buffers h' p = None) \<and>
    fresh h \<le> fresh h' \<and>
    q' = q\<lparr>recv_sgl := recv_sgl q', recv_wrs := recv_wrs q', rx_ring := rx_ring q', recv_wr_next := recv_wr_next q'\<rparr>"
proof -
  let ?h1 = "h\<lparr>freelist := (freelist h)[17 := butlast (freelist h ! 17)],
      user_alloc_tot := user_alloc_tot h + of_nat k_max_class_size\<rparr>"
  let ?f = "fresh h" and ?n = kRQDepth
  let ?q' = "with_rx e ?f ?n q"
  let ?h2 = "add_bufs ?n (rx_buf e) ?h1"
  let ?h3 = "?h2\<lparr>buffers := with_bufs ?f ?n (linked_buf ?f (rx_buf e)) (buffers h)\<rparr>"
  have ring: "rx_ring ?q' = map (\<lambda>i. Some (?f + i)) [0 ..< ?n]"
    using assms(1) by (simp add: with_rx_def rx_lengths_def)
  have "fold_run (link_rx (rx_ring ?q')) [0 ..< ?n] ?h2
      = Inr (?h2\<lparr>buffers := with_bufs ?f ?n (linked_buf ?f (rx_buf e)) (buffers ?h2)\<rparr>)"
    unfolding ring by (rule link_loop) (simp_all add: add_bufs_def)
  also have "\<dots> = Inr ?h3" by (simp add: add_bufs_def with_bufs_twice)
  finally have link: "fold_run (link_rx (rx_ring ?q')) [0 ..< ?n] ?h2 = Inr ?h3" .
  have loop: "fold_run (init_recv_entry e k_max_class_size) [0 ..< ?n] (q, ?h1) = Inr (?q', ?h2)"
    using init_recv_loop [OF assms(1) order.refl, of k_max_class_size e ?h1] soc_sizes(6) by simp
  have d: "deref ?h1 (last (freelist h ! 17)) = Inr e" using assms(3) by (simp add: deref_def)
  have "init_recvs (q, h) = Inr (NICC_SUCCESS, (?q', ?h3))"
    unfolding init_recvs_def Let_def prod.case soc_sizes(6)
    by (simp only: order.refl assert_run_True bind_run_Inr alloc_top [OF assms(2-4)] prod.case option.case d
        assms(5) if_False loop link)
  moreover have "rx_ready e ?q' (buffers ?h3)"
    using assms(1) unfolding rx_ready_def by (intro exI [of _ ?f]) (simp add: with_rx_def rx_lengths_def)
  ultimately show ?thesis
    using assms(6)
    by (intro exI [of _ ?q'] exI [of _ ?h3] conjI) (simp_all add: with_rx_def add_bufs_def with_bufs_def)
qed

lemma init_sends_loop:
  assumes "k \<le> kSQDepth" "length (send_wrs q) = kSQDepth" "length (send_wr_next q) = kSQDepth"
  shows "fold init_send_entry [0 ..< k] q = q\<lparr>
    send_wrs := over k (\<lambda>i. \<lparr>swr_send = True, swr_signaled = True, swr_sge = Some i, swr_num_sge = 1\<rparr>) (send_wrs q),
    send_wr_next := over k (\<lambda>i. Some (next_index kSQDepth i)) (send_wr_next q)\<rparr>"
  using assms(1)
proof (induction k)
  case 0
  then show ?case by simp
next
  case (Suc k)
  then show ?case using assms(2,3)
    by (simp add: init_send_entry_def over_Suc [symmetric] next_index_def)
qed

text \<open>A queue pair at the start of the datapath.\<close>

definition datapath_ready :: "soc_qp \<Rightarrow> heap \<Rightarrow> bool" where
  "datapath_ready q m \<longleftrightarrow>
     ring_linked kNumRxRingEntries (rx_ring q) m \<and> wr_circular kNumRxRingEntries (recv_wr_next q) \<and>
     length (recv_sgl q) = kNumRxRingEntries \<and>
     recv_head q = 0 \<and> ring_head q = 0 \<and> wait_for_disp q = 0 \<and>
     (\<forall>i<kNumRxRingEntries. \<exists>b. m (the (rx_ring q ! i)) = Some b \<and> b_state b = kPOSTED \<and>
        b_class_size b = kRecvMbufSize \<and> recv_sgl q ! i = \<lparr>sg_addr = of_nat (b_buf b),
          sg_length = of_nat kRecvMbufSize, sg_lkey = b_lkey b\<rparr>) \<and>
     length (tx_queue q) = kNumTxRingEntries \<and> tx_queue_idx q = 0 \<and>
     send_wf 0 (RDMA_SoC_QP.truncate q) m"

definition rx_addrs :: "soc_qp \<Rightarrow> heap \<Rightarrow> nat list" where
  "rx_addrs q m = map (\<lambda>p. b_buf (the (m (the p)))) (rx_ring q)"

text \<open>Addresses of areas of \<open>d\<close> bytes that do not overlap, inside a region.\<close>

definition spaced :: "nat \<Rightarrow> nat list \<Rightarrow> bool" where
  "spaced d xs \<longleftrightarrow> (\<forall>i<length xs. \<forall>j<length xs. i \<noteq> j \<longrightarrow> xs ! i + d \<le> xs ! j \<or> xs ! j + d \<le> xs ! i)"

definition inside :: "nat \<Rightarrow> nat \<Rightarrow> nat \<Rightarrow> nat list \<Rightarrow> bool" where
  "inside base n d xs \<longleftrightarrow> (\<forall>x \<in> set xs. base \<le> x \<and> x + d \<le> base + n)"

lemma rx_ready_ring_linked:
  assumes "rx_ready e q m"
  shows "ring_linked kNumRxRingEntries (rx_ring q) m"
proof -
  obtain f where f: "rx_ring q = map (\<lambda>i. Some (f + i)) [0 ..< kRQDepth]"
      "\<forall>i<kRQDepth. m (f + i) = Some (linked_buf f (rx_buf e) i)"
    using assms by (auto simp: rx_ready_def)
  have "next_is m (rx_ring q ! i) (rx_ring q ! ((i + 1) mod kRQDepth))" if "i < kRQDepth" for i
  proof -
    have "(i + 1) mod kRQDepth < kRQDepth" using that by (simp add: soc_sizes)
    with that f show ?thesis
      by (simp add: next_is_def linked_buf_def next_index_mod)
  qed
  then show ?thesis using f(1) by (simp add: ring_linked_def kRQDepth_def [symmetric] distinct_map inj_on_def)
qed

lemma rx_ready_entry:
  assumes "rx_ready e q m" "i < kRQDepth"
  shows "\<exists>b. m (the (rx_ring q ! i)) = Some b \<and> b_state b = kPOSTED \<and> b_buf b = b_buf e + i * kRecvMbufSize \<and>
    b_class_size b = kRecvMbufSize \<and> recv_sgl q ! i = \<lparr>sg_addr = of_nat (b_buf b),
          sg_length = of_nat kRecvMbufSize, sg_lkey = b_lkey b\<rparr>"
  using assms by (auto simp: rx_ready_def linked_buf_def rx_buf_def rx_sge_def)

lemma rx_ready_length: "rx_ready e q m \<Longrightarrow> length (recv_sgl q) = kNumRxRingEntries"
  by (auto simp: rx_ready_def kRQDepth_def)

lemma rx_ready_wr_circular:
  "rx_ready e q m \<Longrightarrow> wr_circular kNumRxRingEntries (recv_wr_next q)"
  by (auto simp: rx_ready_def wr_circular_def kRQDepth_def next_index_mod)

lemma rx_ready_addrs:
  assumes "rx_ready e q m"
  shows "rx_addrs q m = map (\<lambda>i. b_buf e + i * kRecvMbufSize) [0 ..< kRQDepth]"
  using assms by (auto simp: rx_ready_def rx_addrs_def linked_buf_def rx_buf_def)

lemma rx_ready_mono:
  "rx_ready e q m \<Longrightarrow> (\<And>p. m p \<noteq> None \<Longrightarrow> m' p = m p) \<Longrightarrow> rx_ready e q m'"
  unfolding rx_ready_def by (metis option.distinct(1))

text \<open>A queue pair as \<open>__create_qp\<close> leaves it.\<close>

definition created_qp :: "soc_qp \<Rightarrow> bool" where
  "created_qp q \<longleftrightarrow> (\<exists>n a b d. q = new_soc_qp\<lparr>qp_id := n, send_cq := a, recv_cq := b, qp_object := d\<rparr>)"

lemma created_qp_lengths:
  "created_qp q \<Longrightarrow> rx_lengths q \<and> length (send_wrs q) = kSQDepth \<and> length (send_wr_next q) = kSQDepth"
  by (auto simp: created_qp_def new_soc_qp_def rx_lengths_def)

lemma ring_setup:
  assumes q: "created_qp q" and free: "freelist h ! 17 \<noteq> []" "buffers h (last (freelist h ! 17)) = Some e"
    and e: "b_class_size e = k_max_class_size" "b_buf e \<noteq> 0" and new: "\<forall>p \<ge> fresh h. buffers h p = None"
    and run: "and_then init_recvs init_sends (q, h) = Inr (r, (q', h'))"
  shows "r = NICC_SUCCESS \<and> rx_ready e q' (buffers h') \<and> datapath_ready q' (buffers h') \<and>
    freelist h' = (freelist h)[17 := butlast (freelist h ! 17)] \<and>
    (\<forall>p < fresh h. buffers h' p = buffers h p) \<and> (\<forall>p \<ge> fresh h'. buffers h' p = None) \<and> fresh h \<le> fresh h'"
proof -
  obtain q1 h1 where 1: "init_recvs (q, h) = Inr (NICC_SUCCESS, (q1, h1))" and rx: "rx_ready e q1 (buffers h1)"
    and h1: "freelist h1 = (freelist h)[17 := butlast (freelist h ! 17)]"
      "\<forall>p < fresh h. buffers h1 p = buffers h p" "\<forall>p \<ge> fresh h1. buffers h1 p = None" "fresh h \<le> fresh h1"
    and q1: "q1 = q\<lparr>recv_sgl := recv_sgl q1, recv_wrs := recv_wrs q1, rx_ring := rx_ring q1, recv_wr_next := recv_wr_next q1\<rparr>"
    using init_recvs_success [OF _ free e new] created_qp_lengths [OF q] by blast
  have l: "length (send_wrs q1) = kSQDepth" "length (send_wr_next q1) = kSQDepth"
    using created_qp_lengths [OF q] by (subst q1; simp)+
  let ?q' = "fold init_send_entry [0 ..< kSQDepth] q1"
  have q': "?q' = q1\<lparr>send_wrs := map (\<lambda>i. \<lparr>swr_send = True, swr_signaled = True, swr_sge = Some i, swr_num_sge = 1\<rparr>) [0 ..< kSQDepth],
      send_wr_next := map (\<lambda>i. Some (next_index kSQDepth i)) [0 ..< kSQDepth]\<rparr>"
    using init_sends_loop [OF order.refl l] l by simp
  have e1: "r = NICC_SUCCESS" "q' = ?q'" "h' = h1"
    using run 1 by (simp_all add: and_then_def init_sends_def)
  note qq = e1(2) [unfolded q']
  have pos: "0 < kNumTxRingEntries" by (simp add: kNumTxRingEntries_def)
  have rx': "rx_ready e q' (buffers h1)" using rx by (simp add: qq rx_ready_def)
  have idx: "recv_head q1 = 0" "ring_head q1 = 0" "wait_for_disp q1 = 0" "send_head q1 = 0" "send_tail q1 = 0"
      "length (sw_ring q1) = kSQDepth" "length (send_sgl q1) = kSQDepth" "free_send_wr_num q1 = kNumTxRingEntries"
      "length (tx_queue q1) = kSQDepth" "tx_queue_idx q1 = 0"
    using q by (subst q1; auto simp: created_qp_def new_soc_qp_def)+
  have "send_wf 0 (RDMA_SoC_QP.truncate q') (buffers h1)"
    using idx pos by (auto simp: send_wf_def send_ring_def qq RDMA_SoC_QP.truncate_def wr_circular_def kSQDepth_def
        next_index_mod)
  then have "datapath_ready q' (buffers h1)"
    unfolding datapath_ready_def
    using rx_ready_ring_linked [OF rx'] rx_ready_wr_circular [OF rx'] rx_ready_entry [OF rx'] rx_ready_length [OF rx'] idx
    by (auto simp: qq kRQDepth_def kSQDepth_def)
  then show ?thesis using e1 rx' h1 by simp
qed

subsection \<open>The channel\<close>

lemma the_qp_set [simp]:
  "the_qp_of p (set_qp_of p' q c) = (if p = p' then Some q else the_qp_of p c)"
  "huge_alloc (set_qp_of p q c) = huge_alloc c"
  "the_qp_of p (c\<lparr>huge_alloc := x\<rparr>) = the_qp_of p c"
  "soc_mr (set_qp_of p q c) = soc_mr c"
  by (simp_all add: the_qp_of_def set_qp_of_def)

lemma on_ring_success:
  assumes "on_ring p f (c, w) = Inr (r, (c', w'))"
  shows "\<exists>q h q' h'. the_qp_of p c = Some q \<and> huge_alloc c = Some h \<and> f (q, h) = Inr (r, (q', h')) \<and>
    c' = (set_qp_of p q' c)\<lparr>huge_alloc := Some h'\<rparr> \<and> w' = w"
  using assms by (auto simp: on_ring_def bind_run_eq_Inr split: option.splits)

text \<open>The allocator after the region of the channel was added.\<close>

lemma push_four:
  fixes base :: nat and k :: u32
  assumes "freelist h = replicate k_num_classes []" "fresh h = 0"
  defines "h4 \<equiv> push_max_buffers base k 4 h"
  shows "freelist h4 = (replicate 17 []) @ [[0, 1, 2, 3]]" "fresh h4 = 4"
    and "buffers h4 3 = Some (new_Buffer (base + 3 * k_max_class_size) k_max_class_size k)"
    and "buffers h4 2 = Some (new_Buffer (base + 2 * k_max_class_size) k_max_class_size k)"
    and "\<forall>p \<ge> 4. buffers h4 p = buffers h p"
  by (simp_all add: h4_def push_max_buffers_def push_new_def assms k_num_classes_def numeral_eq_Suc)

lemma two_extents:
  assumes "0 < n" "d * n = ext"
  shows "spaced d (map (\<lambda>i. base + 3 * ext + i * d) [0 ..< n] @ map (\<lambda>i. base + 2 * ext + i * d) [0 ..< n])"
    and "inside base (4 * ext) d (map (\<lambda>i. base + 3 * ext + i * d) [0 ..< n] @ map (\<lambda>i. base + 2 * ext + i * d) [0 ..< n])"
proof -
  let ?L = "map (\<lambda>i. base + 3 * ext + i * d) [0 ..< n] @ map (\<lambda>i. base + 2 * ext + i * d) [0 ..< n]"
  have at: "?L ! i = base + (if i < n then 3 * ext + i * d else 2 * ext + (i - n) * d)" if "i < 2 * n" for i
    using that by (simp add: nth_append)
  have step: "i * d + d \<le> j * d" if "i < j" for i j :: nat
    using that mult_le_mono1 [of "Suc i" j d] by (simp add: add.commute)
  have top: "i * d + d \<le> ext" if "i < n" for i
    using step [OF that] assms(2) by (simp add: mult.commute)
  show "spaced d ?L"
    unfolding spaced_def
  proof (intro allI impI)
    fix i j assume "i < length ?L" "j < length ?L" and ne: "i \<noteq> j"
    then have l: "i < 2 * n" "j < 2 * n" by simp_all
    consider "i < n \<longleftrightarrow> j < n" | "i < n" "\<not> j < n" | "\<not> i < n" "j < n" by blast
    then show "?L ! i + d \<le> ?L ! j \<or> ?L ! j + d \<le> ?L ! i"
    proof cases
      case 1
      then show ?thesis
        using at [OF l(1)] at [OF l(2)] ne step [of i j] step [of j i] step [of "i - n" "j - n"] step [of "j - n" "i - n"]
        by (cases "i < j") auto
    next
      case 2
      then have "(j - n) * d + d \<le> ext" using top [of "j - n"] l by simp
      then show ?thesis using 2 at [OF l(1)] at [OF l(2)] trans_le_add1 by simp
    next
      case 3
      then have "(i - n) * d + d \<le> ext" using top [of "i - n"] l by simp
      then show ?thesis using 3 at [OF l(1)] at [OF l(2)] trans_le_add1 by simp
    qed
  qed
  show "inside base (4 * ext) d ?L"
    using top by (fastforce simp: inside_def)
qed

lemma fill_rings_ready:
  assumes qp: "qp_prior c = Some p0" "qp_next c = Some n0" "created_qp p0" "created_qp n0"
    and h: "huge_alloc c = Some (push_max_buffers base k 4 h0)" "freelist h0 = replicate k_num_classes []"
      "fresh h0 = 0" "\<forall>p. buffers h0 p = None" "base \<noteq> 0"
    and run: "fill_rings (c, w) = Inr (NICC_SUCCESS, (c', w'))"
  shows "\<exists>qp qn h. qp_prior c' = Some qp \<and> qp_next c' = Some qn \<and> huge_alloc c' = Some h \<and>
    datapath_ready qp (buffers h) \<and> datapath_ready qn (buffers h) \<and>
    spaced kRecvMbufSize (rx_addrs qp (buffers h) @ rx_addrs qn (buffers h)) \<and>
    inside base kMemRegionSize kRecvMbufSize (rx_addrs qp (buffers h) @ rx_addrs qn (buffers h)) \<and>
    soc_mr c' = soc_mr c \<and> soc_pd c' = soc_pd c \<and> w' = w"
proof -
  let ?h = "push_max_buffers base k 4 h0"
  let ?e1 = "new_Buffer (base + 3 * k_max_class_size) k_max_class_size k"
  let ?e2 = "new_Buffer (base + 2 * k_max_class_size) k_max_class_size k"
  note four = push_four [OF h(2,3), of base k]
  obtain q1 h1 q2 h2 q3 h3 q4 h4 where
    1: "init_recvs (p0, ?h) = Inr (NICC_SUCCESS, (q1, h1))" and 2: "init_sends (q1, h1) = Inr (NICC_SUCCESS, (q2, h2))"
    and 3: "init_recvs (n0, h2) = Inr (NICC_SUCCESS, (q3, h3))" and 4: "init_sends (q3, h3) = Inr (NICC_SUCCESS, (q4, h4))"
    and c': "qp_prior c' = Some q2" "qp_next c' = Some q4" "huge_alloc c' = Some h4" "soc_mr c' = soc_mr c" "soc_pd c' = soc_pd c" "w' = w"
    using run qp(1,2) h(1) unfolding fill_rings_def and_then_pair
    by (auto simp: the_qp_of_def set_qp_of_def dest!: on_ring_success)
  have a: "and_then init_recvs init_sends (p0, ?h) = Inr (NICC_SUCCESS, (q2, h2))"
    using 1 2 by (simp add: and_then_def)
  have b: "and_then init_recvs init_sends (n0, h2) = Inr (NICC_SUCCESS, (q4, h4))"
    using 3 4 by (simp add: and_then_def)
  have s1: "rx_ready ?e1 q2 (buffers h2)" "datapath_ready q2 (buffers h2)"
      "freelist h2 = (freelist ?h)[17 := butlast (freelist ?h ! 17)]"
      "\<forall>p < fresh ?h. buffers h2 p = buffers ?h p" "\<forall>p \<ge> fresh h2. buffers h2 p = None" "fresh ?h \<le> fresh h2"
    using ring_setup [OF qp(3) _ _ _ _ _ a, of ?e1] four h(4,5) by (simp_all add: nth_append)
  have s2: "rx_ready ?e2 q4 (buffers h4)" "datapath_ready q4 (buffers h4)"
      "\<forall>p < fresh h2. buffers h4 p = buffers h2 p" "\<forall>p \<ge> fresh h4. buffers h4 p = None"
    using ring_setup [OF qp(4) _ _ _ _ _ b, of ?e2] four h(4,5) s1(3-6) by (simp_all add: nth_append)
  have keep: "buffers h4 p = buffers h2 p" if "buffers h2 p \<noteq> None" for p
    using that s1(5) s2(3) by (metis not_le)
  have r1: "rx_ready ?e1 q2 (buffers h4)" using rx_ready_mono [OF s1(1) keep] .
  have "datapath_ready q2 (buffers h4)"
    using s1(2) rx_ready_ring_linked [OF r1] rx_ready_entry [OF r1]
    by (auto simp: datapath_ready_def send_wf_def send_ring_def kRQDepth_def [symmetric])
  moreover have "rx_addrs q2 (buffers h4) @ rx_addrs q4 (buffers h4)
      = map (\<lambda>i. base + 3 * k_max_class_size + i * kRecvMbufSize) [0 ..< kRQDepth]
        @ map (\<lambda>i. base + 2 * k_max_class_size + i * kRecvMbufSize) [0 ..< kRQDepth]"
    using rx_ready_addrs [OF r1] rx_ready_addrs [OF s2(1)] by simp
  ultimately show ?thesis
    using s2(2) c' two_extents [of kRQDepth kRecvMbufSize k_max_class_size base] soc_sizes
    by (simp add: mult.commute)
qed

lemma fill_rings_total:
  assumes qp: "qp_prior c = Some p0" "qp_next c = Some n0" "created_qp p0" "created_qp n0"
    and h: "huge_alloc c = Some (push_max_buffers base k 4 h0)" "freelist h0 = replicate k_num_classes []"
      "fresh h0 = 0" "\<forall>p. buffers h0 p = None" "base \<noteq> 0"
  shows "\<exists>c' w'. fill_rings (c, w) = Inr (NICC_SUCCESS, (c', w'))"
proof -
  let ?h = "push_max_buffers base k 4 h0"
  let ?e1 = "new_Buffer (base + 3 * k_max_class_size) k_max_class_size k"
  let ?e2 = "new_Buffer (base + 2 * k_max_class_size) k_max_class_size k"
  note four = push_four [OF h(2,3), of base k]
  obtain q1 h1 where 1: "init_recvs (p0, ?h) = Inr (NICC_SUCCESS, (q1, h1))"
    using init_recvs_success [of p0 ?h ?e1] created_qp_lengths [OF qp(3)] four h(4,5)
    by (auto simp: nth_append)
  obtain q2 h2 where 2: "init_sends (q1, h1) = Inr (NICC_SUCCESS, (q2, h2))" by (simp add: init_sends_def)
  have a: "and_then init_recvs init_sends (p0, ?h) = Inr (NICC_SUCCESS, (q2, h2))"
    using 1 2 by (simp add: and_then_def)
  have s1: "freelist h2 = (freelist ?h)[17 := butlast (freelist ?h ! 17)]"
      "\<forall>p < fresh ?h. buffers h2 p = buffers ?h p" "\<forall>p \<ge> fresh h2. buffers h2 p = None"
    using ring_setup [OF qp(3) _ _ _ _ _ a, of ?e1] four h(4,5) by (simp_all add: nth_append)
  obtain q3 h3 where 3: "init_recvs (n0, h2) = Inr (NICC_SUCCESS, (q3, h3))"
    using init_recvs_success [of n0 h2 ?e2] created_qp_lengths [OF qp(4)] four s1 h(5)
    by (auto simp: nth_append)
  show ?thesis
    using qp(1,2) h(1) 1 2 3
    by (simp add: fill_rings_def and_then_def on_ring_def the_qp_of_def set_qp_of_def init_sends_def)
qed

lemma soc_create_qp_created:
  assumes "soc_create_qp api c (q, w) = Inr (r, (q', w'))" "created_qp q"
  shows "r = NICC_SUCCESS \<and> created_qp q'"
proof -
  obtain n a b d where "r = NICC_SUCCESS" "q' = q\<lparr>send_cq := a, recv_cq := b, qp_object := d, qp_id := n\<rparr>"
    using assms(1) by (auto simp: soc_create_qp_def bind_run_eq_Inr split: option.splits)
  moreover obtain n' a' b' d' where "q = new_soc_qp\<lparr>qp_id := n', send_cq := a', recv_cq := b', qp_object := d'\<rparr>"
    using assms(2) by (auto simp: created_qp_def)
  ultimately have "q' = new_soc_qp\<lparr>qp_id := n, send_cq := a, recv_cq := b, qp_object := d\<rparr>" by simp
  then show ?thesis using \<open>r = NICC_SUCCESS\<close> unfolding created_qp_def by blast
qed

lemma on_qp_success:
  assumes "on_qp p f (c, w) = Inr (r, (c', w'))"
  shows "\<exists>q q'. the_qp_of p c = Some q \<and> f c (q, w) = Inr (r, (q', w')) \<and> c' = set_qp_of p q' c"
  using assms by (auto simp: on_qp_def bind_run_eq_Inr split: option.splits)

lemma set_local_infos_success:
  "set_local_infos api (c, w) = Inr (r, (c', w')) \<Longrightarrow>
   the_qp_of p c' = the_qp_of p c \<and> huge_alloc c' = huge_alloc c"
  by (auto simp: set_local_infos_def bind_run_eq_Inr the_qp_of_def split: option.splits)

lemma created_new [simp]: "created_qp new_soc_qp"
proof -
  have "new_soc_qp = new_soc_qp\<lparr>qp_id := qp_id new_soc_qp, send_cq := send_cq new_soc_qp,
      recv_cq := recv_cq new_soc_qp, qp_object := qp_object new_soc_qp\<rparr>" by simp
  then show ?thesis unfolding created_qp_def by blast
qed

lemma init_verbs_success:
  assumes "init_verbs_structs api (c, w) = Inr (NICC_SUCCESS, (c', w'))"
  shows "\<exists>p n. qp_prior c' = Some p \<and> qp_next c' = Some n \<and> created_qp p \<and> created_qp n \<and>
    huge_alloc c' = huge_alloc c"
proof -
  obtain pd w1 c2 w2 c3 w3 where
    1: "on_qp True (soc_create_qp api) (c\<lparr>qp_prior := Some new_soc_qp, qp_next := Some new_soc_qp, soc_pd := pd\<rparr>, w1)
      = Inr (NICC_SUCCESS, (c2, w2))"
    and 2: "on_qp False (soc_create_qp api) (c2, w2) = Inr (NICC_SUCCESS, (c3, w3))"
    and 3: "set_local_infos api (c3, w3) = Inr (NICC_SUCCESS, (c', w'))"
    using assms unfolding init_verbs_structs_def
    by (auto simp: bind_run_eq_Inr and_then_pair split: option.splits)
  obtain p where p: "created_qp p" "c2 = set_qp_of True p (c\<lparr>qp_prior := Some new_soc_qp, qp_next := Some new_soc_qp, soc_pd := pd\<rparr>)"
    using on_qp_success [OF 1] by (auto simp: the_qp_of_def dest!: soc_create_qp_created)
  obtain n where n: "created_qp n" "c3 = set_qp_of False n c2"
    using on_qp_success [OF 2] p(2) by (auto simp: the_qp_of_def set_qp_of_def dest!: soc_create_qp_created)
  show ?thesis
    using set_local_infos_success [OF 3, of True] set_local_infos_success [OF 3, of False] p n
    by (auto simp: the_qp_of_def set_qp_of_def)
qed

lemma alloc_raw_fields:
  assumes "alloc_raw sys sz b h = Some (Inr (buf, h'))"
  shows "freelist h' = freelist h \<and> fresh h' = fresh h \<and> buffers h' = buffers h"
  using assms by (auto simp: alloc_raw_def bind_run_eq_Inr Let_def split: option.splits if_splits)

lemma soc_rings:
  assumes "soc_allocate_channel api sys papi dev port (c, w) = Some (Inr (NICC_SUCCESS, (c', w')))"
  shows "\<exists>qp qn h base. qp_prior c' = Some qp \<and> qp_next c' = Some qn \<and> huge_alloc c' = Some h \<and>
    datapath_ready qp (buffers h) \<and> datapath_ready qn (buffers h) \<and>
    spaced kRecvMbufSize (rx_addrs qp (buffers h) @ rx_addrs qn (buffers h)) \<and>
    inside base kMemRegionSize kRecvMbufSize (rx_addrs qp (buffers h) @ rx_addrs qn (buffers h)) \<and>
    soc_mr c' \<noteq> None \<and> (\<exists>w1. ib_reg_mr api (soc_pd c') base kMemRegionSize
      {ACC_LOCAL_WRITE, ACC_REMOTE_WRITE, ACC_REMOTE_READ, ACC_REMOTE_ATOMIC} w1 = (soc_mr c', w'))"
proof -
  obtain h0 rs w1 c2 w2 where
    h0: "new_HugeAlloc kMemRegionSize 0 = Inr h0"
    and v: "init_verbs_structs api (c\<lparr>huge_alloc := Some h0, soc_resolve := rs\<rparr>, w1) = Inr (NICC_SUCCESS, (c2, w2))"
    and r: "init_rings api sys (c2, w2) = Some (Inr (NICC_SUCCESS, (c', w')))"
    using assms unfolding soc_allocate_channel_def
    by (auto simp: bind_exec_eq_Inr bind_run_eq_Inr Let_def split: if_splits)
  obtain p n where qp: "qp_prior c2 = Some p" "qp_next c2 = Some n" "created_qp p" "created_qp n"
      and c2: "huge_alloc c2 = Some h0"
    using init_verbs_success [OF v] by auto
  obtain raw h1 mr w3 h2 where
    a: "alloc_raw sys kMemRegionSize True h0 = Some (Inr (raw, h1))" "b_buf raw \<noteq> 0" "mr \<noteq> None"
    and reg: "ib_reg_mr api (soc_pd c2) (b_buf raw) kMemRegionSize
      {ACC_LOCAL_WRITE, ACC_REMOTE_WRITE, ACC_REMOTE_READ, ACC_REMOTE_ATOMIC} w2 = (mr, w3)"
    and h2: "add_raw_buffer (raw\<lparr>b_lkey := ib_mr_lkey api (the mr)\<rparr>) kMemRegionSize h1 = Inr h2"
    and f: "fill_rings (c2\<lparr>soc_mr := mr, huge_alloc := Some h2\<rparr>, w3) = Inr (NICC_SUCCESS, (c', w'))"
    using r c2 unfolding init_rings_def
    by (auto simp: bind_exec_eq_Inr bind_run_eq_Inr checked_def split: option.splits if_splits) force
  have h1: "freelist h1 = replicate k_num_classes []" "fresh h1 = 0" "\<forall>p. buffers h1 p = None"
    using alloc_raw_fields [OF a(1)] h0 by (auto simp: new_HugeAlloc_def bind_run_eq_Inr)
  let ?c = "c2\<lparr>soc_mr := mr, huge_alloc := Some h2\<rparr>"
  have "h2 = push_max_buffers (b_buf raw) (ib_mr_lkey api (the mr)) 4 h1"
    using h2 add_raw_buffer_multiple [of 4] soc_sizes(5) by simp
  then have "huge_alloc ?c = Some (push_max_buffers (b_buf raw) (ib_mr_lkey api (the mr)) 4 h1)" by simp
  from fill_rings_ready [OF _ _ qp(3,4) this h1 a(2) f] obtain q1 q2 h where
    "qp_prior c' = Some q1" "qp_next c' = Some q2" "huge_alloc c' = Some h"
    "datapath_ready q1 (buffers h)" "datapath_ready q2 (buffers h)"
    "spaced kRecvMbufSize (rx_addrs q1 (buffers h) @ rx_addrs q2 (buffers h))"
    "inside (b_buf raw) kMemRegionSize kRecvMbufSize (rx_addrs q1 (buffers h) @ rx_addrs q2 (buffers h))"
    "soc_mr c' = mr" "soc_pd c' = soc_pd c2" "w' = w3"
    using qp(1,2) by auto
  with reg a(3) show ?thesis
    by (intro exI [of _ q1] exI [of _ q2] exI [of _ h] exI [of _ "b_buf raw"] exI [of _ w2] conjI) simp_all
qed

text \<open>
  C37. A SoC channel that was allocated has both queue pairs ready for the datapath: receive rings
  linked and circular, every slot posted and described by its scatter entry, send rings empty; and
  its 4096 receive buffers are disjoint areas of the one region it registered.
\<close>

theorem soc_channel_rings:
  assumes "soc_allocate_channel api sys papi dev port (c, w) = Some (Inr (NICC_SUCCESS, (c', w')))"
  shows "\<exists>qp qn h base. qp_prior c' = Some qp \<and> qp_next c' = Some qn \<and> huge_alloc c' = Some h \<and>
    datapath_ready qp (buffers h) \<and> datapath_ready qn (buffers h) \<and>
    spaced kRecvMbufSize (rx_addrs qp (buffers h) @ rx_addrs qn (buffers h)) \<and>
    inside base kMemRegionSize kRecvMbufSize (rx_addrs qp (buffers h) @ rx_addrs qn (buffers h)) \<and>
    soc_mr c' \<noteq> None \<and> (\<exists>w1. ib_reg_mr api (soc_pd c') base kMemRegionSize
      {ACC_LOCAL_WRITE, ACC_REMOTE_WRITE, ACC_REMOTE_READ, ACC_REMOTE_ATOMIC} w1 = (soc_mr c', w'))"
  using assms by (rule soc_rings)

subsection \<open>A channel comes up\<close>

text \<open>The device grants every object, and the system a region of hugepages.\<close>

definition verbs_grant :: "'w soc_ibv \<Rightarrow> bool" where
  "verbs_grant api \<longleftrightarrow> (\<forall>x w. fst (ib_alloc_pd api x w) \<noteq> None) \<and>
     (\<forall>x n w. fst (ib_create_cq api x n w) \<noteq> None) \<and> (\<forall>x a w. fst (ib_create_qp api x a w) \<noteq> None) \<and>
     (\<forall>x a n acc w. fst (ib_reg_mr api x a n acc w) \<noteq> None)"

definition hugepages_available :: "shm_api \<Rightarrow> nat \<Rightarrow> bool" where
  "hugepages_available sys sz \<longleftrightarrow> (\<exists>key n. shm_key_loop sys sz 0 = Some (Inr (key, Some n)) \<and>
     shmat sys n \<noteq> 0 \<and> mbind sys (shmat sys n) sz 0)"

lemma checked_grant: "fst r \<noteq> None \<Longrightarrow> checked r = Inr r"
  by (simp add: checked_def)

lemma soc_create_qp_total:
  assumes "verbs_grant api" "soc_pd c = Some pd"
  shows "\<exists>q' w'. soc_create_qp api c (q, w) = Inr (NICC_SUCCESS, (q', w'))"
  using assms by (auto simp: verbs_grant_def soc_create_qp_def checked_grant split: prod.splits)

text \<open>
  The memory of the two connection records comes from \<open>malloc\<close> and is not written before their flag
  is read, so the flag may have any value.
\<close>

definition records_clear :: "QPInfo \<Rightarrow> QPInfo \<Rightarrow> bool" where
  "records_clear p n \<longleftrightarrow> \<not> qi_is_initialized p \<and> \<not> qi_is_initialized n"

lemma init_verbs_total:
  assumes "verbs_grant api" "ib_ctx (soc_resolve c) = Some ctx"
  shows "if records_clear (info_prior c) (info_next c)
    then \<exists>c' w'. init_verbs_structs api (c, w) = Inr (NICC_SUCCESS, (c', w'))
    else init_verbs_structs api (c, w) = Inl Assert_Failed"
proof -
  obtain pd w1 where pd: "ib_alloc_pd api ctx w = (Some pd, w1)"
    using assms(1) by (metis verbs_grant_def not_None_eq prod.collapse)
  let ?c = "c\<lparr>qp_prior := Some new_soc_qp, qp_next := Some new_soc_qp, soc_pd := Some pd\<rparr>"
  obtain q w2 where 1: "soc_create_qp api ?c (new_soc_qp, w1) = Inr (NICC_SUCCESS, (q, w2))"
    using soc_create_qp_total [OF assms(1), of ?c pd new_soc_qp w1] by auto
  let ?c2 = "set_qp_of True q ?c"
  obtain q' w3 where 2: "soc_create_qp api ?c2 (new_soc_qp, w2) = Inr (NICC_SUCCESS, (q', w3))"
    using soc_create_qp_total [OF assms(1), of ?c2 pd new_soc_qp w2] by (auto simp: set_qp_of_def)
  show ?thesis
    using pd 1 2 assms(2)
    by (cases "qi_is_initialized (info_prior c)")
      (simp_all add: init_verbs_structs_def checked_def and_then_def on_qp_def the_qp_of_def set_qp_of_def
        set_local_infos_def soc_set_local_qp_info_def records_clear_def)
qed

lemma alloc_raw_total:
  assumes "hugepages_available sys kMemRegionSize" "numa_node h = 0"
  shows "\<exists>raw h'. alloc_raw sys kMemRegionSize True h = Some (Inr (raw, h')) \<and> b_buf raw \<noteq> 0"
proof -
  have "unat (round_up (of_nat kHugepageSize) (of_nat kMemRegionSize) :: u64) = kMemRegionSize"
    by (simp add: soc_sizes k_max_class_size_def kHugepageSize_def round_up_def)
  moreover have "kMemRegionSize mod kHugepageSize = 0"
    by (simp add: soc_sizes k_max_class_size_def kHugepageSize_def)
  ultimately show ?thesis
    using assms by (auto simp: hugepages_available_def alloc_raw_def Let_def)
qed

lemma soc_channel_up:
  assumes rs: "common_resolve_phy_port papi dev port kMTU (soc_resolve c) w = Inr (rs, w1)"
      "soc_roce_resolve_phy_port papi rs w1 = Inr (NICC_SUCCESS, rs')" "ib_ctx rs' \<noteq> None"
    and g: "verbs_grant api" "hugepages_available sys kMemRegionSize"
    and i: "records_clear (info_prior c) (info_next c)"
  shows "\<exists>c' w'. soc_allocate_channel api sys papi dev port (c, w) = Some (Inr (NICC_SUCCESS, (c', w')))"
proof -
  obtain h0 where h0: "new_HugeAlloc kMemRegionSize 0 = Inr h0" by (simp add: new_HugeAlloc_def)
  then have h: "freelist h0 = replicate k_num_classes []" "fresh h0 = 0" "\<forall>p. buffers h0 p = None" "numa_node h0 = 0"
    by (auto simp: new_HugeAlloc_def)
  let ?c = "c\<lparr>huge_alloc := Some h0, soc_resolve := rs'\<rparr>"
  obtain ctx where "ib_ctx (soc_resolve ?c) = Some ctx" using rs(3) by auto
  then obtain c2 w2 where v: "init_verbs_structs api (?c, w1) = Inr (NICC_SUCCESS, (c2, w2))"
    using init_verbs_total [OF g(1), of ?c ctx w1] i by auto
  obtain p n where qp: "qp_prior c2 = Some p" "qp_next c2 = Some n" "created_qp p" "created_qp n"
      and c2: "huge_alloc c2 = Some h0"
    using init_verbs_success [OF v] by auto
  obtain raw h1 where a: "alloc_raw sys kMemRegionSize True h0 = Some (Inr (raw, h1))" "b_buf raw \<noteq> 0"
    using alloc_raw_total [OF g(2) h(4)] by blast
  obtain mr w3 where reg: "ib_reg_mr api (soc_pd c2) (b_buf raw) kMemRegionSize
      {ACC_LOCAL_WRITE, ACC_REMOTE_WRITE, ACC_REMOTE_READ, ACC_REMOTE_ATOMIC} w2 = (Some mr, w3)"
    using g(1) by (metis verbs_grant_def not_None_eq prod.collapse)
  let ?h2 = "push_max_buffers (b_buf raw) (ib_mr_lkey api mr) 4 h1"
  have add: "add_raw_buffer (raw\<lparr>b_lkey := ib_mr_lkey api mr\<rparr>) kMemRegionSize h1 = Inr ?h2"
    using add_raw_buffer_multiple [of 4] soc_sizes(5) by simp
  obtain c' w' where f: "fill_rings (c2\<lparr>soc_mr := Some mr, huge_alloc := Some ?h2\<rparr>, w3) = Inr (NICC_SUCCESS, (c', w'))"
    using fill_rings_total [of "c2\<lparr>soc_mr := Some mr, huge_alloc := Some ?h2\<rparr>" p n "b_buf raw" "ib_mr_lkey api mr" h1 w3]
      qp h alloc_raw_fields [OF a(1)] a(2) by auto
  have "init_rings api sys (c2, w2) = Some (Inr (NICC_SUCCESS, (c', w')))"
    using c2 a reg add f by (simp add: init_rings_def checked_def)
  then show ?thesis using h0 rs v by (simp add: soc_allocate_channel_def Let_def)
qed

lemma soc_channel_stale:
  assumes rs: "common_resolve_phy_port papi dev port kMTU (soc_resolve c) w = Inr (rs, w1)"
      "soc_roce_resolve_phy_port papi rs w1 = Inr (NICC_SUCCESS, rs')" "ib_ctx rs' \<noteq> None"
    and "verbs_grant api" "\<not> records_clear (info_prior c) (info_next c)"
  shows "soc_allocate_channel api sys papi dev port (c, w) = Some (Inl Assert_Failed)"
proof -
  obtain h0 where h0: "new_HugeAlloc kMemRegionSize 0 = Inr h0" by (simp add: new_HugeAlloc_def)
  let ?c = "c\<lparr>huge_alloc := Some h0, soc_resolve := rs'\<rparr>"
  obtain ctx where "ib_ctx (soc_resolve ?c) = Some ctx" using rs(3) by auto
  then have "init_verbs_structs api (?c, w1) = Inl Assert_Failed"
    using init_verbs_total [OF assms(4), of ?c ctx w1] assms(5) by simp
  then show ?thesis using h0 rs by (simp add: soc_allocate_channel_def Let_def)
qed

text \<open>
  C38. With the port resolved, the verbs objects and the hugepages granted, the allocation of a SoC
  channel returns success exactly if neither of the two connection records reads as initialised;
  otherwise it dies of the assertion in \<open>__set_local_qp_info\<close>. The records are memory that
  \<open>malloc\<close> returned and nothing has written, so nothing in the code decides which case occurs.
\<close>

theorem soc_channel_comes_up:
  assumes "common_resolve_phy_port papi dev port kMTU (soc_resolve c) w = Inr (rs, w1)"
    and "soc_roce_resolve_phy_port papi rs w1 = Inr (NICC_SUCCESS, rs')" and "ib_ctx rs' \<noteq> None"
    and "verbs_grant api" and "hugepages_available sys kMemRegionSize"
  shows "if qi_is_initialized (info_prior c) \<or> qi_is_initialized (info_next c)
    then soc_allocate_channel api sys papi dev port (c, w) = Some (Inl Assert_Failed)
    else \<exists>c' w'. soc_allocate_channel api sys papi dev port (c, w) = Some (Inr (NICC_SUCCESS, (c', w')))"
  using soc_channel_stale [OF assms(1-4)] soc_channel_up [OF assms] by (simp add: records_clear_def)

subsection \<open>Connecting\<close>

lemma on_qp_keeps:
  "on_qp p f (c, w) = Inr (r, (c', w')) \<Longrightarrow> ch_state c' = ch_state c \<and> the_qp_of (\<not> p) c' = the_qp_of (\<not> p) c"
  by (auto simp: on_qp_def bind_run_eq_Inr the_qp_of_def set_qp_of_def split: option.splits)

lemma create_ah_keeps:
  assumes "create_ah api p remote (c, w) = Inr (r, (c', w'))"
  shows "ch_state c' = ch_state c \<and> the_qp_of (\<not> p) c' = the_qp_of (\<not> p) c"
proof -
  have "ch_state c1 = ch_state c \<and> the_qp_of (\<not> p) c1 = the_qp_of (\<not> p) c"
    if "create_local_ah api p (c, w) = Inr (r1, (c1, w1))" for r1 c1 w1
    using that by (auto simp: create_local_ah_def the_qp_of_def split: if_splits prod.splits)
  with assms show ?thesis
    by (auto simp: create_ah_def create_remote_ah_def and_then_eq_Inr dest!: on_qp_keeps)
qed

lemma soc_connect_to_host_keeps:
  assumes "soc_connect_qp_to_host api p remote (c, w) = Inr (r, (c', w'))"
  shows "ch_state c' = ch_state c \<and> the_qp_of (\<not> p) c' = the_qp_of (\<not> p) c"
  using assms unfolding soc_connect_qp_to_host_def soc_modify_def
  by (auto simp: and_then_eq_Inr split: option.splits dest!: on_qp_keeps create_ah_keeps)

lemma create_ah_qp:
  assumes "create_ah api p remote (c, w) = Inr (NICC_SUCCESS, (c', w'))" "the_qp_of p c = Some q"
  shows "\<exists>ah. the_qp_of p c' = Some (q\<lparr>remote_qp_id := unat (qi_qp_num remote), remote_ah := ah\<rparr>)"
proof -
  obtain c1 w1 where 1: "create_local_ah api p (c, w) = Inr (NICC_SUCCESS, (c1, w1))"
    and 2: "create_remote_ah api p remote (c1, w1) = Inr (NICC_SUCCESS, (c', w'))"
    using assms(1) unfolding create_ah_def and_then_pair by blast
  have "the_qp_of p c1 = Some q"
    using 1 assms(2) by (auto simp: create_local_ah_def the_qp_of_def split: if_splits prod.splits)
  then show ?thesis
    using 2 by (auto simp: create_remote_ah_def dest!: on_qp_success split: prod.splits)
qed

lemma soc_modify_qp:
  "soc_modify api p a (c, w) = Inr (r, (c', w')) \<Longrightarrow> the_qp_of p c = Some q \<Longrightarrow> the_qp_of p c' = Some q"
  by (auto simp: soc_modify_def dest!: on_qp_success split: prod.splits)

lemma soc_connect_to_host_qp:
  assumes "soc_connect_qp_to_host api p remote (c, w) = Inr (NICC_SUCCESS, (c', w'))" "the_qp_of p c = Some q"
  shows "\<exists>ah. the_qp_of p c' = Some (q\<lparr>remote_qp_id := unat (qi_qp_num remote), remote_ah := ah\<rparr>)"
proof -
  have mtu: "ibv_path_mtu kMTU = Some 5" by (simp add: kMTU_def)
  obtain c1 w1 c2 w2 c3 w3 c4 w4 where
    1: "soc_modify api p (\<lambda>c. init_attr (dev_port_id (soc_resolve c))) (c, w) = Inr (NICC_SUCCESS, (c1, w1))"
    and 2: "soc_modify api p (\<lambda>_. rtr_attr remote 5) (c1, w1) = Inr (NICC_SUCCESS, (c2, w2))"
    and 3: "create_ah api p remote (c2, w2) = Inr (NICC_SUCCESS, (c3, w3))"
    and 4: "soc_modify api p (\<lambda>_. rts_attr remote 5) (c3, w3) = Inr (NICC_SUCCESS, (c4, w4))"
    and 5: "on_qp p (\<lambda>_ (qp, w). Inr (NICC_SUCCESS, (qp\<lparr>remote_qp_id := unat (qi_qp_num remote)\<rparr>, w))) (c4, w4)
      = Inr (NICC_SUCCESS, (c', w'))"
    using assms(1) unfolding soc_connect_qp_to_host_def mtu option.case and_then_pair by blast
  obtain ah where ah: "the_qp_of p c3 = Some (q\<lparr>remote_qp_id := unat (qi_qp_num remote), remote_ah := ah\<rparr>)"
    using create_ah_qp [OF 3 soc_modify_qp [OF 2 soc_modify_qp [OF 1 assms(2)]]] by blast
  show ?thesis using on_qp_success [OF 5] soc_modify_qp [OF 4 ah] by (auto intro!: exI [of _ ah])
qed

lemma fill_recv_posts:
  assumes "wr_circular kNumRxRingEntries (recv_wr_next q)" "length (recv_sgl q) = kNumRxRingEntries"
    and "soc_fill_recv_queue vapi c (q, w) = Inr (NICC_SUCCESS, (q', w'))"
  shows "q' = q \<and> post_recv vapi (qp_id q) (recv_sgl q) w = (0, w')"
proof -
  let ?n = kNumRxRingEntries
  have pos: "0 < ?n" by (simp add: kNumRxRingEntries_def)
  have "wr_chain ?n ((recv_wr_next q)[?n - 1 := None]) 0 = ring_indices ?n 0 ?n"
    using wr_chain_cut [OF assms(1) pos order.refl order.refl pos] pos by simp
  also have "\<dots> = [0 ..< ?n]"
    by (rule nth_equalityI) (simp_all add: ring_indices_def ring_slice_def)
  finally have chain: "wr_chain ?n ((recv_wr_next q)[?n - 1 := None]) 0 = [0 ..< ?n]" .
  have all: "map ((!) (recv_sgl q)) [0 ..< ?n] = recv_sgl q"
    using assms(2) map_nth [of "recv_sgl q"] by simp
  have "recv_wr_next q ! (?n - 1) = Some 0" "length (recv_wr_next q) = ?n"
    using assms(1) pos by (simp_all add: wr_circular_def)
  then have closed: "(recv_wr_next q)[?n - 1 := Some 0] = recv_wr_next q"
    by (metis list_update_id)
  show ?thesis
    using assms(3) chain all closed
    by (auto simp: soc_fill_recv_queue_def kRQDepth_def Let_def split: prod.splits if_splits)
qed

lemma soc_connected_ready:
  assumes "soc_connect_qp api vapi p None (Some remote) (c, w) = Inr (NICC_SUCCESS, (c', w'))"
    and "the_qp_of p c = Some q" and "datapath_ready q m"
  shows "(\<exists>q' w1. the_qp_of p c' = Some q' \<and> datapath_ready q' m \<and> remote_qp_id q' = unat (qi_qp_num remote) \<and>
      rx_ring q' = rx_ring q \<and> post_recv vapi (qp_id q) (recv_sgl q) w1 = (0, w')) \<and>
    is_connected p (ch_state c') \<and> the_qp_of (\<not> p) c' = the_qp_of (\<not> p) c \<and>
    is_connected (\<not> p) (ch_state c') = is_connected (\<not> p) (ch_state c)"
proof -
  have "\<not> is_connected p (ch_state c)"
    using assms(1) by (auto simp: soc_connect_qp_def bind_run_eq_Inr)
  then obtain c1 w1 c2 where
    1: "soc_connect_qp_to_host api p remote (c, w) = Inr (NICC_SUCCESS, (c1, w1))"
    and 2: "on_qp p (soc_fill_recv_queue vapi) (c1, w1) = Inr (NICC_SUCCESS, (c2, w'))"
    and c': "c' = c2\<lparr>ch_state := mark_connected p (ch_state c2)\<rparr>"
    using assms(1) by (auto simp: soc_connect_qp_def bind_run_eq_Inr and_then_pair)
  obtain ah where "the_qp_of p c1 = Some (q\<lparr>remote_qp_id := unat (qi_qp_num remote), remote_ah := ah\<rparr>)"
    using soc_connect_to_host_qp [OF 1 assms(2)] by blast
  then obtain q1 where q1: "the_qp_of p c1 = Some q1" "q1 = q\<lparr>remote_qp_id := unat (qi_qp_num remote), remote_ah := ah\<rparr>"
    by blast
  obtain q2 where q2: "soc_fill_recv_queue vapi c1 (q1, w1) = Inr (NICC_SUCCESS, (q2, w'))" "c2 = set_qp_of p q2 c1"
    using on_qp_success [OF 2] q1(1) by auto
  have "RDMA_SoC_QP.truncate q1 = RDMA_SoC_QP.truncate q"
    by (cases q) (simp add: q1(2) RDMA_SoC_QP.truncate_def)
  then have r1: "datapath_ready q1 m"
    using assms(3) by (simp add: q1(2) datapath_ready_def)
  then have "wr_circular kNumRxRingEntries (recv_wr_next q1)" "length (recv_sgl q1) = kNumRxRingEntries"
    by (simp_all add: datapath_ready_def)
  from fill_recv_posts [OF this q2(1)] have f: "q2 = q1" "post_recv vapi (qp_id q) (recv_sgl q) w1 = (0, w')"
    by (simp_all add: q1(2))
  have "the_qp_of p' c' = the_qp_of p' c2" for p' by (simp add: c' the_qp_of_def)
  then show ?thesis
    using f r1 q1 q2(2) c' soc_connect_to_host_keeps [OF 1] on_qp_keeps [OF 2] by auto
qed

subsection \<open>Witnesses\<close>

definition demo_sys :: shm_api where
  "demo_sys = \<lparr>shmget = \<lambda>_ _. Shm_Id 1, shmat = \<lambda>_. 4096, mbind = \<lambda>_ _ _. True, rng = of_nat\<rparr>"

definition demo_ibv :: "unit soc_ibv" where
  "demo_ibv = \<lparr>ib_alloc_pd = \<lambda>_ w. (Some 1, w), ib_create_cq = \<lambda>_ _ w. (Some 2, w), ib_create_qp = \<lambda>_ _ w. (Some 3, w),
     ib_qp_num = \<lambda>_. 17, ib_reg_mr = \<lambda>_ _ _ _ w. (Some 4, w), ib_mr_lkey = \<lambda>_. 9, ib_create_ah = \<lambda>_ _ w. (Some 5, w),
     ib_modify_qp = \<lambda>_ _ w. (0, w), ib_dereg_mr = \<lambda>_ w. (0, w), ib_destroy_qp = \<lambda>_ w. (0, w),
     ib_destroy_cq = \<lambda>_ w. (0, w), ib_destroy_ah = \<lambda>_ w. (0, w), ib_dealloc_pd = \<lambda>_ w. (0, w),
     ib_close_device = \<lambda>_ w. (0, w), ib_shmdt = \<lambda>_ w. (0, w), ib_dev_name = \<lambda>_. ''mlx5_0''\<rparr>"

definition demo_verbs :: "unit soc_verbs" where
  "demo_verbs = \<lparr>post_recv = \<lambda>_ _ w. (0, w), poll_recv = \<lambda>_ _ w. ((0, []), w), post_send = \<lambda>_ _ w. (0, w),
     poll_send = \<lambda>_ _ w. (0, w)\<rparr>"

definition demo_soc_channel :: Channel_SoC where
  "demo_soc_channel = \<lparr>typeid_of_prior = CH_RDMA, typeid_of_next = CH_RDMA, mode_of_prior = PAKT_UNORDERED,
     mode_of_next = PAKT_UNORDERED, ch_state = kChannel_State_Uninit, qp_prior = None, qp_next = None,
     info_prior = new_QPInfo 0 0 None 0 [] [], info_next = new_QPInfo 0 0 None 0 [] [], huge_alloc = None,
     soc_resolve = demo_resolve, soc_pd = None, local_ah = None, soc_mr = None\<rparr>"

lemma demo_resolved:
  "\<exists>rs rs'. common_resolve_phy_port demo_port ''mlx5_0'' 0 kMTU (soc_resolve demo_soc_channel) w = Inr (rs, w) \<and>
     soc_roce_resolve_phy_port demo_port rs w = Inr (NICC_SUCCESS, rs') \<and> ib_ctx rs' \<noteq> None"
  by (simp add: soc_roce_resolve_phy_port_def port_eval demo_soc_channel_def demo_resolve_def kMTU_def)

lemma demo_granted: "verbs_grant demo_ibv" "hugepages_available demo_sys kMemRegionSize"
  by (simp_all add: verbs_grant_def demo_ibv_def hugepages_available_def demo_sys_def shm_key_loop.simps)

lemma demo_fresh: "records_clear (info_prior demo_soc_channel) (info_next demo_soc_channel)"
  by (simp add: demo_soc_channel_def new_QPInfo_def records_clear_def)

text \<open>The same devices with clear records, and with a record whose memory was used before.\<close>

definition stale_soc_channel :: Channel_SoC where
  "stale_soc_channel = demo_soc_channel\<lparr>info_next := (info_next demo_soc_channel)\<lparr>qi_is_initialized := True\<rparr>\<rparr>"

lemma soc_channel_comes_up_witness:
  "(\<exists>c w. soc_allocate_channel demo_ibv demo_sys demo_port ''mlx5_0'' 0 (demo_soc_channel, ())
     = Some (Inr (NICC_SUCCESS, (c, w)))) \<and>
   soc_allocate_channel demo_ibv demo_sys demo_port ''mlx5_0'' 0 (stale_soc_channel, ()) = Some (Inl Assert_Failed)"
proof
  obtain rs w1 rs' where r: "common_resolve_phy_port demo_port ''mlx5_0'' 0 kMTU (soc_resolve demo_soc_channel) () = Inr (rs, w1)"
    "soc_roce_resolve_phy_port demo_port rs w1 = Inr (NICC_SUCCESS, rs')" "ib_ctx rs' \<noteq> None"
    using demo_resolved [of "()"] by blast
  show "\<exists>c w. soc_allocate_channel demo_ibv demo_sys demo_port ''mlx5_0'' 0 (demo_soc_channel, ())
     = Some (Inr (NICC_SUCCESS, (c, w)))"
    using soc_channel_comes_up [OF r demo_granted] demo_fresh by (simp add: records_clear_def)
  have "soc_resolve stale_soc_channel = soc_resolve demo_soc_channel" "qi_is_initialized (info_next stale_soc_channel)"
    by (simp_all add: stale_soc_channel_def)
  then show "soc_allocate_channel demo_ibv demo_sys demo_port ''mlx5_0'' 0 (stale_soc_channel, ()) = Some (Inl Assert_Failed)"
    using soc_channel_comes_up [of demo_port "''mlx5_0''" 0 stale_soc_channel "()" rs w1 rs', OF _ r(2,3) demo_granted] r(1)
    by simp
qed

lemma demo_soc_up:
  "\<exists>c w. soc_allocate_channel demo_ibv demo_sys demo_port ''mlx5_0'' 0 (demo_soc_channel, ())
    = Some (Inr (NICC_SUCCESS, (c, w)))"
  using demo_resolved [of "()"] soc_channel_up [OF _ _ _ demo_granted demo_fresh] by blast

lemma soc_channel_rings_witness:
  "\<exists>c w q h. soc_allocate_channel demo_ibv demo_sys demo_port ''mlx5_0'' 0 (demo_soc_channel, ())
      = Some (Inr (NICC_SUCCESS, (c, w))) \<and>
    qp_prior c = Some q \<and> huge_alloc c = Some h \<and> datapath_ready q (buffers h)"
proof -
  obtain c w where c: "soc_allocate_channel demo_ibv demo_sys demo_port ''mlx5_0'' 0 (demo_soc_channel, ())
    = Some (Inr (NICC_SUCCESS, (c, w)))" using demo_soc_up by blast
  from soc_channel_rings [OF c] c show ?thesis by blast
qed

end
