(* ===== verification/SocRun.thy ===== *)
theory SocRun
  imports SocLoop SocChannelProps SocProps
begin

text \<open>
  The event loop of the SoC wrapper as a whole: the invariant \<open>soc_inv\<close> of the wrapper, every
  launch of the loop keeps it and returns, and so does the thread from queue pairs that are
  ready for the datapath.
\<close>

subsection \<open>Two queue pairs facing each other\<close>

definition tx_waiting :: "RDMA_SoC_QP \<Rightarrow> ptr list" where
  "tx_waiting qp = take (tx_queue_idx qp) (tx_queue qp)"

definition tx_side :: "'w nic_view \<Rightarrow> RDMA_SoC_QP \<Rightarrow> 'w \<Rightarrow> ptr list" where
  "tx_side v qp w = tx_waiting qp @ sending qp (nv_out v (qp_id qp) w)"

text \<open>
  What \<open>a\<close> receives leaves by \<open>b\<close> and the other way round; \<open>m1\<close> and \<open>m2\<close> are the buffers between
  the two sides.
\<close>

definition duplex :: "'w nic_view \<Rightarrow> RDMA_SoC_QP \<Rightarrow> RDMA_SoC_QP \<Rightarrow> ptr list \<Rightarrow> ptr list \<Rightarrow> heap \<Rightarrow> 'w \<Rightarrow> bool" where
  "duplex v a b m1 m2 h w \<longleftrightarrow> qp_id a \<noteq> qp_id b \<and> ring_addrs a \<inter> ring_addrs b = {} \<and>
     lane a (nv_rcv v (qp_id a) w) (m1 @ tx_side v b w) h \<and>
     lane b (nv_rcv v (qp_id b) w) (m2 @ tx_side v a w) h \<and>
     send_wf (nv_out v (qp_id a) w) a h \<and> send_wf (nv_out v (qp_id b) w) b h \<and>
     length (tx_queue a) = kNumTxRingEntries \<and> length (tx_queue b) = kNumTxRingEntries \<and>
     tx_queue_idx a \<le> kNumTxRingEntries \<and> tx_queue_idx b \<le> kNumTxRingEntries"

lemma duplex_sym: "duplex v a b m1 m2 h w = duplex v b a m2 m1 h w"
  unfolding duplex_def by (auto simp: Int_commute)

lemma duplex_mset: "mset m1 = mset m1' \<Longrightarrow> duplex v a b m1 m2 h w \<Longrightarrow> duplex v a b m1' m2 h w"
  using lane_mset [of "m1 @ tx_side v b w" "m1' @ tx_side v b w"] by (simp add: duplex_def)

lemma duplex_rx:
  assumes nic: "nic_ok api v (qp_id a)" and d: "duplex v a b m1 m2 h w"
  shows "\<exists>r a' h' w'. rx_burst api a h w = Some (Inr (int r, a', h', w')) \<and> duplex v a' b m1 m2 h' w' \<and>
    nv_left v w' \<le> nv_left v w \<and> (\<exists>i j. a' = a\<lparr>recv_head := i, wait_for_disp := j\<rparr>)"
proof -
  have l: "lane a (nv_rcv v (qp_id a) w) (m1 @ tx_side v b w) h"
      "lane b (nv_rcv v (qp_id b) w) (m2 @ tx_side v a w) h"
    and ne: "qp_id a \<noteq> qp_id b" and dis: "ring_addrs a \<inter> ring_addrs b = {}"
    using d by (auto simp: duplex_def)
  obtain r a' h' w' i j where b: "rx_burst api a h w = Some (Inr (int r, a', h', w'))"
    "lane a' (nv_rcv v (qp_id a) w') (m1 @ tx_side v b w) h'" "heap_step (ring_addrs a) h h'"
    "recvs_only v (qp_id a) w w'" and a': "a' = a\<lparr>recv_head := i, wait_for_disp := j\<rparr>"
    using lane_rx_burst [OF nic l(1)] by blast
  have f: "nv_out v x w' = nv_out v x w" "nv_rcv v (qp_id b) w' = nv_rcv v (qp_id b) w"
      "nv_left v w' \<le> nv_left v w" for x
    using b(4) ne by (auto simp: recvs_only_def)
  have t: "tx_side v b w' = tx_side v b w" "tx_side v a' w' = tx_side v a w"
    by (simp_all add: tx_side_def f a' tx_waiting_def sending_def)
  have "lane b (nv_rcv v (qp_id b) w) (m2 @ tx_side v a w) h'"
    using lane_other [OF l(2) b(3)] dis by blast
  moreover have "send_wf n a' h' = send_wf n a h'" for n by (simp add: a' send_wf_def send_ring_def)
  ultimately have "duplex v a' b m1 m2 h' w'"
    using d b(2) heap_step_send [OF b(3)] unfolding duplex_def f t by (auto simp: a')
  with b(1) f(3) a' show ?thesis by blast
qed

lemma duplex_flush:
  assumes nic: "nic_ok api v (qp_id b)" and d: "duplex v a b m1 m2 h w"
  shows "\<exists>b' h' w'. tx_flush api b h w = Some (Inr (tx_queue_idx b, b', h', w')) \<and> duplex v a b' m1 m2 h' w' \<and>
    nv_left v w' \<le> nv_left v w \<and> same_rx b b' \<and> tx_queue_idx b' = 0"
proof -
  have l: "lane a (nv_rcv v (qp_id a) w) (m1 @ tx_side v b w) h"
      "lane b (nv_rcv v (qp_id b) w) (m2 @ tx_side v a w) h"
    and ne: "qp_id a \<noteq> qp_id b" and dis: "ring_addrs a \<inter> ring_addrs b = {}"
    and wf: "send_wf (nv_out v (qp_id b) w) b h" "tx_queue_idx b \<le> length (tx_queue b)"
    using d by (auto simp: duplex_def)
  have "lane a (nv_rcv v (qp_id a) w) (take (tx_queue_idx b) (tx_queue b) @ sending b (nv_out v (qp_id b) w) @ m1) h"
    using l(1) by (subst lane_mset [where out' = "m1 @ tx_side v b w"]) (simp_all add: tx_side_def tx_waiting_def)
  from lane_tx_flush [OF nic wf(1) this wf(2)] obtain b' h' w' where
    b: "tx_flush api b h w = Some (Inr (tx_queue_idx b, b', h', w'))" "send_wf (nv_out v (qp_id b) w') b' h'"
    "lane a (nv_rcv v (qp_id a) w) (sending b' (nv_out v (qp_id b) w') @ m1) h'"
    "heap_step (ring_addrs a) h h'" "sends_only v (qp_id b) w w'" "same_rx b b'"
    "tx_queue b' = tx_queue b" "tx_queue_idx b' = 0"
    by blast
  have f: "nv_rcv v x w' = nv_rcv v x w" "nv_out v (qp_id a) w' = nv_out v (qp_id a) w"
      "nv_left v w' \<le> nv_left v w" for x
    using b(5) ne by (auto simp: sends_only_def)
  have id: "qp_id b' = qp_id b" "rx_ring b' = rx_ring b" using b(6) by (simp_all add: same_rx_def)
  have t: "tx_side v b' w' = sending b' (nv_out v (qp_id b) w')" "tx_side v a w' = tx_side v a w"
    by (simp_all add: tx_side_def tx_waiting_def f id b(8))
  have "lane a (nv_rcv v (qp_id a) w) (m1 @ tx_side v b' w') h'"
    using b(3) by (subst lane_mset [where out' = "sending b' (nv_out v (qp_id b) w') @ m1"]) (simp_all add: t)
  moreover have "lane b' (nv_rcv v (qp_id b) w) (m2 @ tx_side v a w) h'"
    using lane_same_rx [OF b(6) lane_other [OF l(2) b(4)]] dis by blast
  ultimately have "duplex v a b' m1 m2 h' w'"
    using d b(2,7,8) heap_step_send [OF b(4)] unfolding duplex_def f t(2) id by auto
  with b(1,6,8) f(3) show ?thesis by blast
qed

text \<open>The world moves on by itself, or through a handler.\<close>

lemma duplex_quiet:
  assumes "duplex v a b m1 m2 h w" "heap_step {} h h'" "nic_idle v w w'"
  shows "duplex v a b m1 m2 h' w'"
proof -
  have f: "nv_rcv v x w' = nv_rcv v x w" "nv_out v x w' = nv_out v x w" for x
    using assms(3) by (auto simp: nic_idle_def)
  have t: "tx_side v q w' = tx_side v q w" for q by (simp add: tx_side_def f)
  show ?thesis
    using assms(1) lane_other [OF _ assms(2)] heap_step_send [OF assms(2)]
    unfolding duplex_def f t by simp
qed

text \<open>Direct forwarding from \<open>b\<close> to \<open>a\<close>.\<close>

lemma duplex_direct:
  assumes d: "duplex v a b m1 m2 h w"
  shows "\<exists>n a' b'. direct_tx_burst b a = (n, b', a') \<and> duplex v a' b' m1 m2 h w \<and>
    same_rx a a' \<and> (\<exists>i j. b' = b\<lparr>ring_head := i, wait_for_disp := j\<rparr>)"
proof -
  have l: "lane a (nv_rcv v (qp_id a) w) (m1 @ tx_side v b w) h"
      "lane b (nv_rcv v (qp_id b) w) (m2 @ tx_side v a w) h"
    and tx: "length (tx_queue a) = kNumTxRingEntries" "tx_queue_idx a \<le> kNumTxRingEntries"
    using d by (auto simp: duplex_def)
  define n where "n = min (wait_for_disp b) (kNumTxRingEntries - tx_queue_idx a)"
  obtain txq where t: "direct_tx_burst b a = (n,
       b\<lparr>ring_head := (ring_head b + n) mod kNumRxRingEntries, wait_for_disp := wait_for_disp b - n\<rparr>,
       a\<lparr>tx_queue := txq, tx_queue_idx := tx_queue_idx a + n\<rparr>)"
      "length txq = kNumTxRingEntries" "take (tx_queue_idx a + n) txq = take (tx_queue_idx a) (tx_queue a) @
      map ((!) (rx_ring b)) (ring_indices kNumRxRingEntries (ring_head b) n)"
    using direct_result [OF tx, of b] by (auto simp: n_def)
  define a' where "a' = a\<lparr>tx_queue := txq, tx_queue_idx := tx_queue_idx a + n\<rparr>"
  define b' where "b' = b\<lparr>ring_head := (ring_head b + n) mod kNumRxRingEntries, wait_for_disp := wait_for_disp b - n\<rparr>"
  have front: "map ((!) (rx_ring b)) (ring_indices kNumRxRingEntries (ring_head b) n) = rx_front b n"
    by (simp add: rx_front_def ring_slice_map)
  have side: "tx_side v a' w = tx_waiting a @ rx_front b n @ sending a (nv_out v (qp_id a) w)"
    using t(3) by (simp add: tx_side_def tx_waiting_def a'_def front sending_def)
  have "lane b' (nv_rcv v (qp_id b) w) (rx_front b n @ m2 @ tx_side v a w) h"
    using lane_move [OF l(2), of n] by (simp add: b'_def n_def)
  then have "lane b' (nv_rcv v (qp_id b) w) (m2 @ tx_side v a' w) h"
    using lane_mset [of "rx_front b n @ m2 @ tx_side v a w" "m2 @ tx_side v a' w"]
    by (simp add: side) (simp add: tx_side_def)
  moreover have "lane a' (nv_rcv v (qp_id a) w) (m1 @ tx_side v b w) h"
    using l(1) by (rule lane_fields) (simp_all add: a'_def)
  moreover have "tx_side v b' w = tx_side v b w" by (simp add: tx_side_def tx_waiting_def b'_def sending_def)
  moreover have "send_wf m a' h = send_wf m a h" "send_wf m b' h = send_wf m b h" for m
    by (simp_all add: a'_def b'_def send_wf_def send_ring_def)
  moreover have "tx_queue_idx a + n \<le> kNumTxRingEntries" using tx(2) by (simp add: n_def)
  ultimately have "duplex v a' b' m1 m2 h w"
    using d t(2) unfolding duplex_def by (auto simp: a'_def b'_def)
  moreover have "same_rx a a'" by (simp add: same_rx_def a'_def)
  ultimately show ?thesis using t(1) unfolding a'_def b'_def by blast
qed

text \<open>Dispatching from \<open>a\<close> and collecting for \<open>b\<close>.\<close>

lemma duplex_dispatch:
  assumes d: "duplex v a b (queue_abs q @ m1) m2 h w" and q: "queue_wf q"
  shows "\<exists>n a' h' q'. dispatch_rx_pkts a h q = Inr (n, a', h', q') \<and> queue_wf q' \<and>
    duplex v a' b (queue_abs q' @ m1) m2 h' w \<and> (\<exists>i. a' = a\<lparr>ring_head := i, wait_for_disp := 0\<rparr>)"
proof -
  have l: "lane a (nv_rcv v (qp_id a) w) (queue_abs q @ m1 @ tx_side v b w) h"
      "lane b (nv_rcv v (qp_id b) w) (m2 @ tx_side v a w) h"
    and dis: "ring_addrs a \<inter> ring_addrs b = {}"
    using d by (auto simp: duplex_def)
  obtain n a' h' q' where r: "dispatch_rx_pkts a h q = Inr (n, a', h', q')" "queue_wf q'"
    "lane a' (nv_rcv v (qp_id a) w) (queue_abs q' @ m1 @ tx_side v b w) h'" "heap_step (ring_addrs a) h h'"
    and a': "a' = a\<lparr>ring_head := (ring_head a + wait_for_disp a) mod kNumRxRingEntries, wait_for_disp := 0\<rparr>"
    using lane_dispatch [OF l(1) q] by blast
  have "lane b (nv_rcv v (qp_id b) w) (m2 @ tx_side v a w) h'"
    using lane_other [OF l(2) r(4)] dis by blast
  moreover have "tx_side v a' w = tx_side v a w" by (simp add: tx_side_def tx_waiting_def a' sending_def)
  moreover have "send_wf m a' h' = send_wf m a h'" for m by (simp add: a' send_wf_def send_ring_def)
  ultimately have "duplex v a' b (queue_abs q' @ m1) m2 h' w"
    using d r(3) heap_step_send [OF r(4)] unfolding duplex_def by (auto simp: a')
  with r(1,2) a' show ?thesis by blast
qed

lemma duplex_collect:
  assumes d: "duplex v a b (m1 @ queue_abs q) m2 h w" and q: "queue_wf q"
  shows "\<exists>n b' q'. collect_tx_pkts b q = (n, b', q') \<and> queue_wf q' \<and> queue_abs q' = [] \<and>
    duplex v a b' m1 m2 h w \<and> same_rx b b'"
proof -
  have l: "lane a (nv_rcv v (qp_id a) w) ((m1 @ queue_abs q) @ tx_side v b w) h"
    and l2: "lane b (nv_rcv v (qp_id b) w) (m2 @ tx_side v a w) h"
    and tx: "length (tx_queue b) = kNumTxRingEntries" "tx_queue_idx b \<le> kNumTxRingEntries"
    using d by (auto simp: duplex_def)
  have "length (tx_waiting b) = tx_queue_idx b" using tx by (simp add: tx_waiting_def)
  then have room: "length (queue_abs q) + tx_queue_idx b \<le> kNumTxRingEntries"
    using lane_bound [OF l] by (simp add: tx_side_def kNumRxRingEntries_def kNumTxRingEntries_def)
  then have all: "min (length (queue_abs q)) (kNumTxRingEntries - tx_queue_idx b) = length (queue_abs q)" by simp
  obtain txq q' where c: "collect_tx_pkts b q = (length (queue_abs q),
       b\<lparr>tx_queue := txq, tx_queue_idx := tx_queue_idx b + length (queue_abs q)\<rparr>, q')"
    "length txq = kNumTxRingEntries"
    "take (tx_queue_idx b + length (queue_abs q)) txq = take (tx_queue_idx b) (tx_queue b) @ queue_abs q"
    "queue_wf q'" "queue_abs q' = []"
    using collect_result [OF q tx] unfolding all by auto
  define b' where "b' = b\<lparr>tx_queue := txq, tx_queue_idx := tx_queue_idx b + length (queue_abs q)\<rparr>"
  have side: "tx_side v b' w = tx_waiting b @ queue_abs q @ sending b (nv_out v (qp_id b) w)"
    using c(3) by (simp add: tx_side_def tx_waiting_def b'_def sending_def)
  have "lane a (nv_rcv v (qp_id a) w) (m1 @ tx_side v b' w) h"
    using l lane_mset [of "(m1 @ queue_abs q) @ tx_side v b w" "m1 @ tx_side v b' w"]
    by (simp add: side) (simp add: tx_side_def)
  moreover have "lane b' (nv_rcv v (qp_id b) w) (m2 @ tx_side v a w) h"
    unfolding b'_def using l2 by (rule lane_fields) simp_all
  moreover have "send_wf m b' h = send_wf m b h" for m by (simp add: b'_def send_wf_def send_ring_def)
  ultimately have "duplex v a b' m1 m2 h w"
    using d c(2) room unfolding duplex_def by (auto simp: b'_def)
  moreover have "same_rx b b'" by (simp add: same_rx_def b'_def)
  ultimately show ?thesis using c(1,4,5) unfolding b'_def by blast
qed

subsection \<open>The wrapper\<close>

text \<open>
  At the start of every round: each buffer of the receive ring of the prior hop is with the NIC,
  waiting, in the worker queue, queued for the next hop or being sent to it; each of the next
  hop's ring is with the NIC, waiting or being sent to the prior hop; all others are free.
\<close>

definition soc_inv :: "'w nic_view \<Rightarrow> ('u, 'w) SoCWrapper \<Rightarrow> bool" where
  "soc_inv v s \<longleftrightarrow> queue_wf (w_rx_queue s) \<and> queue_wf (w_tx_queue s) \<and> queue_abs (w_tx_queue s) = [] \<and>
     disp_worker_queue (w_qp_prior s) = Some Tmp_Rx \<and> collect_worker_queue (w_qp_next s) = Some Tmp_Tx \<and>
     tx_queue_idx (w_qp_prior s) = 0 \<and>
     duplex v (w_qp_prior s) (w_qp_next s) (queue_abs (w_rx_queue s)) [] (w_heap s) (w_world s)"

definition soc_env :: "'w soc_verbs \<Rightarrow> ('u, 'w) SoCWrapperContext \<Rightarrow> 'w nic_view \<Rightarrow> nat \<Rightarrow> nat \<Rightarrow> bool" where
  "soc_env api ctx v i j \<longleftrightarrow> nic_ok api v i \<and> nic_ok api v j \<and> handler_ok ctx v"

definition same_ids :: "('u, 'w) SoCWrapper \<Rightarrow> ('u, 'w) SoCWrapper \<Rightarrow> bool" where
  "same_ids s s' \<longleftrightarrow> qp_id (w_qp_prior s') = qp_id (w_qp_prior s) \<and> qp_id (w_qp_next s') = qp_id (w_qp_next s) \<and>
     rx_ring (w_qp_prior s') = rx_ring (w_qp_prior s) \<and> rx_ring (w_qp_next s') = rx_ring (w_qp_next s)"

lemma launch_rx_keeps:
  assumes nic: "nic_ok api v (qp_id (w_qp_prior s))" and inv: "soc_inv v s"
  shows "\<exists>s1. launch_rx api s = Some (Inr s1) \<and> soc_inv v s1 \<and> nv_left v (w_world s1) \<le> nv_left v (w_world s) \<and>
    same_ids s s1"
proof -
  note i = inv [unfolded soc_inv_def]
  obtain r pr h w x y where b: "rx_burst api (w_qp_prior s) (w_heap s) (w_world s) = Some (Inr (int r, pr, h, w))"
    "duplex v pr (w_qp_next s) (queue_abs (w_rx_queue s)) [] h w" "nv_left v w \<le> nv_left v (w_world s)"
    "pr = (w_qp_prior s)\<lparr>recv_head := x, wait_for_disp := y\<rparr>"
    using duplex_rx [OF nic, of "w_qp_next s" "queue_abs (w_rx_queue s)" "[]" "w_heap s" "w_world s"] i by blast
  have q: "worker_queue s (disp_worker_queue pr) = Inr (w_rx_queue s)" "disp_worker_queue pr = Some Tmp_Rx"
    using i b(4) by (simp_all add: worker_queue_def)
  have d0: "duplex v pr (w_qp_next s) (queue_abs (w_rx_queue s) @ []) [] h w" using b(2) by simp
  obtain n pr' h' q' z where d: "dispatch_rx_pkts pr h (w_rx_queue s) = Inr (n, pr', h', q')" "queue_wf q'"
    "duplex v pr' (w_qp_next s) (queue_abs q' @ []) [] h' w" "pr' = pr\<lparr>ring_head := z, wait_for_disp := 0\<rparr>"
    using duplex_dispatch [OF d0] i by blast
  have "launch_rx api s = Some (Inr (s\<lparr>w_qp_prior := pr', w_heap := h', w_world := w, w_rx_queue := q'\<rparr>))"
    by (simp add: launch_rx_def b(1) q(1) d(1)) (simp add: q(2) set_worker_queue_def)
  with i d b show ?thesis by (auto simp: soc_inv_def same_ids_def)
qed

text \<open>Worker and collection: everything the worker forwards is collected at once.\<close>

lemma worker_collect_keeps:
  assumes h: "handler_ok ctx v" and inv: "soc_inv v s"
  shows "\<exists>s2. launch_collect (worker_phase ctx s) = Inr s2 \<and> soc_inv v s2 \<and>
    nv_left v (w_world s2) \<le> nv_left v (w_world s) \<and> same_ids s s2"
proof -
  note i = inv [unfolded soc_inv_def]
  let ?s = "worker_phase ctx s" and ?R = "queue_abs (w_rx_queue s)"
  have cap: "length (queue_abs (w_tx_queue s)) + length ?R \<le> queue_cap"
    using i sq.bounded by simp
  obtain n where w: "queue_wf (w_rx_queue ?s)" "queue_wf (w_tx_queue ?s)" "queue_abs (w_rx_queue ?s) = drop n ?R"
    "queue_abs (w_tx_queue ?s) = take n ?R" "w_qp_prior ?s = w_qp_prior s" "w_qp_next ?s = w_qp_next s"
    using worker_phase_forwards [OF _ _ cap, of ctx] i by auto
  note wq = worker_phase_quiet [OF h, of s]
  have "mset ?R = mset (drop n ?R @ take n ?R)"
    using mset_take_drop [of n ?R] by (simp add: add.commute)
  then have "duplex v (w_qp_prior s) (w_qp_next s) (drop n ?R @ queue_abs (w_tx_queue ?s)) [] (w_heap ?s) (w_world ?s)"
    using duplex_quiet [OF duplex_mset] i wq w(4) by metis
  from duplex_collect [OF this w(2)] obtain m nx q where
    c: "collect_tx_pkts (w_qp_next s) (w_tx_queue ?s) = (m, nx, q)" "queue_wf q" "queue_abs q = []"
    "duplex v (w_qp_prior s) nx (drop n ?R) [] (w_heap ?s) (w_world ?s)" "same_rx (w_qp_next s) nx"
    by blast
  have "launch_collect ?s = Inr (?s\<lparr>w_qp_next := nx, w_tx_queue := q\<rparr>)"
    using i by (simp add: launch_collect_def worker_queue_def set_worker_queue_def w(6) c(1))
  moreover have "nv_left v (w_world ?s) \<le> nv_left v (w_world s)" using wq by (simp add: nic_idle_def)
  ultimately show ?thesis
    using i w c by (auto simp: soc_inv_def same_ids_def same_rx_def)
qed

lemma flush_next_keeps:
  assumes nic: "nic_ok api v (qp_id (w_qp_next s))" and inv: "soc_inv v s"
  shows "\<exists>n nx h w. tx_flush api (w_qp_next s) (w_heap s) (w_world s) = Some (Inr (n, nx, h, w)) \<and>
    soc_inv v (s\<lparr>w_qp_next := nx, w_heap := h, w_world := w\<rparr>) \<and> nv_left v w \<le> nv_left v (w_world s) \<and>
    same_rx (w_qp_next s) nx"
proof -
  note i = inv [unfolded soc_inv_def]
  obtain nx h w where f: "tx_flush api (w_qp_next s) (w_heap s) (w_world s) =
      Some (Inr (tx_queue_idx (w_qp_next s), nx, h, w))"
    "duplex v (w_qp_prior s) nx (queue_abs (w_rx_queue s)) [] h w" "nv_left v w \<le> nv_left v (w_world s)"
    "same_rx (w_qp_next s) nx"
    using duplex_flush [OF nic] i by blast
  then have "soc_inv v (s\<lparr>w_qp_next := nx, w_heap := h, w_world := w\<rparr>)"
    using i by (simp add: soc_inv_def same_rx_def)
  with f show ?thesis by blast
qed

text \<open>The way back: receive from the next hop, forward directly, flush to the prior hop.\<close>

lemma way_back_keeps:
  assumes nic: "nic_ok api v (qp_id (w_qp_prior s))" "nic_ok api v (qp_id (w_qp_next s))" and inv: "soc_inv v s"
  shows "\<exists>s'. bind_exec (rx_burst api (w_qp_next s) (w_heap s) (w_world s)) (\<lambda>(nb_rx, nxt, h, w).
       let (nb_direct_tx, nxt', prior) = direct_tx_burst nxt (w_qp_prior s)
       in bind_exec (tx_flush api prior h w) (\<lambda>(nb_tx, prior', h', w').
            Some (Inr (s\<lparr>w_qp_prior := prior', w_qp_next := nxt', w_heap := h', w_world := w'\<rparr>)))) = Some (Inr s') \<and>
    soc_inv v s' \<and> nv_left v (w_world s') \<le> nv_left v (w_world s) \<and> same_ids s s'"
proof -
  note i = inv [unfolded soc_inv_def]
  let ?m = "queue_abs (w_rx_queue s)"
  have d0: "duplex v (w_qp_next s) (w_qp_prior s) [] ?m (w_heap s) (w_world s)" by (rule duplex_sym [THEN iffD1]) (simp add: i)
  obtain r nx h w x y where b: "rx_burst api (w_qp_next s) (w_heap s) (w_world s) = Some (Inr (int r, nx, h, w))"
    "duplex v nx (w_qp_prior s) [] ?m h w" "nv_left v w \<le> nv_left v (w_world s)"
    "nx = (w_qp_next s)\<lparr>recv_head := x, wait_for_disp := y\<rparr>"
    using duplex_rx [OF nic(2) d0] by blast
  have d1: "duplex v (w_qp_prior s) nx ?m [] h w" using b(2) by (rule duplex_sym [THEN iffD1])
  obtain n pr nx' x' y' where t: "direct_tx_burst nx (w_qp_prior s) = (n, nx', pr)" "duplex v pr nx' ?m [] h w"
    "same_rx (w_qp_prior s) pr" "nx' = nx\<lparr>ring_head := x', wait_for_disp := y'\<rparr>"
    using duplex_direct [OF d1] by blast
  have d2: "duplex v nx' pr [] ?m h w" using t(2) by (rule duplex_sym [THEN iffD1])
  have np: "nic_ok api v (qp_id pr)" using nic(1) t(3) by (simp add: same_rx_def)
  obtain pr' h' w' where f: "tx_flush api pr h w = Some (Inr (tx_queue_idx pr, pr', h', w'))"
    "duplex v nx' pr' [] ?m h' w'" "nv_left v w' \<le> nv_left v w" "same_rx pr pr'" "tx_queue_idx pr' = 0"
    using duplex_flush [OF np d2] by blast
  have "duplex v pr' nx' ?m [] h' w'" using f(2) by (rule duplex_sym [THEN iffD1])
  then have "soc_inv v (s\<lparr>w_qp_prior := pr', w_qp_next := nx', w_heap := h', w_world := w'\<rparr>)"
    using i t(3,4) b(4) f(4,5) by (simp add: soc_inv_def same_rx_def)
  moreover have "same_ids s (s\<lparr>w_qp_prior := pr', w_qp_next := nx', w_heap := h', w_world := w'\<rparr>)"
    using t(3,4) b(4) f(4) by (simp add: same_ids_def same_rx_def)
  moreover have "nv_left v w' \<le> nv_left v (w_world s)" using b(3) f(3) by simp
  ultimately show ?thesis
    by (intro exI [of _ "s\<lparr>w_qp_prior := pr', w_qp_next := nx', w_heap := h', w_world := w'\<rparr>"])
      (simp add: b(1) t(1) f(1))
qed

lemma launch_keeps:
  assumes env: "soc_env api ctx v (qp_id (w_qp_prior s)) (qp_id (w_qp_next s))" and inv: "soc_inv v s"
  shows "\<exists>s'. launch api ctx s = Some (Inr s') \<and> soc_inv v s' \<and> nv_left v (w_world s') \<le> nv_left v (w_world s) \<and>
    same_ids s s'"
proof -
  have e: "nic_ok api v (qp_id (w_qp_prior s))" "nic_ok api v (qp_id (w_qp_next s))" "handler_ok ctx v"
    using env by (simp_all add: soc_env_def)
  obtain s1 where 1: "launch_rx api s = Some (Inr s1)" "soc_inv v s1"
    "nv_left v (w_world s1) \<le> nv_left v (w_world s)" "same_ids s s1"
    using launch_rx_keeps [OF e(1) inv] by blast
  obtain s2 where 2: "launch_collect (worker_phase ctx s1) = Inr s2" "soc_inv v s2"
    "nv_left v (w_world s2) \<le> nv_left v (w_world s1)" "same_ids s1 s2"
    using worker_collect_keeps [OF e(3) 1(2)] by blast
  have n2: "nic_ok api v (qp_id (w_qp_next s2))" using e(2) 1(4) 2(4) by (simp add: same_ids_def)
  obtain s3 where 3: "(if tx_queue_idx (w_qp_next s2) \<ge> kTxBatchSize
        then bind_exec (tx_flush api (w_qp_next s2) (w_heap s2) (w_world s2)) (\<lambda>(n, nxt, h, w).
               Some (Inr (s2\<lparr>w_qp_next := nxt, w_heap := h, w_world := w\<rparr>)))
        else Some (Inr s2)) = Some (Inr s3)" "soc_inv v s3" "nv_left v (w_world s3) \<le> nv_left v (w_world s2)"
      "same_ids s2 s3"
  proof (cases "tx_queue_idx (w_qp_next s2) \<ge> kTxBatchSize")
    case True
    obtain n nx h w where "tx_flush api (w_qp_next s2) (w_heap s2) (w_world s2) = Some (Inr (n, nx, h, w))"
      "soc_inv v (s2\<lparr>w_qp_next := nx, w_heap := h, w_world := w\<rparr>)" "nv_left v w \<le> nv_left v (w_world s2)"
      "same_rx (w_qp_next s2) nx"
      using flush_next_keeps [OF n2 2(2)] by blast
    with True show thesis by (intro that [of "s2\<lparr>w_qp_next := nx, w_heap := h, w_world := w\<rparr>"])
      (simp_all add: same_ids_def same_rx_def)
  next
    case False
    with 2(2) show thesis by (intro that [of s2]) (simp_all add: same_ids_def)
  qed
  have ids: "same_ids s s3" using 1(4) 2(4) 3(4) by (simp add: same_ids_def)
  then have n3: "nic_ok api v (qp_id (w_qp_prior s3))" "nic_ok api v (qp_id (w_qp_next s3))"
    using e(1,2) by (simp_all add: same_ids_def)
  obtain s4 where 4: "bind_exec (rx_burst api (w_qp_next s3) (w_heap s3) (w_world s3)) (\<lambda>(nb_rx, nxt, h, w).
       let (nb_direct_tx, nxt', prior) = direct_tx_burst nxt (w_qp_prior s3)
       in bind_exec (tx_flush api prior h w) (\<lambda>(nb_tx, prior', h', w').
            Some (Inr (s3\<lparr>w_qp_prior := prior', w_qp_next := nxt', w_heap := h', w_world := w'\<rparr>)))) = Some (Inr s4)"
    "soc_inv v s4" "nv_left v (w_world s4) \<le> nv_left v (w_world s3)" "same_ids s3 s4"
    using way_back_keeps [OF n3 3(2)] by blast
  have "launch api ctx s = Some (Inr s4)"
    unfolding launch_def 1(1) bind_exec_simps 2(1) 3(1) 4(1) ..
  moreover have "same_ids s s4" using ids 4(4) by (simp add: same_ids_def)
  moreover have "nv_left v (w_world s4) \<le> nv_left v (w_world s)" using 1(3) 2(3) 3(3) 4(3) by simp
  ultimately show ?thesis using 4(2) by blast
qed

subsection \<open>The thread\<close>

text \<open>The constructor's handler, and the clock: its reads only move time on.\<close>

definition init_ok :: "('u, 'w) SoCWrapperContext \<Rightarrow> 'w nic_view \<Rightarrow> bool" where
  "init_ok ctx v \<longleftrightarrow> (case init_handler ctx of None \<Rightarrow> True
     | Some f \<Rightarrow> \<forall>h w. case f h w of (u, h', w') \<Rightarrow> heap_step {} h h' \<and> nic_idle v w w')"

definition clock_ok :: "'w soc_clock \<Rightarrow> 'w nic_view \<Rightarrow> bool" where
  "clock_ok clk v \<longleftrightarrow> (\<forall>w. nic_idle v w (snd (rdtsc clk w)))"

text \<open>A read finds the deadline passed, or brings it closer.\<close>

definition clock_advances :: "'w soc_clock \<Rightarrow> 'w nic_view \<Rightarrow> u64 \<Rightarrow> u64 \<Rightarrow> bool" where
  "clock_advances clk v start_tsc timeout_tsc \<longleftrightarrow> (\<forall>w. case rdtsc clk w of (t, w') \<Rightarrow>
     t - start_tsc > timeout_tsc \<or> nv_left v w' < nv_left v w)"

lemma soc_inv_quiet:
  assumes "soc_inv v s" "nic_idle v (w_world s) w"
  shows "soc_inv v (s\<lparr>w_world := w\<rparr>)"
  using assms(1) duplex_quiet [OF _ heap_step_refl assms(2)] by (simp add: soc_inv_def)

lemma clock_okD: "clock_ok clk v \<Longrightarrow> rdtsc clk w = (t, w') \<Longrightarrow> nic_idle v w w'"
  by (metis clock_ok_def snd_conv)

lemma read_tsc_keeps:
  assumes "clock_ok clk v" "soc_inv v s"
  obtains t s' where "read_tsc clk s = (t, s')" "rdtsc clk (w_world s) = (t, w_world s')" "soc_inv v s'"
    "nv_left v (w_world s') \<le> nv_left v (w_world s)" "same_ids s s'"
proof -
  obtain t w where r: "rdtsc clk (w_world s) = (t, w)" by (cases "rdtsc clk (w_world s)")
  then have q: "nic_idle v (w_world s) w" by (rule clock_okD [OF assms(1)])
  show thesis
    using r soc_inv_quiet [OF assms(2) q] q
    by (intro that [of t "s\<lparr>w_world := w\<rparr>"]) (simp_all add: read_tsc_def same_ids_def nic_idle_def)
qed

lemma same_ids_trans: "same_ids s s' \<Longrightarrow> same_ids s' s'' \<Longrightarrow> same_ids s s''"
  by (simp add: same_ids_def)

lemma soc_env_same: "same_ids s s' \<Longrightarrow> soc_env api ctx v (qp_id (w_qp_prior s)) (qp_id (w_qp_next s)) \<Longrightarrow>
    soc_env api ctx v (qp_id (w_qp_prior s')) (qp_id (w_qp_next s'))"
  by (simp add: same_ids_def)

lemma run_tick_keeps:
  assumes env: "soc_env api ctx v (qp_id (w_qp_prior s)) (qp_id (w_qp_next s))" and clk: "clock_ok clk v"
    and inv: "soc_inv v s"
  shows "\<exists>lt s'. run_tick clk api ctx iv lt0 s = Some (Inr (lt, s')) \<and> soc_inv v s' \<and>
    nv_left v (w_world s') \<le> nv_left v (w_world s) \<and> same_ids s s'"
proof -
  obtain t s1 where 1: "read_tsc clk s = (t, s1)" "soc_inv v s1"
    "nv_left v (w_world s1) \<le> nv_left v (w_world s)" "same_ids s s1"
    using read_tsc_keeps [OF clk inv] by metis
  show ?thesis
  proof (cases "t - lt0 > iv")
    case False
    with 1 show ?thesis by (auto simp: run_tick_def)
  next
    case True
    obtain t2 s2 where 2: "read_tsc clk s1 = (t2, s2)" "soc_inv v s2"
      "nv_left v (w_world s2) \<le> nv_left v (w_world s1)" "same_ids s1 s2"
      using read_tsc_keeps [OF clk 1(2)] by metis
    have "same_ids s s2" using same_ids_trans [OF 1(4) 2(4)] .
    from launch_keeps [OF soc_env_same [OF this env] 2(2)] obtain s3 where 3: "launch api ctx s2 = Some (Inr s3)"
      "soc_inv v s3" "nv_left v (w_world s3) \<le> nv_left v (w_world s2)" "same_ids s2 s3" by blast
    have "run_tick clk api ctx iv lt0 s = Some (Inr (t2, s3))"
      using True by (simp add: run_tick_def 1(1) 2(1) 3(1))
    moreover have "nv_left v (w_world s3) \<le> nv_left v (w_world s)" using 1(3) 2(3) 3(3) by simp
    moreover note same_ids_trans [OF \<open>same_ids s s2\<close> 3(4)]
    ultimately show ?thesis using 3(2) by blast
  qed
qed

lemma event_loop_returns:
  assumes "soc_env api ctx v (qp_id (w_qp_prior s)) (qp_id (w_qp_next s))" and clk: "clock_ok clk v"
    and adv: "clock_advances clk v start timeout" and "soc_inv v s"
  shows "\<exists>s'. event_loop clk api ctx iv timeout start lt s = Some (Inr s') \<and> soc_inv v s' \<and> same_ids s s'"
  using assms(1,4)
proof (induction "nv_left v (w_world s)" arbitrary: lt s rule: less_induct)
  case less
  obtain lt1 s1 where 1: "run_tick clk api ctx iv lt s = Some (Inr (lt1, s1))" "soc_inv v s1"
    "nv_left v (w_world s1) \<le> nv_left v (w_world s)" "same_ids s s1"
    using run_tick_keeps [OF less.prems(1) clk less.prems(2)] by blast
  obtain t s2 where 2: "read_tsc clk s1 = (t, s2)" "rdtsc clk (w_world s1) = (t, w_world s2)" "soc_inv v s2"
    "same_ids s1 s2"
    using read_tsc_keeps [OF clk 1(2)] by metis
  have ids: "same_ids s s2" using same_ids_trans [OF 1(4) 2(4)] .
  have step: "event_loop clk api ctx iv timeout start lt s =
      (if t - start > timeout then Some (Inr s2) else event_loop clk api ctx iv timeout start lt1 s2)"
    by (subst event_loop.simps) (simp add: 1(1) 2(1))
  show ?case
  proof (cases "t - start > timeout")
    case True
    then show ?thesis using step 2(3) ids by auto
  next
    case False
    have "case rdtsc clk (w_world s1) of (t, w') \<Rightarrow> t - start > timeout \<or> nv_left v w' < nv_left v (w_world s1)"
      using adv by (simp add: clock_advances_def)
    with False 2(2) 1(3) have "nv_left v (w_world s2) < nv_left v (w_world s)" by simp
    from less.hyps [OF this soc_env_same [OF ids less.prems(1)] 2(3), of lt1] obtain s3 where
      "event_loop clk api ctx iv timeout start lt1 s2 = Some (Inr s3)" "soc_inv v s3" "same_ids s2 s3" by blast
    with step False same_ids_trans [OF ids] show ?thesis by auto
  qed
qed

subsection \<open>From the channel to the loop\<close>

lemma truncate_fields [simp]:
  "qp_id (RDMA_SoC_QP.truncate q) = qp_id q" "rx_ring (RDMA_SoC_QP.truncate q) = rx_ring q"
  "recv_wr_next (RDMA_SoC_QP.truncate q) = recv_wr_next q" "recv_head (RDMA_SoC_QP.truncate q) = recv_head q"
  "ring_head (RDMA_SoC_QP.truncate q) = ring_head q" "wait_for_disp (RDMA_SoC_QP.truncate q) = wait_for_disp q"
  "tx_queue (RDMA_SoC_QP.truncate q) = tx_queue q" "tx_queue_idx (RDMA_SoC_QP.truncate q) = tx_queue_idx q"
  by (simp_all add: RDMA_SoC_QP.truncate_def)

lemma ready_lane:
  assumes "datapath_ready q h"
  shows "lane (RDMA_SoC_QP.truncate q) kNumRxRingEntries [] h"
proof -
  let ?n = kNumRxRingEntries
  have r: "ring_linked ?n (rx_ring q) h" "wr_circular ?n (recv_wr_next q)" "recv_head q = 0" "ring_head q = 0"
      "wait_for_disp q = 0" "\<forall>i<?n. \<exists>b. h (the (rx_ring q ! i)) = Some b \<and> b_state b = kPOSTED"
    using assms by (auto simp: datapath_ready_def)
  have len: "length (rx_ring q) = ?n" and dist: "distinct (rx_ring q)"
    using r(1) by (auto simp: ring_linked_def)
  have held: "rx_held (RDMA_SoC_QP.truncate q) ?n = rx_ring q"
    by (rule nth_equalityI) (simp_all add: rx_held_def r(4,5) len ring_slice_def)
  have "state_of h (the x) = Some kPOSTED" if "x \<in> set (rx_ring q)" for x
    using that r(6) len by (auto simp: in_set_conv_nth state_of_def)
  then have "accounted (rx_ring q) (mset (rx_ring q)) h"
    using dist by (auto simp: accounted_def distinct_count_atmost_1 kPOSTED_def kFREE_BUF_def)
  moreover have "0 < ?n" by (simp add: kNumRxRingEntries_def)
  ultimately show ?thesis
    using r(1-5) by (simp add: lane_def lane_held_def held)
qed

lemma spaced_disjoint:
  assumes "spaced kRecvMbufSize (rx_addrs q1 h @ rx_addrs q2 h)"
    "length (rx_ring q1) = kNumRxRingEntries" "length (rx_ring q2) = kNumRxRingEntries"
  shows "the ` set (rx_ring q1) \<inter> the ` set (rx_ring q2) = {}"
proof (rule ccontr)
  assume "\<not> ?thesis"
  then obtain i j where ij: "i < kNumRxRingEntries" "j < kNumRxRingEntries"
    and eq: "the (rx_ring q1 ! i) = the (rx_ring q2 ! j)"
    using assms(2,3) by (auto simp: in_set_conv_nth)
  let ?xs = "rx_addrs q1 h @ rx_addrs q2 h" and ?j = "kNumRxRingEntries + j"
  have "?xs ! i = ?xs ! ?j"
    using ij eq assms(2,3) by (simp add: rx_addrs_def nth_append)
  moreover have "i < length ?xs" "?j < length ?xs" "i \<noteq> ?j"
    using ij assms(2,3) by (simp_all add: rx_addrs_def)
  moreover have "0 < kRecvMbufSize" using soc_sizes by simp
  ultimately show False using assms(1) unfolding spaced_def by (metis add_le_same_cancel1 not_le)
qed

text \<open>The NIC as \<open>__fill_recv_queue\<close> leaves it: all receives posted, nothing to send.\<close>

definition nic_fresh :: "'w nic_view \<Rightarrow> nat \<Rightarrow> 'w \<Rightarrow> bool" where
  "nic_fresh v q w \<longleftrightarrow> nv_rcv v q w = kNumRxRingEntries \<and> nv_out v q w = 0"

lemma ready_duplex:
  assumes "datapath_ready q1 h" "datapath_ready q2 h"
    "spaced kRecvMbufSize (rx_addrs q1 h @ rx_addrs q2 h)" "qp_id q1 \<noteq> qp_id q2"
    "nic_fresh v (qp_id q1) w" "nic_fresh v (qp_id q2) w"
  shows "duplex v (RDMA_SoC_QP.truncate q1) (RDMA_SoC_QP.truncate q2) [] [] h w"
proof -
  have "length (rx_ring q1) = kNumRxRingEntries" "length (rx_ring q2) = kNumRxRingEntries"
    using assms(1,2) by (auto simp: datapath_ready_def ring_linked_def)
  note spaced_disjoint [OF assms(3) this]
  moreover have "tx_side v (RDMA_SoC_QP.truncate q) w = []" if "datapath_ready q h" "nic_fresh v (qp_id q) w" for q
    using that by (simp add: tx_side_def tx_waiting_def datapath_ready_def nic_fresh_def)
  ultimately show ?thesis
    using assms ready_lane [OF assms(1)] ready_lane [OF assms(2)]
    by (simp add: duplex_def nic_fresh_def datapath_ready_def)
qed

lemma new_wrapper_inv:
  fixes s :: "('u, 'w) SoCWrapper"
  assumes "duplex v pr nx [] [] h w" "tx_queue_idx pr = 0" "init_ok ctx v"
    and new: "new_SoCWrapper ctx kSoC_Dispatcher pr nx h w = Inr s"
  shows "soc_inv v s \<and> qp_id (w_qp_prior s) = qp_id pr \<and> qp_id (w_qp_next s) = qp_id nx \<and>
    rx_ring (w_qp_prior s) = rx_ring pr \<and> rx_ring (w_qp_next s) = rx_ring nx"
proof -
  define s0 :: "('u, 'w) SoCWrapper" where "s0 = \<lparr>w_type = kSoC_Dispatcher, w_qp_prior = pr\<lparr>disp_worker_queue := Some Tmp_Rx\<rparr>,
      w_qp_next = nx\<lparr>collect_worker_queue := Some Tmp_Tx\<rparr>, w_rx_queue = new_soc_queue,
      w_tx_queue = new_soc_queue, w_user = None, w_user_size = 0, w_heap = h, w_world = w\<rparr>"
  have s: "s = call_init_handler ctx s0"
    using new by (simp add: new_SoCWrapper_def init_dispatcher_def s0_def)
  have f: "lane (pr\<lparr>disp_worker_queue := x\<rparr>) p out h = lane pr p out h"
    "lane (nx\<lparr>collect_worker_queue := x\<rparr>) p out h = lane nx p out h"
    "tx_side v (pr\<lparr>disp_worker_queue := x\<rparr>) w = tx_side v pr w" "tx_side v (nx\<lparr>collect_worker_queue := x\<rparr>) w = tx_side v nx w"
    "send_wf n (pr\<lparr>disp_worker_queue := x\<rparr>) h = send_wf n pr h" "send_wf n (nx\<lparr>collect_worker_queue := x\<rparr>) h = send_wf n nx h"
    for x p out n
    by (simp_all add: lane_def lane_held_def rx_held_def tx_side_def tx_waiting_def sending_def send_wf_def send_ring_def)
  have "duplex v (w_qp_prior s0) (w_qp_next s0) [] [] h w"
    using assms(1) by (simp add: s0_def duplex_def f)
  then have i0: "soc_inv v s0"
    using assms(2) new_soc_queue_wf by (simp add: s0_def soc_inv_def)
  show ?thesis
  proof (cases "init_handler ctx")
    case None
    with i0 show ?thesis by (simp add: s call_init_handler_def soc_inv_def) (simp add: s0_def)
  next
    case (Some g)
    obtain st sz h' w' where g: "g h w = ((st, sz), h', w')" by (metis surj_pair)
    have "\<forall>h w. case g h w of (u, h', w') \<Rightarrow> heap_step {} h h' \<and> nic_idle v w w'"
      using assms(3) by (simp add: init_ok_def Some)
    from spec [OF spec [OF this, of h], of w] g have k: "heap_step {} h h'" "nic_idle v w w'" by simp_all
    have "w_heap s0 = h" "w_world s0 = w" by (simp_all add: s0_def)
    with i0 duplex_quiet [OF _ k] Some g show ?thesis
      by (simp add: s call_init_handler_def soc_inv_def) (simp add: s0_def)
  qed
qed

text \<open>The cycles of ten seconds, as the thread computes them.\<close>

definition ten_seconds :: "'w soc_clock \<Rightarrow> real \<Rightarrow> u64" where
  "ten_seconds clk f = ms_to_cycles (fp_round clk) (fp_round clk (1000 * 10)) f"

lemma soc_thread_result:
  assumes ready: "datapath_ready q1 h" "datapath_ready q2 h" "spaced kRecvMbufSize (rx_addrs q1 h @ rx_addrs q2 h)"
      "qp_id q1 \<noteq> qp_id q2" "nic_fresh v (qp_id q1) w" "nic_fresh v (qp_id q2) w"
    and env: "soc_env api ctx v (qp_id q1) (qp_id q2)" "init_ok ctx v" "clock_ok clk v"
    and new: "new_SoCWrapper ctx kSoC_Dispatcher (RDMA_SoC_QP.truncate q1) (RDMA_SoC_QP.truncate q2) h w = Inr s0"
    and start: "measure_rdtsc_freq clk = Inr f" "rdtsc clk (w_world s0) = (start, w2)"
      "clock_advances clk v start (ten_seconds clk f)"
  shows "\<exists>s. soc_wrapper_thread clk api ctx kSoC_Dispatcher (RDMA_SoC_QP.truncate q1) (RDMA_SoC_QP.truncate q2) h w
      = Some (Inr s) \<and> soc_inv v s \<and> rx_ring (w_qp_prior s) = rx_ring q1 \<and> rx_ring (w_qp_next s) = rx_ring q2"
proof -
  have "tx_queue_idx (RDMA_SoC_QP.truncate q1) = 0" using ready(1) by (simp add: datapath_ready_def)
  from new_wrapper_inv [OF ready_duplex [OF ready] this env(2) new]
  have i0: "soc_inv v s0" "qp_id (w_qp_prior s0) = qp_id q1" "qp_id (w_qp_next s0) = qp_id q2"
      "rx_ring (w_qp_prior s0) = rx_ring q1" "rx_ring (w_qp_next s0) = rx_ring q2" by simp_all
  have "nic_idle v (w_world s0) w2" by (rule clock_okD [OF env(3) start(2)])
  from soc_inv_quiet [OF i0(1) this] have i2: "soc_inv v (s0\<lparr>w_world := w2\<rparr>)" .
  have e0: "soc_env api ctx v (qp_id (w_qp_prior (s0\<lparr>w_world := w2\<rparr>))) (qp_id (w_qp_next (s0\<lparr>w_world := w2\<rparr>)))"
    using env(1) i0(2,3) by simp
  obtain s where
    e: "event_loop clk api ctx (us_to_cycles (fp_round clk) 1 f) (ten_seconds clk f) start start (s0\<lparr>w_world := w2\<rparr>)
      = Some (Inr s)" "soc_inv v s"
    "same_ids (s0\<lparr>w_world := w2\<rparr>) s"
    using event_loop_returns [OF e0 env(3) start(3) i2] by blast
  have "soc_wrapper_thread clk api ctx kSoC_Dispatcher (RDMA_SoC_QP.truncate q1) (RDMA_SoC_QP.truncate q2) h w = Some (Inr s)"
    using e(1) by (simp add: soc_wrapper_thread_def new run_wrapper_def start(1) read_tsc_def start(2) ten_seconds_def)
  with e(2,3) i0(4,5) show ?thesis by (simp add: same_ids_def)
qed

subsection \<open>Properties\<close>

text \<open>
  C1. A round of the event loop returns and accounts for every packet buffer: whatever the NIC
  reports and the user's handler answers, no step faults, no receive or send ring overflows, and
  afterwards every buffer of the two receive rings is again in exactly one place (with the NIC,
  waiting, in the worker queue, queued or being sent) or marked free and in none, so none is
  leaked or used twice; what the worker forwarded has been collected.
\<close>

theorem launch_conserves_buffers:
  assumes "nic_ok api v (qp_id (w_qp_prior s))" "nic_ok api v (qp_id (w_qp_next s))" "handler_ok ctx v"
    and "soc_inv v s"
  shows "\<exists>s'. launch api ctx s = Some (Inr s') \<and> soc_inv v s' \<and>
    rx_ring (w_qp_prior s') = rx_ring (w_qp_prior s) \<and> rx_ring (w_qp_next s') = rx_ring (w_qp_next s)"
  using launch_keeps [of api ctx v s] assms by (auto simp: soc_env_def same_ids_def)

text \<open>
  C4. The thread of a SoC block comes back: from queue pairs as the channel leaves them, with all
  receives posted, the whole constructor of the wrapper, which runs the event loop for ten
  seconds, neither faults nor spins for ever, given a clock that advances, at a frequency the code accepts; and
  at its end all buffers of both receive rings are accounted for.
\<close>

theorem soc_thread_returns:
  assumes "datapath_ready q1 h" "datapath_ready q2 h" "spaced kRecvMbufSize (rx_addrs q1 h @ rx_addrs q2 h)"
      "qp_id q1 \<noteq> qp_id q2" "nic_fresh v (qp_id q1) w" "nic_fresh v (qp_id q2) w"
    and "soc_env api ctx v (qp_id q1) (qp_id q2)" "init_ok ctx v" "clock_ok clk v"
    and "new_SoCWrapper ctx kSoC_Dispatcher (RDMA_SoC_QP.truncate q1) (RDMA_SoC_QP.truncate q2) h w = Inr s0"
    and "measure_rdtsc_freq clk = Inr f" "rdtsc clk (w_world s0) = (start, w2)"
      "clock_advances clk v start (ten_seconds clk f)"
  shows "\<exists>s. soc_wrapper_thread clk api ctx kSoC_Dispatcher (RDMA_SoC_QP.truncate q1) (RDMA_SoC_QP.truncate q2) h w
      = Some (Inr s) \<and> soc_inv v s \<and> rx_ring (w_qp_prior s) = rx_ring q1 \<and> rx_ring (w_qp_next s) = rx_ring q2"
  by (rule soc_thread_result [OF assms])

subsection \<open>An example\<close>

text \<open>
  A NIC with two queue pairs that completes every send at the next poll and receives up to three
  packets at a time, and a handler that always fails; the clock of 200 MHz reads 50 ms later each time, for 1000 times.
\<close>

record demo_world =
  dw_rcv :: "nat \<Rightarrow> nat"
  dw_out :: "nat \<Rightarrow> nat"
  dw_log :: "nat \<Rightarrow> sge list"
  dw_got :: "nat \<Rightarrow> nat"
  dw_reads :: nat

definition loop_api :: "demo_world soc_verbs" where
  "loop_api = \<lparr>post_recv = \<lambda>q l w. (0, w\<lparr>dw_rcv := (dw_rcv w)(q := dw_rcv w q + length l)\<rparr>),
     poll_recv = \<lambda>q n w. let r = min n (min 3 (dw_rcv w q))
                         in ((int r, replicate r 64), w\<lparr>dw_rcv := (dw_rcv w)(q := dw_rcv w q - r),
                              dw_got := (dw_got w)(q := dw_got w q + r)\<rparr>),
     post_send = \<lambda>q l w. (0, w\<lparr>dw_out := (dw_out w)(q := dw_out w q + length l),
                              dw_log := (dw_log w)(q := dw_log w q @ l)\<rparr>),
     poll_send = \<lambda>q n w. (int (dw_out w q), w\<lparr>dw_out := (dw_out w)(q := 0)\<rparr>)\<rparr>"

definition loop_view :: "demo_world nic_view" where
  "loop_view = \<lparr>nv_rcv = \<lambda>q w. dw_rcv w q, nv_out = \<lambda>q w. dw_out w q, nv_log = \<lambda>q w. dw_log w q,
     nv_delay = \<lambda>q w. 0, nv_left = \<lambda>w. 1000 - dw_reads w\<rparr>"

definition loop_clock :: "demo_world soc_clock" where
  "loop_clock = \<lparr>rdtsc = \<lambda>w. (of_nat (min 1000 (dw_reads w)) * 10000000, w\<lparr>dw_reads := Suc (dw_reads w)\<rparr>),
     cntfrq_el0 = 200000000, fp_round = \<lambda>x. x, hr_now = \<lambda>w. (0, w)\<rparr>"

definition loop_ctx :: "(nat, demo_world) SoCWrapperContext" where
  "loop_ctx = \<lparr>init_handler = Some (\<lambda>h w. ((Some 0, 8), h, w)),
     msg_handler = Some (\<lambda>m u h w. (NICC_ERROR, map_option Suc u, h, w)), cleanup_handler = None\<rparr>"

definition loop_world :: demo_world where
  "loop_world = \<lparr>dw_rcv = \<lambda>_. 2048, dw_out = \<lambda>_. 0, dw_log = \<lambda>_. [], dw_got = \<lambda>_. 0, dw_reads = 0\<rparr>"

lemma loop_nic: "nic_ok loop_api loop_view q"
  by (auto simp: nic_ok_def send_nic_def sends_only_def recvs_only_def loop_api_def loop_view_def
      kNumTxRingEntries_def Let_def)

lemma loop_env: "soc_env loop_api loop_ctx loop_view i j"
  by (simp add: soc_env_def loop_nic handler_ok_def loop_ctx_def)

lemma loop_seconds: "measure_rdtsc_freq loop_clock = Inr (1 / 5)" "ten_seconds loop_clock (1 / 5) = 2000000000"
  by (simp_all add: measure_rdtsc_freq_def loop_clock_def ten_seconds_def ms_to_cycles_def size_of_double_def)

lemma loop_clock_ok: "clock_ok loop_clock loop_view" "init_ok loop_ctx loop_view"
    "clock_advances loop_clock loop_view 0 (ten_seconds loop_clock (1 / 5))"
proof -
  show "clock_ok loop_clock loop_view"
    by (auto simp: clock_ok_def loop_clock_def nic_idle_def loop_view_def)
  show "init_ok loop_ctx loop_view" by (simp add: init_ok_def loop_ctx_def)
  show "clock_advances loop_clock loop_view 0 (ten_seconds loop_clock (1 / 5))"
    by (auto simp: loop_seconds clock_advances_def) (auto simp: loop_clock_def loop_view_def min_def)
qed

text \<open>Two rings over the addresses 0 to 2047 and 2048 to 4095.\<close>

definition loop_buf :: "nat \<Rightarrow> Buffer" where
  "loop_buf a = (new_Buffer (65536 + kRecvMbufSize * a) kRecvMbufSize 7)\<lparr>b_state := kPOSTED,
     b_next := Some (if a < 2048 then (a + 1) mod 2048 else 2048 + (a - 2048 + 1) mod 2048)\<rparr>"

definition loop_heap :: heap where
  "loop_heap a = (if a < 4096 then Some (loop_buf a) else None)"

definition loop_qp :: "nat \<Rightarrow> nat \<Rightarrow> soc_qp" where
  "loop_qp n base = new_soc_qp\<lparr>qp_id := n, send_wr_next := links_ex, recv_wr_next := links_ex,
     rx_ring := map (\<lambda>i. Some (base + i)) [0 ..< 2048],
     recv_sgl := map (\<lambda>i. \<lparr>sg_addr = of_nat (b_buf (loop_buf (base + i))),
        sg_length = of_nat kRecvMbufSize, sg_lkey = 7\<rparr>) [0 ..< 2048]\<rparr>"

lemma loop_qp_ready:
  assumes "base = 0 \<or> base = 2048"
  shows "datapath_ready (loop_qp n base) loop_heap"
proof -
  have live: "loop_heap (base + i) = Some (loop_buf (base + i))" if "i < 2048" for i
    using that assms by (auto simp: loop_heap_def)
  have "next_is loop_heap (rx_ring (loop_qp n base) ! i) (rx_ring (loop_qp n base) ! ((i + 1) mod 2048))"
    if "i < 2048" for i
    using that assms live [OF that] by (auto simp: loop_qp_def next_is_def loop_buf_def mod_add_self1 add.assoc)
  then have "ring_linked kNumRxRingEntries (rx_ring (loop_qp n base)) loop_heap"
    by (simp add: ring_linked_def kNumRxRingEntries_def) (simp add: loop_qp_def distinct_map inj_on_def)
  moreover have "send_wf 0 (RDMA_SoC_QP.truncate (loop_qp n base)) loop_heap"
    using links_ex_circular
    by (simp add: send_wf_def send_ring_def loop_qp_def new_soc_qp_def RDMA_SoC_QP.truncate_def
        kNumTxRingEntries_def kSQDepth_def)
  ultimately show ?thesis
    using links_ex_circular live
    by (simp add: datapath_ready_def loop_qp_def new_soc_qp_def kNumRxRingEntries_def kNumTxRingEntries_def
        kSQDepth_def loop_buf_def new_Buffer_def)
qed

lemma loop_rings_spaced:
  "spaced kRecvMbufSize (rx_addrs (loop_qp 1 0) loop_heap @ rx_addrs (loop_qp 2 2048) loop_heap)"
proof -
  let ?f = "\<lambda>i. 65536 + kRecvMbufSize * i"
  have "rx_addrs (loop_qp n base) loop_heap = map (\<lambda>i. ?f (base + i)) [0 ..< 2048]" if "base \<le> 2048" for n base
    using that by (simp add: rx_addrs_def loop_qp_def loop_heap_def loop_buf_def new_Buffer_def)
  then have "rx_addrs (loop_qp 1 0) loop_heap @ rx_addrs (loop_qp 2 2048) loop_heap
      = map ?f [0 ..< 2048] @ map (\<lambda>i. ?f (i + 2048)) [0 ..< 2048]"
    by (simp add: add.commute)
  also have "\<dots> = map ?f ([0 ..< 2048] @ map (\<lambda>i. i + 2048) [0 ..< 2048])" by simp
  also have "[0 ..< 2048] @ map (\<lambda>i. i + 2048) [0 ..< 2048] = [0 ..< 4096 :: nat]"
    using upt_add_eq_append [of 0 2048 2048] map_add_upt [of 2048 2048] by simp
  finally have eq: "rx_addrs (loop_qp 1 0) loop_heap @ rx_addrs (loop_qp 2 2048) loop_heap = map ?f [0 ..< 4096]" .
  have "?f i + kRecvMbufSize \<le> ?f j \<or> ?f j + kRecvMbufSize \<le> ?f i" if "i \<noteq> j" for i j
  proof -
    have "Suc i \<le> j \<or> Suc j \<le> i" using that by linarith
    then have "kRecvMbufSize * Suc i \<le> kRecvMbufSize * j \<or> kRecvMbufSize * Suc j \<le> kRecvMbufSize * i"
      using mult_le_mono2 by blast
    then show ?thesis by (simp add: add.commute)
  qed
  then show ?thesis unfolding spaced_def eq by (simp del: upt_rec_numeral)
qed

definition loop_prior :: RDMA_SoC_QP where "loop_prior = RDMA_SoC_QP.truncate (loop_qp 1 0)"
definition loop_next :: RDMA_SoC_QP where "loop_next = RDMA_SoC_QP.truncate (loop_qp 2 2048)"

lemma loop_ids [simp]: "qp_id (loop_qp n base) = n" by (simp add: loop_qp_def)

lemma loop_ready:
  "datapath_ready (loop_qp 1 0) loop_heap" "datapath_ready (loop_qp 2 2048) loop_heap"
  "qp_id (loop_qp 1 0) \<noteq> qp_id (loop_qp 2 2048)" "nic_fresh loop_view q loop_world"
  by (simp_all add: loop_qp_ready nic_fresh_def loop_view_def loop_world_def kNumRxRingEntries_def)

lemma loop_start: "\<exists>s. new_SoCWrapper loop_ctx kSoC_Dispatcher loop_prior loop_next loop_heap loop_world = Inr s
    \<and> w_world s = loop_world"
  by (simp add: new_SoCWrapper_def init_dispatcher_def call_init_handler_def loop_ctx_def)

lemma launch_conserves_buffers_witness:
  "\<exists>s s'. new_SoCWrapper loop_ctx kSoC_Dispatcher loop_prior loop_next loop_heap loop_world = Inr s \<and>
     launch loop_api loop_ctx s = Some (Inr s') \<and> soc_inv loop_view s'"
proof -
  obtain s where s: "new_SoCWrapper loop_ctx kSoC_Dispatcher loop_prior loop_next loop_heap loop_world = Inr s"
    using loop_start by blast
  have "duplex loop_view loop_prior loop_next [] [] loop_heap loop_world"
    unfolding loop_prior_def loop_next_def
    by (rule ready_duplex [OF loop_ready(1,2) loop_rings_spaced loop_ready(3)]) (rule loop_ready(4))+
  moreover have "tx_queue_idx loop_prior = 0" by (simp add: loop_prior_def loop_qp_def new_soc_qp_def)
  ultimately have "soc_inv loop_view s" using new_wrapper_inv [OF _ _ loop_clock_ok(2) s] by blast
  with launch_conserves_buffers [of loop_api loop_view s loop_ctx] loop_nic loop_env s show ?thesis
    by (auto simp: soc_env_def)
qed

lemma soc_thread_returns_witness:
  "\<exists>s. soc_wrapper_thread loop_clock loop_api loop_ctx kSoC_Dispatcher loop_prior loop_next loop_heap loop_world
     = Some (Inr s) \<and> soc_inv loop_view s"
proof -
  obtain s where s: "new_SoCWrapper loop_ctx kSoC_Dispatcher loop_prior loop_next loop_heap loop_world = Inr s"
    "w_world s = loop_world"
    using loop_start by blast
  have "rdtsc loop_clock (w_world s) = (0, loop_world\<lparr>dw_reads := 1\<rparr>)"
    by (simp add: loop_clock_def s(2)) (simp add: loop_world_def)
  from soc_thread_returns [OF loop_ready(1,2) loop_rings_spaced loop_ready(3,4,4) loop_env
      loop_clock_ok(2,1) s(1) [unfolded loop_prior_def loop_next_def] loop_seconds(1) this loop_clock_ok(3)]
  show ?thesis unfolding loop_prior_def loop_next_def by blast
qed

end
