(* ===== verification/SocOrder.thy ===== *)
theory SocOrder
  imports SocRun
begin

text \<open>
  Order of packets through the event loop. What went out to the next hop, followed by what is
  still on the way to it (the transmit queue and the two worker queues), is a list of buffer
  addresses that the loop only ever extends at its end, by exactly the packets the NIC has
  reported as received; the same holds for the way back. So packets leave in the order of their
  reception and, as the worker queue is never too full for a burst, none is dropped on either way.
\<close>

subsection \<open>Addresses of buffers\<close>

definition addr_of :: "heap \<Rightarrow> ptr \<Rightarrow> u64" where
  "addr_of h p = sg_addr (buf_sge h p)"

text \<open>No step moves a buffer: \<open>buf_\<close> is set once, by the constructor.\<close>

abbreviation buf_word :: "Buffer \<Rightarrow> u64" where "buf_word b \<equiv> of_nat (b_buf b)"

definition same_addr :: "heap \<Rightarrow> heap \<Rightarrow> bool" where
  "same_addr h h' \<longleftrightarrow> (\<forall>a. map_option buf_word (h' a) = map_option buf_word (h a))"

lemma same_addr_refl [simp]: "same_addr h h"
  by (simp add: same_addr_def)

lemma same_addr_trans: "same_addr h h' \<Longrightarrow> same_addr h' h'' \<Longrightarrow> same_addr h h''"
  by (simp add: same_addr_def)

lemma same_addr_set_state [simp]: "same_addr h (set_state st a h)"
  by (auto simp: same_addr_def set_state_def option.map_comp o_def)

lemma same_addr_mark: "same_addr h h' \<Longrightarrow> same_addr h (mark st A h')"
  by (auto simp: same_addr_def mark_def option.map_comp o_def)

lemma same_addrD: "same_addr h h' \<Longrightarrow> addr_of h' p = addr_of h p"
proof -
  assume "same_addr h h'"
  then have "map_option buf_word (h' (the p)) = map_option buf_word (h (the p))" by (simp add: same_addr_def)
  then show ?thesis
    by (cases "h (the p)"; cases "h' (the p)") (simp_all add: addr_of_def buf_sge_def sge_of_def)
qed

lemma same_addr_map: "same_addr h h' \<Longrightarrow> map (addr_of h') xs = map (addr_of h) xs"
  by (simp add: same_addrD)

lemma deref_buf_Inr: "deref_buf h p = Inr (a, b) \<Longrightarrow> p = Some a \<and> h a = Some b"
  by (auto simp: deref_buf_def split: option.splits)

lemma repost_addr:
  assumes "repost e n h = Some r"
  shows "\<forall>k h'. r = Inr (k, h') \<longrightarrow> same_addr h h'"
proof (rule repost.raw_induct [OF _ assms], goal_cases)
  case (1 f e n h r)
  show ?case
  proof (intro allI impI)
    fix k h' assume r: "r = Inr (k, h')"
    from 1(2) r obtain a b where d: "deref_buf h e = Inr (a, b)"
      "(if b_state b = kFREE_BUF then f (b_next b) (Suc n) (set_state kPOSTED a h) else Some (Inr (n, h))) = Some r"
      by (auto simp: bind_exec_def split: sum.splits)
    show "same_addr h h'"
    proof (cases "b_state b = kFREE_BUF")
      case True
      then have "same_addr (set_state kPOSTED a h) h'" using 1(1) [of "b_next b" "Suc n" "set_state kPOSTED a h" r] d(2) r by simp
      then show ?thesis by (rule same_addr_trans [OF same_addr_set_state])
    qed (use d(2) r in simp)
  qed
qed

lemma set_length_addr:
  assumes "fold_run (set_length qp lens) is h = Inr h'"
  shows "same_addr h h'"
proof (rule fold_run_invariant [OF assms, where P = "same_addr h"])
  fix i k k' assume k: "same_addr h k" and s: "set_length qp lens i k = Inr k'"
  obtain a b where d: "k a = Some b" "k' = k(a \<mapsto> b\<lparr>b_length := lens ! i\<rparr>)"
    using s by (auto simp: set_length_def bind_run_eq_Inr dest!: deref_buf_Inr)
  then have "same_addr k k'" by (simp add: same_addr_def)
  with k show "same_addr h k'" by (rule same_addr_trans)
qed simp

lemma rx_burst_addr:
  assumes "rx_burst api qp h w = Some (Inr (r, qp', h', w'))"
  shows "same_addr h h'"
proof -
  obtain n h1 where 1: "repost (rx_ring qp ! recv_head qp) 0 h = Some (Inr (n, h1))"
    and "bind_run (if n \<noteq> 0 then post_recvs api n qp w else Inr (qp, w)) (\<lambda>(qp1, w1).
       let ((ret, lens), w2) = poll_recv api (qp_id qp1) kRxBatchSize w1
       in bind_run (fold_run (set_length qp1 lens) [0 ..< nat ret] h1) (\<lambda>h2.
          Inr (ret, qp1\<lparr>wait_for_disp := add_int (wait_for_disp qp1) ret\<rparr>, h2, w2))) = Inr (r, qp', h', w')"
    using assms unfolding rx_burst_def by (auto simp: bind_exec_eq_Inr)
  then obtain qp1 w1 where 2: "(let ((ret, lens), w2) = poll_recv api (qp_id qp1) kRxBatchSize w1
       in bind_run (fold_run (set_length qp1 lens) [0 ..< nat ret] h1) (\<lambda>h2.
          Inr (ret, qp1\<lparr>wait_for_disp := add_int (wait_for_disp qp1) ret\<rparr>, h2, w2))) = Inr (r, qp', h', w')"
    unfolding bind_run_eq_Inr by auto
  obtain ret lens w2 where "poll_recv api (qp_id qp1) kRxBatchSize w1 = ((ret, lens), w2)" by (metis surj_pair)
  with 2 have "fold_run (set_length qp1 lens) [0 ..< nat ret] h1 = Inr h'" by (auto simp: bind_run_eq_Inr)
  from set_length_addr [OF this] repost_addr [OF 1] show ?thesis
    using same_addr_trans by blast
qed

lemma same_data_addr: "same_data h h' \<Longrightarrow> same_addr h h'"
  unfolding same_data_def same_addr_def
proof
  fix a assume "\<forall>a. map_option sge_of (h' a) = map_option sge_of (h a)"
  then have "map_option sg_addr (map_option sge_of (h' a)) = map_option sg_addr (map_option sge_of (h a))" by simp
  then show "map_option buf_word (h' a) = map_option buf_word (h a)"
    by (simp add: option.map_comp o_def sge_of_def)
qed

text \<open>The handlers keep to the contents of buffers, too.\<close>

definition handler_addr :: "('u, 'w) SoCWrapperContext \<Rightarrow> bool" where
  "handler_addr ctx \<longleftrightarrow> (case msg_handler ctx of None \<Rightarrow> True
     | Some f \<Rightarrow> \<forall>m u h w. case f m u h w of (ret, u', h', w') \<Rightarrow> same_addr h h')"

lemma worker_one_addr:
  assumes "handler_addr ctx"
  shows "same_addr (w_heap s) (w_heap (worker_one ctx s))"
proof (cases "msg_handler ctx")
  case None
  then show ?thesis by (simp add: worker_one_def Let_def split: prod.split)
next
  case (Some f)
  obtain m rx where d: "dequeue (w_rx_queue s) = (m, rx)" by (cases "dequeue (w_rx_queue s)")
  obtain r u h w where f: "f m (w_user s) (w_heap s) (w_world s) = (r, u, h, w)" by (metis surj_pair)
  have "\<forall>m u h w. case f m u h w of (ret, u', h', w') \<Rightarrow> same_addr h h'"
    using assms by (simp add: handler_addr_def Some)
  from spec [OF spec [OF spec [OF spec [OF this, of m], of "w_user s"], of "w_heap s"], of "w_world s"] f
  show ?thesis by (simp add: worker_one_def Let_def d Some)
qed

lemma worker_phase_addr: "handler_addr ctx \<Longrightarrow> same_addr (w_heap s) (w_heap (worker_phase ctx s))"
proof -
  assume h: "handler_addr ctx"
  have "same_addr (w_heap s) (w_heap (worker_loop ctx n s))" for n
    by (induction n arbitrary: s) (auto intro: same_addr_trans [OF worker_one_addr [OF h]])
  then show ?thesis by (simp add: worker_phase_def Let_def)
qed

subsection \<open>Counting what was received\<close>

text \<open>
  A counter of received packets per queue pair: it goes up by what a poll of the receive
  completions reports, on its queue pair, and nothing else moves it.
\<close>

definition rx_counted ::
  "'w soc_clock \<Rightarrow> 'w soc_verbs \<Rightarrow> ('u, 'w) SoCWrapperContext \<Rightarrow> (nat \<Rightarrow> 'w \<Rightarrow> nat) \<Rightarrow> bool" where
  "rx_counted clk api ctx got \<longleftrightarrow>
     (\<forall>q n w. case poll_recv api q n w of ((r, lens), w') \<Rightarrow>
        \<forall>x. got x w' = got x w + (if x = q then nat r else 0)) \<and>
     (\<forall>q l w x. got x (snd (post_recv api q l w)) = got x w) \<and>
     (\<forall>q n w x. got x (snd (poll_send api q n w)) = got x w) \<and>
     (\<forall>q l w x. got x (snd (post_send api q l w)) = got x w) \<and>
     (\<forall>w x. got x (snd (rdtsc clk w)) = got x w) \<and>
     (case msg_handler ctx of None \<Rightarrow> True
      | Some f \<Rightarrow> \<forall>m u h w x. got x (snd (snd (snd (f m u h w)))) = got x w)"

lemma rx_counted_calls:
  assumes "rx_counted clk api ctx got"
  shows "poll_recv api q n w = ((r, lens), w') \<Longrightarrow> got x w' = got x w + (if x = q then nat r else 0)"
    "post_recv api q l w = (k, w') \<Longrightarrow> got x w' = got x w" "poll_send api q n w = (k', w') \<Longrightarrow> got x w' = got x w"
    "post_send api q l w = (k'', w') \<Longrightarrow> got x w' = got x w" "rdtsc clk w = (c, w') \<Longrightarrow> got x w' = got x w"
    "msg_handler ctx = Some f \<Longrightarrow> f m u h w = (ret, u', h', w') \<Longrightarrow> got x w' = got x w"
proof -
  note c = assms [unfolded rx_counted_def]
  show "got x w' = got x w + (if x = q then nat r else 0)" if "poll_recv api q n w = ((r, lens), w')"
    using spec [OF spec [OF spec [OF conjunct1 [OF c], of q], of n], of w] that by simp
  note c = conjunct2 [OF c]
  show "got x w' = got x w" if "post_recv api q l w = (k, w')"
    using spec [OF spec [OF spec [OF spec [OF conjunct1 [OF c], of q], of l], of w], of x] that by simp
  note c = conjunct2 [OF c]
  show "got x w' = got x w" if "poll_send api q n w = (k', w')"
    using spec [OF spec [OF spec [OF spec [OF conjunct1 [OF c], of q], of n], of w], of x] that by simp
  note c = conjunct2 [OF c]
  show "got x w' = got x w" if "post_send api q l w = (k'', w')"
    using spec [OF spec [OF spec [OF spec [OF conjunct1 [OF c], of q], of l], of w], of x] that by simp
  note c = conjunct2 [OF c]
  show "got x w' = got x w" if "rdtsc clk w = (c, w')"
    using spec [OF spec [OF conjunct1 [OF c], of w], of x] that by simp
  note c = conjunct2 [OF c]
  show "got x w' = got x w" if "msg_handler ctx = Some f" "f m u h w = (ret, u', h', w')"
  proof -
    have "\<forall>m u h w x. got x (snd (snd (snd (f m u h w)))) = got x w" using c that(1) by simp
    from spec [OF spec [OF spec [OF spec [OF spec [OF this, of m], of u], of h], of w], of x] that(2) show ?thesis by simp
  qed
qed

lemma post_recvs_count:
  assumes c: "rx_counted clk api ctx got" and run: "post_recvs api n qp w = Inr (qp', w')"
  shows "got x w' = got x w \<and> qp_id qp' = qp_id qp"
  using run rx_counted_calls(2) [OF c] by (auto simp: post_recvs_def Let_def split: prod.splits if_splits)

lemma rx_burst_count:
  assumes c: "rx_counted clk api ctx got" and nic: "nic_ok api v (qp_id qp)"
    and run: "rx_burst api qp h w = Some (Inr (r, qp', h', w'))"
  shows "got x w' = got x w + (if x = qp_id qp then nat r else 0) \<and> nat r \<le> kRxBatchSize"
proof -
  obtain n h1 qp1 w1 where p: "(if n \<noteq> 0 then post_recvs api n qp w else Inr (qp, w)) = Inr (qp1, w1)"
    "(let ((ret, lens), w2) = poll_recv api (qp_id qp1) kRxBatchSize w1
       in bind_run (fold_run (set_length qp1 lens) [0 ..< nat ret] h1) (\<lambda>h2.
          Inr (ret, qp1\<lparr>wait_for_disp := add_int (wait_for_disp qp1) ret\<rparr>, h2, w2))) = Inr (r, qp', h', w')"
    using run unfolding rx_burst_def by (auto simp: bind_exec_eq_Inr bind_run_eq_Inr)
  have 1: "got x w1 = got x w" "qp_id qp1 = qp_id qp" for x
    using p(1) post_recvs_count [OF c] by (auto split: if_splits)
  obtain ret lens w2 where q: "poll_recv api (qp_id qp) kRxBatchSize w1 = ((int ret, lens), w2)" "ret \<le> kRxBatchSize"
    by (rule nic_ok_poll [OF nic])
  with p(2) 1(2) have "r = int ret" "w' = w2" by (auto simp: bind_run_eq_Inr)
  with rx_counted_calls(1) [OF c q(1)] q(2) 1(1) show ?thesis by simp
qed

lemma tx_burst_count:
  assumes c: "rx_counted clk api ctx got" and run: "tx_burst api ms tq h w = Inr (k, tq', h', w')"
  shows "got x w' = got x w"
proof -
  obtain r w1 where p: "poll_send api (qp_id tq) kNumTxRingEntries w = (r, w1)"
    by (cases "poll_send api (qp_id tq) kNumTxRingEntries w")
  have 1: "got x w1 = got x w" by (rule rx_counted_calls(3) [OF c p])
  have 2: "got x (snd (post_send api q l w1)) = got x w1" for q l
    using rx_counted_calls(4) [OF c] by (metis prod.collapse)
  have "w' = w1 \<or> (\<exists>q l. w' = snd (post_send api q l w1))"
    using run by (auto simp: tx_burst_def p bind_run_eq_Inr Let_def case_prod_beta split: option.splits if_splits)
  with 1 2 show ?thesis by auto
qed

lemma flush_loop_count:
  assumes run: "flush_loop api n qp h w = Some r"
  shows "\<forall>k qp' h' w'. rx_counted clk api ctx got \<and> r = Inr (k, qp', h', w') \<longrightarrow> got x w' = got x w"
proof (rule flush_loop.raw_induct [OF _ run], goal_cases)
  case (1 f api n qp h w r)
  show ?case
  proof (intro allI impI)
    fix k qp' h' w' assume "rx_counted clk api ctx got \<and> r = Inr (k, qp', h', w')"
    then have c: "rx_counted clk api ctx got" and r: "r = Inr (k, qp', h', w')" by simp_all
    show "got x w' = got x w"
    proof (cases "n < tx_queue_idx qp")
      case True
      with 1(2) r obtain m q1 h1 w1 where b:
        "tx_burst api (drop n (take (tx_queue_idx qp) (tx_queue qp))) qp h w = Inr (m, q1, h1, w1)"
        "f api (n + m) q1 h1 w1 = Some r"
        by (auto simp: bind_exec_def split: sum.splits)
      then show ?thesis using 1(1) [OF b(2)] c r tx_burst_count [OF c b(1)] by simp
    qed (use 1(2) r in simp)
  qed
qed

lemma tx_flush_count:
  assumes c: "rx_counted clk api ctx got" and run: "tx_flush api qp h w = Some (Inr (n, qp', h', w'))"
  shows "got x w' = got x w"
proof -
  obtain q' where "flush_loop api 0 qp h w = Some (Inr (n, q', h', w'))"
    using run by (auto simp: tx_flush_def bind_exec_eq_Inr)
  from flush_loop_count [OF this] c show ?thesis by blast
qed

lemma worker_phase_count:
  assumes c: "rx_counted clk api ctx got"
  shows "got x (w_world (worker_phase ctx s)) = got x (w_world s)"
proof -
  have one: "got x (w_world (worker_one ctx s)) = got x (w_world s)" for s
  proof (cases "msg_handler ctx")
    case None
    then show ?thesis by (simp add: worker_one_def Let_def split: prod.split)
  next
    case (Some f)
    obtain m rx where d: "dequeue (w_rx_queue s) = (m, rx)" by (cases "dequeue (w_rx_queue s)")
    obtain r u h w where f: "f m (w_user s) (w_heap s) (w_world s) = (r, u, h, w)" by (metis surj_pair)
    from rx_counted_calls(6) [OF c Some f] show ?thesis by (simp add: worker_one_def Let_def d Some f)
  qed
  have "got x (w_world (worker_loop ctx n s)) = got x (w_world s)" for n
    by (induction n arbitrary: s) (simp_all add: one)
  then show ?thesis by (simp add: worker_phase_def Let_def)
qed

subsection \<open>One step at a time\<close>

abbreviation rx_slice :: "RDMA_SoC_QP \<Rightarrow> nat \<Rightarrow> nat \<Rightarrow> ptr list" where
  "rx_slice q i k \<equiv> ring_slice kNumRxRingEntries i k ((!) (rx_ring q))"

definition same_logs :: "'w nic_view \<Rightarrow> 'w \<Rightarrow> 'w \<Rightarrow> bool" where
  "same_logs v w w' \<longleftrightarrow> (\<forall>x. nv_log v x w' = nv_log v x w)"

lemma rx_order:
  assumes c: "rx_counted clk api ctx got" and nic: "nic_ok api v (qp_id a)" and d: "duplex v a b m1 m2 h w"
    and run: "rx_burst api a h w = Some (Inr (r, a', h', w'))"
  shows "same_addr h h' \<and> same_logs v w w' \<and> (\<exists>i n. a' = a\<lparr>recv_head := i, wait_for_disp := wait_for_disp a + n\<rparr> \<and>
    n \<le> kRxBatchSize \<and> (\<forall>x. got x w' = got x w + (if x = qp_id a then n else 0)))"
proof -
  have "lane a (nv_rcv v (qp_id a) w) (m1 @ tx_side v b w) h" using d by (simp add: duplex_def)
  from lane_rx_burst [OF nic this] obtain i n where
    1: "r = int n" "a' = a\<lparr>recv_head := i, wait_for_disp := wait_for_disp a + n\<rparr>" "recvs_only v (qp_id a) w w'"
    using run by auto
  moreover have "n \<le> kRxBatchSize" "got x w' = got x w + (if x = qp_id a then n else 0)" for x
    using rx_burst_count [OF c nic run, of x] 1(1) by simp_all
  moreover note rx_burst_addr [OF run]
  ultimately show ?thesis by (auto simp: same_logs_def recvs_only_def)
qed

lemma dispatch_order:
  assumes d: "duplex v a b m1 m2 h w" and q: "queue_wf q" "length (queue_abs q) + wait_for_disp a \<le> queue_cap"
    and run: "dispatch_rx_pkts a h q = Inr (n, a', h', q')"
  shows "same_addr h h' \<and> queue_abs q' = queue_abs q @ rx_slice a (ring_head a) (wait_for_disp a) \<and>
    a' = a\<lparr>ring_head := (ring_head a + wait_for_disp a) mod kNumRxRingEntries, wait_for_disp := 0\<rparr>"
proof -
  let ?n = kNumRxRingEntries
  have l: "lane a (nv_rcv v (qp_id a) w) (m1 @ tx_side v b w) h" using d by (simp add: duplex_def)
  then have ring: "ring_linked ?n (rx_ring a) h" "ring_head a < ?n" "wait_for_disp a \<le> ?n" by (auto simp: lane_def)
  have m: "map Some (slots ?n (rx_ring a) (ring_head a) (wait_for_disp a)) = rx_slice a (ring_head a) (wait_for_disp a)"
    using rx_front_slots [OF l] by (simp add: rx_front_def)
  have len: "length (slots ?n (rx_ring a) (ring_head a) (wait_for_disp a)) = wait_for_disp a"
    using arg_cong [OF m, of length] by simp
  have "wait_for_disp a \<le> queue_room q" using q by (simp add: queue_room_def)
  with m len show ?thesis
    using dispatch_result [OF ring q(1)] run by (auto intro!: same_addr_mark)
qed

lemma worker_order:
  assumes h: "handler_ok ctx v" "handler_addr ctx" and q: "queue_wf (w_rx_queue s)" "queue_wf (w_tx_queue s)"
    and e: "queue_abs (w_tx_queue s) = []"
  defines "s' \<equiv> worker_phase ctx s"
  shows "same_addr (w_heap s) (w_heap s') \<and> same_logs v (w_world s) (w_world s') \<and>
    queue_abs (w_tx_queue s') @ queue_abs (w_rx_queue s') = queue_abs (w_rx_queue s) \<and>
    w_qp_prior s' = w_qp_prior s \<and> w_qp_next s' = w_qp_next s \<and> queue_wf (w_rx_queue s') \<and> queue_wf (w_tx_queue s') \<and>
    length (queue_abs (w_rx_queue s')) \<le> kAppRxMsgBatchSize"
proof -
  have "length (queue_abs (w_tx_queue s)) + length (queue_abs (w_rx_queue s)) \<le> queue_cap"
    using q e sq.bounded by simp
  from worker_phase_forwards [OF q this, of ctx] worker_phase_quiet [OF h(1), of s] worker_phase_addr [OF h(2), of s]
  show ?thesis by (auto simp: s'_def e same_logs_def nic_idle_def)
qed

lemma collect_order:
  assumes d: "duplex v a b m1 m2 h w" and q: "queue_wf q" and run: "collect_tx_pkts b q = (n, b', q')"
  shows "tx_waiting b' @ queue_abs q' = tx_waiting b @ queue_abs q \<and> same_rx b b'"
proof -
  have "length (tx_queue b) = kNumTxRingEntries" "tx_queue_idx b \<le> kNumTxRingEntries"
    using d by (simp_all add: duplex_def)
  from collect_result [OF q this] run show ?thesis by (auto simp: tx_waiting_def same_rx_def)
qed

lemma flush_order:
  assumes nic: "nic_ok api v (qp_id b)" and d: "duplex v a b m1 m2 h w"
    and run: "tx_flush api b h w = Some (Inr (n, b', h', w'))"
  shows "same_addr h h' \<and> same_rx b b' \<and> tx_waiting b' = [] \<and>
    nv_log v (qp_id b) w' = nv_log v (qp_id b) w @ map (buf_sge h) (tx_waiting b) \<and>
    (\<forall>x. x \<noteq> qp_id b \<longrightarrow> nv_log v x w' = nv_log v x w)"
proof -
  have l: "lane a (nv_rcv v (qp_id a) w) (m1 @ tx_side v b w) h" and wf: "send_wf (nv_out v (qp_id b) w) b h"
    and le: "tx_queue_idx b \<le> length (tx_queue b)"
    using d by (auto simp: duplex_def)
  have live: "\<forall>m \<in> set (take (tx_queue_idx b) (tx_queue b)). live_ptr h m"
    using lane_live [OF l] by (simp add: tx_side_def tx_waiting_def)
  have "lane a (nv_rcv v (qp_id a) w) (take (tx_queue_idx b) (tx_queue b) @ sending b (nv_out v (qp_id b) w) @ m1) h"
    using l by (subst lane_mset [where out' = "m1 @ tx_side v b w"]) (simp_all add: tx_side_def tx_waiting_def)
  from lane_tx_flush [OF nic wf this le] run have "same_rx b b'" "sends_only v (qp_id b) w w'" "tx_queue_idx b' = 0"
    by auto
  with tx_flush_result [OF nic_ok_send [OF nic] wf live le] run show ?thesis
    by (auto simp: tx_waiting_def sends_only_def same_data_addr)
qed

lemma direct_order:
  assumes d: "duplex v a b m1 m2 h w" and run: "direct_tx_burst b a = (n, b', a')"
  shows "tx_waiting a' @ rx_slice b' (ring_head b') (wait_for_disp b') = tx_waiting a @ rx_slice b (ring_head b) (wait_for_disp b) \<and>
    same_rx a a' \<and> (\<exists>i j. b' = b\<lparr>ring_head := i, wait_for_disp := j\<rparr>) \<and>
    (ring_head b' + wait_for_disp b') mod kNumRxRingEntries = (ring_head b + wait_for_disp b) mod kNumRxRingEntries"
proof -
  have tx: "length (tx_queue a) = kNumTxRingEntries" "tx_queue_idx a \<le> kNumTxRingEntries"
    using d by (auto simp: duplex_def)
  define k where "k = min (wait_for_disp b) (kNumTxRingEntries - tx_queue_idx a)"
  obtain txq where t: "a' = a\<lparr>tx_queue := txq, tx_queue_idx := tx_queue_idx a + k\<rparr>"
      "b' = b\<lparr>ring_head := (ring_head b + k) mod kNumRxRingEntries, wait_for_disp := wait_for_disp b - k\<rparr>"
      "take (tx_queue_idx a + k) txq = take (tx_queue_idx a) (tx_queue a) @
      map ((!) (rx_ring b)) (ring_indices kNumRxRingEntries (ring_head b) k)"
    using direct_result [OF tx, of b] run by (auto simp: k_def)
  have k: "wait_for_disp b = k + (wait_for_disp b - k)" by (simp add: k_def)
  have "rx_slice b (ring_head b) (wait_for_disp b) = rx_slice b (ring_head b) k @ rx_slice b (ring_head b + k) (wait_for_disp b - k)"
    by (subst k) (simp only: ring_slice_append)
  moreover have "((ring_head b + k) mod kNumRxRingEntries + (wait_for_disp b - k)) mod kNumRxRingEntries =
      (ring_head b + wait_for_disp b) mod kNumRxRingEntries"
    using k by (simp only: mod_add_left_eq add.assoc flip: k)
  ultimately show ?thesis
    using t(3) by (auto simp: t(1,2) tx_waiting_def ring_slice_map same_rx_def)
qed

subsection \<open>Traces\<close>

text \<open>What went out to the next hop and is on the way to it; the same towards the prior hop.\<close>

definition fwd_trace :: "'w nic_view \<Rightarrow> ('u, 'w) SoCWrapper \<Rightarrow> u64 list" where
  "fwd_trace v s = map sg_addr (nv_log v (qp_id (w_qp_next s)) (w_world s)) @
     map (addr_of (w_heap s)) (tx_waiting (w_qp_next s) @ queue_abs (w_tx_queue s) @ queue_abs (w_rx_queue s))"

definition back_trace :: "'w nic_view \<Rightarrow> ('u, 'w) SoCWrapper \<Rightarrow> u64 list" where
  "back_trace v s = map sg_addr (nv_log v (qp_id (w_qp_prior s)) (w_world s)) @
     map (addr_of (w_heap s)) (tx_waiting (w_qp_prior s) @
       rx_slice (w_qp_next s) (ring_head (w_qp_next s)) (wait_for_disp (w_qp_next s)))"

text \<open>The slots after the last packet taken from the prior hop, and received from the next one.\<close>

definition fwd_pos :: "('u, 'w) SoCWrapper \<Rightarrow> nat" where
  "fwd_pos s = ring_head (w_qp_prior s)"

definition back_pos :: "('u, 'w) SoCWrapper \<Rightarrow> nat" where
  "back_pos s = ring_head (w_qp_next s) + wait_for_disp (w_qp_next s)"

text \<open>
  A step that receives \<open>k\<close> packets from the prior hop and \<open>r\<close> from the next one, puts all of them on
  their ways, in order, and counts them.
\<close>

definition order_step ::
  "(nat \<Rightarrow> 'w \<Rightarrow> nat) \<Rightarrow> 'w nic_view \<Rightarrow> ('u, 'w) SoCWrapper \<Rightarrow> ('u, 'w) SoCWrapper \<Rightarrow> nat \<Rightarrow> nat \<Rightarrow> bool" where
  "order_step got v s s' k r \<longleftrightarrow> same_ids s s' \<and> same_addr (w_heap s) (w_heap s') \<and>
     got (qp_id (w_qp_prior s)) (w_world s') = got (qp_id (w_qp_prior s)) (w_world s) + k \<and>
     got (qp_id (w_qp_next s)) (w_world s') = got (qp_id (w_qp_next s)) (w_world s) + r \<and>
     fwd_trace v s' = fwd_trace v s @ map (addr_of (w_heap s)) (rx_slice (w_qp_prior s) (fwd_pos s) k) \<and>
     back_trace v s' = back_trace v s @ map (addr_of (w_heap s)) (rx_slice (w_qp_next s) (back_pos s) r) \<and>
     fwd_pos s' mod kNumRxRingEntries = (fwd_pos s + k) mod kNumRxRingEntries \<and>
     back_pos s' mod kNumRxRingEntries = (back_pos s + r) mod kNumRxRingEntries"

lemma order_step_refl: "order_step got v s s 0 0"
  by (simp add: order_step_def same_ids_def)

lemma rx_slice_mod: "i mod kNumRxRingEntries = j mod kNumRxRingEntries \<Longrightarrow> rx_slice q i k = rx_slice q j k"
  by (metis ring_slice_mod)

lemma order_step_trans:
  assumes 1: "order_step got v s s1 k r" and 2: "order_step got v s1 s2 k' r'"
  shows "order_step got v s s2 (k + k') (r + r')"
proof -
  let ?n = kNumRxRingEntries
  have ids: "same_ids s s1" and addr: "same_addr (w_heap s) (w_heap s1)" using 1 by (simp_all add: order_step_def)
  have ring: "rx_ring (w_qp_prior s1) = rx_ring (w_qp_prior s)" "rx_ring (w_qp_next s1) = rx_ring (w_qp_next s)"
    "qp_id (w_qp_prior s1) = qp_id (w_qp_prior s)" "qp_id (w_qp_next s1) = qp_id (w_qp_next s)"
    using ids by (simp_all add: same_ids_def)
  have pos: "fwd_pos s1 mod ?n = (fwd_pos s + k) mod ?n" "back_pos s1 mod ?n = (back_pos s + r) mod ?n"
    using 1 by (simp_all add: order_step_def)
  have sl: "rx_slice (w_qp_prior s1) (fwd_pos s1) k' = rx_slice (w_qp_prior s) (fwd_pos s + k) k'"
    "rx_slice (w_qp_next s1) (back_pos s1) r' = rx_slice (w_qp_next s) (back_pos s + r) r'"
    unfolding ring by (rule rx_slice_mod, rule pos)+
  have "fwd_pos s2 mod ?n = (fwd_pos s1 + k') mod ?n" "back_pos s2 mod ?n = (back_pos s1 + r') mod ?n"
    using 2 by (simp_all add: order_step_def)
  then have "fwd_pos s2 mod ?n = (fwd_pos s + (k + k')) mod ?n" "back_pos s2 mod ?n = (back_pos s + (r + r')) mod ?n"
    using pos by (metis mod_add_left_eq add.assoc)+
  moreover have "same_ids s s2" "same_addr (w_heap s) (w_heap s2)"
    using 2 same_ids_trans [OF ids] same_addr_trans [OF addr] by (simp_all add: order_step_def)
  ultimately show ?thesis
    using 1 2 unfolding order_step_def sl ring(3,4) same_addr_map [OF addr] by (simp add: ring_slice_append)
qed

text \<open>
  Between two rounds of the loop nothing waits to be dispatched, and the worker has left at most
  one batch in its queue; so the queue has room for all packets of the next burst.
\<close>

definition settled :: "('u, 'w) SoCWrapper \<Rightarrow> bool" where
  "settled s \<longleftrightarrow> wait_for_disp (w_qp_prior s) = 0 \<and> length (queue_abs (w_rx_queue s)) \<le> kAppRxMsgBatchSize"

lemma burst_fits: "n \<le> kRxBatchSize \<Longrightarrow> m \<le> kAppRxMsgBatchSize \<Longrightarrow> m + n \<le> queue_cap"
  by (simp add: kRxBatchSize_def kAppRxMsgBatchSize_def queue_cap_def kWsQueueSize_def)

lemma same_logs_nv: "same_logs v w w' \<Longrightarrow> nv_log v x w' = nv_log v x w"
  by (simp add: same_logs_def)

lemma launch_rx_order:
  assumes c: "rx_counted clk api ctx got" and nic: "nic_ok api v (qp_id (w_qp_prior s))" and inv: "soc_inv v s"
    and st: "settled s" and run: "launch_rx api s = Some (Inr s1)"
  shows "\<exists>k. order_step got v s s1 k 0 \<and> wait_for_disp (w_qp_prior s1) = 0"
proof -
  note i = inv [unfolded soc_inv_def]
  let ?pr = "w_qp_prior s"
  have d: "duplex v ?pr (w_qp_next s) (queue_abs (w_rx_queue s)) [] (w_heap s) (w_world s)" using i by blast
  obtain r pr h w where b: "rx_burst api ?pr (w_heap s) (w_world s) = Some (Inr (int r, pr, h, w))"
    "duplex v pr (w_qp_next s) (queue_abs (w_rx_queue s)) [] h w"
    using duplex_rx [OF nic d] by blast
  obtain x n where 1: "same_addr (w_heap s) h" "same_logs v (w_world s) w"
    "pr = ?pr\<lparr>recv_head := x, wait_for_disp := n\<rparr>" "n \<le> kRxBatchSize"
    "\<And>x. got x w = got x (w_world s) + (if x = qp_id ?pr then n else 0)"
    using rx_order [OF c nic d b(1)] st by (auto simp: settled_def)
  have ne: "qp_id (w_qp_next s) \<noteq> qp_id ?pr" using d by (auto simp: duplex_def)
  have q: "worker_queue s (disp_worker_queue pr) = Inr (w_rx_queue s)" "disp_worker_queue pr = Some Tmp_Rx"
    using i 1(3) by (simp_all add: worker_queue_def)
  have d0: "duplex v pr (w_qp_next s) (queue_abs (w_rx_queue s) @ []) [] h w" using b(2) by simp
  obtain m pr' h' q' where e: "dispatch_rx_pkts pr h (w_rx_queue s) = Inr (m, pr', h', q')"
    using duplex_dispatch [OF d0] i by blast
  have "length (queue_abs (w_rx_queue s)) + wait_for_disp pr \<le> queue_cap"
    using burst_fits [OF 1(4)] st by (simp add: 1(3) settled_def)
  then have 2: "same_addr h h'" "queue_abs q' = queue_abs (w_rx_queue s) @ rx_slice ?pr (ring_head ?pr) n"
    "pr' = pr\<lparr>ring_head := (ring_head ?pr + n) mod kNumRxRingEntries, wait_for_disp := 0\<rparr>"
    using dispatch_order [OF b(2) _ _ e] i by (simp_all add: 1(3))
  have s1: "s1 = s\<lparr>w_qp_prior := pr', w_heap := h', w_world := w, w_rx_queue := q'\<rparr>"
    using run by (simp add: launch_rx_def b(1) q(1) e) (simp add: q(2) set_worker_queue_def)
  have same: "same_addr (w_heap s) h'" using 1(1) 2(1) by (rule same_addr_trans)
  have "tx_waiting pr' = tx_waiting ?pr" "qp_id pr' = qp_id ?pr" "rx_ring pr' = rx_ring ?pr"
    by (simp_all add: 2(3) 1(3) tx_waiting_def)
  then have "order_step got v s s1 n 0"
    using same ne by (simp add: order_step_def s1 same_ids_def fwd_trace_def back_trace_def fwd_pos_def back_pos_def
        same_logs_nv [OF 1(2)] same_addr_map [OF same] 2(2) 1(5)) (simp add: 2(3))
  then show ?thesis by (auto simp: s1 2(3))
qed

text \<open>A step that only moves packets on: both traces and counts stay.\<close>

lemma order_step_still:
  assumes "same_ids s s'" "same_addr (w_heap s) (w_heap s')" "fwd_trace v s' = fwd_trace v s" "back_trace v s' = back_trace v s"
    "fwd_pos s' = fwd_pos s" "back_pos s' = back_pos s" "\<And>x. got x (w_world s') = got x (w_world s)"
  shows "order_step got v s s' 0 0"
  using assms by (simp add: order_step_def)

lemma worker_collect_order:
  assumes cnt: "rx_counted clk api ctx got" and h: "handler_ok ctx v" "handler_addr ctx" and inv: "soc_inv v s"
    and wait: "wait_for_disp (w_qp_prior s) = 0" and run: "launch_collect (worker_phase ctx s) = Inr s2"
  shows "order_step got v s s2 0 0 \<and> settled s2"
proof -
  note i = inv [unfolded soc_inv_def]
  let ?s = "worker_phase ctx s"
  have w: "same_addr (w_heap s) (w_heap ?s)" "same_logs v (w_world s) (w_world ?s)"
    "queue_abs (w_tx_queue ?s) @ queue_abs (w_rx_queue ?s) = queue_abs (w_rx_queue s)"
    "w_qp_prior ?s = w_qp_prior s" "w_qp_next ?s = w_qp_next s" "queue_wf (w_tx_queue ?s)"
    "length (queue_abs (w_rx_queue ?s)) \<le> kAppRxMsgBatchSize"
    using worker_order [OF h, of s] i by blast+
  obtain m nx q where c: "collect_tx_pkts (w_qp_next s) (w_tx_queue ?s) = (m, nx, q)" by (metis surj_pair)
  have d: "duplex v (w_qp_prior s) (w_qp_next s) (queue_abs (w_rx_queue s)) [] (w_heap s) (w_world s)" using i by blast
  have n: "tx_waiting nx @ queue_abs q = tx_waiting (w_qp_next s) @ queue_abs (w_tx_queue ?s)" "same_rx (w_qp_next s) nx"
    using collect_order [OF d w(6) c] by blast+
  have s2: "s2 = ?s\<lparr>w_qp_next := nx, w_tx_queue := q\<rparr>"
    using run i by (simp add: launch_collect_def worker_queue_def set_worker_queue_def w(5) c)
  have "tx_waiting nx @ queue_abs q @ queue_abs (w_rx_queue ?s) = tx_waiting (w_qp_next s) @ queue_abs (w_rx_queue s)"
    unfolding append_assoc [symmetric] n(1) unfolding append_assoc w(3) ..
  then have "map f (tx_waiting nx) @ map f (queue_abs q) @ map f (queue_abs (w_rx_queue ?s)) =
      map f (tx_waiting (w_qp_next s)) @ map f (queue_abs (w_rx_queue s))" for f :: "ptr \<Rightarrow> u64"
    by (simp flip: map_append)
  moreover have "queue_abs (w_tx_queue s) = []" using i by blast
  ultimately have "order_step got v s s2 0 0"
    using n(2) w(1)
    by (intro order_step_still) (simp_all add: s2 same_ids_def w(4) same_rx_def fwd_trace_def back_trace_def fwd_pos_def
        back_pos_def same_logs_nv [OF w(2)] same_addr_map [OF w(1)] worker_phase_count [OF cnt])
  then show ?thesis using wait w(7) by (simp add: settled_def s2 w(4))
qed

lemma map_sge_addr: "map sg_addr (map (buf_sge h) xs) = map (addr_of h) xs"
  by (simp add: addr_of_def)

lemma flush_next_order:
  assumes cnt: "rx_counted clk api ctx got" and nic: "nic_ok api v (qp_id (w_qp_next s))" and inv: "soc_inv v s"
    and run: "tx_flush api (w_qp_next s) (w_heap s) (w_world s) = Some (Inr (n, nx, h, w))"
  shows "order_step got v s (s\<lparr>w_qp_next := nx, w_heap := h, w_world := w\<rparr>) 0 0"
proof -
  note i = inv [unfolded soc_inv_def]
  have d: "duplex v (w_qp_prior s) (w_qp_next s) (queue_abs (w_rx_queue s)) [] (w_heap s) (w_world s)" using i by blast
  then have ne: "qp_id (w_qp_prior s) \<noteq> qp_id (w_qp_next s)" by (simp add: duplex_def)
  have f: "same_addr (w_heap s) h" "same_rx (w_qp_next s) nx" "tx_waiting nx = []"
    "nv_log v (qp_id (w_qp_next s)) w = nv_log v (qp_id (w_qp_next s)) (w_world s) @ map (buf_sge (w_heap s)) (tx_waiting (w_qp_next s))"
    "nv_log v (qp_id (w_qp_prior s)) w = nv_log v (qp_id (w_qp_prior s)) (w_world s)"
    using flush_order [OF nic d run] ne by blast+
  show ?thesis
    using f(2,1)
    by (intro order_step_still) (simp_all add: same_ids_def same_rx_def fwd_trace_def back_trace_def fwd_pos_def
        back_pos_def f(3-5) map_sge_addr same_addr_map [OF f(1)] tx_flush_count [OF cnt run] del: map_map)
qed

lemma way_back_order:
  assumes cnt: "rx_counted clk api ctx got"
    and nic: "nic_ok api v (qp_id (w_qp_prior s))" "nic_ok api v (qp_id (w_qp_next s))" and inv: "soc_inv v s"
    and run: "bind_exec (rx_burst api (w_qp_next s) (w_heap s) (w_world s)) (\<lambda>(nb_rx, nxt, h, w).
       let (nb_direct_tx, nxt', prior) = direct_tx_burst nxt (w_qp_prior s)
       in bind_exec (tx_flush api prior h w) (\<lambda>(nb_tx, prior', h', w').
            Some (Inr (s\<lparr>w_qp_prior := prior', w_qp_next := nxt', w_heap := h', w_world := w'\<rparr>)))) = Some (Inr s')"
  shows "\<exists>r. order_step got v s s' 0 r \<and> (settled s \<longrightarrow> settled s')"
proof -
  note i = inv [unfolded soc_inv_def]
  let ?m = "queue_abs (w_rx_queue s)" and ?nx = "w_qp_next s" and ?pr = "w_qp_prior s"
  have d0: "duplex v ?nx ?pr [] ?m (w_heap s) (w_world s)" by (rule duplex_sym [THEN iffD1]) (simp add: i)
  then have ne: "qp_id ?pr \<noteq> qp_id ?nx" by (auto simp: duplex_def)
  obtain r nx h w where b: "rx_burst api ?nx (w_heap s) (w_world s) = Some (Inr (int r, nx, h, w))"
    "duplex v nx ?pr [] ?m h w"
    using duplex_rx [OF nic(2) d0] by blast
  obtain x n where 1: "same_addr (w_heap s) h" "same_logs v (w_world s) w"
    "nx = ?nx\<lparr>recv_head := x, wait_for_disp := wait_for_disp ?nx + n\<rparr>"
    "\<And>x. got x w = got x (w_world s) + (if x = qp_id ?nx then n else 0)"
    using rx_order [OF cnt nic(2) d0 b(1)] by blast
  have d1: "duplex v ?pr nx ?m [] h w" using b(2) by (rule duplex_sym [THEN iffD1])
  obtain k pr nx' where t: "direct_tx_burst nx ?pr = (k, nx', pr)" "duplex v pr nx' ?m [] h w"
    using duplex_direct [OF d1] by blast
  obtain y z where 2: "tx_waiting pr @ rx_slice nx' (ring_head nx') (wait_for_disp nx') =
      tx_waiting ?pr @ rx_slice ?nx (ring_head ?nx) (wait_for_disp ?nx + n)"
    "same_rx ?pr pr" "nx' = nx\<lparr>ring_head := y, wait_for_disp := z\<rparr>"
    "(ring_head nx' + wait_for_disp nx') mod kNumRxRingEntries = (ring_head ?nx + (wait_for_disp ?nx + n)) mod kNumRxRingEntries"
    using direct_order [OF d1 t(1)] by (auto simp: 1(3))
  have d2: "duplex v nx' pr [] ?m h w" using t(2) by (rule duplex_sym [THEN iffD1])
  have np: "nic_ok api v (qp_id pr)" and id: "qp_id pr = qp_id ?pr" using nic(1) 2(2) by (simp_all add: same_rx_def)
  obtain j pr' h' w' where f: "tx_flush api pr h w = Some (Inr (j, pr', h', w'))"
    using duplex_flush [OF np d2] by blast
  have 3: "same_addr h h'" "same_rx pr pr'" "tx_waiting pr' = []"
    "nv_log v (qp_id ?pr) w' = nv_log v (qp_id ?pr) (w_world s) @ map (buf_sge h) (tx_waiting pr)"
    "nv_log v (qp_id ?nx) w' = nv_log v (qp_id ?nx) (w_world s)"
    using flush_order [OF np d2 f] ne by (auto simp: id same_logs_nv [OF 1(2)])
  have s': "s' = s\<lparr>w_qp_prior := pr', w_qp_next := nx', w_heap := h', w_world := w'\<rparr>"
    using run by (simp add: b(1) t(1) f)
  have same: "same_addr (w_heap s) h'" using 1(1) 3(1) by (rule same_addr_trans)
  have q: "qp_id pr' = qp_id ?pr" "rx_ring pr' = rx_ring ?pr" "ring_head pr' = ring_head ?pr"
    "qp_id nx' = qp_id ?nx" "rx_ring nx' = rx_ring ?nx" "tx_waiting nx' = tx_waiting ?nx"
    "wait_for_disp pr' = wait_for_disp ?pr"
    using 2(2) 3(2) by (simp_all add: same_rx_def 2(3) 1(3) tx_waiting_def)
  let ?A = "addr_of (w_heap s)"
  have "back_trace v s' = map sg_addr (nv_log v (qp_id ?pr) (w_world s)) @
      map ?A (tx_waiting pr @ rx_slice nx' (ring_head nx') (wait_for_disp nx'))"
    by (simp add: s' back_trace_def q 3(3,4) map_sge_addr same_addr_map [OF same] same_addr_map [OF 1(1)] del: map_map)
  also have "\<dots> = back_trace v s @ map ?A (rx_slice ?nx (back_pos s) n)"
    unfolding 2(1) by (simp add: back_trace_def back_pos_def ring_slice_append)
  finally have "back_trace v s' = back_trace v s @ map ?A (rx_slice ?nx (back_pos s) n)" .
  moreover have "fwd_trace v s' = fwd_trace v s"
    by (simp add: s' fwd_trace_def q 3(5) same_addr_map [OF same])
  moreover have "same_ids s s'" "fwd_pos s' = fwd_pos s" by (simp_all add: s' same_ids_def q fwd_pos_def)
  moreover have "back_pos s' mod kNumRxRingEntries = (back_pos s + n) mod kNumRxRingEntries"
    using 2(4) by (simp add: s' back_pos_def add.assoc)
  moreover have "got x w' = got x w" for x by (rule tx_flush_count [OF cnt f])
  ultimately have "order_step got v s s' 0 n"
    using same ne by (simp add: order_step_def s' 1(4))
  moreover have "settled s \<longrightarrow> settled s'" by (simp add: settled_def s' q(7))
  ultimately show ?thesis by blast
qed

lemma launch_order:
  assumes cnt: "rx_counted clk api ctx got"
    and env: "soc_env api ctx v (qp_id (w_qp_prior s)) (qp_id (w_qp_next s))" and addr: "handler_addr ctx"
    and inv: "soc_inv v s" and st: "settled s" and run: "launch api ctx s = Some (Inr s')"
  shows "\<exists>k r. order_step got v s s' k r \<and> settled s'"
proof -
  have e: "nic_ok api v (qp_id (w_qp_prior s))" "nic_ok api v (qp_id (w_qp_next s))" "handler_ok ctx v"
    using env by (simp_all add: soc_env_def)
  obtain s1 where 1: "launch_rx api s = Some (Inr s1)" "soc_inv v s1" "same_ids s s1"
    using launch_rx_keeps [OF e(1) inv] by blast
  obtain k where o1: "order_step got v s s1 k 0" "wait_for_disp (w_qp_prior s1) = 0"
    using launch_rx_order [OF cnt e(1) inv st 1(1)] by blast
  obtain s2 where 2: "launch_collect (worker_phase ctx s1) = Inr s2" "soc_inv v s2" "same_ids s1 s2"
    using worker_collect_keeps [OF e(3) 1(2)] by blast
  have o2: "order_step got v s1 s2 0 0" "settled s2"
    using worker_collect_order [OF cnt e(3) addr 1(2) o1(2) 2(1)] by simp_all
  have n2: "nic_ok api v (qp_id (w_qp_next s2))" using e(2) 1(3) 2(3) by (simp add: same_ids_def)
  obtain s3 where 3: "(if tx_queue_idx (w_qp_next s2) \<ge> kTxBatchSize
        then bind_exec (tx_flush api (w_qp_next s2) (w_heap s2) (w_world s2)) (\<lambda>(n, nxt, h, w).
               Some (Inr (s2\<lparr>w_qp_next := nxt, w_heap := h, w_world := w\<rparr>)))
        else Some (Inr s2)) = Some (Inr s3)" "soc_inv v s3" "order_step got v s2 s3 0 0" "settled s3"
  proof (cases "tx_queue_idx (w_qp_next s2) \<ge> kTxBatchSize")
    case True
    obtain n nx h w where "tx_flush api (w_qp_next s2) (w_heap s2) (w_world s2) = Some (Inr (n, nx, h, w))"
      "soc_inv v (s2\<lparr>w_qp_next := nx, w_heap := h, w_world := w\<rparr>)"
      using flush_next_keeps [OF n2 2(2)] by blast
    with True flush_next_order [OF cnt n2 2(2) this(1)] o2(2) show thesis
      by (intro that [of "s2\<lparr>w_qp_next := nx, w_heap := h, w_world := w\<rparr>"]) (simp_all add: settled_def)
  next
    case False
    with 2(2) o2(2) show thesis by (intro that [of s2]) (simp_all add: order_step_refl)
  qed
  have "same_ids s2 s3" using 3(3) by (simp add: order_step_def)
  then have n3: "nic_ok api v (qp_id (w_qp_prior s3))" "nic_ok api v (qp_id (w_qp_next s3))"
    using e(1,2) 1(3) 2(3) by (simp_all add: same_ids_def)
  have "bind_exec (rx_burst api (w_qp_next s3) (w_heap s3) (w_world s3)) (\<lambda>(nb_rx, nxt, h, w).
       let (nb_direct_tx, nxt', prior) = direct_tx_burst nxt (w_qp_prior s3)
       in bind_exec (tx_flush api prior h w) (\<lambda>(nb_tx, prior', h', w').
            Some (Inr (s3\<lparr>w_qp_prior := prior', w_qp_next := nxt', w_heap := h', w_world := w'\<rparr>)))) = Some (Inr s')"
    using run unfolding launch_def 1(1) bind_exec_simps 2(1) 3(1) .
  from way_back_order [OF cnt n3 3(2) this] 3(4) obtain r where "order_step got v s3 s' 0 r" "settled s'" by blast
  with order_step_trans [OF order_step_trans [OF order_step_trans [OF o1(1) o2(1)] 3(3)] this(1)] show ?thesis by auto
qed

subsection \<open>The thread\<close>

lemma read_tsc_order:
  assumes "rx_counted clk api ctx got" "clock_ok clk v" "read_tsc clk s = (t, s')"
  shows "order_step got v s s' 0 0 \<and> (settled s \<longrightarrow> settled s')"
proof -
  obtain w where r: "rdtsc clk (w_world s) = (t, w)" "s' = s\<lparr>w_world := w\<rparr>"
    using assms(3) by (auto simp: read_tsc_def split: prod.splits)
  then have "nic_idle v (w_world s) w" using clock_okD [OF assms(2)] by blast
  with r(2) have "order_step got v s s' 0 0"
    by (intro order_step_still) (simp_all add: same_ids_def fwd_trace_def back_trace_def fwd_pos_def back_pos_def
        nic_idle_def rx_counted_calls(5) [OF assms(1) r(1)])
  then show ?thesis by (simp add: r(2) settled_def)
qed

lemma run_tick_order:
  assumes cnt: "rx_counted clk api ctx got"
    and env: "soc_env api ctx v (qp_id (w_qp_prior s)) (qp_id (w_qp_next s))" and addr: "handler_addr ctx"
    and clk: "clock_ok clk v" and inv: "soc_inv v s" and st: "settled s"
    and run: "run_tick clk api ctx iv lt0 s = Some (Inr (lt, s'))"
  shows "\<exists>k r. order_step got v s s' k r \<and> settled s'"
proof -
  obtain t s1 where 1: "read_tsc clk s = (t, s1)" "soc_inv v s1" "same_ids s s1"
    using read_tsc_keeps [OF clk inv] by metis
  have o1: "order_step got v s s1 0 0" "settled s1" using read_tsc_order [OF cnt clk 1(1)] st by simp_all
  show ?thesis
  proof (cases "t - lt0 > iv")
    case False
    with run 1(1) have "s' = s1" by (simp add: run_tick_def)
    with o1 show ?thesis by blast
  next
    case True
    obtain t2 s2 where 2: "read_tsc clk s1 = (t2, s2)" "soc_inv v s2" "same_ids s1 s2"
      using read_tsc_keeps [OF clk 1(2)] by metis
    have o2: "order_step got v s s2 0 0" "settled s2"
      using read_tsc_order [OF cnt clk 2(1)] o1(2) order_step_trans [OF o1(1), of s2 0 0] by simp_all
    have "launch api ctx s2 = Some (Inr s')"
      using run True by (auto simp: run_tick_def 1(1) 2(1) bind_exec_eq_Inr)
    from launch_order [OF cnt soc_env_same [OF same_ids_trans [OF 1(3) 2(3)] env] addr 2(2) o2(2) this]
    obtain k r where "order_step got v s2 s' k r" "settled s'" by blast
    with order_step_trans [OF o2(1) this(1)] show ?thesis by blast
  qed
qed

lemma event_loop_order:
  assumes cnt: "rx_counted clk api ctx got"
    and "soc_env api ctx v (qp_id (w_qp_prior s)) (qp_id (w_qp_next s))" and addr: "handler_addr ctx"
    and clk: "clock_ok clk v" and adv: "clock_advances clk v start timeout" and "soc_inv v s" "settled s"
  shows "\<exists>s' k r. event_loop clk api ctx iv timeout start lt s = Some (Inr s') \<and> order_step got v s s' k r"
  using assms(2,6,7)
proof (induction "nv_left v (w_world s)" arbitrary: lt s rule: less_induct)
  case less
  obtain lt1 s1 where 1: "run_tick clk api ctx iv lt s = Some (Inr (lt1, s1))" "soc_inv v s1"
    "nv_left v (w_world s1) \<le> nv_left v (w_world s)" "same_ids s s1"
    using run_tick_keeps [OF less.prems(1) clk less.prems(2)] by blast
  obtain k r where o1: "order_step got v s s1 k r" "settled s1"
    using run_tick_order [OF cnt less.prems(1) addr clk less.prems(2,3) 1(1)] by blast
  obtain t s2 where 2: "read_tsc clk s1 = (t, s2)" "rdtsc clk (w_world s1) = (t, w_world s2)" "soc_inv v s2"
    "same_ids s1 s2"
    using read_tsc_keeps [OF clk 1(2)] by metis
  have o2: "order_step got v s s2 k r" "settled s2"
    using read_tsc_order [OF cnt clk 2(1)] o1(2) order_step_trans [OF o1(1), of s2 0 0] by simp_all
  have step: "event_loop clk api ctx iv timeout start lt s =
      (if t - start > timeout then Some (Inr s2) else event_loop clk api ctx iv timeout start lt1 s2)"
    by (subst event_loop.simps) (simp add: 1(1) 2(1))
  show ?case
  proof (cases "t - start > timeout")
    case True
    with step o2(1) show ?thesis by auto
  next
    case False
    have "case rdtsc clk (w_world s1) of (t, w') \<Rightarrow> t - start > timeout \<or> nv_left v w' < nv_left v (w_world s1)"
      using adv by (simp add: clock_advances_def)
    with False 2(2) 1(3) have "nv_left v (w_world s2) < nv_left v (w_world s)" by simp
    from less.hyps [OF this soc_env_same [OF same_ids_trans [OF 1(4) 2(4)] less.prems(1)] 2(3) o2(2), of lt1]
    obtain s3 k' r' where "event_loop clk api ctx iv timeout start lt1 s2 = Some (Inr s3)" "order_step got v s2 s3 k' r'"
      by blast
    with step False order_step_trans [OF o2(1) this(2)] show ?thesis by auto
  qed
qed

text \<open>The wrapper as the constructor leaves it, on queue pairs that are ready.\<close>

lemma new_wrapper_traces:
  fixes s :: "('u, 'w) SoCWrapper"
  assumes "datapath_ready q1 h" "datapath_ready q2 h" "init_ok ctx v"
    and new: "new_SoCWrapper ctx kSoC_Dispatcher (RDMA_SoC_QP.truncate q1) (RDMA_SoC_QP.truncate q2) h w = Inr s"
  shows "fwd_trace v s = map sg_addr (nv_log v (qp_id q2) w) \<and> back_trace v s = map sg_addr (nv_log v (qp_id q1) w) \<and>
    fwd_pos s = 0 \<and> back_pos s = 0 \<and> rx_ring (w_qp_prior s) = rx_ring q1 \<and> rx_ring (w_qp_next s) = rx_ring q2 \<and>
    settled s"
proof -
  define s0 :: "('u, 'w) SoCWrapper" where "s0 = \<lparr>w_type = kSoC_Dispatcher,
      w_qp_prior = (RDMA_SoC_QP.truncate q1)\<lparr>disp_worker_queue := Some Tmp_Rx\<rparr>,
      w_qp_next = (RDMA_SoC_QP.truncate q2)\<lparr>collect_worker_queue := Some Tmp_Tx\<rparr>, w_rx_queue = new_soc_queue,
      w_tx_queue = new_soc_queue, w_user = None, w_user_size = 0, w_heap = h, w_world = w\<rparr>"
  have s: "s = call_init_handler ctx s0"
    using new by (simp add: new_SoCWrapper_def init_dispatcher_def s0_def)
  have "\<exists>u n h' w'. s = s0\<lparr>w_user := u, w_user_size := n, w_heap := h', w_world := w'\<rparr> \<and> nic_idle v w w'"
  proof (cases "init_handler ctx")
    case None
    then have "s = s0\<lparr>w_user := w_user s0, w_user_size := w_user_size s0, w_heap := w_heap s0, w_world := w_world s0\<rparr>"
      by (simp add: s call_init_handler_def s0_def)
    moreover have "nic_idle v w (w_world s0)" by (simp add: s0_def)
    ultimately show ?thesis by blast
  next
    case (Some g)
    obtain st sz h' w' where g: "g h w = ((st, sz), h', w')" by (metis surj_pair)
    have "\<forall>h w. case g h w of (u, h', w') \<Rightarrow> heap_step {} h h' \<and> nic_idle v w w'"
      using assms(3) by (simp add: init_ok_def Some)
    from spec [OF spec [OF this, of h], of w] g have "nic_idle v w w'" by simp
    moreover have "w_heap s0 = h" "w_world s0 = w" by (simp_all add: s0_def)
    ultimately show ?thesis using Some g by (auto simp: s call_init_handler_def)
  qed
  then obtain u n h' w' where 1: "s = s0\<lparr>w_user := u, w_user_size := n, w_heap := h', w_world := w'\<rparr>" "nic_idle v w w'" by blast
  have "queue_abs new_soc_queue = []" using new_soc_queue_wf by blast
  then show ?thesis
    using assms(1,2) 1(2)
    by (simp add: 1(1)) (simp add: s0_def settled_def fwd_trace_def back_trace_def fwd_pos_def back_pos_def tx_waiting_def
        datapath_ready_def nic_idle_def)
qed

text \<open>
  The first \<open>k\<close> packets received on a ring: receives complete in the order they are posted, so these
  are its slots from the first one on, over and over.
\<close>

definition arrivals :: "ptr list \<Rightarrow> nat \<Rightarrow> ptr list" where
  "arrivals ring k = ring_slice kNumRxRingEntries 0 k ((!) ring)"

subsection \<open>Property\<close>

text \<open>
  C2. The thread of a SoC block loses, repeats and reorders no packet: when the NIC has reported
  exactly \<open>k\<close> packets from the prior hop and \<open>j\<close> from the next hop during the run, then what it has sent
  to the next hop, followed by what is on the way to it, is what was sent before followed by the
  first \<open>k\<close> packets received from the prior hop, all of them, in the order of their reception; what
  it has sent to the prior hop, followed by what waits for it, is what was sent before followed
  by the first \<open>j\<close> packets received from the next hop.
\<close>

theorem soc_thread_in_order:
  assumes "datapath_ready q1 h" "datapath_ready q2 h" "spaced kRecvMbufSize (rx_addrs q1 h @ rx_addrs q2 h)"
      "qp_id q1 \<noteq> qp_id q2" "nic_fresh v (qp_id q1) w" "nic_fresh v (qp_id q2) w"
    and "soc_env api ctx v (qp_id q1) (qp_id q2)" "init_ok ctx v" "handler_addr ctx" "clock_ok clk v"
      "rx_counted clk api ctx got"
    and "new_SoCWrapper ctx kSoC_Dispatcher (RDMA_SoC_QP.truncate q1) (RDMA_SoC_QP.truncate q2) h w = Inr s0"
    and "measure_rdtsc_freq clk = Inr f" "rdtsc clk (w_world s0) = (start, w2)"
      "clock_advances clk v start (ten_seconds clk f)"
  shows "\<exists>s k j. soc_wrapper_thread clk api ctx kSoC_Dispatcher (RDMA_SoC_QP.truncate q1) (RDMA_SoC_QP.truncate q2) h w
      = Some (Inr s) \<and>
    got (qp_id q1) (w_world s) = got (qp_id q1) (w_world s0) + k \<and>
    got (qp_id q2) (w_world s) = got (qp_id q2) (w_world s0) + j \<and>
    fwd_trace v s = map sg_addr (nv_log v (qp_id q2) w) @ map (addr_of (w_heap s0)) (arrivals (rx_ring q1) k) \<and>
    back_trace v s = map sg_addr (nv_log v (qp_id q1) w) @ map (addr_of (w_heap s0)) (arrivals (rx_ring q2) j)"
proof -
  have "tx_queue_idx (RDMA_SoC_QP.truncate q1) = 0" using assms(1) by (simp add: datapath_ready_def)
  from new_wrapper_inv [OF ready_duplex [OF assms(1-6)] this assms(8,12)]
  have i0: "soc_inv v s0" "qp_id (w_qp_prior s0) = qp_id q1" "qp_id (w_qp_next s0) = qp_id q2" by simp_all
  note n0 = new_wrapper_traces [OF assms(1,2,8,12)]
  have rd: "read_tsc clk s0 = (start, s0\<lparr>w_world := w2\<rparr>)" by (simp add: read_tsc_def assms(14))
  have o1: "order_step got v s0 (s0\<lparr>w_world := w2\<rparr>) 0 0" "settled (s0\<lparr>w_world := w2\<rparr>)"
    using read_tsc_order [OF assms(11,10) rd] n0 by simp_all
  have i2: "soc_inv v (s0\<lparr>w_world := w2\<rparr>)" by (rule soc_inv_quiet [OF i0(1) clock_okD [OF assms(10,14)]])
  have e0: "soc_env api ctx v (qp_id (w_qp_prior (s0\<lparr>w_world := w2\<rparr>))) (qp_id (w_qp_next (s0\<lparr>w_world := w2\<rparr>)))"
    using assms(7) i0(2,3) by simp
  obtain s k r where e: "event_loop clk api ctx (us_to_cycles (fp_round clk) 1 f) (ten_seconds clk f) start start (s0\<lparr>w_world := w2\<rparr>)
      = Some (Inr s)" "order_step got v (s0\<lparr>w_world := w2\<rparr>) s k r"
    using event_loop_order [OF assms(11) e0 assms(9,10,15) i2 o1(2)] by blast
  have "soc_wrapper_thread clk api ctx kSoC_Dispatcher (RDMA_SoC_QP.truncate q1) (RDMA_SoC_QP.truncate q2) h w = Some (Inr s)"
    using e(1) by (simp add: soc_wrapper_thread_def assms(12) run_wrapper_def assms(13) rd ten_seconds_def)
  moreover have "order_step got v s0 s k r" using order_step_trans [OF o1(1) e(2)] by simp
  moreover note n0
  ultimately show ?thesis using i0(2,3) by (auto simp: order_step_def arrivals_def)
qed

text \<open>
  The example of \<open>SocRun\<close>: its NIC counts the packets it has delivered, and its thread sends what it
  receives, in order.
\<close>

lemma loop_counted: "rx_counted loop_clock loop_api loop_ctx (\<lambda>q w. dw_got w q)"
  by (simp add: rx_counted_def loop_clock_def loop_api_def loop_ctx_def Let_def)

lemma soc_thread_in_order_witness:
  "\<exists>s k j. soc_wrapper_thread loop_clock loop_api loop_ctx kSoC_Dispatcher loop_prior loop_next loop_heap loop_world
     = Some (Inr s) \<and> dw_got (w_world s) 1 = k \<and> dw_got (w_world s) 2 = j \<and>
     fwd_trace loop_view s = map (addr_of loop_heap) (arrivals (rx_ring loop_prior) k) \<and>
     back_trace loop_view s = map (addr_of loop_heap) (arrivals (rx_ring loop_next) j)"
proof -
  obtain s0 where s: "new_SoCWrapper loop_ctx kSoC_Dispatcher loop_prior loop_next loop_heap loop_world = Inr s0"
    "w_world s0 = loop_world"
    using loop_start by blast
  have h: "w_heap s0 = loop_heap"
    using s(1) by (auto simp: new_SoCWrapper_def init_dispatcher_def call_init_handler_def loop_ctx_def)
  have r: "rdtsc loop_clock (w_world s0) = (0, loop_world\<lparr>dw_reads := 1\<rparr>)"
    by (simp add: loop_clock_def s(2)) (simp add: loop_world_def)
  have a: "handler_addr loop_ctx" by (simp add: handler_addr_def loop_ctx_def)
  have log: "nv_log loop_view q loop_world = []" "dw_got loop_world q = 0" for q
    by (simp_all add: loop_view_def loop_world_def)
  from soc_thread_in_order [OF loop_ready(1,2) loop_rings_spaced loop_ready(3,4,4) loop_env loop_clock_ok(2) a
      loop_clock_ok(1) loop_counted s(1) [unfolded loop_prior_def loop_next_def] loop_seconds(1) r loop_clock_ok(3)]
  show ?thesis unfolding loop_prior_def loop_next_def h log s(2) truncate_fields by simp
qed

end
