(* ===== verification/SocEcho.thy ===== *)
theory SocEcho
  imports SocRun
begin

text \<open>
  The SoC kernel of the example application \<open>examples/soc_echo/src/soc_kernel.cc\<close>: its state and
  its four handlers, as an instance of the handlers the wrapper calls, and what the event loop
  does with them.

  The state is the user state of the wrapper. \<open>packet_bytes\<close> is a parameter that reads the memory
  behind buffers; \<open>rnd\<close> is the rounding of \<open>Doubles\<close>. The counter is an \<open>int\<close> of 32 bits.
\<close>

record MyAppState =
  message_counter :: u32
  processing_buffer :: "u8 list"
  processing_time_sum :: real
  app_is_initialized :: bool

definition new_MyAppState :: MyAppState where
  "new_MyAppState = \<lparr>message_counter = 0, processing_buffer = replicate 1024 0, processing_time_sum = 0,
     app_is_initialized = False\<rparr>"

text \<open>An \<open>int\<close>, 1024 bytes, a \<open>double\<close> and a \<open>bool\<close>, aligned to 8 bytes.\<close>

definition sizeof_MyAppState :: nat where "sizeof_MyAppState = 1048"

definition soc_init_handler :: "heap \<Rightarrow> 'w \<Rightarrow> (MyAppState option \<times> nat) \<times> heap \<times> 'w" where
  "soc_init_handler h w =
     (let state = new_MyAppState;
          state = state\<lparr>message_counter := 0\<rparr>;
          state = state\<lparr>processing_time_sum := 0\<rparr>;
          state = state\<lparr>app_is_initialized := True\<rparr>
      in ((Some state, sizeof_MyAppState), h, w))"

text \<open>The state is freed; the wrapper then forgets it.\<close>

definition soc_cleanup_handler :: "MyAppState option \<Rightarrow> heap \<Rightarrow> 'w \<Rightarrow> heap \<times> 'w" where
  "soc_cleanup_handler user_state h w = (h, w)"

text \<open>
  A message that is not a live buffer is undefined behaviour after the counter; the loop never
  passes one (\<open>lane_live\<close>).
\<close>

definition soc_msg_handler ::
  "(real \<Rightarrow> real) \<Rightarrow> (nat \<Rightarrow> nat \<Rightarrow> 'w \<Rightarrow> u8 list) \<Rightarrow> ptr \<Rightarrow> MyAppState option \<Rightarrow> heap \<Rightarrow> 'w \<Rightarrow>
   nicc_retval_t \<times> MyAppState option \<times> heap \<times> 'w" where
  "soc_msg_handler rnd packet_bytes msg user_state h w =
     (case user_state of None \<Rightarrow> (NICC_ERROR, user_state, h, w)
      | Some state \<Rightarrow>
          if \<not> app_is_initialized state then (NICC_ERROR, user_state, h, w)
          else let state = state\<lparr>message_counter := message_counter state + 1\<rparr>
               in case Option.bind msg h of None \<Rightarrow> (NICC_ERROR, Some state, h, w)
                  | Some b \<Rightarrow>
                      let n = unat (b_length b);
                          state = (if n < length (processing_buffer state)
                                   then state\<lparr>processing_buffer := packet_bytes (get_buf b) n w @ drop n (processing_buffer state)\<rparr>
                                   else state);
                          state = state\<lparr>processing_time_sum := rnd (processing_time_sum state + rnd (1 / 1000))\<rparr>
                      in (NICC_SUCCESS, Some state, h, w))"

text \<open>The wrapper never calls the packet handler.\<close>

definition soc_pkt_handler ::
  "ptr \<Rightarrow> MyAppState option \<Rightarrow> heap \<Rightarrow> 'w \<Rightarrow> nicc_retval_t \<times> MyAppState option \<times> heap \<times> 'w" where
  "soc_pkt_handler pkt user_state h w =
     (case user_state of None \<Rightarrow> (NICC_ERROR, user_state, h, w) | Some state \<Rightarrow> (NICC_SUCCESS, user_state, h, w))"

definition soc_echo_context ::
  "(real \<Rightarrow> real) \<Rightarrow> (nat \<Rightarrow> nat \<Rightarrow> 'w \<Rightarrow> u8 list) \<Rightarrow> (MyAppState, 'w) SoCWrapperContext" where
  "soc_echo_context rnd packet_bytes = \<lparr>init_handler = Some soc_init_handler,
     msg_handler = Some (soc_msg_handler rnd packet_bytes), cleanup_handler = Some soc_cleanup_handler\<rparr>"

subsection \<open>The handlers keep to the rules of the datapath\<close>

lemma soc_msg_handler_quiet: "snd (snd (soc_msg_handler rnd pb m u h w)) = (h, w)"
  by (simp add: soc_msg_handler_def Let_def split: option.split)

lemma echo_handler_ok: "handler_ok (soc_echo_context rnd pb) v"
proof -
  have "case soc_msg_handler rnd pb m u h w of (ret, u', h', w') \<Rightarrow> heap_step {} h h' \<and> nic_idle v w w'" for m u h w
    using soc_msg_handler_quiet [of rnd pb m u h w] by (auto split: prod.split)
  then show ?thesis by (simp add: handler_ok_def soc_echo_context_def)
qed

lemma echo_init_ok: "init_ok (soc_echo_context rnd pb) v"
  by (simp add: init_ok_def soc_echo_context_def soc_init_handler_def)

subsection \<open>Counting\<close>

text \<open>The wrapper starts with a fresh state, and every message the worker takes is counted.\<close>

definition echo_counted :: "u32 \<Rightarrow> (MyAppState, 'w) SoCWrapper \<Rightarrow> bool" where
  "echo_counted n s \<longleftrightarrow> (\<exists>st. w_user s = Some st \<and> app_is_initialized st \<and> message_counter st = n \<and>
     length (processing_buffer st) = 1024)"

lemma echo_starts:
  "new_SoCWrapper (soc_echo_context rnd pb) type p n h w = Inr s \<Longrightarrow> echo_counted 0 s"
  by (auto simp: new_SoCWrapper_def call_init_handler_def soc_echo_context_def soc_init_handler_def new_MyAppState_def
      echo_counted_def init_dispatcher_def init_worker_def Let_def split: if_splits)

lemma echo_worker_one:
  assumes "\<And>a k w. length (pb a k w) = k" "echo_counted n s"
  shows "echo_counted (n + 1) (worker_one (soc_echo_context rnd pb) s)"
proof -
  obtain st where st: "w_user s = Some st" "app_is_initialized st" "message_counter st = n"
      "length (processing_buffer st) = 1024"
    using assms(2) by (auto simp: echo_counted_def)
  obtain m q where "dequeue (w_rx_queue s) = (m, q)" by (cases "dequeue (w_rx_queue s)")
  then show ?thesis
    using st assms(1)
    by (auto simp: worker_one_def soc_echo_context_def soc_msg_handler_def echo_counted_def Let_def split: option.split)
qed

lemma echo_worker_loop:
  assumes "\<And>a k w. length (pb a k w) = k" "echo_counted n s"
  shows "echo_counted (n + of_nat k) (worker_loop (soc_echo_context rnd pb) k s)"
  using assms(2)
proof (induction k arbitrary: n s)
  case (Suc k)
  from Suc.IH [OF echo_worker_one [OF assms(1) Suc.prems, of rnd]] show ?case by (simp add: add.assoc)
qed simp

lemma echo_worker_phase:
  assumes "\<And>a k w. length (pb a k w) = k" "queue_wf (w_rx_queue s)" "echo_counted n s"
  defines "k \<equiv> length (queue_abs (w_rx_queue s))"
  shows "echo_counted (if k > kAppRxMsgBatchSize then n + of_nat k else n) (worker_phase (soc_echo_context rnd pb) s)"
  using get_size_count [OF assms(2)] echo_worker_loop [OF assms(1,3), of k rnd] assms(3)
  by (simp add: worker_phase_def k_def Let_def)

text \<open>
  The thread of the example, composed with the lemmas on the event loop: on queue pairs as the
  channel leaves them it returns, with all buffers accounted for and its state still its own.
\<close>

lemma soc_echo_thread:
  assumes ready: "datapath_ready q1 h" "datapath_ready q2 h" "spaced kRecvMbufSize (rx_addrs q1 h @ rx_addrs q2 h)"
      "qp_id q1 \<noteq> qp_id q2" "nic_fresh v (qp_id q1) w" "nic_fresh v (qp_id q2) w"
    and nic: "nic_ok api v (qp_id q1)" "nic_ok api v (qp_id q2)" "clock_ok clk v"
    and new: "new_SoCWrapper (soc_echo_context rnd pb) kSoC_Dispatcher (RDMA_SoC_QP.truncate q1) (RDMA_SoC_QP.truncate q2) h w = Inr s0"
    and start: "measure_rdtsc_freq clk = Inr f" "rdtsc clk (w_world s0) = (start, w2)"
      "clock_advances clk v start (ten_seconds clk f)"
  shows "\<exists>s. soc_wrapper_thread clk api (soc_echo_context rnd pb) kSoC_Dispatcher (RDMA_SoC_QP.truncate q1)
      (RDMA_SoC_QP.truncate q2) h w = Some (Inr s) \<and> soc_inv v s"
proof -
  have env: "soc_env api (soc_echo_context rnd pb) v (qp_id q1) (qp_id q2)"
    using nic by (simp add: soc_env_def echo_handler_ok)
  from soc_thread_result [OF ready env echo_init_ok nic(3) new start] show ?thesis by blast
qed

end
