(* ===== verification/DpaMemory.thy ===== *)
theory DpaMemory
  imports Channel
begin

text \<open>
  Device memory of the DPA channel: the queue descriptors shared with the device
  (\<open>lib/common/dpa_queue.h\<close>) and the operations of \<open>Channel_DPA\<close>
  (\<open>runtime/src/datapath/channel_impl/dpa_channel.cc\<close>) that allocate and free doorbell records,
  rings and data buffers.

  The FlexIO driver is a parameter over the state \<open>'w\<close> of the device. A call with an output
  argument takes the old value of the location and returns the value it leaves there; the status
  is true for \<open>FLEXIO_STATUS_SUCCESS\<close>. Device addresses are 64-bit words, driver objects are
  pointers. The contents copied to the device are values of \<open>host_data\<close>.
\<close>

unbundle bit_operations_syntax

subsection \<open>Queue descriptors\<close>

definition DPA_LOG_SQ_RING_DEPTH :: nat where "DPA_LOG_SQ_RING_DEPTH = 7"
definition DPA_LOG_RQ_RING_DEPTH :: nat where "DPA_LOG_RQ_RING_DEPTH = 7"
definition DPA_LOG_CQ_RING_DEPTH :: nat where "DPA_LOG_CQ_RING_DEPTH = 7"
definition DPA_LOG_WQ_DATA_ENTRY_BSIZE :: nat where "DPA_LOG_WQ_DATA_ENTRY_BSIZE = 10"
definition DPA_LOG_WQE_BSIZE :: nat where "DPA_LOG_WQE_BSIZE = 6"

lemmas dpa_const_defs = DPA_LOG_SQ_RING_DEPTH_def DPA_LOG_RQ_RING_DEPTH_def
  DPA_LOG_CQ_RING_DEPTH_def DPA_LOG_WQ_DATA_ENTRY_BSIZE_def DPA_LOG_WQE_BSIZE_def

record dpa_cq =
  cq_num :: u32
  log_cq_depth :: u32
  cq_ring_daddr :: u64
  cq_dbr_daddr :: u64

record dpa_eth_wq =
  wq_num :: u32
  wqd_mkey_id :: u32
  wq_ring_daddr :: u64
  wq_dbr_daddr :: u64
  wqd_daddr :: u64

record dpa_qp =
  qp_num :: u32
  qpd_mkey_id :: u32
  qp_reserved :: u32
  log_qp_sq_depth :: u32
  log_qp_rq_depth :: u32
  sq_ci_idx :: u32
  rq_ci_idx :: u32
  sq_pi_idx :: u32
  rq_pi_idx :: u32
  qpd_lkey :: u64
  qp_dbr_daddr :: u64
  qp_sq_daddr :: u64
  qp_rq_daddr :: u64
  qpd_daddr :: u64

record dpa_data_queues =
  dq_type :: channel_typeid_t
  rq_cq_data :: dpa_cq
  sq_cq_data :: dpa_cq
  rq_data :: dpa_eth_wq
  sq_data :: dpa_eth_wq
  qp_data :: dpa_qp

definition zero_cq :: dpa_cq where
  "zero_cq = \<lparr>cq_num = 0, log_cq_depth = 0, cq_ring_daddr = 0, cq_dbr_daddr = 0\<rparr>"

definition zero_wq :: dpa_eth_wq where
  "zero_wq = \<lparr>wq_num = 0, wqd_mkey_id = 0, wq_ring_daddr = 0, wq_dbr_daddr = 0, wqd_daddr = 0\<rparr>"

definition zero_qp :: dpa_qp where
  "zero_qp = \<lparr>qp_num = 0, qpd_mkey_id = 0, qp_reserved = 0, log_qp_sq_depth = 0, log_qp_rq_depth = 0,
     sq_ci_idx = 0, rq_ci_idx = 0, sq_pi_idx = 0, rq_pi_idx = 0, qpd_lkey = 0, qp_dbr_daddr = 0,
     qp_sq_daddr = 0, qp_rq_daddr = 0, qpd_daddr = 0\<rparr>"

definition zero_queues :: dpa_data_queues where
  "zero_queues = \<lparr>dq_type = UNKONW_TYPE, rq_cq_data = zero_cq, sq_cq_data = zero_cq,
     rq_data = zero_wq, sq_data = zero_wq, qp_data = zero_qp\<rparr>"

text \<open>\<open>sizeof(struct dpa_data_queues)\<close>: 8 + 2 * 24 + 2 * 32 + 80.\<close>

definition sizeof_data_queues :: u64 where "sizeof_data_queues = 200"

subsection \<open>The driver\<close>

text \<open>\<open>struct mlx5_wqe_data_seg\<close>, 16 bytes, its fields in host order.\<close>

record wqe_data_seg =
  seg_byte_count :: u32
  seg_lkey :: u32
  seg_addr :: u64

definition sizeof_data_seg :: u64 where "sizeof_data_seg = 16"

datatype host_data =
    Dbr "u32 list"
  | Cqes "nat list"                      \<comment> \<open>owner bits of zeroed 64-byte entries\<close>
  | Wqes "wqe_data_seg list"
  | Data_Queues dpa_data_queues

datatype cq_element = FLEXIO_CQ_ELEMENT_TYPE_NON_DPA_CQ | FLEXIO_CQ_ELEMENT_TYPE_DPA_THREAD

record flexio_cq_attr =
  ca_log_cq_depth :: nat
  ca_element_type :: cq_element
  ca_thread :: ptr
  ca_uar_id :: u32
  ca_cq_dbr_daddr :: u64
  ca_cq_ring_daddr :: u64

record flexio_wq_attr =
  wa_log_wq_depth :: nat
  wa_uar_id :: u32
  wa_pd :: nat
  wa_ring_daddr :: u64
  wa_dbr_daddr :: u64

record flexio_qp_attr =
  fa_log_sq_depth :: nat
  fa_log_rq_depth :: nat
  fa_wq_buff_daddr :: u64
  fa_wq_dbr_daddr :: u64
  fa_uar_id :: u32
  fa_rq_cqn :: u32
  fa_sq_cqn :: u32
  fa_pd :: nat
  fa_access :: "ibv_access set"

datatype flexio_mtu = MTU_BYTES_1K | MTU_BYTES_2K | MTU_BYTES_4K
datatype flexio_qp_state = QP_STATE_INIT | QP_STATE_RTR | QP_STATE_RTS

record flexio_qp_modify_attr =
  ma_remote_qp_num :: u32
  ma_dest_mac :: "u8 list"
  ma_rgid :: "u8 list"
  ma_gid_table_index :: u8
  ma_rlid :: u16
  ma_path_mtu :: "flexio_mtu option"
  ma_min_rnr_nak_timer :: nat
  ma_retry_count :: nat
  ma_udp_sport :: nat
  ma_access :: "ibv_access set"
  ma_next_state :: flexio_qp_state

record flexio_mkey_attr =
  mk_pd :: nat
  mk_daddr :: u64
  mk_len :: u64
  mk_access :: "ibv_access set"

record 'w flexio_api =
  host_calloc :: "'w \<Rightarrow> bool"
  buf_dev_alloc :: "nat \<Rightarrow> u64 \<Rightarrow> u64 \<Rightarrow> 'w \<Rightarrow> (bool \<times> u64) \<times> 'w"
  buf_dev_free :: "nat \<Rightarrow> u64 \<Rightarrow> 'w \<Rightarrow> bool \<times> 'w"
  copy_from_host :: "nat \<Rightarrow> host_data \<Rightarrow> u64 \<Rightarrow> u64 \<Rightarrow> 'w \<Rightarrow> (bool \<times> u64) \<times> 'w"
  host2dev_memcpy :: "nat \<Rightarrow> host_data \<Rightarrow> u64 \<Rightarrow> u64 \<Rightarrow> 'w \<Rightarrow> bool \<times> 'w"
  cq_create :: "nat \<Rightarrow> flexio_cq_attr \<Rightarrow> ptr \<Rightarrow> 'w \<Rightarrow> (bool \<times> ptr) \<times> 'w"
  cq_get_cq_num :: "ptr \<Rightarrow> u32"
  cq_destroy :: "nat \<Rightarrow> 'w \<Rightarrow> bool \<times> 'w"
  sq_create :: "nat \<Rightarrow> u32 \<Rightarrow> flexio_wq_attr \<Rightarrow> ptr \<Rightarrow> 'w \<Rightarrow> (bool \<times> ptr) \<times> 'w"
  sq_get_wq_num :: "ptr \<Rightarrow> u32"
  sq_destroy :: "nat \<Rightarrow> 'w \<Rightarrow> bool \<times> 'w"
  rq_create :: "nat \<Rightarrow> u32 \<Rightarrow> flexio_wq_attr \<Rightarrow> ptr \<Rightarrow> 'w \<Rightarrow> (bool \<times> ptr) \<times> 'w"
  rq_get_wq_num :: "ptr \<Rightarrow> u32"
  rq_destroy :: "nat \<Rightarrow> 'w \<Rightarrow> bool \<times> 'w"
  qp_create :: "nat \<Rightarrow> flexio_qp_attr \<Rightarrow> ptr \<Rightarrow> 'w \<Rightarrow> (bool \<times> ptr) \<times> 'w"
  qp_get_qp_num :: "ptr \<Rightarrow> u32"
  qp_modify :: "ptr \<Rightarrow> flexio_qp_modify_attr \<Rightarrow> 'w \<Rightarrow> bool \<times> 'w"
  mkey_create :: "nat \<Rightarrow> flexio_mkey_attr \<Rightarrow> ptr \<Rightarrow> 'w \<Rightarrow> (bool \<times> ptr) \<times> 'w"
  mkey_get_id :: "ptr \<Rightarrow> u32"
  uar_get_id :: "nat \<Rightarrow> u32"
  event_handler_get_thread :: "nat \<Rightarrow> ptr"
  ib_device_name :: "nat \<Rightarrow> string"

definition hw_status :: "bool \<Rightarrow> nicc_retval_t" where
  "hw_status ok = (if ok then NICC_SUCCESS else NICC_ERROR_HARDWARE_FAILURE)"

subsection \<open>Device memory\<close>

definition allocate_dbr :: "'w flexio_api \<Rightarrow> nat \<Rightarrow> (u64 \<times> 'w) operation" where
  "allocate_dbr api process s = (case s of (dbr_daddr, w) \<Rightarrow>
     let ((ok, a), w') = copy_from_host api process (Dbr [0, 0]) 8 dbr_daddr w
     in Inr (hw_status ok, (a, w')))"

definition deallocate_dbr :: "'w flexio_api \<Rightarrow> nat \<Rightarrow> u64 \<Rightarrow> 'w operation" where
  "deallocate_dbr api process dbr_daddr w =
     (if dbr_daddr \<noteq> 0
      then let (ok, w') = buf_dev_free api process dbr_daddr w in Inr (hw_status ok, w')
      else Inr (NICC_SUCCESS, w))"

definition allocate_cq_memory :: "'w flexio_api \<Rightarrow> nat \<Rightarrow> nat \<Rightarrow> (dpa_cq \<times> 'w) operation" where
  "allocate_cq_memory api process log_depth s = (case s of (cq, w) \<Rightarrow>
     bind_run (allocate_dbr api process (cq_dbr_daddr cq, w)) (\<lambda>(retval, dbr, w).
       let cq = cq\<lparr>cq_dbr_daddr := dbr\<rparr>
       in if retval \<noteq> NICC_SUCCESS then Inr (retval, (cq, w))
          else if \<not> host_calloc api w then Inr (NICC_ERROR_EXSAUSTED, (cq, w))
          else let ((ok, a), w') = copy_from_host api process (Cqes (replicate (2 ^ log_depth) 1))
                                     (LOG2VALUE log_depth * LOG2VALUE 6) (cq_ring_daddr cq) w
               in Inr (hw_status ok, (cq\<lparr>cq_ring_daddr := a\<rparr>, w'))))"

text \<open>
  Allocating into an address field, and freeing the address in a field: the field is cleared
  once the driver has freed it.
\<close>

definition alloc_field :: "'w flexio_api \<Rightarrow> nat \<Rightarrow> u64 \<Rightarrow> ('p \<Rightarrow> u64) \<Rightarrow> (u64 \<Rightarrow> 'p \<Rightarrow> 'p)
    \<Rightarrow> ('p \<times> 'w) operation" where
  "alloc_field api process n get put s = (case s of (p, w) \<Rightarrow>
     let ((ok, a), w') = buf_dev_alloc api process n (get p) w
     in Inr (hw_status ok, (put a p, w')))"

definition free_field :: "'w flexio_api \<Rightarrow> nat \<Rightarrow> ('p \<Rightarrow> u64) \<Rightarrow> (u64 \<Rightarrow> 'p \<Rightarrow> 'p) \<Rightarrow> ('p \<times> 'w) operation" where
  "free_field api process get put s = (case s of (p, w) \<Rightarrow>
     if get p \<noteq> 0
     then let (ok, w') = buf_dev_free api process (get p) w
          in if \<not> ok then Inr (NICC_ERROR_HARDWARE_FAILURE, (p, w'))
             else Inr (NICC_SUCCESS, (put 0 p, w'))
     else Inr (NICC_SUCCESS, (p, w)))"

definition deallocate_cq_memory :: "'w flexio_api \<Rightarrow> nat \<Rightarrow> (dpa_cq \<times> 'w) operation" where
  "deallocate_cq_memory api process = and_then
     (\<lambda>(cq, w). if cq_dbr_daddr cq \<noteq> 0
        then bind_run (deallocate_dbr api process (cq_dbr_daddr cq) w) (\<lambda>(retval, w').
          if retval \<noteq> NICC_SUCCESS then Inr (retval, (cq, w'))
          else Inr (NICC_SUCCESS, (cq\<lparr>cq_dbr_daddr := 0\<rparr>, w')))
        else Inr (NICC_SUCCESS, (cq, w)))
     (free_field api process cq_ring_daddr (\<lambda>a. cq_ring_daddr_update (\<lambda>_. a)))"

text \<open>The three allocations of a work queue, and the cleanup when one of them fails.\<close>

definition wq_alloc_dbr :: "'w flexio_api \<Rightarrow> nat \<Rightarrow> (dpa_eth_wq \<times> 'w) operation" where
  "wq_alloc_dbr api process s = (case s of (wq, w) \<Rightarrow>
     bind_run (allocate_dbr api process (wq_dbr_daddr wq, w)) (\<lambda>(retval, a, w').
       Inr (retval, (wq\<lparr>wq_dbr_daddr := a\<rparr>, w'))))"

definition wq_alloc_steps :: "'w flexio_api \<Rightarrow> nat \<Rightarrow> nat \<Rightarrow> u64 \<Rightarrow> (dpa_eth_wq \<times> 'w) operation" where
  "wq_alloc_steps api process log_depth wqe_size =
     and_then (alloc_field api process (LOG2VALUE (log_depth + DPA_LOG_WQ_DATA_ENTRY_BSIZE))
                 wqd_daddr (\<lambda>a. wqd_daddr_update (\<lambda>_. a)))
    (and_then (alloc_field api process (LOG2VALUE log_depth * wqe_size)
                 wq_ring_daddr (\<lambda>a. wq_ring_daddr_update (\<lambda>_. a)))
       (wq_alloc_dbr api process))"

definition wq_free_checked :: "'w flexio_api \<Rightarrow> nat \<Rightarrow> u64 \<Rightarrow> 'w \<Rightarrow> 'w run" where
  "wq_free_checked api process a w =
     (if a \<noteq> 0 then let (ok, w') = buf_dev_free api process a w
                    in if ok then Inr w' else Inl Assert_Failed
      else Inr w)"

definition allocate_wq_memory :: "'w flexio_api \<Rightarrow> nat \<Rightarrow> nat \<Rightarrow> u64 \<Rightarrow> (dpa_eth_wq \<times> 'w) operation" where
  "allocate_wq_memory api process log_depth wqe_size s = (case s of (wq, w) \<Rightarrow>
     bind_run (assert_run (wqe_size > 0 \<and> wqe_size mod 2 = 0)) (\<lambda>_.
     bind_run (wq_alloc_steps api process log_depth wqe_size
                 (wq\<lparr>wqd_daddr := 0, wq_ring_daddr := 0\<rparr>, w)) (\<lambda>(retval, wq, w).
       if retval \<noteq> NICC_SUCCESS
       then bind_run (wq_free_checked api process (wqd_daddr wq) w) (\<lambda>w.
            bind_run (wq_free_checked api process (wq_ring_daddr wq) w) (\<lambda>w.
            Inr (retval, (wq, w))))
       else Inr (retval, (wq, w)))))"

definition deallocate_wq_memory :: "'w flexio_api \<Rightarrow> nat \<Rightarrow> (dpa_eth_wq \<times> 'w) operation" where
  "deallocate_wq_memory api process =
     and_then (free_field api process wqd_daddr (\<lambda>a. wqd_daddr_update (\<lambda>_. a)))
    (and_then (free_field api process wq_ring_daddr (\<lambda>a. wq_ring_daddr_update (\<lambda>_. a)))
       (\<lambda>(wq, w). bind_run (deallocate_dbr api process (wq_dbr_daddr wq) w) (\<lambda>(retval, w').
          Inr (retval, (wq, w')))))"

end
