(* ===== verification/DpaDevice.thy ===== *)
theory DpaDevice
  imports DpaMemory
begin

text \<open>
  The part of the program that runs on the data path accelerator:
  \<open>lib/wrapper/dpa/src/dpa_wrapper.c\<close> and \<open>lib/wrapper/dpa/include/dpa_wrapper.h\<close> over the
  device structures of \<open>lib/common/dpa_queue.h\<close>. The host allocates a completion ring whose
  entries all have owner bit 1 (\<open>allocate_cq_memory\<close>), copies the queue metadata to the device
  and calls \<open>dpa_device_init\<close>; the device then runs \<open>dpa_event_handler\<close> once per event.

  Device memory, the completion hardware and the FlexIO device library are the parameter
  \<open>flexio_dev_api\<close>; a device pointer is its 64-bit address and a read of a completion's owner
  bit returns a new world, since the hardware writes completions while the handler runs.
  Fences and \<open>flexio_dev_print\<close> have no effect on the modelled state, but the increment of
  \<open>packets_count\<close> in the argument of a print has. \<open>flexio_dev_thread_reschedule\<close> leaves the
  thread and does not return (FlexIO SDK).
\<close>

subsection \<open>Device structures\<close>

definition DPA_RQ_IDX_MASK :: u32 where "DPA_RQ_IDX_MASK = push_bit DPA_LOG_RQ_RING_DEPTH 1 - 1"

record cq_ctx_t =
  cq_number :: u32
  cq_ring :: u64
  cq_cqe :: u64
  cq_idx :: u32
  cq_hw_owner_bit :: u8
  cq_dbr :: u64

record rq_ctx_t =
  rq_number :: u32
  rq_ring :: u64
  rq_dbr :: u64

record sq_ctx_t =
  sq_number :: u32
  sq_wqe_seg_idx :: u32
  sq_ring :: u64
  sq_dbr :: u64
  sq_pi :: u32

record dt_ctx_t =
  sq_tx_buff :: u64
  tx_buff_idx :: u32

record device_context =
  dev_lkey :: u32
  is_initalized :: u32
  rqcq_ctx :: cq_ctx_t
  sqcq_ctx :: cq_ctx_t
  rq_ctx :: rq_ctx_t
  sq_ctx :: sq_ctx_t
  dt_ctx :: dt_ctx_t
  packets_count :: u32

text \<open>\<open>dev_ctx = {0}\<close>.\<close>

definition zero_cq_ctx :: cq_ctx_t where
  "zero_cq_ctx = \<lparr>cq_number = 0, cq_ring = 0, cq_cqe = 0, cq_idx = 0, cq_hw_owner_bit = 0, cq_dbr = 0\<rparr>"

definition dev_ctx :: device_context where
  "dev_ctx = \<lparr>dev_lkey = 0, is_initalized = 0, rqcq_ctx = zero_cq_ctx, sqcq_ctx = zero_cq_ctx,
     rq_ctx = \<lparr>rq_number = 0, rq_ring = 0, rq_dbr = 0\<rparr>,
     sq_ctx = \<lparr>sq_number = 0, sq_wqe_seg_idx = 0, sq_ring = 0, sq_dbr = 0, sq_pi = 0\<rparr>,
     dt_ctx = \<lparr>sq_tx_buff = 0, tx_buff_idx = 0\<rparr>, packets_count = 0\<rparr>"

subsection \<open>The device library\<close>

record 'w flexio_dev_api =
  fd_read_queues :: "u64 \<Rightarrow> 'w \<Rightarrow> dpa_data_queues"
  fd_cqe_get_owner :: "u64 \<Rightarrow> 'w \<Rightarrow> u8 \<times> 'w"
  fd_dbr_cq_set_ci :: "u64 \<Rightarrow> u32 \<Rightarrow> 'w \<Rightarrow> 'w"
  fd_cq_arm :: "u32 \<Rightarrow> u32 \<Rightarrow> 'w \<Rightarrow> 'w"
  fd_thread_reschedule :: "'w \<Rightarrow> 'w"

text \<open>\<open>sizeof(struct flexio_dev_cqe64)\<close>.\<close>

definition sizeof_cqe64 :: u64 where "sizeof_cqe64 = 64"

subsection \<open>The wrapper\<close>

definition init_cq :: "dpa_cq \<Rightarrow> cq_ctx_t \<Rightarrow> cq_ctx_t" where
  "init_cq app_cq ctx = ctx\<lparr>
     cq_number := cq_num app_cq, cq_ring := cq_ring_daddr app_cq, cq_dbr := cq_dbr_daddr app_cq,
     cq_cqe := cq_ring_daddr app_cq, cq_idx := 0, cq_hw_owner_bit := 1\<rparr>"

definition step_cq :: "'w flexio_dev_api \<Rightarrow> u32 \<Rightarrow> cq_ctx_t \<times> 'w \<Rightarrow> cq_ctx_t \<times> 'w" where
  "step_cq fd idx_mask s = (case s of (c, w) \<Rightarrow>
     let i = cq_idx c + 1;
         c = c\<lparr>cq_idx := i, cq_cqe := cq_ring c + ucast (i AND idx_mask) * sizeof_cqe64\<rparr>;
         c = (if i AND idx_mask = 0
              then c\<lparr>cq_hw_owner_bit := (if cq_hw_owner_bit c = 0 then 1 else 0)\<rparr> else c)
     in (c, fd_dbr_cq_set_ci fd (cq_dbr c) (cq_idx c) w))"

definition dpa_device_init :: "'w flexio_dev_api \<Rightarrow> u64 \<Rightarrow> u64 \<Rightarrow> 'w \<Rightarrow> device_context \<Rightarrow> u64 \<times> device_context" where
  "dpa_device_init fd data_for_prior_component data_for_next_component w d =
     (let prior = fd_read_queues fd data_for_prior_component w;
          d = d\<lparr>dev_lkey := wqd_mkey_id (sq_data prior)\<rparr>;
          d = d\<lparr>rqcq_ctx := init_cq (rq_cq_data prior) (rqcq_ctx d)\<rparr>;
          d = d\<lparr>sqcq_ctx := init_cq (sq_cq_data prior) (sqcq_ctx d)\<rparr>;
          d = d\<lparr>dt_ctx := \<lparr>sq_tx_buff = wqd_daddr (sq_data prior), tx_buff_idx = 0\<rparr>\<rparr>
      in (0, d\<lparr>is_initalized := 1\<rparr>))"

text \<open>The polling loop of the handler; it need not end while completions keep arriving.\<close>

partial_function (option) poll_loop :: "'w flexio_dev_api \<Rightarrow> device_context \<Rightarrow> 'w \<Rightarrow> (device_context \<times> 'w) option" where
  "poll_loop fd d w =
     (let (owner, w1) = fd_cqe_get_owner fd (cq_cqe (rqcq_ctx d)) w
      in if owner \<noteq> cq_hw_owner_bit (rqcq_ctx d)
         then let d = d\<lparr>packets_count := packets_count d + 1\<rparr>;
                  (c, w2) = step_cq fd DPA_RQ_IDX_MASK (rqcq_ctx d, w1)
              in poll_loop fd (d\<lparr>rqcq_ctx := c\<rparr>) w2
         else Some (d, w1))"

definition dpa_event_handler_run :: "'w flexio_dev_api \<Rightarrow> device_context \<Rightarrow> 'w \<Rightarrow> (device_context \<times> 'w) option" where
  "dpa_event_handler_run fd d w =
     (if is_initalized d = 0 then Some (d, fd_thread_reschedule fd w)
      else Option.bind (poll_loop fd d w) (\<lambda>(d, w).
        Some (d, fd_thread_reschedule fd
                   (fd_cq_arm fd (cq_idx (rqcq_ctx d)) (cq_number (rqcq_ctx d)) w))))"

subsection \<open>The completion hardware\<close>

text \<open>
  What the handler relies on. Of a ring of 128 entries, all with owner bit 1 at first, the
  hardware writes entry \<open>k mod 128\<close> for its \<open>k\<close>-th completion, with owner bit 0 in the first
  round, 1 in the second and so on. It never overtakes the consumer index it was last told by
  more than the ring, and \<open>limit\<close> bounds the completions it ever writes: one for each posted
  receive entry.
\<close>

definition owner_after :: "nat \<Rightarrow> nat \<Rightarrow> u8" where
  "owner_after produced i = (if even ((produced + 127 - i) div 128) then 1 else 0)"

definition cq_hardware :: "'w flexio_dev_api \<Rightarrow> u64 \<Rightarrow> u64 \<Rightarrow> ('w \<Rightarrow> nat) \<Rightarrow> ('w \<Rightarrow> nat) \<Rightarrow> nat \<Rightarrow> bool" where
  "cq_hardware fd ring dbr produced seen limit \<longleftrightarrow>
     (\<forall>w. produced w \<le> limit \<and> produced w \<le> seen w + 128) \<and>
     (\<forall>i < 128. \<forall>w. case fd_cqe_get_owner fd (ring + of_nat i * sizeof_cqe64) w of (b, w') \<Rightarrow>
        b = owner_after (produced w') i \<and> seen w' = seen w \<and> produced w \<le> produced w') \<and>
     (\<forall>w. let w' = fd_dbr_cq_set_ci fd dbr (of_nat (Suc (seen w))) w
          in seen w' = Suc (seen w) \<and> produced w \<le> produced w') \<and>
     (\<forall>i n w. seen (fd_cq_arm fd i n w) = seen w \<and> produced w \<le> produced (fd_cq_arm fd i n w)) \<and>
     (\<forall>w. seen (fd_thread_reschedule fd w) = seen w \<and> produced w \<le> produced (fd_thread_reschedule fd w))"

lemma cq_hardware_bound:
  assumes "cq_hardware fd ring dbr produced seen limit"
  shows "produced w \<le> limit" "produced w \<le> seen w + 128"
  using assms unfolding cq_hardware_def by (elim conjE, simp)+

lemma cq_hardware_poll:
  assumes "cq_hardware fd ring dbr produced seen limit" "i < 128"
    and "fd_cqe_get_owner fd (ring + of_nat i * sizeof_cqe64) w = (b, w')"
  shows "b = owner_after (produced w') i" "seen w' = seen w" "produced w \<le> produced w'"
proof -
  have "\<forall>i < 128. \<forall>w. case fd_cqe_get_owner fd (ring + of_nat i * sizeof_cqe64) w of (b, w') \<Rightarrow>
      b = owner_after (produced w') i \<and> seen w' = seen w \<and> produced w \<le> produced w'"
    using assms(1) unfolding cq_hardware_def by (elim conjE)
  from this [rule_format, of i w, OF assms(2)] assms(3)
  show "b = owner_after (produced w') i" "seen w' = seen w" "produced w \<le> produced w'" by simp_all
qed

lemma cq_hardware_set_ci:
  assumes "cq_hardware fd ring dbr produced seen limit" "seen w = n"
  shows "seen (fd_dbr_cq_set_ci fd dbr (of_nat (Suc n)) w) = Suc n"
    "produced w \<le> produced (fd_dbr_cq_set_ci fd dbr (of_nat (Suc n)) w)"
  using assms unfolding cq_hardware_def Let_def by (elim conjE, metis)+

lemma cq_hardware_leave:
  assumes "cq_hardware fd ring dbr produced seen limit"
  shows "seen (fd_thread_reschedule fd (fd_cq_arm fd i n w)) = seen w"
    "produced w \<le> produced (fd_thread_reschedule fd (fd_cq_arm fd i n w))"
  using assms unfolding cq_hardware_def by (elim conjE, metis le_trans)+

text \<open>A consumer that has taken \<open>n\<close> completions of the ring.\<close>

definition cq_at :: "cq_ctx_t \<Rightarrow> u64 \<Rightarrow> u64 \<Rightarrow> nat \<Rightarrow> bool" where
  "cq_at c ring dbr n \<longleftrightarrow> cq_ring c = ring \<and> cq_dbr c = dbr \<and> cq_idx c = of_nat n
     \<and> cq_cqe c = ring + of_nat (n mod 128) * sizeof_cqe64
     \<and> cq_hw_owner_bit c = (if even (n div 128) then 1 else 0)"

text \<open>The entry the consumer looks at is in its hands exactly when something is left to take.\<close>

lemma owner_after_ready:
  assumes "n \<le> p" "p \<le> n + 128"
  shows "owner_after p (n mod 128) \<noteq> (if even (n div 128) then 1 else 0) \<longleftrightarrow> n < p"
proof -
  define q r where "q = n div 128" and "r = n mod 128"
  obtain k where k: "p = n + k" "k \<le> 128" using le_Suc_ex [OF assms(1)] assms(2) by auto
  have n: "n = q * 128 + r" by (simp add: q_def r_def)
  have "p + 127 - r = (127 + k) + q * 128" by (simp add: k n)
  then have "(p + 127 - r) div 128 = q + (127 + k) div 128" by simp
  moreover have "(127 + k) div 128 = (if n < p then 1 else 0)" using k by (auto simp: div_nat_eqI)
  ultimately show ?thesis by (simp add: owner_after_def flip: q_def r_def)
qed

lemma rq_idx_mask: "(of_nat n :: u32) AND DPA_RQ_IDX_MASK = of_nat (n mod 128)"
proof -
  have m: "DPA_RQ_IDX_MASK = (Bit_Operations.mask 7 :: u32)"
    by (simp add: DPA_RQ_IDX_MASK_def DPA_LOG_RQ_RING_DEPTH_def mask_eq_exp_minus_1 push_bit_eq_mult)
  have "unat (take_bit 7 (of_nat n :: u32)) = n mod 128"
    by (simp only: unsigned_take_bit_eq unat_of_nat) (simp add: take_bit_eq_mod mod_mod_cancel)
  moreover have "of_nat (unat (take_bit 7 (of_nat n :: u32))) = take_bit 7 (of_nat n :: u32)" by simp
  ultimately have "take_bit 7 (of_nat n :: u32) = of_nat (n mod 128)" by simp
  then show ?thesis by (simp only: m take_bit_eq_mask)
qed

lemma step_cq_at:
  assumes "cq_at c ring dbr n"
  shows "\<exists>c'. step_cq fd DPA_RQ_IDX_MASK (c, w) = (c', fd_dbr_cq_set_ci fd dbr (of_nat (Suc n)) w)
    \<and> cq_at c' ring dbr (Suc n) \<and> cq_number c' = cq_number c"
proof -
  define i where "i = cq_idx c + 1"
  have i: "of_nat n + 1 = i" "1 + of_nat n = i" using assms by (simp_all add: cq_at_def i_def)
  define m where "m = Suc n mod 128"
  have m: "m < 128" by (simp add: m_def)
  have u: "unat (of_nat m :: u32) = m" using m by (simp add: unat_of_nat)
  have "(of_nat (unat (of_nat m :: u32)) :: u64) = ucast (of_nat m :: u32)" by (rule of_nat_unat)
  then have cast: "ucast (of_nat m :: u32) = (of_nat m :: u64)" by (simp only: u)
  have zero: "(of_nat m :: u32) = 0 \<longleftrightarrow> m = 0" using u by auto
  have wrap: "Suc n div 128 = (if m = 0 then Suc (n div 128) else n div 128)"
    by (simp add: m_def div_Suc)
  have "i = of_nat (Suc n)" by (simp add: i(2))
  then have mask: "i AND DPA_RQ_IDX_MASK = of_nat m" by (simp only: m_def rq_idx_mask)
  show ?thesis
    using assms
    by (simp add: step_cq_def Let_def mask cast zero cq_at_def wrap i flip: m_def)
qed

text \<open>One round of the loop, and the whole of it.\<close>

lemma poll_loop_result:
  assumes hw: "cq_hardware fd ring dbr produced seen limit"
    and at: "cq_at (rqcq_ctx d) ring dbr (seen w)" "seen w \<le> produced w"
  shows "\<exists>d' w'. poll_loop fd d w = Some (d', w') \<and> produced w \<le> produced w'
    \<and> seen w' = produced w' \<and> cq_at (rqcq_ctx d') ring dbr (produced w')
    \<and> packets_count d' = packets_count d + of_nat (produced w' - seen w)
    \<and> d' = d\<lparr>rqcq_ctx := rqcq_ctx d', packets_count := packets_count d'\<rparr>
    \<and> cq_number (rqcq_ctx d') = cq_number (rqcq_ctx d)"
  using at
proof (induction "limit - seen w" arbitrary: d w rule: less_induct)
  case less
  obtain b w1 where poll: "fd_cqe_get_owner fd (cq_cqe (rqcq_ctx d)) w = (b, w1)"
    by (cases "fd_cqe_get_owner fd (cq_cqe (rqcq_ctx d)) w")
  have cqe: "cq_cqe (rqcq_ctx d) = ring + of_nat (seen w mod 128) * sizeof_cqe64"
    using less.prems(1) by (simp add: cq_at_def)
  note p = cq_hardware_poll [OF hw _ poll [unfolded cqe], simplified]
  have room: "produced w1 \<le> seen w + 128" "produced w1 \<le> limit"
    using cq_hardware_bound [OF hw, of w1] p(2) by simp_all
  have owner: "b \<noteq> cq_hw_owner_bit (rqcq_ctx d) \<longleftrightarrow> seen w < produced w1"
    using owner_after_ready [of "seen w" "produced w1"] room less.prems p
    by (simp add: cq_at_def)
  show ?case
  proof (cases "seen w < produced w1")
    case False
    then have "seen w = produced w1" using less.prems(2) p(3) by simp
    moreover have "poll_loop fd d w = Some (d, w1)"
      using False owner by (subst poll_loop.simps) (simp add: poll)
    ultimately show ?thesis using less.prems p by auto
  next
    case True
    let ?w2 = "fd_dbr_cq_set_ci fd dbr (of_nat (Suc (seen w))) w1"
    obtain c where c: "step_cq fd DPA_RQ_IDX_MASK (rqcq_ctx d, w1) = (c, ?w2)"
        "cq_at c ring dbr (Suc (seen w))" "cq_number c = cq_number (rqcq_ctx d)"
      using step_cq_at [OF less.prems(1), of fd w1] by blast
    have w2: "seen ?w2 = Suc (seen w)" "produced w1 \<le> produced ?w2"
      using cq_hardware_set_ci [OF hw p(2)] by simp_all
    let ?d = "d\<lparr>packets_count := packets_count d + 1, rqcq_ctx := c\<rparr>"
    have "limit - seen ?w2 < limit - seen w" using True room w2 by simp
    then obtain d' w' where ih: "poll_loop fd ?d ?w2 = Some (d', w')" "produced ?w2 \<le> produced w'"
        "seen w' = produced w'" "cq_at (rqcq_ctx d') ring dbr (produced w')"
        "packets_count d' = packets_count ?d + of_nat (produced w' - seen ?w2)"
        "d' = ?d\<lparr>rqcq_ctx := rqcq_ctx d', packets_count := packets_count d'\<rparr>"
        "cq_number (rqcq_ctx d') = cq_number c"
      using less.hyps [of ?w2 ?d] c w2 True by auto
    have "poll_loop fd d w = poll_loop fd ?d ?w2"
      using True owner by (subst poll_loop.simps) (simp add: poll c)
    moreover have "produced w' - seen w = Suc (produced w' - Suc (seen w))"
      using True ih(2) w2 by simp
    ultimately show ?thesis using ih c w2 p by auto
  qed
qed

subsection \<open>Events\<close>

text \<open>The device receives \<open>n\<close> events, one after the other.\<close>

fun run_events :: "'w flexio_dev_api \<Rightarrow> nat \<Rightarrow> device_context \<Rightarrow> 'w \<Rightarrow> (device_context \<times> 'w) option" where
  "run_events fd 0 d w = Some (d, w)"
| "run_events fd (Suc n) d w =
     Option.bind (dpa_event_handler_run fd d w) (\<lambda>(d, w). run_events fd n d w)"

lemma handler_result:
  assumes hw: "cq_hardware fd ring dbr produced seen limit"
    and at: "cq_at (rqcq_ctx d) ring dbr (seen w)" "seen w \<le> produced w" "is_initalized d \<noteq> 0"
    and count: "packets_count d = of_nat (seen w)"
  shows "\<exists>d' w'. dpa_event_handler_run fd d w = Some (d', w') \<and> is_initalized d' \<noteq> 0
    \<and> produced w \<le> seen w' \<and> seen w' \<le> produced w' \<and> cq_at (rqcq_ctx d') ring dbr (seen w')
    \<and> packets_count d' = of_nat (seen w')"
proof -
  obtain d' w1 where r: "poll_loop fd d w = Some (d', w1)" "produced w \<le> produced w1"
      "seen w1 = produced w1" "cq_at (rqcq_ctx d') ring dbr (produced w1)"
      "packets_count d' = packets_count d + of_nat (produced w1 - seen w)"
      "d' = d\<lparr>rqcq_ctx := rqcq_ctx d', packets_count := packets_count d'\<rparr>"
    using poll_loop_result [OF hw at(1,2)] by blast
  let ?w' = "fd_thread_reschedule fd (fd_cq_arm fd (cq_idx (rqcq_ctx d')) (cq_number (rqcq_ctx d')) w1)"
  have "dpa_event_handler_run fd d w = Some (d', ?w')"
    using at(3) r(1) by (simp add: dpa_event_handler_run_def)
  moreover have "is_initalized d' = is_initalized d" by (subst r(6)) simp
  moreover have "packets_count d' = of_nat (produced w1)"
    using r(2,5) at(2) count by simp
  moreover note cq_hardware_leave [OF hw, where i = "cq_idx (rqcq_ctx d')" and n = "cq_number (rqcq_ctx d')" and w = w1]
  ultimately show ?thesis using r at(3) by auto
qed

lemma events_result:
  assumes hw: "cq_hardware fd ring dbr produced seen limit"
    and "cq_at (rqcq_ctx d) ring dbr (seen w)" "seen w \<le> produced w" "is_initalized d \<noteq> 0"
      "packets_count d = of_nat (seen w)"
  shows "\<exists>d' w'. run_events fd n d w = Some (d', w')
    \<and> (0 < n \<longrightarrow> produced w \<le> seen w') \<and> seen w \<le> seen w' \<and> seen w' \<le> produced w'
    \<and> cq_at (rqcq_ctx d') ring dbr (seen w') \<and> packets_count d' = of_nat (seen w')"
  using assms(2-)
proof (induction n arbitrary: d w)
  case 0
  then show ?case by simp
next
  case (Suc n)
  obtain d1 w1 where h: "dpa_event_handler_run fd d w = Some (d1, w1)" "is_initalized d1 \<noteq> 0"
      "produced w \<le> seen w1" "seen w1 \<le> produced w1" "cq_at (rqcq_ctx d1) ring dbr (seen w1)"
      "packets_count d1 = of_nat (seen w1)"
    using handler_result [OF hw Suc.prems] by blast
  from Suc.IH [OF h(5,4,2,6)] h Suc.prems(2) show ?case by fastforce
qed

lemma device_init_ready:
  assumes "dpa_device_init fd prior nxt w d = (r, d')"
  shows "r = 0" "is_initalized d' = 1" "packets_count d' = packets_count d"
    "rq = rq_cq_data (fd_read_queues fd prior w) \<Longrightarrow>
       cq_at (rqcq_ctx d') (cq_ring_daddr rq) (cq_dbr_daddr rq) 0"
  using assms by (auto simp: dpa_device_init_def init_cq_def Let_def cq_at_def)

text \<open>The ring the host hands over is the ring before the first completion.\<close>

lemma fresh_ring_owners: "map (owner_after 0) [0..<128] = replicate 128 1"
proof -
  have "map (owner_after 0) [0..<128] = map (\<lambda>_. 1) [0..<128]"
    by (rule map_cong) (simp_all add: owner_after_def)
  then show ?thesis by (simp add: map_replicate_const)
qed

text \<open>
  C6. From the context the host initialises, the device answers any number of events: every run
  of the handler returns although completions keep arriving, each completion is counted exactly
  once, and after a run none that was there before it is left in the ring. The consumer index,
  the ring position and the expected owner bit stay in step over every wrap-around of the ring.
\<close>

theorem dpa_events_drain_ring:
  assumes hw: "cq_hardware fd (cq_ring_daddr rq) (cq_dbr_daddr rq) produced seen limit"
    and queues: "fd_read_queues fd prior w = q" "rq = rq_cq_data q"
    and init: "dpa_device_init fd prior nxt w dev_ctx = (r, d)" and fresh: "seen w = 0"
  shows "\<exists>d' w'. run_events fd n d w = Some (d', w')
    \<and> (0 < n \<longrightarrow> produced w \<le> seen w') \<and> seen w' \<le> produced w'
    \<and> cq_at (rqcq_ctx d') (cq_ring_daddr rq) (cq_dbr_daddr rq) (seen w')
    \<and> packets_count d' = of_nat (seen w')"
  using events_result [OF hw, of d w n] device_init_ready [OF init] queues fresh
  by (auto simp: dev_ctx_def)

text \<open>A hardware that completes one more of 300 receives at every poll, as long as there is room.\<close>

definition demo_produced :: "nat \<times> nat \<Rightarrow> nat" where
  "demo_produced w = min (min 300 (snd w + 128)) (fst w)"

definition demo_dev_api :: "(nat \<times> nat) flexio_dev_api" where
  "demo_dev_api = \<lparr>fd_read_queues = \<lambda>a w. zero_queues,
     fd_cqe_get_owner = \<lambda>a (p, s). let p' = demo_produced (p + 1, s)
                                   in (owner_after p' (unat (a div sizeof_cqe64)), (p', s)),
     fd_dbr_cq_set_ci = \<lambda>a i (p, s). (p, Suc s),
     fd_cq_arm = \<lambda>i n w. w, fd_thread_reschedule = \<lambda>w. w\<rparr>"

lemma demo_slot:
  assumes "i < 128"
  shows "unat ((of_nat i * sizeof_cqe64) div sizeof_cqe64) = i"
proof -
  have "of_nat i * sizeof_cqe64 = (of_nat (i * 64) :: u64)" by (simp add: sizeof_cqe64_def)
  then show ?thesis
    using assms by (simp add: sizeof_cqe64_def unat_div unat_of_nat del: of_nat_mult)
qed

lemma demo_hardware: "cq_hardware demo_dev_api 0 0 demo_produced snd 300"
  by (auto simp: cq_hardware_def demo_dev_api_def demo_produced_def demo_slot Let_def split: prod.splits)

lemma dpa_events_drain_ring_witness:
  "\<exists>d' w'. run_events demo_dev_api 5 (snd (dpa_device_init demo_dev_api 0 0 (7, 0) dev_ctx)) (7, 0)
     = Some (d', w') \<and> 7 \<le> snd w' \<and> packets_count d' = of_nat (snd w')"
proof -
  have q: "fd_read_queues demo_dev_api 0 (7, 0) = zero_queues"
    and rq: "rq_cq_data zero_queues = zero_cq"
    and z: "cq_ring_daddr zero_cq = 0" "cq_dbr_daddr zero_cq = 0"
    by (simp_all add: demo_dev_api_def zero_queues_def zero_cq_def)
  have p: "demo_produced (7, 0) = 7" by (simp add: demo_produced_def)
  show ?thesis
    using dpa_events_drain_ring [of demo_dev_api "rq_cq_data zero_queues" demo_produced snd 300 0 "(7, 0)" zero_queues
        0 "fst (dpa_device_init demo_dev_api 0 0 (7, 0) dev_ctx)"
        "snd (dpa_device_init demo_dev_api 0 0 (7, 0) dev_ctx)" 5]
    by (auto simp: rq z q p demo_hardware)
qed

end
