(* ===== verification/DpaKernels.thy ===== *)
theory DpaKernels
  imports DpaDevice
begin

text \<open>
  The packet functions of the two example applications with a DPA kernel,
  \<open>examples/udp_echo/src/dpa_kernel.c\<close> and \<open>examples/rdma_simple/src/dpa_kernel.c\<close>, with the ring
  helpers of their \<open>include/dpa_kernel.h\<close>. They copy a received frame into the next data
  entry, swap its MAC addresses and post a send of it.

  Device memory is a function from addresses to bytes. The accessors of the FlexIO device library
  are the parameter \<open>kernel_api\<close>; a work queue entry of the send ring has four segments of 16 bytes
  (\<open>LOG_SQE_NUM_SEGS\<close> is 2 there), of which the kernels fill three.
\<close>

unbundle bit_operations_syntax

type_synonym dpa_mem = "u64 \<Rightarrow> u8"

record 'w kernel_api =
  k_cqe_wqe_counter :: "dpa_mem \<Rightarrow> u64 \<Rightarrow> u32"
  k_cqe_byte_cnt :: "dpa_mem \<Rightarrow> u64 \<Rightarrow> u32"
  k_rwqe_addr :: "dpa_mem \<Rightarrow> u64 \<Rightarrow> u64"
  k_seg_ctrl_set :: "u64 \<Rightarrow> u32 \<Rightarrow> u32 \<Rightarrow> dpa_mem \<Rightarrow> dpa_mem"
  k_seg_eth_set :: "u64 \<Rightarrow> dpa_mem \<Rightarrow> dpa_mem"
  k_seg_data_set :: "u64 \<Rightarrow> u32 \<Rightarrow> u32 \<Rightarrow> u64 \<Rightarrow> dpa_mem \<Rightarrow> dpa_mem"
  k_sq_ring_db :: "u32 \<Rightarrow> u32 \<Rightarrow> 'w \<Rightarrow> 'w"
  k_dbr_rq_inc_pi :: "u64 \<Rightarrow> dpa_mem \<Rightarrow> dpa_mem"

definition LOG_SQE_NUM_SEGS :: nat where "LOG_SQE_NUM_SEGS = 2"
definition DPA_SQ_IDX_MASK :: u32 where
  "DPA_SQ_IDX_MASK = push_bit (DPA_LOG_SQ_RING_DEPTH + LOG_SQE_NUM_SEGS) 1 - 1"
definition DPA_DATA_IDX_MASK :: u32 where "DPA_DATA_IDX_MASK = push_bit DPA_LOG_SQ_RING_DEPTH 1 - 1"

text \<open>Sizes of \<open>flexio_dev_sqe_seg\<close> and \<open>flexio_dev_wqe_rcv_data_seg\<close>.\<close>

definition sizeof_seg :: u64 where "sizeof_seg = 16"

subsection \<open>Rings\<close>

definition get_next_dte :: "dt_ctx_t \<Rightarrow> u32 \<Rightarrow> nat \<Rightarrow> u64 \<times> dt_ctx_t" where
  "get_next_dte c dt_idx_mask log_dt_entry_sz =
     (sq_tx_buff c + ucast (push_bit log_dt_entry_sz (tx_buff_idx c AND dt_idx_mask)),
      c\<lparr>tx_buff_idx := tx_buff_idx c + 1\<rparr>)"

definition get_next_sqe :: "sq_ctx_t \<Rightarrow> u32 \<Rightarrow> u64 \<times> sq_ctx_t" where
  "get_next_sqe c sq_idx_mask =
     (sq_ring c + ucast (sq_wqe_seg_idx c AND sq_idx_mask) * sizeof_seg,
      c\<lparr>sq_wqe_seg_idx := sq_wqe_seg_idx c + 1\<rparr>)"

subsection \<open>Frames\<close>

definition mem_copy :: "u64 \<Rightarrow> u64 \<Rightarrow> nat \<Rightarrow> dpa_mem \<Rightarrow> dpa_mem" where
  "mem_copy dst src n m = (\<lambda>a. if unat (a - dst) < n then m (src + (a - dst)) else m a)"

definition swap_byte :: "u64 \<Rightarrow> nat \<Rightarrow> dpa_mem \<Rightarrow> dpa_mem" where
  "swap_byte sqd byte m =
     (let tmp = m (sqd + of_nat byte);
          m = m(sqd + of_nat byte := m (sqd + of_nat (byte + 6)))
      in m(sqd + of_nat (byte + 6) := tmp))"

definition swap_macs :: "u64 \<Rightarrow> dpa_mem \<Rightarrow> dpa_mem" where
  "swap_macs packet m = fold (swap_byte packet) [0 ..< 6] m"

definition str_bytes :: "string \<Rightarrow> u8 list" where
  "str_bytes s = map of_char s"

definition write_bytes :: "u64 \<Rightarrow> u8 list \<Rightarrow> dpa_mem \<Rightarrow> dpa_mem" where
  "write_bytes dst bs m = (\<lambda>a. if unat (a - dst) < length bs then bs ! unat (a - dst) else m a)"

text \<open>The payload of the demonstration frame, whose first byte counts the frames in hexadecimal.\<close>

definition demo_payload :: "u64 \<Rightarrow> u32 \<Rightarrow> dpa_mem \<Rightarrow> dpa_mem" where
  "demo_payload sqd tx_idx m =
     (let m = write_bytes (sqd + 0x2a) (take (65 - 0x2a) (str_bytes ''  Event demo***************'')) m
      in m(sqd + 0x2a := str_bytes ''0123456789abcdef'' ! unat (tx_idx AND 0xf)))"

subsection \<open>The kernels\<close>

text \<open>The part both have in common: the received frame is copied to the next data entry.\<close>

definition take_frame :: "'w kernel_api \<Rightarrow> device_context \<Rightarrow> dpa_mem \<Rightarrow> u64 \<times> u32 \<times> device_context \<times> dpa_mem" where
  "take_frame api d m =
     (let rq_wqe_idx = k_cqe_wqe_counter api m (cq_cqe (rqcq_ctx d));
          data_sz = k_cqe_byte_cnt api m (cq_cqe (rqcq_ctx d));
          rwqe = rq_ring (rq_ctx d) + ucast (rq_wqe_idx AND DPA_RQ_IDX_MASK) * sizeof_seg;
          rqd = k_rwqe_addr api m rwqe;
          (sqd, dt) = get_next_dte (dt_ctx d) DPA_DATA_IDX_MASK DPA_LOG_WQ_DATA_ENTRY_BSIZE
      in (sqd, data_sz, d\<lparr>dt_ctx := dt\<rparr>, mem_copy sqd rqd (unat data_sz) m))"

definition post_frame ::
  "'w kernel_api \<Rightarrow> u64 \<Rightarrow> u32 \<Rightarrow> device_context \<Rightarrow> dpa_mem \<Rightarrow> 'w \<Rightarrow> device_context \<times> dpa_mem \<times> 'w" where
  "post_frame api sqd data_sz d m w =
     (let (swqe, sq) = get_next_sqe (sq_ctx d) DPA_SQ_IDX_MASK;
          m = k_seg_ctrl_set api swqe (sq_pi sq) (sq_number sq) m;
          (swqe, sq) = get_next_sqe sq DPA_SQ_IDX_MASK;
          m = k_seg_eth_set api swqe m;
          (swqe, sq) = get_next_sqe sq DPA_SQ_IDX_MASK;
          m = k_seg_data_set api swqe data_sz (dev_lkey d) sqd m;
          (swqe, sq) = get_next_sqe sq DPA_SQ_IDX_MASK;
          sq = sq\<lparr>sq_pi := sq_pi sq + 1\<rparr>;
          w = k_sq_ring_db api (sq_pi sq) (sq_number sq) w;
          m = k_dbr_rq_inc_pi api (rq_dbr (rq_ctx d)) m
      in (d\<lparr>sq_ctx := sq\<rparr>, m, w))"

definition udp_echo_process_packet ::
  "'w kernel_api \<Rightarrow> device_context \<Rightarrow> dpa_mem \<Rightarrow> 'w \<Rightarrow> device_context \<times> dpa_mem \<times> 'w" where
  "udp_echo_process_packet api d m w =
     (let (sqd, data_sz, d, m) = take_frame api d m
      in post_frame api sqd data_sz d (swap_macs sqd m) w)"

definition rdma_simple_process_packet ::
  "'w kernel_api \<Rightarrow> device_context \<Rightarrow> dpa_mem \<Rightarrow> 'w \<Rightarrow> device_context \<times> dpa_mem \<times> 'w" where
  "rdma_simple_process_packet api d m w =
     (let (sqd, data_sz, d, m) = take_frame api d m;
          m = swap_macs sqd m;
          m = (if data_sz = 65 then demo_payload sqd (tx_buff_idx (dt_ctx d)) m else m)
      in post_frame api sqd data_sz d m w)"

subsection \<open>Ring arithmetic\<close>

lemma mask_index:
  assumes "k \<le> 32"
  shows "(of_nat n :: u32) AND (push_bit k 1 - 1) = of_nat (n mod 2 ^ k)"
proof -
  have m: "push_bit k 1 - 1 = (Bit_Operations.mask k :: u32)" by (simp add: mask_eq_exp_minus_1 push_bit_eq_mult)
  have "(2 :: nat) ^ k dvd 2 ^ 32" using assms by (rule le_imp_power_dvd)
  then have "unat (take_bit k (of_nat n :: u32)) = n mod 2 ^ k"
    by (simp only: unsigned_take_bit_eq unat_of_nat) (simp add: take_bit_eq_mod mod_mod_cancel)
  moreover have "of_nat (unat (take_bit k (of_nat n :: u32))) = take_bit k (of_nat n :: u32)" by simp
  ultimately have "take_bit k (of_nat n :: u32) = of_nat (n mod 2 ^ k)" by simp
  then show ?thesis by (simp only: m take_bit_eq_mask)
qed

definition sqe_addr :: "device_context \<Rightarrow> nat \<Rightarrow> u64" where
  "sqe_addr d s = sq_ring (sq_ctx d) + of_nat (16 * (s mod 512))"

definition slot_addr :: "device_context \<Rightarrow> nat \<Rightarrow> u64" where
  "slot_addr d k = sq_tx_buff (dt_ctx d) + of_nat (1024 * (k mod 128))"

text \<open>After \<open>k\<close> frames: the indices of the send ring and of the data entries move together.\<close>

definition kernel_at :: "device_context \<Rightarrow> nat \<Rightarrow> bool" where
  "kernel_at d k \<longleftrightarrow> sq_pi (sq_ctx d) = of_nat k \<and> sq_wqe_seg_idx (sq_ctx d) = of_nat (4 * k)
     \<and> tx_buff_idx (dt_ctx d) = of_nat k"

lemma kernel_at_init: "kernel_at (snd (dpa_device_init fd a b w dev_ctx)) 0"
  by (simp add: kernel_at_def dpa_device_init_def dev_ctx_def Let_def)

lemma ucast_small: "n < 2 ^ 32 \<Longrightarrow> ucast (of_nat n :: u32) = (of_nat n :: u64)"
proof -
  assume "n < 2 ^ 32"
  then have "unat (of_nat n :: u32) = n" by (simp add: unat_of_nat)
  moreover have "(of_nat (unat (of_nat n :: u32)) :: u64) = ucast (of_nat n :: u32)" by (rule of_nat_unat)
  ultimately show ?thesis by simp
qed

lemma next_sqe_at:
  assumes "sq_wqe_seg_idx c = of_nat s"
  shows "get_next_sqe c DPA_SQ_IDX_MASK =
    (sq_ring c + of_nat (16 * (s mod 512)), c\<lparr>sq_wqe_seg_idx := of_nat (Suc s)\<rparr>)"
proof -
  have "(of_nat s :: u32) AND DPA_SQ_IDX_MASK = of_nat (s mod 512)"
    using mask_index [of 9 s] by (simp add: DPA_SQ_IDX_MASK_def LOG_SQE_NUM_SEGS_def DPA_LOG_SQ_RING_DEPTH_def)
  moreover have "s mod 512 < 2 ^ 32" by (rule order_less_trans [of _ 512]) simp_all
  ultimately show ?thesis
    using assms by (simp add: get_next_sqe_def sizeof_seg_def ucast_small mult.commute)
qed

lemma next_dte_at:
  assumes "tx_buff_idx c = of_nat k"
  shows "get_next_dte c DPA_DATA_IDX_MASK DPA_LOG_WQ_DATA_ENTRY_BSIZE =
    (sq_tx_buff c + of_nat (1024 * (k mod 128)), c\<lparr>tx_buff_idx := of_nat (Suc k)\<rparr>)"
proof -
  have "(of_nat k :: u32) AND DPA_DATA_IDX_MASK = of_nat (k mod 128)"
    using mask_index [of 7 k] by (simp add: DPA_DATA_IDX_MASK_def DPA_LOG_SQ_RING_DEPTH_def)
  moreover have "push_bit 10 (of_nat (k mod 128) :: u32) = of_nat (1024 * (k mod 128))"
    by (simp add: push_bit_eq_mult)
  moreover have "1024 * (k mod 128) < 1024 * 128" by simp
  then have "1024 * (k mod 128) < 2 ^ 32" by simp
  ultimately show ?thesis
    using assms by (simp add: get_next_dte_def DPA_LOG_WQ_DATA_ENTRY_BSIZE_def ucast_small del: of_nat_mult)
qed


subsection \<open>Swapping\<close>

text \<open>Where the byte at offset \<open>i\<close> of the sent frame comes from.\<close>

definition mac_source :: "nat \<Rightarrow> nat" where
  "mac_source i = (if i < 6 then i + 6 else if i < 12 then i - 6 else i)"

lemma of_nat_inj_64:
  assumes "i < 2 ^ 64" "j < 2 ^ 64"
  shows "(of_nat i :: u64) = of_nat j \<longleftrightarrow> i = j"
proof
  assume "(of_nat i :: u64) = of_nat j"
  then have "unat (of_nat i :: u64) = unat (of_nat j :: u64)" by simp
  then show "i = j" using assms by (simp add: unat_of_nat)
qed simp

lemma swap_bytes:
  assumes "n \<le> 6" "i < 2 ^ 32"
  shows "fold (swap_byte p) [0 ..< n] m (p + of_nat i) =
    m (p + of_nat (if i < n \<or> (6 \<le> i \<and> i < n + 6) then mac_source i else i))"
  using assms
proof (induction n arbitrary: i)
  case (Suc n)
  have at: "(p + of_nat a = p + of_nat b) = (a = b)" if "a < 2 ^ 32" "b < 2 ^ 32" for a b
    using that by (simp add: of_nat_inj_64)
  let ?f = "fold (swap_byte p) [0 ..< n] m"
  have n: "n < 6" using Suc.prems by simp
  have ih: "?f (p + of_nat j) = m (p + of_nat (if j < n \<or> (6 \<le> j \<and> j < n + 6) then mac_source j else j))"
    if "j < 2 ^ 32" for j
    using Suc.IH [of j] n that by simp
  have "fold (swap_byte p) [0 ..< Suc n] m (p + of_nat i) =
      (if i = n + 6 then ?f (p + of_nat n) else if i = n then ?f (p + of_nat (n + 6)) else ?f (p + of_nat i))"
    using at [of i n] at [of i "n + 6"] Suc.prems(2) n
    by (simp add: swap_byte_def Let_def del: of_nat_add)
  also have "\<dots> = m (p + of_nat (if i < Suc n \<or> (6 \<le> i \<and> i < Suc n + 6) then mac_source i else i))"
    using ih [of n] ih [of "n + 6"] ih [OF Suc.prems(2)] n by (auto simp: mac_source_def less_Suc_eq simp del: of_nat_add)
  finally show ?case .
qed auto

lemma swap_macs_bytes:
  assumes "i < 2 ^ 32"
  shows "swap_macs p m (p + of_nat i) = m (p + of_nat (mac_source i))"
  using swap_bytes [OF order.refl assms, of p m] by (simp add: swap_macs_def mac_source_def del: of_nat_add upt_rec_numeral)


subsection \<open>A frame sent back\<close>

text \<open>What the device library promises: a setter writes its own bytes, and a data segment can be read back.\<close>

definition writes_only :: "(dpa_mem \<Rightarrow> dpa_mem) \<Rightarrow> u64 \<Rightarrow> nat \<Rightarrow> bool" where
  "writes_only f p n \<longleftrightarrow> (\<forall>m a. (\<forall>j < n. a \<noteq> p + of_nat j) \<longrightarrow> f m a = m a)"

definition same_bytes :: "u64 \<Rightarrow> nat \<Rightarrow> dpa_mem \<Rightarrow> dpa_mem \<Rightarrow> bool" where
  "same_bytes p n m m' \<longleftrightarrow> (\<forall>j < n. m (p + of_nat j) = m' (p + of_nat j))"

definition kernel_laws :: "'w kernel_api \<Rightarrow> (dpa_mem \<Rightarrow> u64 \<Rightarrow> u32 \<times> u32 \<times> u64) \<Rightarrow> bool" where
  "kernel_laws api data_seg \<longleftrightarrow>
     (\<forall>p i n. writes_only (k_seg_ctrl_set api p i n) p 16) \<and> (\<forall>p. writes_only (k_seg_eth_set api p) p 16) \<and>
     (\<forall>p n k a. writes_only (k_seg_data_set api p n k a) p 16) \<and> (\<forall>p. writes_only (k_dbr_rq_inc_pi api p) p 4) \<and>
     (\<forall>p n k a m. data_seg (k_seg_data_set api p n k a m) p = (n, k, a)) \<and>
     (\<forall>p m m'. same_bytes p 16 m m' \<longrightarrow> data_seg m p = data_seg m' p)"

definition apart :: "u64 \<Rightarrow> nat \<Rightarrow> u64 \<Rightarrow> nat \<Rightarrow> bool" where
  "apart p a q b \<longleftrightarrow> (\<forall>i < a. \<forall>j < b. p + of_nat i \<noteq> q + of_nat j)"

text \<open>The send ring (128 entries of 64 bytes), the data entries (128 of 1024 bytes) and the doorbell record.\<close>

definition kernel_layout :: "device_context \<Rightarrow> bool" where
  "kernel_layout d \<longleftrightarrow> apart (sq_tx_buff (dt_ctx d)) (128 * 1024) (sq_ring (sq_ctx d)) (512 * 16) \<and>
     apart (sq_tx_buff (dt_ctx d)) (128 * 1024) (rq_dbr (rq_ctx d)) 4 \<and>
     apart (sq_ring (sq_ctx d)) (512 * 16) (rq_dbr (rq_ctx d)) 4"

lemma kernel_lawsD:
  assumes "kernel_laws api data_seg"
  shows "writes_only (k_seg_ctrl_set api p i n) p 16" "writes_only (k_seg_eth_set api p) p 16"
    "writes_only (k_seg_data_set api p x y a) p 16" "writes_only (k_dbr_rq_inc_pi api p) p 4"
    "data_seg (k_seg_data_set api p x y a m) p = (x, y, a)"
    "same_bytes p 16 m m' \<Longrightarrow> data_seg m p = data_seg m' p"
  using assms unfolding kernel_laws_def by (elim conjE, simp)+

lemma apart_sub:
  assumes "apart p a q b" "x + n \<le> a" "y + k \<le> b"
  shows "apart (p + of_nat x) n (q + of_nat y) k"
  unfolding apart_def
proof (intro allI impI)
  fix i j assume "i < n" "j < k"
  then have "x + i < a" "y + j < b" using assms(2,3) by simp_all
  then have "p + of_nat (x + i) \<noteq> q + of_nat (y + j)" using assms(1) unfolding apart_def by blast
  then show "p + of_nat x + of_nat i \<noteq> q + of_nat y + of_nat j" by (simp add: add.assoc)
qed

lemma writes_elsewhere: "writes_only f q b \<Longrightarrow> apart p a q b \<Longrightarrow> same_bytes p a (f m) m"
  by (simp add: writes_only_def apart_def same_bytes_def)

lemma same_bytes_trans: "same_bytes p n m m' \<Longrightarrow> same_bytes p n m' m'' \<Longrightarrow> same_bytes p n m m''"
  by (simp add: same_bytes_def)

lemma layout_slot:
  assumes "kernel_layout d"
  shows "apart (slot_addr d k) 1024 (sqe_addr d s) 16" "apart (slot_addr d k) 1024 (rq_dbr (rq_ctx d)) 4"
    "apart (sqe_addr d s) 16 (rq_dbr (rq_ctx d)) 4"
proof -
  have b: "1024 * (k mod 128) + 1024 \<le> 128 * 1024" "16 * (s mod 512) + 16 \<le> 512 * 16"
    using mod_less_divisor [of 128 k] mod_less_divisor [of 512 s] by linarith+
  note l = assms [unfolded kernel_layout_def]
  show "apart (slot_addr d k) 1024 (sqe_addr d s) 16"
    unfolding slot_addr_def sqe_addr_def using l b by (intro apart_sub [of _ "128 * 1024" _ "512 * 16"]) blast+
  show "apart (slot_addr d k) 1024 (rq_dbr (rq_ctx d)) 4"
    using apart_sub [of _ "128 * 1024" _ 4 _ 1024 0 4] l b unfolding slot_addr_def by fastforce
  show "apart (sqe_addr d s) 16 (rq_dbr (rq_ctx d)) 4"
    using apart_sub [of _ "512 * 16" _ 4 _ 16 0 4] l b unfolding sqe_addr_def by fastforce
qed

lemma post_frame_at:
  assumes "kernel_laws api data_seg" "kernel_layout d" "tx_buff_idx (dt_ctx d) = of_nat (Suc k)"
    and "sq_pi (sq_ctx d) = of_nat k" "sq_wqe_seg_idx (sq_ctx d) = of_nat (4 * k)"
  shows "\<exists>d' m'. post_frame api (slot_addr d k) sz d m w =
      (d', m', k_sq_ring_db api (of_nat (Suc k)) (sq_number (sq_ctx d)) w) \<and>
    kernel_at d' (Suc k) \<and> same_bytes (slot_addr d k) 1024 m' m \<and>
    data_seg m' (sqe_addr d (4 * k + 2)) = (sz, dev_lkey d, slot_addr d k)"
proof -
  define c where "c = (\<lambda>j. (sq_ctx d)\<lparr>sq_wqe_seg_idx := of_nat (4 * k + j)\<rparr>)"
  define num where "num = sq_number (sq_ctx d)"
  define m1 where "m1 = k_seg_ctrl_set api (sqe_addr d (4 * k)) (of_nat k) num m"
  define m2 where "m2 = k_seg_eth_set api (sqe_addr d (4 * k + 1)) m1"
  define m3 where "m3 = k_seg_data_set api (sqe_addr d (4 * k + 2)) sz (dev_lkey d) (slot_addr d k) m2"
  define m4 where "m4 = k_dbr_rq_inc_pi api (rq_dbr (rq_ctx d)) m3"
  define sq where "sq = (c 4)\<lparr>sq_pi := of_nat (Suc k)\<rparr>"
  have c0: "sq_ctx d = c 0" using assms(5) by (simp add: c_def)
  have n: "get_next_sqe (c j) DPA_SQ_IDX_MASK = (sqe_addr d (4 * k + j), c (Suc j))" for j
    using next_sqe_at [of "c j" "4 * k + j"] by (simp add: c_def sqe_addr_def)
  have f: "sq_pi (c j) = of_nat k" "sq_number (c j) = num" for j
    using assms(4) by (simp_all add: c_def num_def)
  have idx: "Suc 0 = 1" "Suc 1 = 2" "Suc 2 = 3" "Suc 3 = 4" "4 * k + 0 = 4 * k" by simp_all
  have suc: "of_nat k + (1 :: u32) = of_nat (Suc k)" by simp
  have e: "post_frame api (slot_addr d k) sz d m w =
      (d\<lparr>sq_ctx := sq\<rparr>, m4, k_sq_ring_db api (of_nat (Suc k)) num w)"
    unfolding post_frame_def Let_def c0 n prod.case f idx suc
    by (simp add: m1_def m2_def m3_def m4_def sq_def f suc del: of_nat_Suc)
  note l = layout_slot [OF assms(2)]
  note laws = kernel_lawsD [OF assms(1)]
  have "same_bytes (slot_addr d k) 1024 m1 m" unfolding m1_def by (rule writes_elsewhere [OF laws(1) l(1)])
  moreover have "same_bytes (slot_addr d k) 1024 m2 m1" unfolding m2_def by (rule writes_elsewhere [OF laws(2) l(1)])
  moreover have "same_bytes (slot_addr d k) 1024 m3 m2" unfolding m3_def by (rule writes_elsewhere [OF laws(3) l(1)])
  moreover have "same_bytes (slot_addr d k) 1024 m4 m3" unfolding m4_def by (rule writes_elsewhere [OF laws(4) l(2)])
  ultimately have slot: "same_bytes (slot_addr d k) 1024 m4 m" by (blast intro: same_bytes_trans)
  have "same_bytes (sqe_addr d (4 * k + 2)) 16 m4 m3" unfolding m4_def by (rule writes_elsewhere [OF laws(4) l(3)])
  then have "data_seg m4 (sqe_addr d (4 * k + 2)) = data_seg m3 (sqe_addr d (4 * k + 2))" by (rule laws(6))
  moreover have "data_seg m3 (sqe_addr d (4 * k + 2)) = (sz, dev_lkey d, slot_addr d k)"
    unfolding m3_def by (rule laws(5))
  moreover have "kernel_at (d\<lparr>sq_ctx := sq\<rparr>) (Suc k)"
    using assms(3) by (simp add: kernel_at_def sq_def c_def)
  ultimately show ?thesis using e slot unfolding num_def by simp
qed

text \<open>The source of the frame that the current completion announces.\<close>

definition frame_source :: "'w kernel_api \<Rightarrow> device_context \<Rightarrow> dpa_mem \<Rightarrow> u64" where
  "frame_source api d m = k_rwqe_addr api m
     (rq_ring (rq_ctx d) + ucast (k_cqe_wqe_counter api m (cq_cqe (rqcq_ctx d)) AND DPA_RQ_IDX_MASK) * sizeof_seg)"

lemma take_frame_at:
  assumes "kernel_at d k"
  shows "take_frame api d m = (slot_addr d k, k_cqe_byte_cnt api m (cq_cqe (rqcq_ctx d)),
    d\<lparr>dt_ctx := (dt_ctx d)\<lparr>tx_buff_idx := of_nat (Suc k)\<rparr>\<rparr>,
    mem_copy (slot_addr d k) (frame_source api d m) (unat (k_cqe_byte_cnt api m (cq_cqe (rqcq_ctx d)))) m)"
  using assms next_dte_at [of "dt_ctx d" k]
  by (simp add: take_frame_def kernel_at_def frame_source_def slot_addr_def Let_def)

lemma mem_copy_bytes: "n \<le> 2 ^ 32 \<Longrightarrow> i < n \<Longrightarrow> mem_copy p q n m (p + of_nat i) = m (q + of_nat i)"
  by (simp add: mem_copy_def unat_of_nat)

text \<open>The payload of the demonstration frame \<open>k\<close>: a text whose first byte is the number of the next frame modulo 16.\<close>

definition demo_byte :: "nat \<Rightarrow> nat \<Rightarrow> u8" where
  "demo_byte k i = of_char (if i = 42 then ''0123456789abcdef'' ! (Suc k mod 16) else ''  Event demo***************'' ! (i - 42))"

lemma str_bytes_nth: "j < length s \<Longrightarrow> str_bytes s ! j = of_char (s ! j)"
  by (simp add: str_bytes_def)

lemma demo_payload_bytes:
  assumes "i < 65"
  shows "demo_payload p (of_nat (Suc k)) m (p + of_nat i) = (if 42 \<le> i then demo_byte k i else m (p + of_nat i))"
proof -
  have hex: "(of_nat (Suc k) :: u32) AND 0xf = of_nat (Suc k mod 16)" using mask_index [of 4 "Suc k"] by simp
  then have h: "unat ((of_nat (Suc k) :: u32) AND 0xf) = Suc k mod 16" by (simp add: unat_of_nat del: of_nat_Suc)
  have ne: "p + of_nat i = p + 0x2a \<longleftrightarrow> i = 42"
    using of_nat_inj_64 [of i 42] assms by simp
  have pos: "unat (p + of_nat i - (p + 0x2a)) = i - 42" if "42 \<le> i"
  proof -
    have "p + of_nat i - (p + 0x2a) = of_nat (i - 42)" using that by (simp add: of_nat_diff)
    then show ?thesis using assms by (simp add: unat_of_nat)
  qed
  have far: "\<not> unat (p + of_nat i - (p + 0x2a)) < 23" if "\<not> 42 \<le> i"
  proof
    assume "unat (p + of_nat i - (p + 0x2a)) < 23"
    then have "unat (p + of_nat i - (p + 0x2a)) + 42 < 65" by simp
    moreover have "p + of_nat i - (p + 0x2a) = of_nat i - 42" by simp
    moreover have "(of_nat i :: u64) = of_nat (unat (of_nat i - 42 :: u64) + 42)" by simp
    ultimately show False using that of_nat_inj_64 [of i "unat (of_nat i - 42 :: u64) + 42"] by simp
  qed
  have len: "length (take (65 - 0x2a) (str_bytes ''  Event demo***************'')) = 23"
    by (simp add: str_bytes_def)
  show ?thesis
  proof (cases "42 \<le> i")
    case True
    have "take (65 - 0x2a) (str_bytes ''  Event demo***************'') ! (i - 42)
        = of_char (''  Event demo***************'' ! (i - 42))"
      using assms True by (subst nth_take) (simp, rule str_bytes_nth, simp)
    moreover have "str_bytes ''0123456789abcdef'' ! (Suc k mod 16) = of_char (''0123456789abcdef'' ! (Suc k mod 16))"
      by (rule str_bytes_nth) simp
    moreover have "i - 42 < 23" using assms True by simp
    ultimately show ?thesis
      using True pos len unfolding demo_payload_def Let_def write_bytes_def fun_upd_apply ne h demo_byte_def by simp
  next
    case False
    then show ?thesis
      using far len unfolding demo_payload_def Let_def write_bytes_def fun_upd_apply ne h by simp
  qed
qed

text \<open>
  C7. Both kernels, on a frame of at least the two MAC addresses and at most one data entry (12 to 1024
  bytes): the \<open>k\<close>-th frame goes out from the \<open>k\<close>-th data entry with its MAC addresses swapped and its
  length unchanged, the doorbell announces it, and the rings are ready for the next one. The payload
  is unchanged too, but for the frames of 65 bytes of \<open>rdma_simple\<close>, whose bytes from 42 on are replaced
  by the demonstration text with its running hexadecimal digit.
\<close>

theorem kernel_echoes_frame:
  assumes "kernel_laws api data_seg" "kernel_layout d" "kernel_at d k"
    and sz: "sz = k_cqe_byte_cnt api m (cq_cqe (rqcq_ctx d))" "12 \<le> unat sz" "unat sz \<le> 1024"
  shows "\<exists>d' m'. (if demo then rdma_simple_process_packet else udp_echo_process_packet) api d m w =
      (d', m', k_sq_ring_db api (of_nat (Suc k)) (sq_number (sq_ctx d)) w) \<and>
    kernel_at d' (Suc k) \<and>
    (\<forall>i < unat sz. m' (slot_addr d k + of_nat i) =
       (if demo \<and> sz = 65 \<and> 42 \<le> i then demo_byte k i else m (frame_source api d m + of_nat (mac_source i)))) \<and>
    data_seg m' (sqe_addr d (4 * k + 2)) = (sz, dev_lkey d, slot_addr d k)"
proof -
  define d1 where "d1 = d\<lparr>dt_ctx := (dt_ctx d)\<lparr>tx_buff_idx := of_nat (Suc k)\<rparr>\<rparr>"
  define m1 where "m1 = swap_macs (slot_addr d k) (mem_copy (slot_addr d k) (frame_source api d m) (unat sz) m)"
  define m2 where "m2 = (if demo \<and> sz = 65 then demo_payload (slot_addr d k) (of_nat (Suc k)) m1 else m1)"
  have p: "(if demo then rdma_simple_process_packet else udp_echo_process_packet) api d m w = post_frame api (slot_addr d k) sz d1 m2 w"
    using sz(1) take_frame_at [OF assms(3), of api m]
    by (simp add: udp_echo_process_packet_def rdma_simple_process_packet_def d1_def m1_def m2_def Let_def)
  have a: "slot_addr d1 k = slot_addr d k" "sqe_addr d1 s = sqe_addr d s" "sq_ctx d1 = sq_ctx d" "dev_lkey d1 = dev_lkey d"
      "kernel_layout d1" for s
    using assms(2) by (simp_all add: d1_def slot_addr_def sqe_addr_def kernel_layout_def)
  have pre: "tx_buff_idx (dt_ctx d1) = of_nat (Suc k)" "sq_pi (sq_ctx d1) = of_nat k"
      "sq_wqe_seg_idx (sq_ctx d1) = of_nat (4 * k)"
    using assms(3) by (simp_all add: d1_def kernel_at_def)
  obtain d' m' where r: "post_frame api (slot_addr d k) sz d1 m2 w =
      (d', m', k_sq_ring_db api (of_nat (Suc k)) (sq_number (sq_ctx d)) w)" "kernel_at d' (Suc k)"
    "same_bytes (slot_addr d k) 1024 m' m2" "data_seg m' (sqe_addr d (4 * k + 2)) = (sz, dev_lkey d, slot_addr d k)"
    using post_frame_at [OF assms(1) a(5) pre, of sz m2 w] unfolding a by blast
  have "m' (slot_addr d k + of_nat i) =
      (if demo \<and> sz = 65 \<and> 42 \<le> i then demo_byte k i else m (frame_source api d m + of_nat (mac_source i)))"
    if i: "i < unat sz" for i
  proof -
    have "mac_source i < unat sz" using i sz(2) unfolding mac_source_def by presburger
    then have "m1 (slot_addr d k + of_nat i) = m (frame_source api d m + of_nat (mac_source i))"
      using sz(3) i by (simp add: m1_def swap_macs_bytes mem_copy_bytes)
    moreover have "m' (slot_addr d k + of_nat i) = m2 (slot_addr d k + of_nat i)"
      using r(3) i sz(3) by (simp add: same_bytes_def)
    moreover have "i < 65" if "sz = 65" using i that by simp
    ultimately show ?thesis
      using demo_payload_bytes [of i "slot_addr d k" k m1] by (simp add: m2_def del: of_nat_Suc)
  qed
  then have "\<forall>i < unat sz. m' (slot_addr d k + of_nat i) =
      (if demo \<and> sz = 65 \<and> 42 \<le> i then demo_byte k i else m (frame_source api d m + of_nat (mac_source i)))"
    by (intro allI impI)
  with p r show ?thesis by (intro exI [of _ d'] exI [of _ m']) (simp only: simp_thms)
qed

subsection \<open>An example\<close>

text \<open>Segments in little-endian memory, a frame of \<open>bsize\<close> bytes.\<close>

fun read_le :: "nat \<Rightarrow> dpa_mem \<Rightarrow> u64 \<Rightarrow> u64" where
  "read_le 0 m p = 0"
| "read_le (Suc n) m p = ucast (m p) OR push_bit 8 (read_le n m (p + 1))"

definition le_list :: "nat \<Rightarrow> u64 \<Rightarrow> u8 list" where
  "le_list n x = map (\<lambda>j. ucast (drop_bit (8 * j) x)) [0 ..< n]"

lemma read_le_eq:
  assumes "\<And>j. j < n \<Longrightarrow> m (p + of_nat j) = ucast (drop_bit (8 * j) x)"
  shows "read_le n m p = take_bit (8 * n) x"
  using assms
proof (induction n arbitrary: p x)
  case (Suc n)
  have "m (p + 1 + of_nat j) = ucast (drop_bit (8 * j) (drop_bit 8 x))" if "j < n" for j
    using Suc.prems [of "Suc j"] that by (simp add: ac_simps)
  from Suc.IH [OF this] have "read_le n m (p + 1) = take_bit (8 * n) (drop_bit 8 x)" .
  moreover have "m p = ucast x" using Suc.prems [of 0] by simp
  ultimately show ?case
    by (simp, intro bit_word_eqI) (auto simp: bit_simps)
qed simp

lemma read_le_write:
  assumes "n + k \<le> length bs" "\<And>j. j < k \<Longrightarrow> bs ! (n + j) = ucast (drop_bit (8 * j) x)" "length bs \<le> 2 ^ 32"
  shows "read_le k (write_bytes p bs m) (p + of_nat n) = take_bit (8 * k) x"
proof (rule read_le_eq)
  fix j assume j: "j < k"
  have "unat (of_nat (n + j) :: u64) = n + j" using assms(1,3) j by (simp add: unat_of_nat del: of_nat_add)
  then show "write_bytes p bs m (p + of_nat n + of_nat j) = ucast (drop_bit (8 * j) x)"
    using assms(1,2) j by (simp add: write_bytes_def add.assoc)
qed

definition demo_data_seg :: "dpa_mem \<Rightarrow> u64 \<Rightarrow> u32 \<times> u32 \<times> u64" where
  "demo_data_seg m p = (ucast (read_le 4 m p), ucast (read_le 4 m (p + 4)), read_le 8 m (p + 8))"

definition demo_kernel_api :: "u32 \<Rightarrow> unit kernel_api" where
  "demo_kernel_api bsize = \<lparr>k_cqe_wqe_counter = \<lambda>m c. 0, k_cqe_byte_cnt = \<lambda>m c. bsize, k_rwqe_addr = \<lambda>m e. read_le 8 m (e + 8),
     k_seg_ctrl_set = \<lambda>p i n. write_bytes p (le_list 8 (ucast i) @ le_list 8 (ucast n)),
     k_seg_eth_set = \<lambda>p. write_bytes p (replicate 16 0),
     k_seg_data_set = \<lambda>p n k a. write_bytes p (le_list 4 (ucast n) @ le_list 4 (ucast k) @ le_list 8 a),
     k_sq_ring_db = \<lambda>i n w. w, k_dbr_rq_inc_pi = \<lambda>p m. m(p := m p + 1)\<rparr>"

lemma writes_only_write: "length bs \<le> n \<Longrightarrow> writes_only (write_bytes p bs) p n"
proof -
  assume n: "length bs \<le> n"
  have "\<not> (\<forall>j < n. a \<noteq> p + of_nat j)" if "unat (a - p) < length bs" for a :: u64
  proof -
    have "a = p + of_nat (unat (a - p))" by simp
    moreover have "unat (a - p) < n" using that n by simp
    ultimately show ?thesis by blast
  qed
  then show ?thesis by (auto simp: writes_only_def write_bytes_def)
qed

lemma read_le_cong: "(\<And>j. j < n \<Longrightarrow> m (p + of_nat j) = m' (p + of_nat j)) \<Longrightarrow> read_le n m p = read_le n m' p"
proof (induction n arbitrary: p)
  case (Suc n)
  have "m (p + 1 + of_nat j) = m' (p + 1 + of_nat j)" if "j < n" for j
    using Suc.prems [of "Suc j"] that by (simp add: add.assoc)
  with Suc.prems [of 0] Suc.IH [of "p + 1"] show ?case by simp
qed simp

lemma same_bytes_read:
  assumes "same_bytes p 16 m m'" "i + n \<le> 16"
  shows "read_le n m (p + of_nat i) = read_le n m' (p + of_nat i)"
proof (rule read_le_cong)
  fix j assume "j < n"
  then have "i + j < 16" using assms(2) by simp
  then have "m (p + of_nat (i + j)) = m' (p + of_nat (i + j))" using assms(1) unfolding same_bytes_def by blast
  then show "m (p + of_nat i + of_nat j) = m' (p + of_nat i + of_nat j)" by (simp add: add.assoc)
qed

lemma demo_kernel_laws: "kernel_laws (demo_kernel_api bsize) demo_data_seg"
proof -
  have d: "demo_data_seg (k_seg_data_set (demo_kernel_api bsize) p n k a m) p = (n, k, a)" for p n k a m
  proof -
    let ?bs = "le_list 4 (ucast n) @ le_list 4 (ucast k) @ le_list 8 a"
    have "read_le 4 (write_bytes p ?bs m) (p + of_nat 0) = take_bit 32 (ucast n)"
      using read_le_write [where n = 0 and k = 4 and bs = ?bs and x = "ucast n" and p = p and m = m] 
      by (simp add: le_list_def nth_append)
    moreover have "read_le 4 (write_bytes p ?bs m) (p + of_nat 4) = take_bit 32 (ucast k)"
      using read_le_write [where n = 4 and k = 4 and bs = ?bs and x = "ucast k" and p = p and m = m] 
      by (simp add: le_list_def nth_append)
    moreover have "read_le 8 (write_bytes p ?bs m) (p + of_nat 8) = take_bit 64 a"
      using read_le_write [where n = 8 and k = 8 and bs = ?bs and x = a and p = p and m = m] 
      by (simp add: le_list_def nth_append)
    ultimately show ?thesis
      by (simp add: demo_data_seg_def demo_kernel_api_def) (auto intro!: bit_word_eqI simp: bit_simps)
  qed
  have r: "demo_data_seg m p = demo_data_seg m' p" if "same_bytes p 16 m m'" for p m m'
    using same_bytes_read [OF that, of 0 4] same_bytes_read [OF that, of 4 4] same_bytes_read [OF that, of 8 8]
    by (simp add: demo_data_seg_def)
  have "writes_only (\<lambda>m. m(p := m p + 1)) p 4" for p by (auto simp: writes_only_def intro!: exI [of _ 0])
  with d r show ?thesis
    unfolding kernel_laws_def by (auto simp: demo_kernel_api_def le_list_def intro!: writes_only_write)
qed


text \<open>A device context as \<open>dpa_device_init\<close> leaves it, but with the rings the kernels need.\<close>

definition demo_kernel_ctx :: device_context where
  "demo_kernel_ctx = dev_ctx\<lparr>rq_ctx := (rq_ctx dev_ctx)\<lparr>rq_ring := 0x70000, rq_dbr := 0x60000\<rparr>,
     sq_ctx := (sq_ctx dev_ctx)\<lparr>sq_ring := 0x40000\<rparr>, dt_ctx := (dt_ctx dev_ctx)\<lparr>sq_tx_buff := 0x100000\<rparr>\<rparr>"

lemma apart_nat:
  assumes "p + a \<le> q \<or> q + b \<le> p" "p + a < 2 ^ 64" "q + b < 2 ^ 64"
  shows "apart (of_nat p) a (of_nat q) b"
  unfolding apart_def
proof (intro allI impI)
  fix i j assume "i < a" "j < b"
  then have "p + i \<noteq> q + j" "p + i < 2 ^ 64" "q + j < 2 ^ 64" using assms by linarith+
  then have "(of_nat (p + i) :: u64) \<noteq> of_nat (q + j)" by (simp only: of_nat_inj_64 not_False_eq_True)
  then show "(of_nat p :: u64) + of_nat i \<noteq> of_nat q + of_nat j" by simp
qed

lemma demo_kernel_ready: "kernel_layout demo_kernel_ctx" "kernel_at demo_kernel_ctx 0"
proof -
  have "apart 0x100000 (128 * 1024) 0x40000 (512 * 16)" "apart 0x100000 (128 * 1024) 0x60000 4"
    "apart 0x40000 (512 * 16) 0x60000 4"
    using apart_nat [where p = "0x100000" and a = "128 * 1024" and q = "0x40000" and b = "512 * 16"]
      apart_nat [where p = "0x100000" and a = "128 * 1024" and q = "0x60000" and b = 4]
      apart_nat [where p = "0x40000" and a = "512 * 16" and q = "0x60000" and b = 4]
    by simp_all
  then show "kernel_layout demo_kernel_ctx" "kernel_at demo_kernel_ctx 0"
    by (simp_all add: kernel_layout_def kernel_at_def demo_kernel_ctx_def dev_ctx_def)
qed

text \<open>The first frame of \<open>rdma_simple\<close>, of 64 bytes and of 65 bytes.\<close>

lemma kernel_echoes_frame_witness:
  "(\<exists>d' m'. rdma_simple_process_packet (demo_kernel_api 64) demo_kernel_ctx ucast () = (d', m', ()) \<and>
     kernel_at d' 1 \<and> m' 0x100000 = ucast (frame_source (demo_kernel_api 64) demo_kernel_ctx ucast + 6) \<and>
     m' 0x10000b = ucast (frame_source (demo_kernel_api 64) demo_kernel_ctx ucast + 5) \<and> demo_data_seg m' 0x40020 = (64, 0, 0x100000)) \<and>
   (\<exists>d' m'. rdma_simple_process_packet (demo_kernel_api 65) demo_kernel_ctx ucast () = (d', m', ()) \<and>
     m' 0x100000 = ucast (frame_source (demo_kernel_api 65) demo_kernel_ctx ucast + 6) \<and>
     m' 0x10002a = of_char (CHR ''1'') \<and> m' 0x10002c = of_char (CHR ''E''))"
proof -
  have k: "slot_addr demo_kernel_ctx 0 = 0x100000" "sqe_addr demo_kernel_ctx (4 * 0 + 2) = 0x40020" "dev_lkey demo_kernel_ctx = 0"
      "Suc 0 = 1"
    by (simp_all add: slot_addr_def sqe_addr_def demo_kernel_ctx_def dev_ctx_def)
  have db: "k_sq_ring_db (demo_kernel_api n) i j w = ()" for n i j w by simp
  have run: "\<exists>d' m'. rdma_simple_process_packet (demo_kernel_api n) demo_kernel_ctx ucast () = (d', m', ()) \<and> kernel_at d' 1 \<and>
      (\<forall>i < unat n. m' (0x100000 + of_nat i) = (if n = 65 \<and> 42 \<le> i then demo_byte 0 i
         else ucast (frame_source (demo_kernel_api n) demo_kernel_ctx ucast + of_nat (mac_source i)))) \<and>
      demo_data_seg m' 0x40020 = (n, 0, 0x100000)"
    if n: "12 \<le> unat n" "unat n \<le> 1024" for n
  proof -
    have "n = k_cqe_byte_cnt (demo_kernel_api n) (\<lambda>a. ucast a) (cq_cqe (rqcq_ctx demo_kernel_ctx))" by (simp add: demo_kernel_api_def)
    from kernel_echoes_frame [OF demo_kernel_laws demo_kernel_ready this n, of True "()"]
    show ?thesis unfolding k(1-4) db by simp
  qed
  obtain d' m' where r: "rdma_simple_process_packet (demo_kernel_api 64) demo_kernel_ctx ucast () = (d', m', ())"
    "kernel_at d' 1" "demo_data_seg m' 0x40020 = (64, 0, 0x100000)"
    and b: "\<forall>i < 64. m' (0x100000 + of_nat i) = ucast (frame_source (demo_kernel_api 64) demo_kernel_ctx ucast + of_nat (mac_source i))"
    using run [of 64] by auto
  obtain d2 m2 where r2: "rdma_simple_process_packet (demo_kernel_api 65) demo_kernel_ctx ucast () = (d2, m2, ())"
    and b2: "\<forall>i < 65. m2 (0x100000 + of_nat i) = (if 42 \<le> i then demo_byte 0 i
      else ucast (frame_source (demo_kernel_api 65) demo_kernel_ctx ucast + of_nat (mac_source i)))"
    using run [of 65] by auto
  have "m' 0x100000 = ucast (frame_source (demo_kernel_api 64) demo_kernel_ctx ucast + 6)"
    "m' 0x10000b = ucast (frame_source (demo_kernel_api 64) demo_kernel_ctx ucast + 5)"
    using spec [OF b, of 0] spec [OF b, of 11] by (simp_all add: mac_source_def)
  moreover have "m2 0x100000 = ucast (frame_source (demo_kernel_api 65) demo_kernel_ctx ucast + 6)"
    "m2 0x10002a = of_char (CHR ''1'')" "m2 0x10002c = of_char (CHR ''E'')"
    using spec [OF b2, of 0] spec [OF b2, of 42] spec [OF b2, of 44] by (simp_all add: mac_source_def demo_byte_def)
  ultimately show ?thesis using r r2 by blast
qed

end
