(* ===== verification/AppDag.thy ===== *)
theory AppDag
  imports StrUtils
begin

text \<open>
  The application graph of \<open>runtime/include/utils/app_dag.h\<close>: hosts, components, the loader and
  the lookups.

  JSON parsing is nlohmann's library, outside the repository: the document is a value of an
  abstract type \<open>'j\<close>, and the accessors the loader calls are the fields of a parameter
  \<open>json_api\<close>. An accessor that throws (a missing key read as a string, a value of the wrong
  type) returns \<open>Std_Exception\<close>.
\<close>

subsection \<open>Data\<close>

record HostConfig =
  ipv4 :: string
  mgnt_port :: u16
  data_port :: u16
  connect_to :: "string list"

record DAGComponent =
  dc_name :: string
  dc_component_id :: component_typeid_t
  data_path :: "string \<rightharpoonup> string"
  ctrl_path :: "string \<rightharpoonup> string list"
  ctrl_entries :: "(string \<rightharpoonup> string) list"

record AppDAG =
  app_name :: string
  enabled_components :: component_typeid_t
  components_map :: "(string \<times> DAGComponent) list"
  remote_hosts :: "HostConfig list"
  local_hosts :: "HostConfig list"

definition empty_AppDAG :: AppDAG where
  "empty_AppDAG = \<lparr>app_name = [], enabled_components = 0, components_map = [],
     remote_hosts = [], local_hosts = []\<rparr>"

subsection \<open>JSON accessors\<close>

record 'j json_api =
  js_at :: "'j \<Rightarrow> string \<Rightarrow> 'j run"         \<comment> \<open>\<open>j[key]\<close>\<close>
  js_contains :: "'j \<Rightarrow> string \<Rightarrow> bool"
  js_string :: "'j \<Rightarrow> string run"             \<comment> \<open>\<open>get<std::string>()\<close>\<close>
  js_u16 :: "'j \<Rightarrow> u16 run"                   \<comment> \<open>\<open>get<uint16_t>()\<close>\<close>
  js_elems :: "'j \<Rightarrow> 'j list"                 \<comment> \<open>range-based iteration\<close>
  js_items :: "'j \<Rightarrow> (string \<times> 'j) list"      \<comment> \<open>\<open>items()\<close>\<close>
  js_is_array :: "'j \<Rightarrow> bool"
  js_equals :: "'j \<Rightarrow> string \<Rightarrow> bool"        \<comment> \<open>\<open>v == "..."\<close>\<close>

definition js_at_string :: "'j json_api \<Rightarrow> 'j \<Rightarrow> string \<Rightarrow> string run" where
  "js_at_string api j k = bind_run (js_at api j k) (js_string api)"

subsection \<open>Loading\<close>

fun component_name_to_id :: "string \<Rightarrow> component_typeid_t run" where
  "component_name_to_id name =
     (if name = ''root'' then Inr kComponent_Unknown
      else if name = ''flow_engine'' then Inr kComponent_FlowEngine
      else if name = ''dpa'' then Inr kComponent_DPA
      else if name = ''soc'' then Inr kComponent_SoC
      else if name = ''remote_host'' then Inr kRemote_Host
      else if name = ''local_host'' then Inr kLocal_Host
      else Inl Nicc_Shutdown)"

definition load_host :: "'j json_api \<Rightarrow> 'j \<Rightarrow> HostConfig list \<Rightarrow> HostConfig list run" where
  "load_host api host hosts =
     bind_run (js_at_string api host ''ipv4'') (\<lambda>ip.
     bind_run (bind_run (js_at api host ''mgnt_port'') (js_u16 api)) (\<lambda>mp.
     bind_run (bind_run (js_at api host ''data_port'') (js_u16 api)) (\<lambda>dp.
     bind_run (js_at api host ''connect_to'') (\<lambda>ct.
     bind_run (fold_run (\<lambda>c cs. bind_run (js_string api c) (\<lambda>x. Inr (cs @ [x]))) (js_elems api ct) []) (\<lambda>cs.
       Inr (hosts @ [\<lparr>ipv4 = ip, mgnt_port = mp, data_port = dp, connect_to = cs\<rparr>]))))))"

definition load_hosts :: "'j json_api \<Rightarrow> 'j \<Rightarrow> string \<Rightarrow> HostConfig list \<Rightarrow> HostConfig list run" where
  "load_hosts api j key hosts =
     (if js_contains api j key
      then bind_run (js_at api j key) (\<lambda>hs. fold_run (load_host api) (js_elems api hs) hosts)
      else Inr hosts)"

definition load_enabled :: "'j json_api \<Rightarrow> 'j \<Rightarrow> component_typeid_t \<Rightarrow> component_typeid_t run" where
  "load_enabled api v en =
     (if js_equals api v ''flow_engine'' then Inr (en OR kComponent_FlowEngine)
      else if js_equals api v ''dpa'' then Inr (en OR kComponent_DPA)
      else if js_equals api v ''soc'' then Inr (en OR kComponent_SoC)
      else bind_run (js_string api v) (\<lambda>_. Inl Nicc_Shutdown))"

definition load_entry ::
  "'j json_api \<Rightarrow> 'j \<Rightarrow> (string \<rightharpoonup> string) list \<Rightarrow> (string \<rightharpoonup> string) list run" where
  "load_entry api e es =
     bind_run (js_at_string api e ''match'') (\<lambda>m.
     bind_run (js_at_string api e ''action'') (\<lambda>a.
       Inr (es @ [[''match'' \<mapsto> m, ''action'' \<mapsto> a]])))"

definition load_ctrl_item :: "'j json_api \<Rightarrow> string \<times> 'j \<Rightarrow> DAGComponent \<Rightarrow> DAGComponent run" where
  "load_ctrl_item api kv c = (case kv of (key, value) \<Rightarrow>
     if js_is_array api value
     then if key = ''entries''
          then bind_run (fold_run (load_entry api) (js_elems api value) (ctrl_entries c)) (\<lambda>es.
                 Inr (c\<lparr>ctrl_entries := es\<rparr>))
          else fold_run (\<lambda>v c. bind_run (js_string api v) (\<lambda>x.
                 Inr (c\<lparr>ctrl_path := (ctrl_path c)(key \<mapsto>
                        (case ctrl_path c key of None \<Rightarrow> [] | Some xs \<Rightarrow> xs) @ [x])\<rparr>)))
                 (js_elems api value) c
     else Inr c)"

definition load_data_item :: "'j json_api \<Rightarrow> string \<times> 'j \<Rightarrow> DAGComponent \<Rightarrow> DAGComponent run" where
  "load_data_item api kv c = (case kv of (key, value) \<Rightarrow>
     bind_run (js_string api value) (\<lambda>x. Inr (c\<lparr>data_path := (data_path c)(key \<mapsto> x)\<rparr>)))"

definition load_component ::
  "'j json_api \<Rightarrow> 'j \<Rightarrow> (string \<times> DAGComponent) list \<Rightarrow> (string \<times> DAGComponent) list run" where
  "load_component api item cm =
     (if js_contains api item ''component''
      then bind_run (js_at_string api item ''component'') (\<lambda>name.
           bind_run (component_name_to_id name) (\<lambda>cid.
           let c0 = \<lparr>dc_name = name, dc_component_id = cid, data_path = Map.empty,
                     ctrl_path = Map.empty, ctrl_entries = []\<rparr>
           in bind_run (if js_contains api item ''data_path''
                        then bind_run (js_at api item ''data_path'') (\<lambda>dp.
                               fold_run (load_data_item api) (js_items api dp) c0)
                        else Inr c0) (\<lambda>c1.
              bind_run (if js_contains api item ''ctrl_path''
                        then bind_run (js_at api item ''ctrl_path'') (\<lambda>cp.
                               fold_run (load_ctrl_item api) (js_items api cp) c1)
                        else Inr c1) (\<lambda>c2.
                Inr (om_put name c2 cm)))))
      else Inr cm)"

definition load_json :: "'j json_api \<Rightarrow> 'j \<Rightarrow> AppDAG \<Rightarrow> AppDAG run" where
  "load_json api j d =
     bind_run (js_at_string api j ''app_name'') (\<lambda>name.
     bind_run (load_hosts api j ''remote_host'' (remote_hosts d)) (\<lambda>rh.
     bind_run (load_hosts api j ''local_host'' (local_hosts d)) (\<lambda>lh.
     bind_run (js_at api j ''enabled_components'') (\<lambda>ec.
     bind_run (fold_run (load_enabled api) (js_elems api ec) (enabled_components d)) (\<lambda>en.
     bind_run (js_at api j ''dp_graph'') (\<lambda>g.
     bind_run (fold_run (load_component api) (js_elems api g) []) (\<lambda>cm.
       Inr \<lparr>app_name = name, enabled_components = en, components_map = cm, remote_hosts = rh,
            local_hosts = lh\<rparr>)))))))"

text \<open>
  \<open>load_from_file\<close>: \<open>file\<close> is what opening and parsing the file gives, \<open>None\<close> when it cannot be
  opened; a parse error of the library is an exception.
\<close>

definition load_from_file :: "'j json_api \<Rightarrow> 'j run option \<Rightarrow> AppDAG \<Rightarrow> AppDAG run" where
  "load_from_file api file d = (case file of None \<Rightarrow> Inl Std_Exception
     | Some r \<Rightarrow> bind_run r (\<lambda>j. load_json api j d))"

definition new_AppDAG :: "'j json_api \<Rightarrow> 'j run option \<Rightarrow> AppDAG run" where
  "new_AppDAG api file = load_from_file api file empty_AppDAG"

subsection \<open>Lookups\<close>

definition get_enabled_components :: "AppDAG \<Rightarrow> component_typeid_t" where
  "get_enabled_components d = enabled_components d"

text \<open>The reference to the first host; there may be none, and the code does not check.\<close>

definition get_host_config :: "string \<Rightarrow> AppDAG \<Rightarrow> HostConfig run" where
  "get_host_config name d =
     (if name = ''remote'' then (if remote_hosts d = [] then Inl Bad_Access else Inr (remote_hosts d ! 0))
      else if name = ''local'' then (if local_hosts d = [] then Inl Bad_Access else Inr (local_hosts d ! 0))
      else Inl Nicc_Shutdown)"

definition get_component_config :: "string \<Rightarrow> AppDAG \<Rightarrow> DAGComponent option" where
  "get_component_config name d = map_of (components_map d) name"

definition get_component_config_by_id :: "component_typeid_t \<Rightarrow> AppDAG \<Rightarrow> DAGComponent option" where
  "get_component_config_by_id cid d =
     map_option snd (find (\<lambda>nc. dc_component_id (snd nc) = cid) (components_map d))"

definition extract_string_in_parentheses :: "string \<Rightarrow> string" where
  "extract_string_in_parentheses str =
     (case find_char CHR ''('' str of None \<Rightarrow> []
      | Some start \<Rightarrow> (case find_char_from CHR '')'' start str of None \<Rightarrow> []
          | Some end' \<Rightarrow> substr (start + 1) (end' - start - 1) str))"

subsection \<open>Lemmas\<close>

lemma load_component_wf: "load_component api item cm = Inr cm' \<Longrightarrow> om_wf cm \<Longrightarrow> om_wf cm'"
  by (auto simp: load_component_def bind_run_eq_Inr Let_def om_wf_put split: if_splits)

text \<open>Every component of a loaded graph is filed under its own name, with that name's id.\<close>

definition dag_wf :: "(string \<times> DAGComponent) list \<Rightarrow> bool" where
  "dag_wf cm \<longleftrightarrow> om_wf cm \<and>
     (\<forall>(name, c) \<in> set cm. dc_name c = name \<and> component_name_to_id name = Inr (dc_component_id c))"

lemma set_om_put_subset: "set (om_put k v xs) \<subseteq> insert (k, v) (set xs)"
  by (induction k v xs rule: om_put.induct) auto

lemma load_data_item_id:
  "load_data_item api kv c = Inr c' \<Longrightarrow> dc_name c' = dc_name c \<and> dc_component_id c' = dc_component_id c"
  by (auto simp: load_data_item_def bind_run_eq_Inr split: prod.splits)

lemma load_ctrl_item_id:
  assumes "load_ctrl_item api kv c = Inr c'"
  shows "dc_name c' = dc_name c \<and> dc_component_id c' = dc_component_id c"
proof -
  obtain key val where kv: "kv = (key, val)" by (cases kv)
  show ?thesis
  proof (cases "js_is_array api val \<and> key \<noteq> ''entries''")
    case False
    then show ?thesis using assms
      by (auto simp: load_ctrl_item_def kv bind_run_eq_Inr split: if_splits)
  next
    case True
    then have "fold_run (\<lambda>v c. bind_run (js_string api v) (\<lambda>x.
                 Inr (c\<lparr>ctrl_path := (ctrl_path c)(key \<mapsto>
                        (case ctrl_path c key of None \<Rightarrow> [] | Some xs \<Rightarrow> xs) @ [x])\<rparr>)))
                 (js_elems api val) c = Inr c'"
      using assms by (simp add: load_ctrl_item_def kv)
    then show ?thesis
      by (rule fold_run_invariant) (auto simp: bind_run_eq_Inr)
  qed
qed

lemma fold_run_keeps_id:
  assumes "fold_run f xs c = Inr c'"
    and "\<And>x c c'. f x c = Inr c' \<Longrightarrow> dc_name c' = dc_name c \<and> dc_component_id c' = dc_component_id c"
  shows "dc_name c' = dc_name c \<and> dc_component_id c' = dc_component_id c"
  using assms(1) by (rule fold_run_invariant) (auto dest: assms(2))

lemma load_items_id:
  "fold_run (load_data_item api) xs c = Inr c' \<Longrightarrow> dc_name c' = dc_name c \<and> dc_component_id c' = dc_component_id c"
  "fold_run (load_ctrl_item api) xs c = Inr c' \<Longrightarrow> dc_name c' = dc_name c \<and> dc_component_id c' = dc_component_id c"
  by (erule fold_run_keeps_id, erule load_data_item_id, erule fold_run_keeps_id, erule load_ctrl_item_id)

lemma load_component_dag_wf:
  assumes "load_component api item cm = Inr cm'" "dag_wf cm"
  shows "dag_wf cm'"
proof (cases "js_contains api item ''component''")
  case False
  with assms show ?thesis by (simp add: load_component_def)
next
  case True
  let ?c0 = "\<lambda>name cid. \<lparr>dc_name = name, dc_component_id = cid, data_path = Map.empty,
                     ctrl_path = Map.empty, ctrl_entries = []\<rparr>"
  from True assms(1) obtain name cid c1 c2 where
    id: "component_name_to_id name = Inr cid" and cm': "cm' = om_put name c2 cm"
    and c1: "(if js_contains api item ''data_path''
         then bind_run (js_at api item ''data_path'') (\<lambda>dp. fold_run (load_data_item api) (js_items api dp) (?c0 name cid))
         else Inr (?c0 name cid)) = Inr c1"
    and c2: "(if js_contains api item ''ctrl_path''
         then bind_run (js_at api item ''ctrl_path'') (\<lambda>cp. fold_run (load_ctrl_item api) (js_items api cp) c1)
         else Inr c1) = Inr c2"
    by (auto simp: load_component_def bind_run_eq_Inr Let_def simp del: component_name_to_id.simps)
  let ?P = "\<lambda>c. dc_name c = name \<and> dc_component_id c = cid"
  have "?P c1" using c1
    by (auto simp: bind_run_eq_Inr split: if_splits dest: load_items_id)
  then have "?P c2" using c2
    by (auto simp: bind_run_eq_Inr split: if_splits dest: load_items_id)
  with assms(2) id show ?thesis
    unfolding dag_wf_def cm' using set_om_put_subset [of name c2 cm]
    by (auto simp: om_wf_put simp del: component_name_to_id.simps)
qed

lemma load_json_dag_wf:
  assumes "load_json api j d = Inr d'"
  shows "dag_wf (components_map d')"
proof -
  obtain g where "fold_run (load_component api) (js_elems api g) [] = Inr (components_map d')"
    using assms by (auto simp: load_json_def bind_run_eq_Inr)
  then show ?thesis
    by (rule fold_run_invariant) (auto simp: dag_wf_def [of "[]"] intro: load_component_dag_wf)
qed

lemma component_name_to_id_inject:
  "component_name_to_id n = Inr i \<Longrightarrow> component_name_to_id m = Inr i \<Longrightarrow> n = m"
  by (auto simp: component_id_defs split: if_splits)

lemma dag_wf_lookup:
  assumes "dag_wf (components_map d)" "get_component_config name d = Some c"
  shows "dc_name c = name \<and> component_name_to_id name = Inr (dc_component_id c)"
proof -
  have "(name, c) \<in> set (components_map d)"
    using assms(2) by (auto simp: get_component_config_def dest: map_of_SomeD)
  with assms(1) show ?thesis by (auto simp: dag_wf_def simp del: component_name_to_id.simps)
qed

lemma dag_wf_lookup_id:
  assumes wf: "dag_wf (components_map d)" and id: "component_name_to_id name = Inr cid"
  shows "get_component_config_by_id cid d = get_component_config name d"
proof (cases "find (\<lambda>nc. dc_component_id (snd nc) = cid) (components_map d)")
  case None
  have "name \<notin> fst ` set (components_map d)"
  proof
    assume "name \<in> fst ` set (components_map d)"
    then obtain c where "(name, c) \<in> set (components_map d)" by auto
    with None wf id show False by (fastforce simp: find_None_iff dag_wf_def simp del: component_name_to_id.simps)
  qed
  then have "get_component_config name d = None"
    by (simp add: get_component_config_def map_of_eq_None_iff)
  with None show ?thesis by (simp add: get_component_config_by_id_def)
next
  case (Some nc)
  then have nc: "nc \<in> set (components_map d)" "dc_component_id (snd nc) = cid"
    by (auto simp: find_Some_iff)
  then have "component_name_to_id (fst nc) = Inr cid"
    using wf by (auto simp: dag_wf_def simp del: component_name_to_id.simps)
  then have "fst nc = name" using component_name_to_id_inject id by blast
  then have "map_of (components_map d) name = Some (snd nc)"
    using om_find_unique [of "components_map d" name "snd nc"] nc wf by (metis dag_wf_def prod.collapse)
  with Some show ?thesis by (simp add: get_component_config_by_id_def get_component_config_def)
qed

text \<open>Reading the target back out of an action such as \<open>fwd(dpa)\<close>.\<close>

lemma extract_parentheses:
  assumes "CHR ''('' \<notin> set pre" "CHR '')'' \<notin> set tgt"
  shows "extract_string_in_parentheses (pre @ ''('' @ tgt @ '')'' @ rest) = tgt"
proof -
  have "find_char CHR '')'' (CHR ''('' # tgt @ CHR '')'' # rest) = Some (Suc (length tgt))"
    using assms(2) find_char_append [of "CHR '')''" "CHR ''('' # tgt" rest] by simp
  then show ?thesis
    using find_char_append [OF assms(1), of "tgt @ CHR '')'' # rest"]
    by (simp add: extract_string_in_parentheses_def find_char_from_def substr_def)
qed

subsection \<open>Properties of the loader\<close>

text \<open>
  In every graph the loader accepts, looking a component up by name and by its id is the same:
  the component found has that name and that id, and nothing is found by an id whose name is
  absent.
\<close>

lemma load_lookup_consistent:
  assumes "new_AppDAG api file = Inr d" and "component_name_to_id name = Inr cid"
  shows "get_component_config_by_id cid d = get_component_config name d \<and>
    (case get_component_config name d of None \<Rightarrow> True
     | Some c \<Rightarrow> dc_name c = name \<and> dc_component_id c = cid)"
proof -
  have wf: "dag_wf (components_map d)"
    using assms(1) load_json_dag_wf
    by (auto simp: new_AppDAG_def load_from_file_def bind_run_eq_Inr split: option.splits)
  with assms(2) show ?thesis
    using dag_wf_lookup_id dag_wf_lookup [OF wf] by (force split: option.split)
qed

subsection \<open>An example document\<close>

text \<open>A tiny document model: the accessors on a datatype of JSON values.\<close>

datatype json_ex = JObj "(string \<times> json_ex) list" | JArr "json_ex list" | JStr string | JNum u16 | JNull

fun at_ex :: "json_ex \<Rightarrow> string \<Rightarrow> json_ex run" where
  "at_ex (JObj kvs) k = Inr (case map_of kvs k of None \<Rightarrow> JNull | Some v \<Rightarrow> v)"
| "at_ex _ k = Inl Std_Exception"

fun str_ex :: "json_ex \<Rightarrow> string run" where
  "str_ex (JStr s) = Inr s"
| "str_ex _ = Inl Std_Exception"

definition json_api_ex :: "json_ex json_api" where
  "json_api_ex = \<lparr>js_at = at_ex, js_contains = (\<lambda>j k. case j of JObj kvs \<Rightarrow> map_of kvs k \<noteq> None | _ \<Rightarrow> False),
     js_string = str_ex, js_u16 = (\<lambda>j. case j of JNum n \<Rightarrow> Inr n | _ \<Rightarrow> Inl Std_Exception),
     js_elems = (\<lambda>j. case j of JArr xs \<Rightarrow> xs | JObj kvs \<Rightarrow> map snd kvs | JNull \<Rightarrow> [] | x \<Rightarrow> [x]),
     js_items = (\<lambda>j. case j of JObj kvs \<Rightarrow> kvs | _ \<Rightarrow> []),
     js_is_array = (\<lambda>j. case j of JArr xs \<Rightarrow> True | _ \<Rightarrow> False),
     js_equals = (\<lambda>j s. j = JStr s)\<rparr>"

end
