(* ===== verification/Routing.thy ===== *)
theory Routing
  imports AppDag SocQueue
begin

text \<open>
  Routing (\<open>runtime/include/ctrlpath/routing.h\<close>, \<open>runtime/src/ctrlpath/routing.cc\<close> and the SoC
  override in \<open>route_impl\<close>): the parsers of match conditions and actions, the pipeline's edge
  rules loaded from the application graph, and a component's table from kernel return values to
  channels.

  A channel is a pointer (\<open>ptr\<close>, \<open>None\<close> for null). A component router registered with the
  pipeline is a pointer as well. Reporting macros that only log are left out.
\<close>

subsection \<open>Data\<close>

record MatchCondition =
  field :: string
  operator_type :: string
  cond_value :: string

record ActionSpec =
  action_type :: string
  target :: string
  channel_name :: string

record DAGEdgeRule =
  source_component_name :: string
  conditions :: "MatchCondition list"
  rule_action :: ActionSpec
  source_component :: component_typeid_t
  kernel_retval :: u8
  target_component_id :: string
  target_channel_name :: string

record PipelineRoutingState =
  dag_edge_rules :: "DAGEdgeRule list"
  component_routers :: "string \<rightharpoonup> ptr"

record ComponentRoutingState =
  retval_to_channel_map :: "u8 \<rightharpoonup> ptr"
  local_channels :: "string \<rightharpoonup> ptr"
  component_type :: component_typeid_t
  component_id :: string
  default_channel :: ptr

subsection \<open>Parsing\<close>

definition parse_match_condition :: "string \<Rightarrow> MatchCondition" where
  "parse_match_condition match_str =
     (let eq_pos = find_char CHR ''='' match_str;
          neq_pos = find_str ''!='' match_str;
          gt_pos = find_char CHR ''>'' match_str;
          lt_pos = find_char CHR ''<'' match_str;
          (op_pos, opr) =
            (if neq_pos \<noteq> None then (neq_pos, ''!='')
             else if eq_pos \<noteq> None then (eq_pos, ''='')
             else if gt_pos \<noteq> None then (gt_pos, ''>'')
             else if lt_pos \<noteq> None then (lt_pos, ''<'')
             else (None, ''''))
      in case op_pos of
           Some p \<Rightarrow> \<lparr>field = substr 0 p match_str, operator_type = opr,
                     cond_value = drop (p + length opr) match_str\<rparr>
         | None \<Rightarrow> \<lparr>field = match_str, operator_type = ''exists'', cond_value = ''''\<rparr>)"

text \<open>
  An action without a closing parenthesis leaves target and channel at their defaults, the empty
  strings.
\<close>

definition parse_action_spec :: "string \<Rightarrow> ActionSpec" where
  "parse_action_spec action_str =
     (case find_char CHR ''('' action_str of
        None \<Rightarrow> \<lparr>action_type = action_str, target = '''', channel_name = ''''\<rparr>
      | Some paren_pos \<Rightarrow>
          (let ty = substr 0 paren_pos action_str
           in case find_char_from CHR '')'' paren_pos action_str of
                None \<Rightarrow> \<lparr>action_type = ty, target = '''', channel_name = ''''\<rparr>
              | Some close_paren_pos \<Rightarrow>
                  (let target_spec = substr (paren_pos + 1) (close_paren_pos - paren_pos - 1) action_str
                   in case find_char CHR '':'' target_spec of
                        None \<Rightarrow> \<lparr>action_type = ty, target = target_spec, channel_name = ''default''\<rparr>
                      | Some colon_pos \<Rightarrow>
                          \<lparr>action_type = ty, target = substr 0 colon_pos target_spec,
                           channel_name = drop (colon_pos + 1) target_spec\<rparr>)))"

fun component_name_to_type :: "string \<Rightarrow> component_typeid_t" where
  "component_name_to_type name =
     (if name = ''soc'' then kComponent_SoC
      else if name = ''dpa'' then kComponent_DPA
      else if name = ''flow_engine'' then kComponent_FlowEngine
      else if name = ''root'' then kComponent_FlowEngine
      else kComponent_SoC)"

text \<open>The loop returns at the first \<open>retval=\<close> condition whose value parses.\<close>

fun extract_retval_from_conditions :: "MatchCondition list \<Rightarrow> u8" where
  "extract_retval_from_conditions [] = 0"
| "extract_retval_from_conditions (c # cs) =
     (if field c = ''retval'' \<and> operator_type c = ''=''
      then (case stoul (cond_value c) of Inr v \<Rightarrow> ucast v
            | Inl e \<Rightarrow> extract_retval_from_conditions cs)
      else extract_retval_from_conditions cs)"

subsection \<open>Pipeline routing\<close>

definition new_PipelineRouting :: PipelineRoutingState where
  "new_PipelineRouting = \<lparr>dag_edge_rules = [], component_routers = Map.empty\<rparr>"

definition register_component_router ::
  "string \<Rightarrow> ptr \<Rightarrow> PipelineRoutingState \<Rightarrow> (nicc_retval_t \<times> PipelineRoutingState) run" where
  "register_component_router cid router s =
     (if router = None then Inl Nicc_Shutdown
      else Inr (NICC_SUCCESS, s\<lparr>component_routers := (component_routers s)(cid \<mapsto> router)\<rparr>))"

definition add_dag_edge_rule :: "DAGEdgeRule \<Rightarrow> PipelineRoutingState \<Rightarrow> nicc_retval_t \<times> PipelineRoutingState" where
  "add_dag_edge_rule rule s = (NICC_SUCCESS, s\<lparr>dag_edge_rules := dag_edge_rules s @ [rule]\<rparr>)"

text \<open>One routing entry of a component; an incomplete one is skipped.\<close>

definition entry_rule :: "string \<Rightarrow> (string \<rightharpoonup> string) \<Rightarrow> DAGEdgeRule option" where
  "entry_rule name e = (case (e ''match'', e ''action'') of
       (Some match_str, Some action_str) \<Rightarrow>
         (let conds = [parse_match_condition match_str]; act = parse_action_spec action_str
          in Some \<lparr>source_component_name = name, conditions = conds, rule_action = act,
               source_component = component_name_to_type name,
               kernel_retval = extract_retval_from_conditions conds,
               target_component_id = target act, target_channel_name = channel_name act\<rparr>)
     | _ \<Rightarrow> None)"

definition load_entry_rule :: "string \<Rightarrow> (string \<rightharpoonup> string) \<Rightarrow> PipelineRoutingState \<Rightarrow> PipelineRoutingState" where
  "load_entry_rule name e s = (case entry_rule name e of None \<Rightarrow> s
     | Some r \<Rightarrow> s\<lparr>dag_edge_rules := dag_edge_rules s @ [r]\<rparr>)"

definition routed_components :: "string list" where
  "routed_components = [''root'', ''soc'', ''dpa'', ''flow_engine'', ''decompress'', ''sha'']"

definition load_component_rules :: "AppDAG \<Rightarrow> string \<Rightarrow> PipelineRoutingState \<Rightarrow> PipelineRoutingState" where
  "load_component_rules d name s = (case get_component_config name d of
       None \<Rightarrow> s
     | Some c \<Rightarrow> if ctrl_entries c = [] then s else fold (load_entry_rule name) (ctrl_entries c) s)"

definition load_from_app_dag ::
  "AppDAG option \<Rightarrow> PipelineRoutingState \<Rightarrow> (nicc_retval_t \<times> PipelineRoutingState) run" where
  "load_from_app_dag dag s = (case dag of None \<Rightarrow> Inl Nicc_Shutdown
     | Some d \<Rightarrow> Inr (NICC_SUCCESS, fold (load_component_rules d) routed_components s))"

subsection \<open>Component routing\<close>

definition new_ComponentRouting :: "component_typeid_t \<Rightarrow> string \<Rightarrow> ComponentRoutingState" where
  "new_ComponentRouting ty cid =
     \<lparr>retval_to_channel_map = Map.empty, local_channels = Map.empty, component_type = ty,
      component_id = cid, default_channel = None\<rparr>"

definition register_local_channel ::
  "string \<Rightarrow> ptr \<Rightarrow> ComponentRoutingState \<Rightarrow> (nicc_retval_t \<times> ComponentRoutingState) run" where
  "register_local_channel name chan s =
     (if chan = None then Inl Nicc_Shutdown
      else Inr (NICC_SUCCESS, s\<lparr>local_channels := (local_channels s)(name \<mapsto> chan)\<rparr>))"

definition get_local_channel :: "string \<Rightarrow> ComponentRoutingState \<Rightarrow> ptr" where
  "get_local_channel name s = (case local_channels s name of Some c \<Rightarrow> c | None \<Rightarrow> None)"

definition add_retval_mapping ::
  "u8 \<Rightarrow> ptr \<Rightarrow> ComponentRoutingState \<Rightarrow> (nicc_retval_t \<times> ComponentRoutingState) run" where
  "add_retval_mapping retval chan s =
     (if chan = None then Inl Nicc_Shutdown
      else Inr (NICC_SUCCESS,
             s\<lparr>retval_to_channel_map := (retval_to_channel_map s)(retval \<mapsto> chan)\<rparr>))"

definition set_default_channel :: "ptr \<Rightarrow> ComponentRoutingState \<Rightarrow> nicc_retval_t \<times> ComponentRoutingState" where
  "set_default_channel chan s = (NICC_SUCCESS, s\<lparr>default_channel := chan\<rparr>)"

definition lookup_channel :: "u8 \<Rightarrow> ComponentRoutingState \<Rightarrow> ptr" where
  "lookup_channel retval s = (case retval_to_channel_map s retval of
       Some c \<Rightarrow> c
     | None \<Rightarrow> if default_channel s \<noteq> None then default_channel s else None)"

text \<open>\<open>ComponentRouting_SoC\<close>: the overrides call the base class.\<close>

definition new_ComponentRouting_SoC :: "string \<Rightarrow> ComponentRoutingState" where
  "new_ComponentRouting_SoC cid = new_ComponentRouting kComponent_SoC cid"

definition register_local_channel_SoC ::
  "string \<Rightarrow> ptr \<Rightarrow> ComponentRoutingState \<Rightarrow> (nicc_retval_t \<times> ComponentRoutingState) run" where
  "register_local_channel_SoC name chan s =
     bind_run (register_local_channel name chan s) (\<lambda>(ret, s').
       if ret \<noteq> NICC_SUCCESS then Inr (ret, s') else Inr (NICC_SUCCESS, s'))"

definition lookup_channel_SoC :: "u8 \<Rightarrow> ComponentRoutingState \<Rightarrow> ptr" where
  "lookup_channel_SoC retval s = lookup_channel retval s"

subsection \<open>The contract of a router\<close>

text \<open>
  What a component block relies on: a registered channel is found again under its name, a mapped
  return value leads to its channel, an unmapped one to the default channel, and no operation
  disturbs another entry.
\<close>

locale channel_router =
  fixes reg :: "string \<Rightarrow> ptr \<Rightarrow> 's \<Rightarrow> (nicc_retval_t \<times> 's) run"
    and get :: "string \<Rightarrow> 's \<Rightarrow> ptr"
    and add :: "u8 \<Rightarrow> ptr \<Rightarrow> 's \<Rightarrow> (nicc_retval_t \<times> 's) run"
    and dflt :: "ptr \<Rightarrow> 's \<Rightarrow> nicc_retval_t \<times> 's"
    and look :: "u8 \<Rightarrow> 's \<Rightarrow> ptr"
    and mapped :: "'s \<Rightarrow> u8 set"
  assumes reg_ok: "c \<noteq> None \<Longrightarrow> \<exists>s'. reg n c s = Inr (NICC_SUCCESS, s') \<and>
      (\<forall>n'. get n' s' = (if n' = n then c else get n' s)) \<and>
      (\<forall>r. look r s' = look r s) \<and> mapped s' = mapped s"
    and reg_null: "reg n None s = Inl Nicc_Shutdown"
    and add_ok: "c \<noteq> None \<Longrightarrow> \<exists>s'. add r c s = Inr (NICC_SUCCESS, s') \<and>
      (\<forall>r'. look r' s' = (if r' = r then c else look r' s)) \<and>
      (\<forall>n'. get n' s' = get n' s) \<and> mapped s' = insert r (mapped s)"
    and add_null: "add r None s = Inl Nicc_Shutdown"
    and dflt_ok: "\<exists>s'. dflt c s = (NICC_SUCCESS, s') \<and>
      (\<forall>r. look r s' = (if r \<in> mapped s then look r s else c)) \<and>
      (\<forall>n'. get n' s' = get n' s) \<and> mapped s' = mapped s"
begin

text \<open>A router configured from a list of mappings and a default sends every return value where
  the last mapping for it says.\<close>

lemma configure_look:
  assumes "\<forall>(r, c) \<in> set ms. c \<noteq> None"
  shows "\<exists>s'. fold_run (\<lambda>(r, c) s. bind_run (add r c s) (\<lambda>(ret, s'). Inr s')) ms s = Inr s' \<and>
    (\<forall>r. look r s' = (case map_of (rev ms) r of Some c \<Rightarrow> c | None \<Rightarrow> look r s)) \<and>
    mapped s' = mapped s \<union> fst ` set ms"
  using assms
proof (induction ms arbitrary: s)
  case Nil
  then show ?case by simp
next
  case (Cons m ms)
  obtain r c where m: "m = (r, c)" by (cases m)
  then obtain s1 where s1: "add r c s = Inr (NICC_SUCCESS, s1)"
    "\<forall>r'. look r' s1 = (if r' = r then c else look r' s)" "mapped s1 = insert r (mapped s)"
    using add_ok [of c r s] Cons.prems by auto
  obtain s2 where "fold_run (\<lambda>(r, c) s. bind_run (add r c s) (\<lambda>(ret, s'). Inr s')) ms s1 = Inr s2"
    "\<forall>r. look r s2 = (case map_of (rev ms) r of Some c \<Rightarrow> c | None \<Rightarrow> look r s1)"
    "mapped s2 = mapped s1 \<union> fst ` set ms"
    using Cons.IH [of s1] Cons.prems by auto
  with s1 m show ?case by (auto simp: map_add_def split: option.splits)
qed

end

lemma base_router_laws:
  "channel_router register_local_channel get_local_channel add_retval_mapping set_default_channel
     lookup_channel (\<lambda>s. dom (retval_to_channel_map s))"
  by unfold_locales
    (auto simp: register_local_channel_def get_local_channel_def add_retval_mapping_def
      set_default_channel_def lookup_channel_def split: option.splits)

interpretation base: channel_router register_local_channel get_local_channel add_retval_mapping
  set_default_channel lookup_channel "\<lambda>s. dom (retval_to_channel_map s)"
  by (rule base_router_laws)

lemma SoC_overrides: "register_local_channel_SoC = register_local_channel"
  "lookup_channel_SoC = lookup_channel"
  by (intro ext; simp add: register_local_channel_SoC_def register_local_channel_def)
    (intro ext; simp add: lookup_channel_SoC_def)

interpretation soc: channel_router register_local_channel_SoC get_local_channel add_retval_mapping
  set_default_channel lookup_channel_SoC "\<lambda>s. dom (retval_to_channel_map s)"
  unfolding SoC_overrides by (rule base_router_laws)

subsection \<open>Parsers\<close>

text \<open>What a rule's author writes: field, operator, value; type, target and channel.\<close>

definition render_condition :: "MatchCondition \<Rightarrow> string" where
  "render_condition c = field c @ operator_type c @ cond_value c"

definition render_action :: "ActionSpec \<Rightarrow> string" where
  "render_action a = action_type a @ ''('' @ target a @ '':'' @ channel_name a @ '')''"

lemma parse_eq:
  assumes "CHR ''='' \<notin> set f" "CHR ''!'' \<notin> set f \<union> set v"
  shows "parse_match_condition (f @ ''='' @ v) = \<lparr>field = f, operator_type = ''='', cond_value = v\<rparr>"
proof -
  have "find_str ''!='' (f @ CHR ''='' # v) = None"
    using assms by (intro find_str_2_absent) auto
  then show ?thesis using find_char_append [OF assms(1), of v]
    by (simp add: parse_match_condition_def Let_def substr_def)
qed

lemma parse_neq:
  assumes "CHR ''!'' \<notin> set f"
  shows "parse_match_condition (f @ ''!='' @ v) = \<lparr>field = f, operator_type = ''!='', cond_value = v\<rparr>"
  using find_str_2_at [of "CHR ''!''" f "CHR ''=''" v] assms
  by (simp add: parse_match_condition_def Let_def substr_def)

lemma parse_gt:
  assumes "CHR ''='' \<notin> set f \<union> set v" "CHR ''>'' \<notin> set f"
  shows "parse_match_condition (f @ ''>'' @ v) = \<lparr>field = f, operator_type = ''>'', cond_value = v\<rparr>"
proof -
  have "find_str ''!='' (f @ CHR ''>'' # v) = None"
    using assms by (intro find_str_2_absent) auto
  moreover have "find_char CHR ''='' (f @ CHR ''>'' # v) = None"
    using assms by (simp add: find_char_None)
  ultimately show ?thesis using find_char_append [OF assms(2), of v]
    by (simp add: parse_match_condition_def Let_def substr_def)
qed

lemma parse_lt:
  assumes "CHR ''='' \<notin> set f \<union> set v" "CHR ''>'' \<notin> set f \<union> set v" "CHR ''<'' \<notin> set f"
  shows "parse_match_condition (f @ ''<'' @ v) = \<lparr>field = f, operator_type = ''<'', cond_value = v\<rparr>"
proof -
  have "find_str ''!='' (f @ CHR ''<'' # v) = None"
    using assms by (intro find_str_2_absent) auto
  moreover have "find_char CHR ''='' (f @ CHR ''<'' # v) = None"
    "find_char CHR ''>'' (f @ CHR ''<'' # v) = None" using assms by (simp_all add: find_char_None)
  ultimately show ?thesis using find_char_append [OF assms(3), of v]
    by (simp add: parse_match_condition_def Let_def substr_def)
qed

lemma parse_action_chan:
  assumes "CHR ''('' \<notin> set ty" "CHR '')'' \<notin> set tgt \<union> set ch" "CHR '':'' \<notin> set tgt"
  shows "parse_action_spec (ty @ ''('' @ tgt @ '':'' @ ch @ '')'') =
    \<lparr>action_type = ty, target = tgt, channel_name = ch\<rparr>"
proof -
  let ?in = "tgt @ CHR '':'' # ch"
  have "find_char CHR '')'' ((CHR ''('' # ?in) @ CHR '')'' # []) = Some (length (CHR ''('' # ?in))"
    using assms(2) by (intro find_char_append) auto
  then show ?thesis
    using find_char_append [OF assms(1), of "?in @ '')''"] find_char_append [OF assms(3), of ch]
    by (simp add: parse_action_spec_def find_char_from_def substr_def Let_def)
qed

lemma parse_action_default:
  assumes "CHR ''('' \<notin> set ty" "CHR '')'' \<notin> set tgt" "CHR '':'' \<notin> set tgt"
  shows "parse_action_spec (ty @ ''('' @ tgt @ '')'') =
    \<lparr>action_type = ty, target = tgt, channel_name = ''default''\<rparr>"
proof -
  have "find_char CHR '')'' ((CHR ''('' # tgt) @ CHR '')'' # []) = Some (length (CHR ''('' # tgt))"
    using assms(2) by (intro find_char_append) auto
  moreover have "find_char CHR '':'' tgt = None" using assms(3) by (simp add: find_char_None)
  ultimately show ?thesis
    using find_char_append [OF assms(1), of "tgt @ '')''"]
    by (simp add: parse_action_spec_def find_char_from_def substr_def Let_def)
qed

lemma parse_written_condition:
  assumes "operator_type c \<in> {''='', ''!='', ''>'', ''<''}"
    and "set (field c) \<inter> set ''=!<>'' = {}"
    and "operator_type c = ''!='' \<or> set (cond_value c) \<inter> set ''=!<>'' = {}"
  shows "parse_match_condition (render_condition c) = c"
proof -
  have f: "CHR ''='' \<notin> set (field c)" "CHR ''!'' \<notin> set (field c)" "CHR ''>'' \<notin> set (field c)"
    "CHR ''<'' \<notin> set (field c)"
    using assms(2) by auto
  consider "operator_type c = ''=''" | "operator_type c = ''!=''" | "operator_type c = ''>''"
    | "operator_type c = ''<''" using assms(1) by auto
  then show ?thesis
  proof cases
    case 1
    then have "CHR ''!'' \<notin> set (field c) \<union> set (cond_value c)" using f assms(3) by auto
    from parse_eq [OF f(1) this] 1 show ?thesis by (simp add: render_condition_def)
  next
    case 2
    from parse_neq [OF f(2), of "cond_value c"] 2 show ?thesis by (simp add: render_condition_def)
  next
    case 3
    then have "CHR ''='' \<notin> set (field c) \<union> set (cond_value c)" using f assms(3) by auto
    from parse_gt [OF this f(3)] 3 show ?thesis by (simp add: render_condition_def)
  next
    case 4
    then have "CHR ''='' \<notin> set (field c) \<union> set (cond_value c)"
      "CHR ''>'' \<notin> set (field c) \<union> set (cond_value c)"
      using f assms(3) by auto
    from parse_lt [OF this f(4)] 4 show ?thesis by (simp add: render_condition_def)
  qed
qed

lemma parse_exists:
  assumes "set f \<inter> set ''=!<>'' = {}"
  shows "parse_match_condition f = \<lparr>field = f, operator_type = ''exists'', cond_value = ''''\<rparr>"
proof -
  have "find_str ''!='' f = None" using assms by (intro find_str_2_absent) auto
  moreover have "find_char CHR ''='' f = None" "find_char CHR ''>'' f = None" "find_char CHR ''<'' f = None"
    using assms by (auto simp: find_char_None)
  ultimately show ?thesis by (simp add: parse_match_condition_def)
qed

lemma parse_action_plain:
  "CHR ''('' \<notin> set ty \<Longrightarrow> parse_action_spec ty = \<lparr>action_type = ty, target = '''', channel_name = ''''\<rparr>"
  using find_char_None [of "CHR ''(''" ty] by (simp add: parse_action_spec_def)

text \<open>A number that does not fit the 8 bits of a kernel return value is truncated.\<close>

lemma retval_parsed:
  assumes "n < 2 ^ 64"
  shows "parse_match_condition (''retval='' @ to_dec n) = \<lparr>field = ''retval'', operator_type = ''='', cond_value = to_dec n\<rparr> \<and>
    extract_retval_from_conditions [\<lparr>field = ''retval'', operator_type = ''='', cond_value = to_dec n\<rparr>] = of_nat n"
proof -
  have "CHR ''!'' \<notin> set ''retval'' \<union> set (to_dec n)"
    using to_dec_digits [of "CHR ''!''" n] by (auto simp: is_digit_def)
  then have p: "parse_match_condition (''retval'' @ ''='' @ to_dec n) =
      \<lparr>field = ''retval'', operator_type = ''='', cond_value = to_dec n\<rparr>"
    by (intro parse_eq) auto
  have "ucast (of_nat n :: u64) = (of_nat n :: u8)"
    by (simp add: word_unat_eq_iff unsigned_of_nat unsigned_ucast_eq take_bit_take_bit)
  with p stoul_to_dec [OF assms] show ?thesis by simp
qed

subsection \<open>Loading\<close>

text \<open>The rules a component contributes.\<close>

definition component_rules :: "AppDAG \<Rightarrow> string \<Rightarrow> DAGEdgeRule list" where
  "component_rules d name = (case get_component_config name d of None \<Rightarrow> []
     | Some c \<Rightarrow> List.map_filter (entry_rule name) (ctrl_entries c))"

lemma load_entries:
  "fold (load_entry_rule name) es s =
     s\<lparr>dag_edge_rules := dag_edge_rules s @ List.map_filter (entry_rule name) es\<rparr>"
  by (induction es arbitrary: s)
    (auto simp: load_entry_rule_def map_filter_simps split: option.splits)

lemma load_component_rules_eq:
  "load_component_rules d name s = s\<lparr>dag_edge_rules := dag_edge_rules s @ component_rules d name\<rparr>"
  by (auto simp: load_component_rules_def component_rules_def load_entries map_filter_simps
      split: option.split)

subsection \<open>Properties of routing\<close>

text \<open>
  C23. Parsing a written condition gives back its field, operator and value, for each of the four
  operators \<open>=\<close>, \<open>!=\<close>, \<open>>\<close> and \<open><\<close>, when the field has none of the characters \<open>= ! < >\<close>, and the value
  has none either unless the operator is \<open>!=\<close>. (The operator \<open>in\<close> of the header's comment is not known
  to the parser.)
\<close>

theorem parse_condition_roundtrip:
  assumes "operator_type c \<in> {''='', ''!='', ''>'', ''<''}"
    and "set (field c) \<inter> set ''=!<>'' = {}"
    and "operator_type c = ''!='' \<or> set (cond_value c) \<inter> set ''=!<>'' = {}"
  shows "parse_match_condition (render_condition c) = c"
  using assms by (rule parse_written_condition)

text \<open>
  C24. The comparison operators \<open>>=\<close> and \<open><=\<close> are not recognised: the equals sign is found first,
  and the condition is read as an equality on a field whose name ends in the angle bracket.
\<close>

theorem parse_condition_ge_misread:
  assumes "CHR ''='' \<notin> set f" and "CHR ''!'' \<notin> set f \<union> set v" and "b \<in> {CHR ''<'', CHR ''>''}"
  shows "parse_match_condition (f @ [b] @ ''='' @ v) =
    \<lparr>field = f @ [b], operator_type = ''='', cond_value = v\<rparr>"
  using parse_eq [of "f @ [b]" v] assms by auto

text \<open>
  Parsing a written action gives back its type, target and channel; without a channel the
  channel is \<open>default\<close>.
\<close>

lemma parse_action_roundtrip:
  assumes "CHR ''('' \<notin> set (action_type a)" and "CHR '')'' \<notin> set (target a) \<union> set (channel_name a)"
    and "CHR '':'' \<notin> set (target a)"
  shows "parse_action_spec (render_action a) = a \<and>
    parse_action_spec (action_type a @ ''('' @ target a @ '')'') = a\<lparr>channel_name := ''default''\<rparr>"
proof -
  have "CHR '')'' \<notin> set (target a)" using assms(2) by simp
  with parse_action_chan [OF assms] parse_action_default [OF assms(1) _ assms(3)] show ?thesis
    by (simp add: render_action_def)
qed

text \<open>
  C25. A condition \<open>retval=N\<close> yields the return value N modulo 256: a number that does not fit the
  8 bits of a kernel return value is silently truncated.
\<close>

theorem retval_condition_value:
  assumes "n < 2 ^ 64"
  shows "extract_retval_from_conditions [parse_match_condition (''retval='' @ to_dec n)] = of_nat n \<and>
    unat (extract_retval_from_conditions [parse_match_condition (''retval='' @ to_dec n)]) = n mod 256"
  using retval_parsed [OF assms] by (simp add: unsigned_of_nat take_bit_eq_mod)

text \<open>
  The language of routing entries, as authors of application graphs write them: a match on a
  kernel's return value, on a header field or on the presence of a field; an action with a target
  and a channel, with a target alone, or a bare word. Each has its text and the rule it means.
\<close>

datatype route_match = On_Retval nat | On_Field string string string | On_Present string
datatype route_action = To_Channel string string string | To_Default string string | Bare string

fun match_text :: "route_match \<Rightarrow> string" where
  "match_text (On_Retval n) = ''retval='' @ to_dec n"
| "match_text (On_Field f opr v) = f @ opr @ v"
| "match_text (On_Present f) = f"

fun action_text :: "route_action \<Rightarrow> string" where
  "action_text (To_Channel ty tgt ch) = ty @ ''('' @ tgt @ '':'' @ ch @ '')''"
| "action_text (To_Default ty tgt) = ty @ ''('' @ tgt @ '')''"
| "action_text (Bare ty) = ty"

fun match_plain :: "route_match \<Rightarrow> bool" where
  "match_plain (On_Retval n) \<longleftrightarrow> n < 2 ^ 64"
| "match_plain (On_Field f opr v) \<longleftrightarrow> opr \<in> {''='', ''!='', ''>'', ''<''} \<and> set f \<inter> set ''=!<>'' = {} \<and>
     (opr = ''!='' \<or> set v \<inter> set ''=!<>'' = {}) \<and> \<not> (f = ''retval'' \<and> opr = ''='')"
| "match_plain (On_Present f) \<longleftrightarrow> set f \<inter> set ''=!<>'' = {}"

fun action_plain :: "route_action \<Rightarrow> bool" where
  "action_plain (To_Channel ty tgt ch) \<longleftrightarrow> CHR ''('' \<notin> set ty \<and> CHR '')'' \<notin> set tgt \<union> set ch \<and> CHR '':'' \<notin> set tgt"
| "action_plain (To_Default ty tgt) \<longleftrightarrow> CHR ''('' \<notin> set ty \<and> CHR '')'' \<notin> set tgt \<and> CHR '':'' \<notin> set tgt"
| "action_plain (Bare ty) \<longleftrightarrow> CHR ''('' \<notin> set ty"

fun match_meaning :: "route_match \<Rightarrow> MatchCondition \<times> nat" where
  "match_meaning (On_Retval n) = (\<lparr>field = ''retval'', operator_type = ''='', cond_value = to_dec n\<rparr>, n mod 256)"
| "match_meaning (On_Field f opr v) = (\<lparr>field = f, operator_type = opr, cond_value = v\<rparr>, 0)"
| "match_meaning (On_Present f) = (\<lparr>field = f, operator_type = ''exists'', cond_value = ''''\<rparr>, 0)"

fun action_meaning :: "route_action \<Rightarrow> string \<times> string \<times> string" where
  "action_meaning (To_Channel ty tgt ch) = (ty, tgt, ch)"
| "action_meaning (To_Default ty tgt) = (ty, tgt, ''default'')"
| "action_meaning (Bare ty) = (ty, '''', '''')"

text \<open>The rule that the route \<open>(m, a)\<close> out of the component \<open>name\<close> means.\<close>

definition route_rule :: "string \<Rightarrow> route_match \<times> route_action \<Rightarrow> DAGEdgeRule" where
  "route_rule name route = (case route of (m, a) \<Rightarrow>
     let (c, n) = match_meaning m; (ty, tgt, ch) = action_meaning a
     in \<lparr>source_component_name = name, conditions = [c],
          rule_action = \<lparr>action_type = ty, target = tgt, channel_name = ch\<rparr>,
          source_component = (if name = ''dpa'' then kComponent_DPA
            else if name \<in> {''flow_engine'', ''root''} then kComponent_FlowEngine else kComponent_SoC),
          kernel_retval = of_nat n, target_component_id = tgt, target_channel_name = ch\<rparr>)"

text \<open>The complete entries of the component \<open>name\<close> are the written routes; a missing component has none.\<close>

definition entry_of_route :: "route_match \<times> route_action \<Rightarrow> (string \<rightharpoonup> string) \<Rightarrow> bool" where
  "entry_of_route route e \<longleftrightarrow> (case route of (m, a) \<Rightarrow> match_plain m \<and> action_plain a \<and>
     e ''match'' = Some (match_text m) \<and> e ''action'' = Some (action_text a))"

definition complete_entry :: "(string \<rightharpoonup> string) \<Rightarrow> bool" where
  "complete_entry e \<longleftrightarrow> e ''match'' \<noteq> None \<and> e ''action'' \<noteq> None"

definition routes_of :: "AppDAG \<Rightarrow> string \<Rightarrow> (route_match \<times> route_action) list \<Rightarrow> bool" where
  "routes_of d name rs \<longleftrightarrow> (case get_component_config name d of None \<Rightarrow> rs = []
     | Some c \<Rightarrow> list_all2 entry_of_route rs (filter complete_entry (ctrl_entries c)))"

lemma match_parsed:
  assumes "match_plain m"
  shows "parse_match_condition (match_text m) = fst (match_meaning m) \<and>
    extract_retval_from_conditions [fst (match_meaning m)] = of_nat (snd (match_meaning m))"
proof (cases m)
  case (On_Retval n)
  have "(of_nat (n mod 256) :: u8) = of_nat n" by (simp add: word_unat_eq_iff unsigned_of_nat take_bit_eq_mod)
  with On_Retval assms retval_parsed [of n] show ?thesis by simp
next
  case (On_Field f opr v)
  with assms parse_written_condition [of "\<lparr>field = f, operator_type = opr, cond_value = v\<rparr>"] show ?thesis
    by (auto simp: render_condition_def)
next
  case (On_Present f)
  with assms parse_exists [of f] show ?thesis by simp
qed

lemma action_parsed:
  assumes "action_plain a"
  shows "parse_action_spec (action_text a) =
    (case action_meaning a of (ty, tgt, ch) \<Rightarrow> \<lparr>action_type = ty, target = tgt, channel_name = ch\<rparr>)"
proof (cases a)
  case (To_Channel ty tgt ch)
  with assms parse_action_chan [of ty tgt ch] show ?thesis by simp
next
  case (To_Default ty tgt)
  with assms parse_action_default [of ty tgt] show ?thesis by simp
next
  case (Bare ty)
  with assms parse_action_plain [of ty] show ?thesis by simp
qed

lemma entry_rule_of_route:
  assumes "entry_of_route r e"
  shows "entry_rule name e = Some (route_rule name r)"
proof -
  obtain m a where r: "r = (m, a)" by (cases r)
  obtain c n where m: "match_meaning m = (c, n)" by (cases "match_meaning m")
  obtain ty tgt ch where a: "action_meaning a = (ty, tgt, ch)" by (cases "action_meaning a")
  have e: "match_plain m" "action_plain a" "e ''match'' = Some (match_text m)" "e ''action'' = Some (action_text a)"
    using assms by (simp_all add: entry_of_route_def r)
  from match_parsed [OF e(1)] action_parsed [OF e(2)] show ?thesis
    unfolding entry_rule_def e(3,4) route_rule_def r by (simp add: m a Let_def del: extract_retval_from_conditions.simps)
qed

lemma entry_rule_incomplete: "\<not> complete_entry e \<Longrightarrow> entry_rule name e = None"
  unfolding complete_entry_def entry_rule_def by (cases "e ''match''"; cases "e ''action''") simp_all

lemma map_filter_Cons: "List.map_filter f (x # xs) = (case f x of None \<Rightarrow> [] | Some y \<Rightarrow> [y]) @ List.map_filter f xs"
  by (simp add: map_filter_simps split: option.split)

lemma map_filter_routes:
  "list_all2 entry_of_route rs (filter complete_entry es) \<Longrightarrow> List.map_filter (entry_rule name) es = map (route_rule name) rs"
proof (induction es arbitrary: rs)
  case Nil
  then show ?case by (simp add: map_filter_simps)
next
  case (Cons e es)
  show ?case
  proof (cases "complete_entry e")
    case False
    then have "list_all2 entry_of_route rs (filter complete_entry es)" using Cons.prems by simp
    from Cons.IH [OF this] entry_rule_incomplete [OF False, of name] show ?thesis by (simp add: map_filter_Cons)
  next
    case True
    with Cons.prems obtain r rs' where r: "rs = r # rs'" "entry_of_route r e"
      "list_all2 entry_of_route rs' (filter complete_entry es)"
      by (auto simp: list_all2_Cons2)
    from entry_rule_of_route [OF r(2), of name] Cons.IH [OF r(3)] show ?thesis unfolding r(1) by (simp add: map_filter_Cons)
  qed
qed

lemma component_rules_of_routes: "routes_of d name rs \<Longrightarrow> component_rules d name = map (route_rule name) rs"
  by (auto simp: routes_of_def component_rules_def map_filter_routes split: option.splits)

text \<open>
  C26. Loading a graph whose complete routing entries are written in the language above gives, behind
  the rules there were, exactly the rules that the routes mean: component by component in the fixed
  order of names, entry by entry, with condition, return value modulo 256, action, target and channel as
  written; an entry without a match or an action gives none. A null graph is a fatal error.
\<close>

theorem load_from_app_dag_rules:
  assumes "\<forall>name \<in> {''root'', ''soc'', ''dpa'', ''flow_engine'', ''decompress'', ''sha''}. routes_of d name (routes name)"
  shows "load_from_app_dag (Some d) s = Inr (NICC_SUCCESS, s\<lparr>dag_edge_rules := dag_edge_rules s @
      concat (map (\<lambda>name. map (route_rule name) (routes name))
        [''root'', ''soc'', ''dpa'', ''flow_engine'', ''decompress'', ''sha''])\<rparr>) \<and>
    load_from_app_dag None s = Inl Nicc_Shutdown"
proof -
  have "map (component_rules d) routed_components = map (\<lambda>name. map (route_rule name) (routes name)) routed_components"
    unfolding routed_components_def list.map
    by (intro arg_cong2 [of _ _ _ _ Cons] refl component_rules_of_routes bspec [OF assms]) simp_all
  then have "concat (map (component_rules d) routed_components)
      = concat (map (\<lambda>name. map (route_rule name) (routes name)) routed_components)"
    by (rule arg_cong)
  moreover have "fold (load_component_rules d) ns s = s\<lparr>dag_edge_rules := dag_edge_rules s @ concat (map (component_rules d) ns)\<rparr>"
    for ns by (induction ns arbitrary: s) (simp_all add: load_component_rules_eq)
  ultimately show ?thesis by (simp only: load_from_app_dag_def option.case routed_components_def simp_thms)
qed

text \<open>
  The SoC router configured with a list of mappings sends a return value to the channel of its
  last mapping, and every other one to the default channel.
\<close>

lemma soc_routing_table:
  assumes "\<forall>(r, c) \<in> set ms. c \<noteq> None"
  shows "\<exists>s1. fold_run (\<lambda>(r, c) s. bind_run (add_retval_mapping r c s) (\<lambda>(ret, s'). Inr s')) ms
      (new_ComponentRouting_SoC cid) = Inr s1 \<and>
    (\<forall>r. lookup_channel_SoC r (snd (set_default_channel d s1)) =
      (case map_of (rev ms) r of Some c \<Rightarrow> c | None \<Rightarrow> d))"
proof -
  obtain s1 where s1: "fold_run (\<lambda>(r, c) s. bind_run (add_retval_mapping r c s) (\<lambda>(ret, s'). Inr s')) ms
      (new_ComponentRouting_SoC cid) = Inr s1"
    "\<forall>r. lookup_channel_SoC r s1 = (case map_of (rev ms) r of Some c \<Rightarrow> c
       | None \<Rightarrow> lookup_channel_SoC r (new_ComponentRouting_SoC cid))"
    "dom (retval_to_channel_map s1) = dom (retval_to_channel_map (new_ComponentRouting_SoC cid)) \<union> fst ` set ms"
    using soc.configure_look [OF assms] by blast
  have "dom (retval_to_channel_map s1) = dom (map_of (rev ms))"
    using s1(3) by (simp add: new_ComponentRouting_SoC_def new_ComponentRouting_def dom_map_of_conv_image_fst)
  with s1(2) soc.dflt_ok [of d s1] s1(1) show ?thesis
    by (auto split: option.splits)
qed

subsection \<open>Witnesses of routing\<close>

theorem parse_condition_roundtrip_witness:
  "parse_match_condition ''udp.sport!=10086'' =
     \<lparr>field = ''udp.sport'', operator_type = ''!='', cond_value = ''10086''\<rparr>"
  using parse_condition_roundtrip [of "\<lparr>field = ''udp.sport'', operator_type = ''!='', cond_value = ''10086''\<rparr>"]
  by (simp add: render_condition_def)

theorem parse_condition_ge_misread_witness:
  "parse_match_condition ''len>=64'' = \<lparr>field = ''len>'', operator_type = ''='', cond_value = ''64''\<rparr>"
  using parse_condition_ge_misread [of "''len''" "''64''" "CHR ''>''"] by simp

theorem retval_condition_value_witness:
  "unat (extract_retval_from_conditions [parse_match_condition (''retval='' @ to_dec 258)]) = 2"
  using retval_condition_value [of 258] by simp

theorem soc_routing_table_witness:
  "\<exists>s1. fold_run (\<lambda>(r, c) s. bind_run (add_retval_mapping r c s) (\<lambda>(ret, s'). Inr s'))
      [(1, Some 7), (2, Some 8), (1, Some 9)] (new_ComponentRouting_SoC ''soc'') = Inr s1 \<and>
    lookup_channel_SoC 1 (snd (set_default_channel (Some 5) s1)) = Some 9 \<and>
    lookup_channel_SoC 3 (snd (set_default_channel (Some 5) s1)) = Some 5"
  using soc_routing_table [of "[(1, Some 7), (2, Some 8), (1, Some 9)]" "''soc''" "Some 5"]
  by (auto simp del: fold_run.simps)

text \<open>
  A graph with two routes of \<open>soc\<close> around an entry that has no action, one of \<open>root\<close>, and a component
  that is never asked for.
\<close>

definition routes_ex :: "string \<Rightarrow> (route_match \<times> route_action) list" where
  "routes_ex name = (if name = ''root'' then [(On_Field ''udp.sport'' ''='' ''10086'', To_Default ''fwd'' ''soc'')]
     else if name = ''soc'' then [(On_Retval 258, To_Channel ''fwd'' ''host'' ''next''), (On_Present ''ipv4.sip'', Bare ''drop'')]
     else [])"

definition component_ex :: "string \<Rightarrow> (string \<rightharpoonup> string) list \<Rightarrow> DAGComponent" where
  "component_ex name es = \<lparr>dc_name = name, dc_component_id = 0, data_path = Map.empty, ctrl_path = Map.empty, ctrl_entries = es\<rparr>"

definition routed_dag_ex :: AppDAG where
  "routed_dag_ex = \<lparr>app_name = ''demo'', enabled_components = 4, components_map =
     [(''soc'', component_ex ''soc'' [[''match'' \<mapsto> ''retval='' @ to_dec 258, ''action'' \<mapsto> ''fwd(host:next)''],
         [''match'' \<mapsto> ''retval=3''], [''match'' \<mapsto> ''ipv4.sip'', ''action'' \<mapsto> ''drop'']]),
      (''other'', component_ex ''other'' [[''match'' \<mapsto> ''retval=1'', ''action'' \<mapsto> ''drop'']]),
      (''root'', component_ex ''root'' [[''match'' \<mapsto> ''udp.sport=10086'', ''action'' \<mapsto> ''fwd(soc)'']])],
     remote_hosts = [], local_hosts = []\<rparr>"

lemma load_from_app_dag_rules_witness:
  "load_from_app_dag (Some routed_dag_ex) new_PipelineRouting = Inr (NICC_SUCCESS, \<lparr>dag_edge_rules =
     [\<lparr>source_component_name = ''root'', conditions = [\<lparr>field = ''udp.sport'', operator_type = ''='', cond_value = ''10086''\<rparr>],
        rule_action = \<lparr>action_type = ''fwd'', target = ''soc'', channel_name = ''default''\<rparr>,
        source_component = kComponent_FlowEngine, kernel_retval = 0, target_component_id = ''soc'', target_channel_name = ''default''\<rparr>,
      \<lparr>source_component_name = ''soc'', conditions = [\<lparr>field = ''retval'', operator_type = ''='', cond_value = to_dec 258\<rparr>],
        rule_action = \<lparr>action_type = ''fwd'', target = ''host'', channel_name = ''next''\<rparr>,
        source_component = kComponent_SoC, kernel_retval = 2, target_component_id = ''host'', target_channel_name = ''next''\<rparr>,
      \<lparr>source_component_name = ''soc'', conditions = [\<lparr>field = ''ipv4.sip'', operator_type = ''exists'', cond_value = ''''\<rparr>],
        rule_action = \<lparr>action_type = ''drop'', target = '''', channel_name = ''''\<rparr>,
        source_component = kComponent_SoC, kernel_retval = 0, target_component_id = '''', target_channel_name = ''''\<rparr>],
     component_routers = Map.empty\<rparr>)"
proof -
  have "\<forall>name \<in> {''root'', ''soc'', ''dpa'', ''flow_engine'', ''decompress'', ''sha''}. routes_of routed_dag_ex name (routes_ex name)"
    by (simp add: routes_of_def routes_ex_def routed_dag_ex_def get_component_config_def component_ex_def entry_of_route_def complete_entry_def
        del: to_dec.simps)
  from load_from_app_dag_rules [OF this] show ?thesis
    by (simp add: routes_ex_def route_rule_def new_PipelineRouting_def del: to_dec.simps)
qed

end
