(* ===== verification/Crc32.thy ===== *)
theory Crc32
  imports NiccTypes
begin

text \<open>
  The checksum of \<open>lib/common/crc32.h\<close>: the table and the byte loop of \<open>Utils_CRC32::hash\<close>,
  and the proof that they compute the bitwise CRC-32 with polynomial \<open>0x04c11db7\<close>, most
  significant bit first, without reflection or final complement.
\<close>

unbundle bit_operations_syntax

definition crc32_table :: "u32 list" where
  "crc32_table = [
     0x00000000, 0x04c11db7, 0x09823b6e, 0x0d4326d9, 0x130476dc, 0x17c56b6b,
     0x1a864db2, 0x1e475005, 0x2608edb8, 0x22c9f00f, 0x2f8ad6d6, 0x2b4bcb61,
     0x350c9b64, 0x31cd86d3, 0x3c8ea00a, 0x384fbdbd, 0x4c11db70, 0x48d0c6c7,
     0x4593e01e, 0x4152fda9, 0x5f15adac, 0x5bd4b01b, 0x569796c2, 0x52568b75,
     0x6a1936c8, 0x6ed82b7f, 0x639b0da6, 0x675a1011, 0x791d4014, 0x7ddc5da3,
     0x709f7b7a, 0x745e66cd, 0x9823b6e0, 0x9ce2ab57, 0x91a18d8e, 0x95609039,
     0x8b27c03c, 0x8fe6dd8b, 0x82a5fb52, 0x8664e6e5, 0xbe2b5b58, 0xbaea46ef,
     0xb7a96036, 0xb3687d81, 0xad2f2d84, 0xa9ee3033, 0xa4ad16ea, 0xa06c0b5d,
     0xd4326d90, 0xd0f37027, 0xddb056fe, 0xd9714b49, 0xc7361b4c, 0xc3f706fb,
     0xceb42022, 0xca753d95, 0xf23a8028, 0xf6fb9d9f, 0xfbb8bb46, 0xff79a6f1,
     0xe13ef6f4, 0xe5ffeb43, 0xe8bccd9a, 0xec7dd02d, 0x34867077, 0x30476dc0,
     0x3d044b19, 0x39c556ae, 0x278206ab, 0x23431b1c, 0x2e003dc5, 0x2ac12072,
     0x128e9dcf, 0x164f8078, 0x1b0ca6a1, 0x1fcdbb16, 0x018aeb13, 0x054bf6a4,
     0x0808d07d, 0x0cc9cdca, 0x7897ab07, 0x7c56b6b0, 0x71159069, 0x75d48dde,
     0x6b93dddb, 0x6f52c06c, 0x6211e6b5, 0x66d0fb02, 0x5e9f46bf, 0x5a5e5b08,
     0x571d7dd1, 0x53dc6066, 0x4d9b3063, 0x495a2dd4, 0x44190b0d, 0x40d816ba,
     0xaca5c697, 0xa864db20, 0xa527fdf9, 0xa1e6e04e, 0xbfa1b04b, 0xbb60adfc,
     0xb6238b25, 0xb2e29692, 0x8aad2b2f, 0x8e6c3698, 0x832f1041, 0x87ee0df6,
     0x99a95df3, 0x9d684044, 0x902b669d, 0x94ea7b2a, 0xe0b41de7, 0xe4750050,
     0xe9362689, 0xedf73b3e, 0xf3b06b3b, 0xf771768c, 0xfa325055, 0xfef34de2,
     0xc6bcf05f, 0xc27dede8, 0xcf3ecb31, 0xcbffd686, 0xd5b88683, 0xd1799b34,
     0xdc3abded, 0xd8fba05a, 0x690ce0ee, 0x6dcdfd59, 0x608edb80, 0x644fc637,
     0x7a089632, 0x7ec98b85, 0x738aad5c, 0x774bb0eb, 0x4f040d56, 0x4bc510e1,
     0x46863638, 0x42472b8f, 0x5c007b8a, 0x58c1663d, 0x558240e4, 0x51435d53,
     0x251d3b9e, 0x21dc2629, 0x2c9f00f0, 0x285e1d47, 0x36194d42, 0x32d850f5,
     0x3f9b762c, 0x3b5a6b9b, 0x0315d626, 0x07d4cb91, 0x0a97ed48, 0x0e56f0ff,
     0x1011a0fa, 0x14d0bd4d, 0x19939b94, 0x1d528623, 0xf12f560e, 0xf5ee4bb9,
     0xf8ad6d60, 0xfc6c70d7, 0xe22b20d2, 0xe6ea3d65, 0xeba91bbc, 0xef68060b,
     0xd727bbb6, 0xd3e6a601, 0xdea580d8, 0xda649d6f, 0xc423cd6a, 0xc0e2d0dd,
     0xcda1f604, 0xc960ebb3, 0xbd3e8d7e, 0xb9ff90c9, 0xb4bcb610, 0xb07daba7,
     0xae3afba2, 0xaafbe615, 0xa7b8c0cc, 0xa379dd7b, 0x9b3660c6, 0x9ff77d71,
     0x92b45ba8, 0x9675461f, 0x8832161a, 0x8cf30bad, 0x81b02d74, 0x857130c3,
     0x5d8a9099, 0x594b8d2e, 0x5408abf7, 0x50c9b640, 0x4e8ee645, 0x4a4ffbf2,
     0x470cdd2b, 0x43cdc09c, 0x7b827d21, 0x7f436096, 0x7200464f, 0x76c15bf8,
     0x68860bfd, 0x6c47164a, 0x61043093, 0x65c52d24, 0x119b4be9, 0x155a565e,
     0x18197087, 0x1cd86d30, 0x029f3d35, 0x065e2082, 0x0b1d065b, 0x0fdc1bec,
     0x3793a651, 0x3352bbe6, 0x3e119d3f, 0x3ad08088, 0x2497d08d, 0x2056cd3a,
     0x2d15ebe3, 0x29d4f654, 0xc5a92679, 0xc1683bce, 0xcc2b1d17, 0xc8ea00a0,
     0xd6ad50a5, 0xd26c4d12, 0xdf2f6bcb, 0xdbee767c, 0xe3a1cbc1, 0xe760d676,
     0xea23f0af, 0xeee2ed18, 0xf0a5bd1d, 0xf464a0aa, 0xf9278673, 0xfde69bc4,
     0x89b8fd09, 0x8d79e0be, 0x803ac667, 0x84fbdbd0, 0x9abc8bd5, 0x9e7d9662,
     0x933eb0bb, 0x97ffad0c, 0xafb010b1, 0xab710d06, 0xa6322bdf, 0xa2f33668,
     0xbcb4666d, 0xb8757bda, 0xb5365d03, 0xb1f740b4
  ]"

definition crc_step :: "u8 \<Rightarrow> u32 \<Rightarrow> u32" where
  "crc_step b crc = push_bit 8 crc XOR crc32_table ! unat ((drop_bit 24 crc XOR ucast b) AND 255)"

fun crc_hash :: "u8 list \<Rightarrow> u32 \<Rightarrow> u32" where
  "crc_hash [] crc = crc"
| "crc_hash (b # bs) crc = crc_hash bs (crc_step b crc)"

subsection \<open>The bitwise reference\<close>

definition crc_poly :: u32 where "crc_poly = 0x04c11db7"

text \<open>One shift of the register, and the shifts for one byte.\<close>

definition crc_shift :: "u32 \<Rightarrow> u32" where
  "crc_shift x = push_bit 1 x XOR (if bit x 31 then crc_poly else 0)"

definition crc_shift8 :: "u32 \<Rightarrow> u32" where
  "crc_shift8 x = (crc_shift ^^ 8) x"

fun crc_bitwise :: "u8 list \<Rightarrow> u32 \<Rightarrow> u32" where
  "crc_bitwise [] crc = crc"
| "crc_bitwise (b # bs) crc = crc_bitwise bs (crc_shift8 (crc XOR push_bit 24 (ucast b)))"

subsection \<open>Linearity\<close>

lemma crc_shift_xor: "crc_shift (x XOR y) = crc_shift x XOR crc_shift y"
  by (auto simp: crc_shift_def push_bit_xor bit_xor_iff ac_simps)

lemma crc_shift_pow_xor: "(crc_shift ^^ n) (x XOR y) = (crc_shift ^^ n) x XOR (crc_shift ^^ n) y"
  by (induction n) (simp_all add: crc_shift_xor)

lemma crc_shift8_xor: "crc_shift8 (x XOR y) = crc_shift8 x XOR crc_shift8 y"
  by (simp add: crc_shift8_def crc_shift_pow_xor)

text \<open>Shifts that push out zeros only.\<close>

lemma crc_shift_small: "\<not> bit x 31 \<Longrightarrow> crc_shift x = push_bit 1 x"
  by (simp add: crc_shift_def)

lemma crc_shift_pow_small:
  assumes "\<And>i. 32 - n \<le> i \<Longrightarrow> i < 32 \<Longrightarrow> \<not> bit x i" "n \<le> 32"
  shows "(crc_shift ^^ n) x = push_bit n x"
  using assms
proof (induction n)
  case 0
  then show ?case by simp
next
  case (Suc n)
  have "(crc_shift ^^ n) x = push_bit n x" using Suc.prems by (intro Suc.IH) auto
  moreover have "\<not> bit (push_bit n x) 31"
    using Suc.prems by (auto simp: bit_push_bit_iff)
  ultimately show ?case by (simp add: crc_shift_small push_bit_push_bit)
qed

subsection \<open>The table\<close>

text \<open>Entry \<open>2i\<close> is entry \<open>i\<close> shifted once, entry \<open>2i+1\<close> differs from it by the polynomial.\<close>

fun table_ok :: "u32 list \<Rightarrow> u32 list \<Rightarrow> bool" where
  "table_ok (t # ts) (e # d # us) \<longleftrightarrow> e = crc_shift t \<and> d = e XOR crc_poly \<and> table_ok ts us"
| "table_ok ts us \<longleftrightarrow> us = []"

lemma crc32_table_ok: "table_ok (take 128 crc32_table) crc32_table"
  by (simp add: crc32_table_def crc_shift_def crc_poly_def)

lemma crc32_table_0: "crc32_table ! 0 = 0" "length crc32_table = 256"
  by (simp_all add: crc32_table_def)

lemma table_ok_nth:
  "table_ok ts us \<Longrightarrow> length us = 2 * length ts \<Longrightarrow> i < length ts \<Longrightarrow>
   us ! (2 * i) = crc_shift (ts ! i) \<and> us ! (2 * i + 1) = us ! (2 * i) XOR crc_poly"
proof (induction ts us arbitrary: i rule: table_ok.induct)
  case (1 t ts e d us)
  then show ?case by (cases i) auto
qed auto

lemma table_entry:
  "n < 256 \<Longrightarrow> crc32_table ! n = crc_shift8 (push_bit 24 (of_nat n))"
proof (induction n rule: less_induct)
  case (less n)
  show ?case
  proof (cases "n = 0")
    case True
    have "(crc_shift ^^ k) 0 = 0" for k by (induction k) (simp_all add: crc_shift_def)
    with True show ?thesis by (simp add: crc32_table_0 crc_shift8_def)
  next
    case False
    let ?i = "n div 2"
    have i: "?i < n" "?i < 128" using False less.prems by auto
    note t = table_ok_nth [OF crc32_table_ok, of ?i]
    have even: "crc32_table ! (2 * ?i) = crc_shift8 (push_bit 24 (of_nat (2 * ?i)))"
    proof -
      have "\<not> bit (push_bit 24 (of_nat ?i :: u32)) 31"
        using i(2) by (simp add: bit_push_bit_iff bit_of_nat_iff bit_nat_def div_eq_0_iff)
      then have "crc_shift (push_bit 24 (of_nat ?i)) = push_bit 25 (of_nat ?i :: u32)"
        by (simp add: crc_shift_small push_bit_push_bit)
      also have "\<dots> = push_bit 24 (of_nat (2 * ?i))"
        by (simp add: push_bit_eq_mult)
      finally have "crc_shift8 (push_bit 24 (of_nat (2 * ?i))) = crc_shift8 (crc_shift (push_bit 24 (of_nat ?i)))"
        by simp
      also have "\<dots> = crc_shift (crc_shift8 (push_bit 24 (of_nat ?i)))"
        by (simp only: crc_shift8_def funpow_swap1)
      finally have "crc_shift8 (push_bit 24 (of_nat (2 * ?i))) = crc_shift (crc_shift8 (push_bit 24 (of_nat ?i)))" .
      then show ?thesis using t i less.IH [of ?i] crc32_table_0(2) by simp
    qed
    show ?thesis
    proof (cases "even n")
      case True
      then show ?thesis using even by simp
    next
      case odd: False
      have "of_nat n = (of_nat (2 * ?i) XOR 1 :: u32)"
      proof -
        have "of_nat n = (of_nat (2 * ?i) + 1 :: u32)" using odd by (metis odd_two_times_div_two_succ of_nat_1 of_nat_add)
        also have "\<dots> = of_nat (2 * ?i) XOR 1"
          by (simp add: xor_one_eq)
        finally show ?thesis .
      qed
      then have "crc_shift8 (push_bit 24 (of_nat n)) = crc32_table ! (2 * ?i) XOR crc_shift8 (push_bit 24 1)"
        using even by (simp add: push_bit_xor crc_shift8_xor)
      moreover have "crc_shift8 (push_bit 24 1) = crc_poly"
      proof -
        have "(crc_shift ^^ Suc (Suc (Suc (Suc (Suc (Suc (Suc (Suc 0)))))))) (push_bit 24 1) = crc_poly"
          by (simp add: crc_shift_def crc_poly_def)
        moreover have "(8 :: nat) = Suc (Suc (Suc (Suc (Suc (Suc (Suc (Suc 0)))))))" by simp
        ultimately show ?thesis by (simp only: crc_shift8_def)
      qed
      moreover have "crc32_table ! n = crc32_table ! (2 * ?i) XOR crc_poly"
      proof -
        have "crc32_table ! (2 * ?i + 1) = crc32_table ! (2 * ?i) XOR crc_poly"
          using t i(2) crc32_table_0(2) by simp
        then show ?thesis using odd odd_two_times_div_two_succ [of n] by simp
      qed
      ultimately show ?thesis by simp
    qed
  qed
qed

lemma crc_step_bitwise: "crc_step b crc = crc_shift8 (crc XOR push_bit 24 (ucast b))"
proof -
  let ?x = "crc XOR push_bit 24 (ucast b)" and ?hi = "(drop_bit 24 crc XOR ucast b) AND 255 :: u32"
  have m255: "(255 :: u32) = mask 8" by (simp add: mask_eq_decr_exp)
  have hi: "push_bit 24 ?hi = push_bit 24 (drop_bit 24 ?x)"
    unfolding m255
    by (rule bit_word_eqI) (auto simp: bit_push_bit_iff bit_drop_bit_eq bit_and_iff bit_xor_iff
        bit_mask_iff bit_unsigned_iff)
  have split: "?x = push_bit 24 (drop_bit 24 ?x) XOR take_bit 24 ?x"
    by (rule bit_word_eqI) (auto simp: bit_push_bit_iff bit_drop_bit_eq bit_xor_iff bit_take_bit_iff)
  have "crc_shift8 (take_bit 24 ?x) = push_bit 8 (take_bit 24 ?x)"
    unfolding crc_shift8_def by (rule crc_shift_pow_small)
      (auto simp: bit_take_bit_iff bit_xor_iff bit_push_bit_iff)
  also have "\<dots> = push_bit 8 crc"
    by (rule bit_word_eqI) (auto simp: bit_push_bit_iff bit_take_bit_iff bit_xor_iff)
  finally have low: "crc_shift8 (take_bit 24 ?x) = push_bit 8 crc" .
  have "unat ?hi < 256"
  proof -
    have "unat (y AND mask 8 :: u32) < 2 ^ 8" for y
      by (simp only: take_bit_eq_mask [symmetric] unsigned_take_bit_eq take_bit_nat_less_exp)
    then show ?thesis unfolding m255 by simp
  qed
  then have "crc32_table ! unat ?hi = crc_shift8 (push_bit 24 ?hi)"
    using table_entry [of "unat ?hi"] by simp
  then have t: "crc32_table ! unat ?hi = crc_shift8 (push_bit 24 (drop_bit 24 ?x))" by (simp only: hi)
  have "crc_shift8 ?x = crc_shift8 (push_bit 24 (drop_bit 24 ?x)) XOR crc_shift8 (take_bit 24 ?x)"
    using arg_cong [OF split, of crc_shift8]
    by (simp only: crc_shift8_xor [of "push_bit 24 (drop_bit 24 ?x)" "take_bit 24 ?x"])
  then show ?thesis unfolding crc_step_def t low by (simp only: xor.commute)
qed

text \<open>
  C27. The table-driven checksum is the bitwise CRC-32 (polynomial \<open>0x04c11db7\<close>, most significant
  bit first) of the same bytes from the same initial value.
\<close>

theorem crc_hash_bitwise: "crc_hash bs crc = crc_bitwise bs crc"
  by (induction bs arbitrary: crc) (simp_all add: crc_step_bitwise)

end
