(* ===== verification/Mat.thy ===== *)
theory Mat
  imports Crc32
begin

text \<open>
  The match-action tables of the control path: flow keys, wildcards, matchers, tables and
  domains (\<open>runtime/include/ctrlpath/mat.h\<close>, \<open>runtime/src/ctrlpath/mat.cc\<close>), their flow engine
  implementation (\<open>runtime/include/datapath/block_impl/flow_engine.h\<close>,
  \<open>runtime/src/datapath/block_impl/flow_engine.cc\<close>) and the table constructor of
  \<open>runtime/include/datapath/block_impl/dpa_mat.h\<close>. The steering driver \<open>mlx5dv_dr\<close> is a
  parameter (\<open>dr_api\<close>).
\<close>

subsection \<open>Flow keys\<close>

datatype flow_match_field_t =
    NICC_FMF_UNKNOWN | NICC_FMF_RT_RETVAL | NICC_FMF_ETH_SMAC | NICC_FMF_ETH_DMAC
  | NICC_FMF_ETH_TYPE | NICC_FMF_VLAN_ID | NICC_FMF_IPV4_SIP | NICC_FMF_IPV4_DIP
  | NICC_FMF_IPV4_TYPE | NICC_FMF_UDP_SPORT | NICC_FMF_UDP_DPORT | NICC_FMF_NUM

datatype flow_action_type_t = NICC_ACT_UNKNOWN | NICC_ACT_DROP | NICC_ACT_FWD

fun action_code :: "flow_action_type_t \<Rightarrow> u8" where
  "action_code NICC_ACT_UNKNOWN = 0"
| "action_code NICC_ACT_DROP = 1"
| "action_code NICC_ACT_FWD = 2"

text \<open>
  Byte arrays of fixed size (\<open>eth_addr\<close>, \<open>in6_addr\<close>, the paddings) are words whose least
  significant byte is the first byte of the array.
\<close>

record flow_t =
  core_retval :: u8
  pad_nicc :: "56 word"
  in_port :: u32
  pad_phy :: u32
  dl_dst :: "48 word"
  dl_src :: "48 word"
  dl_type :: u16
  pad_l2 :: u16
  nw_src :: u32
  nw_dst :: u32
  ct_nw_src :: u32
  ct_nw_dst :: u32
  ipv6_src :: "128 word"
  ipv6_dst :: "128 word"
  ct_ipv6_src :: "128 word"
  ct_ipv6_dst :: "128 word"
  ipv6_label :: u32
  nw_frag :: u8
  nw_tos :: u8
  nw_ttl :: u8
  nw_proto :: u8
  nd_target :: "128 word"
  arp_sha :: "48 word"
  arp_tha :: "48 word"
  tcp_flags :: u16
  pad_l4_1 :: u16
  tp_src :: u16
  tp_dst :: u16
  ct_tp_src :: u16
  ct_tp_dst :: u16
  igmp_group_ip4 :: u32
  pad_l4_2 :: u32

definition zero_flow :: flow_t where
  "zero_flow = \<lparr>core_retval = 0, pad_nicc = 0, in_port = 0, pad_phy = 0, dl_dst = 0, dl_src = 0,
     dl_type = 0, pad_l2 = 0, nw_src = 0, nw_dst = 0, ct_nw_src = 0, ct_nw_dst = 0, ipv6_src = 0,
     ipv6_dst = 0, ct_ipv6_src = 0, ct_ipv6_dst = 0, ipv6_label = 0, nw_frag = 0, nw_tos = 0,
     nw_ttl = 0, nw_proto = 0, nd_target = 0, arp_sha = 0, arp_tha = 0, tcp_flags = 0,
     pad_l4_1 = 0, tp_src = 0, tp_dst = 0, ct_tp_src = 0, ct_tp_dst = 0, igmp_group_ip4 = 0,
     pad_l4_2 = 0\<rparr>"

text \<open>The bytes of an object of \<open>n\<close> bytes in memory (the targets are little-endian).\<close>

definition le_bytes :: "nat \<Rightarrow> 'a::len word \<Rightarrow> u8 list" where
  "le_bytes n w = map (\<lambda>i. ucast (drop_bit (8 * i) w)) [0..<n]"

definition flow_bytes :: "flow_t \<Rightarrow> u8 list" where
  "flow_bytes f =
     le_bytes 1 (core_retval f) @ le_bytes 7 (pad_nicc f)
     @ le_bytes 4 (in_port f) @ le_bytes 4 (pad_phy f)
     @ le_bytes 6 (dl_dst f) @ le_bytes 6 (dl_src f) @ le_bytes 2 (dl_type f) @ le_bytes 2 (pad_l2 f)
     @ le_bytes 4 (nw_src f) @ le_bytes 4 (nw_dst f) @ le_bytes 4 (ct_nw_src f) @ le_bytes 4 (ct_nw_dst f)
     @ le_bytes 16 (ipv6_src f) @ le_bytes 16 (ipv6_dst f)
     @ le_bytes 16 (ct_ipv6_src f) @ le_bytes 16 (ct_ipv6_dst f)
     @ le_bytes 4 (ipv6_label f) @ le_bytes 1 (nw_frag f) @ le_bytes 1 (nw_tos f)
     @ le_bytes 1 (nw_ttl f) @ le_bytes 1 (nw_proto f)
     @ le_bytes 16 (nd_target f) @ le_bytes 6 (arp_sha f) @ le_bytes 6 (arp_tha f)
     @ le_bytes 2 (tcp_flags f) @ le_bytes 2 (pad_l4_1 f)
     @ le_bytes 2 (tp_src f) @ le_bytes 2 (tp_dst f) @ le_bytes 2 (ct_tp_src f) @ le_bytes 2 (ct_tp_dst f)
     @ le_bytes 4 (igmp_group_ip4 f) @ le_bytes 4 (pad_l4_2 f)"

text \<open>\<open>operator==\<close> is \<open>memcmp\<close> over the whole object, \<open>operator<\<close> looks at one field.\<close>

definition flow_eq :: "flow_t \<Rightarrow> flow_t \<Rightarrow> bool" where
  "flow_eq f g \<longleftrightarrow> flow_bytes f = flow_bytes g"

definition flow_less :: "flow_t \<Rightarrow> flow_t \<Rightarrow> bool" where
  "flow_less f g \<longleftrightarrow> tp_dst f < tp_dst g"

definition flow_greater :: "flow_t \<Rightarrow> flow_t \<Rightarrow> bool" where
  "flow_greater f g \<longleftrightarrow> tp_dst f > tp_dst g"

record flow_wildcards_t =
  masks :: flow_t

definition wildcards_eq :: "flow_wildcards_t \<Rightarrow> flow_wildcards_t \<Rightarrow> bool" where
  "wildcards_eq a b \<longleftrightarrow> flow_eq (masks a) (masks b)"

definition wildcards_less :: "flow_wildcards_t \<Rightarrow> flow_wildcards_t \<Rightarrow> bool" where
  "wildcards_less a b \<longleftrightarrow> flow_less (masks a) (masks b)"

record flow_match_t =
  match_flow :: flow_t
  wildcards :: flow_wildcards_t

record flow_action_t =
  act_type :: flow_action_type_t

record flow_entry_t =
  entry_match :: flow_match_t
  entry_action :: flow_action_t
  entry_hash :: u32

definition match_bytes :: "flow_match_t \<Rightarrow> u8 list" where
  "match_bytes m = flow_bytes (match_flow m) @ flow_bytes (masks (wildcards m))"

definition flow_hash_cal :: "flow_match_t \<Rightarrow> flow_action_t \<Rightarrow> u32" where
  "flow_hash_cal m a =
     (let fmf_hash = crc_hash (match_bytes m) 0xFFFFFFFF;
          act_hash = crc_hash (le_bytes 1 (action_code (act_type a))) 0xFFFFFFFF
      in fmf_hash OR act_hash)"

subsection \<open>Matchers\<close>

record FlowMatcher =
  match_wc :: flow_wildcards_t

text \<open>The constructor ignores its argument: the pattern keeps its default initialiser.\<close>

definition new_FlowMatcher :: "flow_wildcards_t \<Rightarrow> FlowMatcher" where
  "new_FlowMatcher wc = \<lparr>match_wc = \<lparr>masks = zero_flow\<rparr>\<rparr>"

definition matcher_eq :: "FlowMatcher \<Rightarrow> FlowMatcher \<Rightarrow> bool" where
  "matcher_eq a b \<longleftrightarrow> wildcards_eq (match_wc a) (match_wc b)"

definition matcher_less :: "FlowMatcher \<Rightarrow> FlowMatcher \<Rightarrow> bool" where
  "matcher_less a b \<longleftrightarrow> wildcards_less (match_wc a) (match_wc b)"

text \<open>
  \<open>std::map<FlowMatcher, std::vector<flow_entry_t*>*>\<close>: ascending for \<open>operator<\<close>; two keys
  are the same key when neither is below the other.
\<close>

type_synonym matcher_map = "(FlowMatcher \<times> nat list) list"

definition same_key :: "FlowMatcher \<Rightarrow> FlowMatcher \<Rightarrow> bool" where
  "same_key a b \<longleftrightarrow> \<not> matcher_less a b \<and> \<not> matcher_less b a"

fun mm_find :: "FlowMatcher \<Rightarrow> matcher_map \<Rightarrow> nat list option" where
  "mm_find k [] = None"
| "mm_find k ((k', v) # xs) = (if same_key k k' then Some v else mm_find k xs)"

fun mm_insert :: "FlowMatcher \<Rightarrow> nat list \<Rightarrow> matcher_map \<Rightarrow> matcher_map" where
  "mm_insert k v [] = [(k, v)]"
| "mm_insert k v ((k', v') # xs) =
     (if matcher_less k k' then (k, v) # (k', v') # xs
      else if matcher_less k' k then (k', v') # mm_insert k v xs
      else (k', v') # xs)"

definition mm_update :: "FlowMatcher \<Rightarrow> nat list \<Rightarrow> matcher_map \<Rightarrow> matcher_map" where
  "mm_update k v xs = map (\<lambda>(k', v'). if same_key k k' then (k', v) else (k', v')) xs"

definition mm_erase :: "FlowMatcher \<Rightarrow> matcher_map \<Rightarrow> matcher_map" where
  "mm_erase k xs = filter (\<lambda>(k', v'). \<not> same_key k k') xs"

subsection \<open>Tables\<close>

record FlowMAT =
  entry_map :: matcher_map

definition new_FlowMAT :: FlowMAT where
  "new_FlowMAT = \<lparr>entry_map = []\<rparr>"

text \<open>
  The virtual operations of a table. The first takes and returns the caller's \<open>*matcher\<close>,
  \<open>'w\<close> is the state of the implementation.
\<close>

record 'w FlowMAT_ops =
  op_create_matcher :: "flow_wildcards_t \<Rightarrow> int \<Rightarrow> FlowMatcher option \<Rightarrow> 'w
     \<Rightarrow> ((nicc_retval_t \<times> FlowMatcher option) \<times> 'w) run"
  op_destory_matcher :: "FlowMatcher \<Rightarrow> 'w \<Rightarrow> nicc_retval_t \<times> 'w"
  op_load_entries :: "FlowMatcher \<Rightarrow> nat \<Rightarrow> u64 \<Rightarrow> 'w \<Rightarrow> nicc_retval_t \<times> 'w"
  op_unload_entries :: "FlowMatcher \<Rightarrow> nat \<Rightarrow> u64 \<Rightarrow> 'w \<Rightarrow> nicc_retval_t \<times> 'w"

definition base_MAT_ops :: "'w FlowMAT_ops" where
  "base_MAT_ops = \<lparr>
     op_create_matcher = (\<lambda>wc prio m w. Inr ((NICC_ERROR_NOT_IMPLEMENTED, m), w)),
     op_destory_matcher = (\<lambda>m w. (NICC_ERROR_NOT_IMPLEMENTED, w)),
     op_load_entries = (\<lambda>m es n w. (NICC_ERROR_NOT_IMPLEMENTED, w)),
     op_unload_entries = (\<lambda>m es n w. (NICC_ERROR_NOT_IMPLEMENTED, w))\<rparr>"

text \<open>
  \<open>count(wc)\<close> converts the wildcard through the constructor of \<open>FlowMatcher\<close>. The created
  matcher is sliced to its base part when it becomes a key.
\<close>

definition create_matcher :: "'w FlowMAT_ops \<Rightarrow> flow_wildcards_t \<Rightarrow> int \<Rightarrow> FlowMatcher option
    \<Rightarrow> FlowMAT \<Rightarrow> 'w \<Rightarrow> ((nicc_retval_t \<times> FlowMatcher option) \<times> FlowMAT \<times> 'w) run" where
  "create_matcher ops wc priority out t w =
     (if mm_find (new_FlowMatcher wc) (entry_map t) \<noteq> None
      then Inr ((NICC_ERROR_DUPLICATED, out), t, w)
      else bind_run (op_create_matcher ops wc priority out w) (\<lambda>((retval, out'), w').
        case out' of
          None \<Rightarrow> Inl Assert_Failed
        | Some matcher \<Rightarrow>
            if retval = NICC_SUCCESS
            then Inr ((retval, out'), t\<lparr>entry_map := mm_insert matcher [] (entry_map t)\<rparr>, w')
            else Inr ((retval, out'), t, w')))"

definition detory_matcher :: "'w FlowMAT_ops \<Rightarrow> FlowMatcher \<Rightarrow> FlowMAT \<Rightarrow> 'w
    \<Rightarrow> nicc_retval_t \<times> FlowMAT \<times> 'w" where
  "detory_matcher ops matcher t w =
     (if mm_find matcher (entry_map t) = None then (NICC_ERROR_DUPLICATED, t, w)
      else let (retval, w') = op_destory_matcher ops matcher w
           in if retval = NICC_SUCCESS
              then (retval, t\<lparr>entry_map := mm_erase matcher (entry_map t)\<rparr>, w')
              else (retval, t, w'))"

text \<open>
  Entries live in arrays the caller owns: element \<open>i\<close> of the array \<open>entries\<close> is at
  address \<open>entries + i\<close> of \<open>mem\<close>.
\<close>

type_synonym entry_mem = "nat \<rightharpoonup> flow_entry_t"

fun load_loop :: "nat \<Rightarrow> nat \<Rightarrow> nat list \<Rightarrow> entry_mem \<Rightarrow> (nat list \<times> entry_mem) run" where
  "load_loop 0 e es mem = Inr (es, mem)"
| "load_loop (Suc n) e es mem = (case mem e of
       None \<Rightarrow> Inl Bad_Access
     | Some en \<Rightarrow>
         load_loop n (Suc e) (es @ [e])
           (mem(e \<mapsto> en\<lparr>entry_hash := flow_hash_cal (entry_match en) (entry_action en)\<rparr>)))"

definition load_entries :: "'w FlowMAT_ops \<Rightarrow> FlowMatcher \<Rightarrow> ptr \<Rightarrow> u64 \<Rightarrow> FlowMAT \<Rightarrow> entry_mem \<Rightarrow> 'w
    \<Rightarrow> (nicc_retval_t \<times> FlowMAT \<times> entry_mem \<times> 'w) run" where
  "load_entries ops matcher entries len t mem w = (case entries of
       None \<Rightarrow> Inl Assert_Failed
     | Some e \<Rightarrow> (case mm_find matcher (entry_map t) of
           None \<Rightarrow> Inr (NICC_ERROR_NOT_FOUND, t, mem, w)
         | Some entry_list \<Rightarrow>
             let (retval, w') = op_load_entries ops matcher e len w
             in if retval = NICC_SUCCESS
                then bind_run (load_loop (unat len) e entry_list mem) (\<lambda>(es, mem').
                  Inr (retval, t\<lparr>entry_map := mm_update matcher es (entry_map t)\<rparr>, mem', w'))
                else Inr (retval, t, mem, w')))"

text \<open>\<open>std::remove\<close> and \<open>erase\<close> drop every occurrence of one pointer.\<close>

fun unload_loop :: "nat \<Rightarrow> nat \<Rightarrow> nat list \<Rightarrow> nat list" where
  "unload_loop 0 e es = es"
| "unload_loop (Suc n) e es = unload_loop n (Suc e) (filter (\<lambda>p. p \<noteq> e) es)"

definition unload_entries :: "'w FlowMAT_ops \<Rightarrow> FlowMatcher \<Rightarrow> ptr \<Rightarrow> u64 \<Rightarrow> FlowMAT \<Rightarrow> 'w
    \<Rightarrow> (nicc_retval_t \<times> FlowMAT \<times> 'w) run" where
  "unload_entries ops matcher entries len t w = (case entries of
       None \<Rightarrow> Inl Assert_Failed
     | Some e \<Rightarrow> (case mm_find matcher (entry_map t) of
           None \<Rightarrow> Inr (NICC_ERROR_NOT_FOUND, t, w)
         | Some entry_list \<Rightarrow>
             let (retval, w') = op_unload_entries ops matcher e len w
             in if retval = NICC_SUCCESS
                then Inr (retval, t\<lparr>entry_map :=
                       mm_update matcher (unload_loop (unat len) e entry_list) (entry_map t)\<rparr>, w')
                else Inr (retval, t, w')))"

subsection \<open>Domains\<close>

text \<open>\<open>std::multimap<int, FlowMAT*>\<close>: ascending levels, a new table after those of its level.\<close>

record FlowDomain =
  table_map :: "(int \<times> ptr) list"

definition new_FlowDomain :: FlowDomain where
  "new_FlowDomain = \<lparr>table_map = []\<rparr>"

fun multimap_insert :: "int \<Rightarrow> 'v \<Rightarrow> (int \<times> 'v) list \<Rightarrow> (int \<times> 'v) list" where
  "multimap_insert k v [] = [(k, v)]"
| "multimap_insert k v ((k', v') # xs) =
     (if k < k' then (k, v) # (k', v') # xs else (k', v') # multimap_insert k v xs)"

record 'w FlowDomain_ops =
  op_create_table :: "int \<Rightarrow> ptr \<Rightarrow> 'w \<Rightarrow> ((nicc_retval_t \<times> ptr) \<times> 'w) run"
  op_detory_table :: "int \<Rightarrow> nat \<Rightarrow> 'w \<Rightarrow> nicc_retval_t \<times> 'w"

definition base_Domain_ops :: "'w FlowDomain_ops" where
  "base_Domain_ops = \<lparr>
     op_create_table = (\<lambda>level t w. Inr ((NICC_ERROR_NOT_IMPLEMENTED, t), w)),
     op_detory_table = (\<lambda>level t w. (NICC_ERROR_NOT_IMPLEMENTED, w))\<rparr>"

definition create_table :: "'w FlowDomain_ops \<Rightarrow> int \<Rightarrow> ptr \<Rightarrow> FlowDomain \<Rightarrow> 'w
    \<Rightarrow> ((nicc_retval_t \<times> ptr) \<times> FlowDomain \<times> 'w) run" where
  "create_table ops level out d w =
     bind_run (op_create_table ops level out w) (\<lambda>((retval, out'), w').
       if retval = NICC_SUCCESS
       then Inr ((retval, out'), d\<lparr>table_map := multimap_insert level out' (table_map d)\<rparr>, w')
       else Inr ((retval, out'), d, w'))"

text \<open>The loop stops at the first node holding the pointer.\<close>

fun destory_loop :: "'w FlowDomain_ops \<Rightarrow> nat \<Rightarrow> (int \<times> ptr) list \<Rightarrow> 'w
    \<Rightarrow> nicc_retval_t \<times> (int \<times> ptr) list \<times> 'w" where
  "destory_loop ops table [] w = (NICC_ERROR_NOT_FOUND, [], w)"
| "destory_loop ops table ((level, t) # xs) w =
     (if t = Some table
      then let (retval, w') = op_detory_table ops level table w
           in if retval = NICC_SUCCESS then (retval, xs, w') else (retval, (level, t) # xs, w')
      else let (retval, xs', w') = destory_loop ops table xs w
           in (retval, (level, t) # xs', w'))"

definition destory_table :: "'w FlowDomain_ops \<Rightarrow> ptr \<Rightarrow> FlowDomain \<Rightarrow> 'w
    \<Rightarrow> (nicc_retval_t \<times> FlowDomain \<times> 'w) run" where
  "destory_table ops table d w = (case table of
       None \<Rightarrow> Inl Assert_Failed
     | Some t \<Rightarrow> let (retval, xs, w') = destory_loop ops t (table_map d) w
                 in Inr (retval, d\<lparr>table_map := xs\<rparr>, w'))"

end
