(* ===== verification/FlowEngine.thy ===== *)
theory FlowEngine
  imports Mat
begin

text \<open>
  The flow engine implementation of matchers, tables and domains
  (\<open>runtime/src/datapath/block_impl/flow_engine.cc\<close>) over the steering driver, and the table
  constructor of \<open>runtime/include/datapath/block_impl/dpa_mat.h\<close>.
\<close>

unbundle bit_operations_syntax

subsection \<open>The steering driver\<close>

text \<open>The fields of \<open>mlx5_ifc_dr_match_param_bits\<close> the source sets, and the size field.\<close>

record dr_match_param =
  match_sz :: nat
  source_port :: u16
  smac_47_16 :: u32
  smac_15_0 :: u16
  dmac_47_16 :: u32
  dmac_15_0 :: u16
  ethertype :: u16
  src_ip_127_96 :: u32
  src_ip_95_64 :: u32
  src_ip_63_32 :: u32
  src_ip_31_0 :: u32
  dst_ip_127_96 :: u32
  dst_ip_95_64 :: u32
  dst_ip_63_32 :: u32
  dst_ip_31_0 :: u32
  tcp_sport :: u16
  tcp_dport :: u16
  udp_sport :: u16
  udp_dport :: u16

text \<open>
  \<open>mlx5dv_dr_table_create\<close>, \<open>mlx5dv_dr_table_destroy\<close>, \<open>mlx5dv_dr_matcher_create\<close> and
  \<open>mlx5dv_dr_matcher_destroy\<close> are parameters over the state \<open>'w\<close> of the device, with the outcome of \<open>calloc\<close>
  and the size of the match parameter structure.
\<close>

record 'w dr_api =
  dr_calloc :: "'w \<Rightarrow> bool"
  dr_match_param_size :: nat
  dr_table_create :: "nat \<Rightarrow> int \<Rightarrow> 'w \<Rightarrow> ptr \<times> 'w"
  dr_table_destroy :: "nat \<Rightarrow> 'w \<Rightarrow> 'w"
  dr_matcher_create :: "nat \<Rightarrow> int \<Rightarrow> u8 \<Rightarrow> dr_match_param option \<Rightarrow> 'w \<Rightarrow> ptr \<times> 'w"
  dr_matcher_destroy :: "nat \<Rightarrow> 'w \<Rightarrow> 'w"

subsection \<open>Converting a wildcard\<close>

definition set_outer_l2 :: "flow_t \<Rightarrow> dr_match_param \<Rightarrow> dr_match_param" where
  "set_outer_l2 m p =
     (let p = if dl_src m \<noteq> 0 then p\<lparr>smac_47_16 := 0xffffffff, smac_15_0 := 0xffff\<rparr> else p;
          p = if dl_dst m \<noteq> 0 then p\<lparr>dmac_47_16 := 0xffffffff, dmac_15_0 := 0xffff\<rparr> else p
      in if dl_type m \<noteq> 0 then p\<lparr>ethertype := 0xffff\<rparr> else p)"

definition set_outer_l3 :: "flow_t \<Rightarrow> dr_match_param \<Rightarrow> dr_match_param" where
  "set_outer_l3 m p =
     (let p = if nw_src m \<noteq> 0
              then p\<lparr>src_ip_127_96 := 0xffffffff, src_ip_95_64 := 0xffffffff,
                     src_ip_63_32 := 0xffffffff, src_ip_31_0 := 0xffffffff\<rparr> else p
      in if nw_dst m \<noteq> 0
         then p\<lparr>dst_ip_127_96 := 0xffffffff, dst_ip_95_64 := 0xffffffff,
                dst_ip_63_32 := 0xffffffff, dst_ip_31_0 := 0xffffffff\<rparr> else p)"

definition set_outer_l4 :: "flow_t \<Rightarrow> dr_match_param \<Rightarrow> dr_match_param" where
  "set_outer_l4 m p =
     (let p = if tp_src m \<noteq> 0 then p\<lparr>tcp_sport := 0xffff, udp_sport := 0xffff\<rparr> else p
      in if tp_dst m \<noteq> 0 then p\<lparr>tcp_dport := 0xffff, udp_dport := 0xffff\<rparr> else p)"

definition convert_flow_wildcard :: "flow_wildcards_t \<Rightarrow> dr_match_param \<Rightarrow> nicc_retval_t \<times> dr_match_param" where
  "convert_flow_wildcard wc p =
     (let m = masks wc;
          p = if in_port m \<noteq> 0 then p\<lparr>source_port := 0xffff\<rparr> else p
      in (NICC_SUCCESS, set_outer_l4 m (set_outer_l3 m (set_outer_l2 m p))))"

definition zero_match_param :: "nat \<Rightarrow> dr_match_param" where
  "zero_match_param sz = \<lparr>match_sz = sz, source_port = 0, smac_47_16 = 0, smac_15_0 = 0,
     dmac_47_16 = 0, dmac_15_0 = 0, ethertype = 0, src_ip_127_96 = 0, src_ip_95_64 = 0,
     src_ip_63_32 = 0, src_ip_31_0 = 0, dst_ip_127_96 = 0, dst_ip_95_64 = 0, dst_ip_63_32 = 0,
     dst_ip_31_0 = 0, tcp_sport = 0, tcp_dport = 0, udp_sport = 0, udp_dport = 0\<rparr>"

subsection \<open>Objects\<close>

record FlowMatcher_FlowEngine = FlowMatcher +
  dr_tbl :: ptr
  dr_matcher :: ptr
  dr_match_parameters :: "dr_match_param option"
  dr_match_priority :: int
  dr_match_criteria :: u8

definition create_dr_matcher :: "'w dr_api \<Rightarrow> FlowMatcher_FlowEngine \<Rightarrow> 'w
    \<Rightarrow> (nicc_retval_t \<times> FlowMatcher_FlowEngine \<times> 'w) run" where
  "create_dr_matcher api m w = (case dr_tbl m of
       None \<Rightarrow> Inl Assert_Failed
     | Some tbl \<Rightarrow>
         if dr_match_parameters m = None then Inl Assert_Failed
         else let (p, w') = dr_matcher_create api tbl (dr_match_priority m) (dr_match_criteria m)
                              (dr_match_parameters m) w
              in Inr (if p = None then NICC_ERROR_HARDWARE_FAILURE else NICC_SUCCESS,
                      m\<lparr>dr_matcher := p\<rparr>, w'))"

text \<open>The constructor only logs a failure.\<close>

definition new_FlowMatcher_FlowEngine :: "'w dr_api \<Rightarrow> flow_wildcards_t \<Rightarrow> ptr \<Rightarrow> dr_match_param option
    \<Rightarrow> int \<Rightarrow> u8 \<Rightarrow> 'w \<Rightarrow> (FlowMatcher_FlowEngine \<times> 'w) run" where
  "new_FlowMatcher_FlowEngine api wc tbl match_param priority criteria w =
     bind_run (create_dr_matcher api
         (FlowMatcher.extend (new_FlowMatcher wc) (FlowMatcher_FlowEngine.fields tbl None match_param priority criteria)) w)
       (\<lambda>(_, m, w'). Inr (m, w'))"

record FlowMAT_FlowEngine = FlowMAT +
  fdb_domain :: ptr
  mat_dr_tbl :: ptr
  mat_level :: int

definition create_dr_table :: "'w dr_api \<Rightarrow> FlowMAT_FlowEngine \<Rightarrow> 'w
    \<Rightarrow> (nicc_retval_t \<times> FlowMAT_FlowEngine \<times> 'w) run" where
  "create_dr_table api t w = (case fdb_domain t of
       None \<Rightarrow> Inl Assert_Failed
     | Some fdb \<Rightarrow>
         let (tbl, w') = dr_table_create api fdb (mat_level t) w
         in Inr (if tbl = None then NICC_ERROR_HARDWARE_FAILURE else NICC_SUCCESS,
                 t\<lparr>mat_dr_tbl := tbl\<rparr>, w'))"

definition new_FlowMAT_FlowEngine :: "'w dr_api \<Rightarrow> int \<Rightarrow> ptr \<Rightarrow> 'w \<Rightarrow> (FlowMAT_FlowEngine \<times> 'w) run" where
  "new_FlowMAT_FlowEngine api level fdb w =
     bind_run (assert_run (fdb \<noteq> None)) (\<lambda>_.
     bind_run (create_dr_table api
         (FlowMAT.extend new_FlowMAT (FlowMAT_FlowEngine.fields fdb None level)) w)
       (\<lambda>(_, t, w'). Inr (t, w')))"

subsection \<open>Table operations of the flow engine\<close>

text \<open>
  \<open>criteria\<close> is not initialised before bits are set in it: \<open>crit\<close> is the value it happens
  to have. \<open>NICC_SET_MASK\<close> with mask 0 leaves it as it is.
\<close>

definition match_criteria :: "u8 \<Rightarrow> u8" where
  "match_criteria crit = ((crit OR (0 AND 0xFF)) OR (push_bit 0 1 AND 0xFF)) OR (push_bit 2 1 AND 0xFF)"

definition fe_create_matcher :: "'w dr_api \<Rightarrow> u8 \<Rightarrow> FlowMAT_FlowEngine \<Rightarrow> flow_wildcards_t \<Rightarrow> int
    \<Rightarrow> FlowMatcher option \<Rightarrow> 'w \<Rightarrow> ((nicc_retval_t \<times> FlowMatcher option) \<times> 'w) run" where
  "fe_create_matcher api crit t wc priority out w =
     (if mat_dr_tbl t = None \<or> \<not> dr_calloc api w then Inl Assert_Failed
      else let (retval, p) = convert_flow_wildcard wc (zero_match_param (dr_match_param_size api))
           in if retval \<noteq> NICC_SUCCESS then Inr ((retval, out), w)
              else bind_run (new_FlowMatcher_FlowEngine api wc (mat_dr_tbl t) (Some p) priority
                               (match_criteria crit) w)
                     (\<lambda>(m, w'). Inr ((NICC_SUCCESS, Some (FlowMatcher.truncate m)), w')))"

definition fe_MAT_ops :: "'w dr_api \<Rightarrow> u8 \<Rightarrow> FlowMAT_FlowEngine \<Rightarrow> 'w FlowMAT_ops" where
  "fe_MAT_ops api crit t = \<lparr>
     op_create_matcher = fe_create_matcher api crit t,
     op_destory_matcher = (\<lambda>m w. (NICC_SUCCESS, w)),
     op_load_entries = (\<lambda>m es n w. (NICC_SUCCESS, w)),
     op_unload_entries = (\<lambda>m es n w. (NICC_SUCCESS, w))\<rparr>"

text \<open>The world of a flow domain: its tables on the heap, and the device.\<close>

record 'w fe_world =
  fe_tables :: "nat \<rightharpoonup> FlowMAT_FlowEngine"
  fe_next :: nat
  fe_dev :: 'w

definition fe_create_table :: "'w dr_api \<Rightarrow> ptr \<Rightarrow> int \<Rightarrow> ptr \<Rightarrow> 'w fe_world
    \<Rightarrow> ((nicc_retval_t \<times> ptr) \<times> 'w fe_world) run" where
  "fe_create_table api fdb level out w =
     bind_run (new_FlowMAT_FlowEngine api level fdb (fe_dev w)) (\<lambda>(t, d).
       Inr ((NICC_SUCCESS, Some (fe_next w)),
            w\<lparr>fe_tables := (fe_tables w)(fe_next w \<mapsto> t), fe_next := Suc (fe_next w), fe_dev := d\<rparr>))"

definition fe_Domain_ops :: "'w dr_api \<Rightarrow> ptr \<Rightarrow> 'w fe_world FlowDomain_ops" where
  "fe_Domain_ops api fdb = \<lparr>
     op_create_table = fe_create_table api fdb,
     op_detory_table = (\<lambda>level t w. (NICC_SUCCESS, w))\<rparr>"

subsection \<open>\<open>dpa_mat.h\<close>\<close>

datatype doca_error_t = DOCA_SUCCESS | DOCA_ERROR_NO_MEMORY | DOCA_ERROR_DRIVER

record dr_flow_table =
  dr_table :: ptr
  ft_matcher :: ptr

text \<open>The cleanup at \<open>exit_with_error\<close>; the structure itself is freed.\<close>

definition flow_table_error :: "'w dr_api \<Rightarrow> dr_flow_table \<Rightarrow> 'w \<Rightarrow> 'w" where
  "flow_table_error api tbl w =
     (let w = case ft_matcher tbl of None \<Rightarrow> w | Some m \<Rightarrow> dr_matcher_destroy api m w
      in case dr_table tbl of None \<Rightarrow> w | Some t \<Rightarrow> dr_table_destroy api t w)"

definition create_flow_table :: "'w dr_api \<Rightarrow> nat \<Rightarrow> int \<Rightarrow> int \<Rightarrow> dr_match_param option \<Rightarrow> 'w
    \<Rightarrow> (doca_error_t \<times> dr_flow_table option) \<times> 'w" where
  "create_flow_table api fdb level priority match_mask w =
     (if \<not> dr_calloc api w then ((DOCA_ERROR_NO_MEMORY, None), w)
      else let tbl = \<lparr>dr_table = None, ft_matcher = None\<rparr>;
               (t, w) = dr_table_create api fdb level w;
               tbl = tbl\<lparr>dr_table := t\<rparr>
           in case t of
                None \<Rightarrow> ((DOCA_ERROR_DRIVER, None), flow_table_error api tbl w)
              | Some t' \<Rightarrow>
                  let (m, w) = dr_matcher_create api t' priority 0x1 match_mask w;
                      tbl = tbl\<lparr>ft_matcher := m\<rparr>
                  in if m = None then ((DOCA_ERROR_DRIVER, None), flow_table_error api tbl w)
                     else ((DOCA_SUCCESS, Some tbl), w))"

subsection \<open>Matchers of a table\<close>

lemma match_wc_new_matcher [simp]: "match_wc (new_FlowMatcher wc) = \<lparr>masks = zero_flow\<rparr>"
  by (simp add: new_FlowMatcher_def)

lemma same_key_refl [simp]: "same_key m m"
  by (simp add: same_key_def matcher_less_def wildcards_less_def flow_less_def)

lemma same_key_iff: "same_key a b \<longleftrightarrow> tp_dst (masks (match_wc a)) = tp_dst (masks (match_wc b))"
  by (auto simp: same_key_def matcher_less_def wildcards_less_def flow_less_def)

lemma mm_find_insert: "mm_find k (mm_insert k v xs) \<noteq> None"
  by (induction k v xs rule: mm_insert.induct)
    (auto simp: same_key_iff matcher_less_def wildcards_less_def flow_less_def)

lemma mm_find_same_key: "same_key k k' \<Longrightarrow> mm_find k xs = mm_find k' xs"
  by (induction k xs rule: mm_find.induct) (auto simp: same_key_iff)

lemma mm_find_update:
  "mm_find k xs \<noteq> None \<Longrightarrow> mm_find k (mm_update k v xs) = Some v"
  by (induction k xs rule: mm_find.induct) (auto simp: mm_update_def)

text \<open>Every matcher the flow engine creates carries the default pattern.\<close>

lemma fe_create_matcher_wc:
  assumes "fe_create_matcher api crit t wc prio out w = Inr ((NICC_SUCCESS, out'), w')"
  shows "\<exists>m. out' = Some m \<and> match_wc m = \<lparr>masks = zero_flow\<rparr>"
  using assms
  by (auto simp: fe_create_matcher_def new_FlowMatcher_FlowEngine_def create_dr_matcher_def
      bind_run_eq_Inr FlowMatcher.defs convert_flow_wildcard_def Let_def
      split: if_splits option.splits prod.splits)

text \<open>
  C28. A flow engine table holds one matcher at a time: once a matcher has been created, every
  further creation is refused as a duplicate, whatever its pattern, and nothing changes.
\<close>

theorem single_matcher_per_table:
  assumes "create_matcher (fe_MAT_ops api crit fe) wc prio out t w = Inr ((NICC_SUCCESS, out'), t', w')"
  shows "create_matcher ops wc2 prio2 out2 t' v = Inr ((NICC_ERROR_DUPLICATED, out2), t', v)"
proof -
  obtain m where m: "match_wc m = \<lparr>masks = zero_flow\<rparr>"
      and t': "t' = t\<lparr>entry_map := mm_insert m [] (entry_map t)\<rparr>"
    using assms fe_create_matcher_wc [of api crit fe wc prio out w]
    by (fastforce simp: create_matcher_def fe_MAT_ops_def bind_run_eq_Inr split: if_splits option.splits)
  have "same_key (new_FlowMatcher wc2) m" using m by (simp add: same_key_iff)
  then have "mm_find (new_FlowMatcher wc2) (entry_map t') \<noteq> None"
    using mm_find_insert [of m "[]" "entry_map t"] mm_find_same_key t' by simp
  then show ?thesis by (simp add: create_matcher_def)
qed

text \<open>A device that grants every request, numbering the objects.\<close>

definition counting_dr :: "nat dr_api" where
  "counting_dr = \<lparr>dr_calloc = (\<lambda>w. True), dr_match_param_size = 512,
     dr_table_create = (\<lambda>d l w. (Some w, Suc w)), dr_table_destroy = (\<lambda>t w. w),
     dr_matcher_create = (\<lambda>t p c ps w. (Some w, Suc w)), dr_matcher_destroy = (\<lambda>m w. w)\<rparr>"

definition fe_table_5 :: FlowMAT_FlowEngine where
  "fe_table_5 = FlowMAT.extend new_FlowMAT (FlowMAT_FlowEngine.fields (Some 1) (Some 5) 0)"

lemma single_matcher_per_table_witness:
  "create_matcher (fe_MAT_ops counting_dr 0 fe_table_5) \<lparr>masks = zero_flow\<lparr>tp_dst := 9\<rparr>\<rparr> 2 None
     (new_FlowMAT\<lparr>entry_map := mm_insert (new_FlowMatcher \<lparr>masks = zero_flow\<rparr>) [] []\<rparr>) (6 :: nat)
   = Inr ((NICC_ERROR_DUPLICATED, None),
          new_FlowMAT\<lparr>entry_map := mm_insert (new_FlowMatcher \<lparr>masks = zero_flow\<rparr>) [] []\<rparr>, 6)"
  by (rule single_matcher_per_table
        [where api = counting_dr and crit = 0 and fe = fe_table_5 and wc = "\<lparr>masks = zero_flow\<rparr>"
           and prio = 1 and out = None and t = new_FlowMAT and w = 5
           and out' = "Some (new_FlowMatcher \<lparr>masks = zero_flow\<rparr>)" and w' = 6])
    (simp add: create_matcher_def fe_MAT_ops_def new_FlowMAT_def fe_create_matcher_def fe_table_5_def
      FlowMAT.defs FlowMAT_FlowEngine.defs counting_dr_def convert_flow_wildcard_def Let_def
      new_FlowMatcher_FlowEngine_def create_dr_matcher_def FlowMatcher.defs
      FlowMatcher_FlowEngine.defs new_FlowMatcher_def)

subsection \<open>Loading and unloading entries\<close>

lemma load_loop_spec:
  assumes "\<And>i. i < n \<Longrightarrow> mem (e + i) \<noteq> None"
  shows "\<exists>mem'. load_loop n e es mem = Inr (es @ [e..<e + n], mem')
    \<and> (\<forall>i. mem' i = (if e \<le> i \<and> i < e + n
          then map_option (\<lambda>en. en\<lparr>entry_hash := flow_hash_cal (entry_match en) (entry_action en)\<rparr>) (mem i)
          else mem i))"
  using assms
proof (induction n arbitrary: e es mem)
  case 0
  then show ?case by auto
next
  case (Suc n)
  obtain en where en: "mem e = Some en" using Suc.prems [of 0] by auto
  let ?mem = "mem(e \<mapsto> en\<lparr>entry_hash := flow_hash_cal (entry_match en) (entry_action en)\<rparr>)"
  have "?mem (Suc e + i) \<noteq> None" if "i < n" for i using Suc.prems [of "Suc i"] that by simp
  then obtain mem' where "load_loop n (Suc e) (es @ [e]) ?mem = Inr ((es @ [e]) @ [Suc e..<Suc e + n], mem')"
      and "\<forall>i. mem' i = (if Suc e \<le> i \<and> i < Suc e + n
          then map_option (\<lambda>en. en\<lparr>entry_hash := flow_hash_cal (entry_match en) (entry_action en)\<rparr>) (?mem i)
          else ?mem i)"
    using Suc.IH [of ?mem "Suc e" "es @ [e]"] by blast
  then show ?case using en by (auto simp: upt_conv_Cons)
qed

lemma unload_loop_filter: "unload_loop n e es = filter (\<lambda>p. p < e \<or> e + n \<le> p) es"
  by (induction n e es rule: unload_loop.induct) (auto intro!: filter_cong filter_True [symmetric])

lemma mm_update_update: "mm_update k v (mm_update k u xs) = mm_update k v xs"
  by (induction xs) (auto simp: mm_update_def)

lemma mm_update_find_id:
  "mm_find k xs = Some v \<Longrightarrow> sorted_wrt matcher_less (map fst xs) \<Longrightarrow> mm_update k v xs = xs"
proof (induction k xs rule: mm_find.induct)
  case (2 k k' v' xs)
  have "\<not> same_key k a" if "same_key k k'" "(a, b) \<in> set xs" for a b
    using 2 that
    by (force simp: same_key_iff matcher_less_def wildcards_less_def flow_less_def)
  then have "same_key k k' \<Longrightarrow> mm_update k v xs = xs"
    by (auto simp: mm_update_def intro!: map_idI)
  with 2 show ?case by (auto simp: mm_update_def split: if_splits)
qed simp

text \<open>
  C29. Loading an array of entries that are not yet in the matcher's list appends exactly their
  addresses in array order and writes each entry's hash; unloading the same array gives the
  table as it was.
\<close>

theorem load_unload_entries:
  fixes ops :: "'w FlowMAT_ops"
  assumes "sorted_wrt matcher_less (map fst (entry_map t))"
    and "mm_find m (entry_map t) = Some es"
    and "\<And>i. i < unat len \<Longrightarrow> mem (e + i) \<noteq> None"
    and "\<And>i. i < unat len \<Longrightarrow> e + i \<notin> set es"
    and "op_load_entries ops m e len w = (NICC_SUCCESS, w1)"
    and "op_unload_entries ops m e len w1 = (NICC_SUCCESS, w2)"
  shows "\<exists>t' mem'. load_entries ops m (Some e) len t mem w = Inr (NICC_SUCCESS, t', mem', w1)
    \<and> mm_find m (entry_map t') = Some (es @ [e..<e + unat len])
    \<and> (\<forall>i. e \<le> i \<and> i < e + unat len \<longrightarrow> (\<exists>en. mem i = Some en
          \<and> mem' i = Some (en\<lparr>entry_hash := flow_hash_cal (entry_match en) (entry_action en)\<rparr>)))
    \<and> unload_entries ops m (Some e) len t' w1 = Inr (NICC_SUCCESS, t, w2)"
proof -
  obtain mem' where l: "load_loop (unat len) e es mem = Inr (es @ [e..<e + unat len], mem')"
      and m': "\<forall>i. mem' i = (if e \<le> i \<and> i < e + unat len
          then map_option (\<lambda>en. en\<lparr>entry_hash := flow_hash_cal (entry_match en) (entry_action en)\<rparr>) (mem i)
          else mem i)"
    using load_loop_spec [of "unat len" mem e es] assms(3) by blast
  have old: "filter (\<lambda>p. p < e \<or> e + unat len \<le> p) es = es"
    using assms(4) by (auto simp: filter_id_conv) (metis le_add_diff_inverse less_diff_conv2 not_le add.commute)
  have "\<exists>en. mem i = Some en
      \<and> mem' i = Some (en\<lparr>entry_hash := flow_hash_cal (entry_match en) (entry_action en)\<rparr>)"
    if i: "e \<le> i" "i < e + unat len" for i
  proof -
    have "i - e < unat len" using i by linarith
    then obtain en where "mem i = Some en" using assms(3) [of "i - e"] i by auto
    with i m' show ?thesis by simp
  qed
  moreover have "unload_loop (unat len) e (es @ [e..<e + unat len]) = es"
    using old by (auto simp: unload_loop_filter)
  ultimately show ?thesis
    using assms(1,2,5,6) l mm_find_update [of m "entry_map t"]
    by (auto simp: load_entries_def unload_entries_def mm_update_update mm_update_find_id)
qed

definition entry_a :: flow_entry_t where
  "entry_a = \<lparr>entry_match = \<lparr>match_flow = zero_flow, wildcards = \<lparr>masks = zero_flow\<rparr>\<rparr>,
     entry_action = \<lparr>act_type = NICC_ACT_DROP\<rparr>, entry_hash = 0\<rparr>"

lemma load_unload_entries_witness:
  "\<exists>t' mem'. unload_entries (fe_MAT_ops counting_dr 0 fe_table_5) (new_FlowMatcher \<lparr>masks = zero_flow\<rparr>)
      (Some 40) 2 t' (6 :: nat)
    = Inr (NICC_SUCCESS, \<lparr>entry_map = [(new_FlowMatcher \<lparr>masks = zero_flow\<rparr>, [7])]\<rparr>, 6)
    \<and> mm_find (new_FlowMatcher \<lparr>masks = zero_flow\<rparr>) (entry_map t') = Some [7, 40, 41]
    \<and> load_entries (fe_MAT_ops counting_dr 0 fe_table_5) (new_FlowMatcher \<lparr>masks = zero_flow\<rparr>)
      (Some 40) 2 \<lparr>entry_map = [(new_FlowMatcher \<lparr>masks = zero_flow\<rparr>, [7])]\<rparr>
      [40 \<mapsto> entry_a, 41 \<mapsto> entry_a] 6 = Inr (NICC_SUCCESS, t', mem', 6)"
proof -
  have u: "[40..<40 + unat (2 :: u64)] = [40, 41]" by (simp add: upt_rec)
  have m: "[40 \<mapsto> entry_a, 41 \<mapsto> entry_a] (40 + i) \<noteq> None" if "i < unat (2 :: u64)" for i
    using that by (auto simp: less_2_cases_iff)
  have ops: "op_load_entries (fe_MAT_ops counting_dr 0 fe_table_5) k e n w = (NICC_SUCCESS, w)"
    "op_unload_entries (fe_MAT_ops counting_dr 0 fe_table_5) k e n w = (NICC_SUCCESS, w)" for k e n w
    by (simp_all add: fe_MAT_ops_def)
  show ?thesis
    using load_unload_entries [of "\<lparr>entry_map = [(new_FlowMatcher \<lparr>masks = zero_flow\<rparr>, [7])]\<rparr>"
        "new_FlowMatcher \<lparr>masks = zero_flow\<rparr>" "[7]" 2 "[40 \<mapsto> entry_a, 41 \<mapsto> entry_a]" 40
        "fe_MAT_ops counting_dr 0 fe_table_5" 6 6 6, OF _ _ m _ ops] u
    by fastforce
qed

subsection \<open>Tables of a domain\<close>

lemma multimap_insert_sorted:
  "sorted (map fst xs) \<Longrightarrow> sorted (map fst (multimap_insert k v xs))"
proof (induction k v xs rule: multimap_insert.induct)
  case (2 k v k' v' xs)
  have "fst ` set (multimap_insert k v xs) = insert k (fst ` set xs)"
    by (induction k v xs rule: multimap_insert.induct) auto
  with 2 show ?case by auto
qed simp

lemma destory_loop_insert:
  assumes "Some p \<notin> snd ` set xs" "\<And>l w. op_detory_table ops l p w = (NICC_SUCCESS, w)"
  shows "destory_loop ops p (multimap_insert level (Some p) xs) w = (NICC_SUCCESS, xs, w)"
  using assms by (induction level "Some p" xs rule: multimap_insert.induct) auto

text \<open>
  C30. With a domain, creating a table on the flow engine succeeds whatever the device answers,
  keeps the chain sorted by level, and destroying the new table restores the chain; the
  device table it stands for is not released.
\<close>

theorem table_create_destory:
  assumes "sorted (map fst (table_map d))" "Some (fe_next w) \<notin> snd ` set (table_map d)"
  shows "\<exists>d' w'. create_table (fe_Domain_ops api (Some fdb)) level out d w
      = Inr ((NICC_SUCCESS, Some (fe_next w)), d', w')
    \<and> sorted (map fst (table_map d')) \<and> (level, Some (fe_next w)) \<in> set (table_map d')
    \<and> destory_table (fe_Domain_ops api (Some fdb)) (Some (fe_next w)) d' w' = Inr (NICC_SUCCESS, d, w')
    \<and> fe_dev w' = snd (dr_table_create api fdb level (fe_dev w))"
proof -
  have "(k, v) \<in> set (multimap_insert k v xs)" for k and v :: ptr and xs
    by (induction k v xs rule: multimap_insert.induct) auto
  then show ?thesis
    using assms multimap_insert_sorted
    by (auto simp: create_table_def destory_table_def fe_Domain_ops_def fe_create_table_def
        new_FlowMAT_FlowEngine_def create_dr_table_def FlowMAT.defs FlowMAT_FlowEngine.defs
        new_FlowMAT_def destory_loop_insert Let_def split: prod.splits)
qed

lemma table_create_destory_witness:
  "\<exists>d' w'. create_table (fe_Domain_ops counting_dr (Some 1)) 3 None \<lparr>table_map = [(5, Some 0)]\<rparr>
      \<lparr>fe_tables = Map.empty, fe_next = 2, fe_dev = 9\<rparr> = Inr ((NICC_SUCCESS, Some 2), d', w')
    \<and> destory_table (fe_Domain_ops counting_dr (Some 1)) (Some 2) d' w'
      = Inr (NICC_SUCCESS, \<lparr>table_map = [(5, Some 0)]\<rparr>, w')"
  using table_create_destory [of "\<lparr>table_map = [(5, Some 0)]\<rparr>"
      "\<lparr>fe_tables = Map.empty, fe_next = 2, fe_dev = 9\<rparr>" counting_dr 1 3 None]
  by auto

subsection \<open>No leak in \<open>__create_flow_table\<close>\<close>

text \<open>
  The documented behaviour of the driver: \<open>live\<close> reads off the objects that exist; creation
  adds the object it returns, or nothing when it fails; destruction of a live object removes it.
\<close>

definition dr_laws :: "'w dr_api \<Rightarrow> ('w \<Rightarrow> nat set) \<Rightarrow> bool" where
  "dr_laws api live \<longleftrightarrow>
     (\<forall>d l w t w'. dr_table_create api d l w = (t, w') \<longrightarrow> (case t of
        None \<Rightarrow> live w' = live w
      | Some x \<Rightarrow> x \<notin> live w \<and> live w' = insert x (live w))) \<and>
     (\<forall>t p c m w r w'. dr_matcher_create api t p c m w = (r, w') \<longrightarrow> (case r of
        None \<Rightarrow> live w' = live w
      | Some x \<Rightarrow> x \<notin> live w \<and> live w' = insert x (live w))) \<and>
     (\<forall>t w. live (dr_table_destroy api t w) = live w - {t}) \<and>
     (\<forall>m w. live (dr_matcher_destroy api m w) = live w - {m})"

lemma dr_laws_table:
  "dr_laws api live \<Longrightarrow> dr_table_create api d l w = (t, w') \<Longrightarrow>
   case t of None \<Rightarrow> live w' = live w | Some x \<Rightarrow> x \<notin> live w \<and> live w' = insert x (live w)"
  unfolding dr_laws_def by (elim conjE) metis

lemma dr_laws_matcher:
  "dr_laws api live \<Longrightarrow> dr_matcher_create api t p c m w = (r, w') \<Longrightarrow>
   case r of None \<Rightarrow> live w' = live w | Some x \<Rightarrow> x \<notin> live w \<and> live w' = insert x (live w)"
  unfolding dr_laws_def by (elim conjE) metis

lemma dr_laws_table_destroy: "dr_laws api live \<Longrightarrow> live (dr_table_destroy api t w) = live w - {t}"
  by (simp add: dr_laws_def)

text \<open>
  C31. \<open>__create_flow_table\<close> leaves nothing behind on the device when it fails, on any of its
  error paths, and on success exactly one new table and one new matcher, which it returns.
\<close>

theorem create_flow_table_no_leak:
  assumes "dr_laws api live" and "create_flow_table api fdb level priority mm w = ((err, out), w')"
  shows "(err \<noteq> DOCA_SUCCESS \<longrightarrow> out = None \<and> live w' = live w)
    \<and> (err = DOCA_SUCCESS \<longrightarrow> (\<exists>t x. out = Some \<lparr>dr_table = Some t, ft_matcher = Some x\<rparr>
          \<and> t \<notin> live w \<and> x \<notin> live w \<and> t \<noteq> x \<and> live w' = {t, x} \<union> live w))"
proof (cases "dr_calloc api w")
  case False
  with assms(2) show ?thesis by (auto simp: create_flow_table_def)
next
  case True
  obtain t w1 where t: "dr_table_create api fdb level w = (t, w1)" by force
  show ?thesis
  proof (cases t)
    case None
    then show ?thesis
      using True t assms(2) dr_laws_table [OF assms(1) t]
      by (auto simp: create_flow_table_def flow_table_error_def)
  next
    case (Some tt)
    obtain x w2 where x: "dr_matcher_create api tt priority 1 mm w1 = (x, w2)" by force
    note lt = dr_laws_table [OF assms(1) t] and lx = dr_laws_matcher [OF assms(1) x]
      and destroy = dr_laws_table_destroy [OF assms(1)]
    show ?thesis
      using True t Some x lt lx destroy assms(2)
      by (auto simp: create_flow_table_def flow_table_error_def split: option.splits)
  qed
qed

text \<open>A device that keeps its live objects and refuses matchers of negative priority.\<close>

definition set_dr :: "(nat \<times> nat list) dr_api" where
  "set_dr = \<lparr>dr_calloc = (\<lambda>w. True), dr_match_param_size = 512,
     dr_table_create = (\<lambda>d l (n, xs). (Some (Suc (Max (set (n # xs)))), n, Suc (Max (set (n # xs))) # xs)),
     dr_table_destroy = (\<lambda>t (n, xs). (n, filter (\<lambda>x. x \<noteq> t) xs)),
     dr_matcher_create = (\<lambda>t p c ps (n, xs). if p < 0 then (None, n, xs)
       else (Some (Suc (Max (set (n # xs)))), n, Suc (Max (set (n # xs))) # xs)),
     dr_matcher_destroy = (\<lambda>m (n, xs). (n, filter (\<lambda>x. x \<noteq> m) xs))\<rparr>"

lemma set_dr_laws: "dr_laws set_dr (\<lambda>(n, xs). set xs)"
proof -
  have "Suc (Max (insert n (set xs))) \<notin> set xs" for n xs
    by (metis List.finite_set Max_ge Suc_n_not_le_n finite_insert insertCI)
  then show ?thesis by (auto simp: dr_laws_def set_dr_def)
qed

lemma create_flow_table_no_leak_witness:
  "create_flow_table set_dr 1 0 (- 1) None (0, [4]) = ((DOCA_ERROR_DRIVER, None), (0, [4]))
   \<and> (\<lambda>(n, xs). set xs) (0 :: nat, [4]) = {4 :: nat}"
proof -
  have e: "create_flow_table set_dr 1 0 (- 1) None (0, [4]) = ((DOCA_ERROR_DRIVER, None), (0, [4]))"
    by (simp add: create_flow_table_def set_dr_def flow_table_error_def)
  from create_flow_table_no_leak [OF set_dr_laws e] e show ?thesis by simp
qed

end
