(* ===== verification/DpaChannel.thy ===== *)
theory DpaChannel
  imports DpaMemory
begin

text \<open>
  The class \<open>Channel_DPA\<close> (\<open>runtime/include/datapath/channel_impl/dpa_channel.h\<close>,
  \<open>runtime/src/datapath/channel_impl/dpa_channel.cc\<close>): completion queues, Ethernet queues and
  RDMA queue pairs on the device, the connection of a queue pair to a host, and the release of
  a channel.
\<close>

unbundle bit_operations_syntax

record flexio_queues_handler =
  h_mode :: u8
  flexio_rq_cq_ptr :: ptr
  flexio_sq_cq_ptr :: ptr
  flexio_rq_ptr :: ptr
  flexio_sq_ptr :: ptr
  flexio_qp_ptr :: ptr
  sqd_mkey :: ptr
  rqd_mkey :: ptr
  qpd_mkey :: ptr
  qpd_mr_lkey :: "u32 option"
  qpd_mbuf_start_addr :: u64
  rdma_rq_pi :: u64

text \<open>One side of a channel: the descriptors on the host and the driver handles.\<close>

record dpa_side =
  dev_queues :: dpa_data_queues
  fx_handler :: flexio_queues_handler
  qp_info :: QPInfo
  dev_metadata :: u64

record Channel_DPA = Channel_base +
  side_prior :: dpa_side
  side_next :: dpa_side
  ch_process :: ptr
  ch_resolve :: IBResolve
  remote_mac_addr :: "u8 list"
  remote_gid :: "u8 list"

text \<open>
  The constructor zeroes the descriptors. The handles, the connection records and the metadata
  addresses keep the indeterminate values of the memory they are in (\<open>junk\<close>).
\<close>

definition new_Channel_DPA :: "channel_typeid_t \<Rightarrow> channel_mode_t \<Rightarrow> channel_typeid_t \<Rightarrow> channel_mode_t
    \<Rightarrow> Channel_DPA \<Rightarrow> Channel_DPA" where
  "new_Channel_DPA tp mp tn mn junk = junk\<lparr>typeid_of_prior := tp, mode_of_prior := mp,
     typeid_of_next := tn, mode_of_next := mn, ch_state := kChannel_State_Uninit,
     side_prior := (side_prior junk)\<lparr>dev_queues := zero_queues,
       fx_handler := (fx_handler (side_prior junk))\<lparr>rdma_rq_pi := 0\<rparr>\<rparr>,
     side_next := (side_next junk)\<lparr>dev_queues := zero_queues,
       fx_handler := (fx_handler (side_next junk))\<lparr>rdma_rq_pi := 0\<rparr>\<rparr>,
     remote_gid := replicate 16 0\<rparr>"

definition get_flexio_rq_ptr :: "bool \<Rightarrow> Channel_DPA \<Rightarrow> ptr" where
  "get_flexio_rq_ptr is_prior c =
     (if is_prior then flexio_rq_ptr (fx_handler (side_prior c)) else flexio_rq_ptr (fx_handler (side_next c)))"

definition the_side :: "bool \<Rightarrow> Channel_DPA \<Rightarrow> dpa_side" where
  "the_side is_prior c = (if is_prior then side_prior c else side_next c)"

definition set_side :: "bool \<Rightarrow> dpa_side \<Rightarrow> Channel_DPA \<Rightarrow> Channel_DPA" where
  "set_side is_prior s c = (if is_prior then c\<lparr>side_prior := s\<rparr> else c\<lparr>side_next := s\<rparr>)"

text \<open>An operation on one side, as an operation on the channel.\<close>

definition on_side :: "bool \<Rightarrow> (dpa_side \<times> 'w) operation \<Rightarrow> (Channel_DPA \<times> 'w) operation" where
  "on_side is_prior f s = (case s of (c, w) \<Rightarrow>
     bind_run (f (the_side is_prior c, w)) (\<lambda>(r, sd, w'). Inr (r, (set_side is_prior sd c, w'))))"

abbreviation upd_queues :: "(dpa_data_queues \<Rightarrow> dpa_data_queues) \<Rightarrow> dpa_side \<Rightarrow> dpa_side" where
  "upd_queues f sd \<equiv> sd\<lparr>dev_queues := f (dev_queues sd)\<rparr>"

abbreviation upd_handler :: "(flexio_queues_handler \<Rightarrow> flexio_queues_handler) \<Rightarrow> dpa_side \<Rightarrow> dpa_side" where
  "upd_handler f sd \<equiv> sd\<lparr>fx_handler := f (fx_handler sd)\<rparr>"

text \<open>An operation on a part of a side.\<close>

definition on_part :: "(dpa_side \<Rightarrow> 'p) \<Rightarrow> ('p \<Rightarrow> dpa_side \<Rightarrow> dpa_side) \<Rightarrow> ('p \<times> 'w) operation
    \<Rightarrow> (dpa_side \<times> 'w) operation" where
  "on_part get put f s = (case s of (sd, w) \<Rightarrow>
     bind_run (f (get sd, w)) (\<lambda>(r, p, w'). Inr (r, (put p sd, w'))))"

abbreviation "on_sq_cq \<equiv> on_part (sq_cq_data \<circ> dev_queues) (\<lambda>x. upd_queues (sq_cq_data_update (\<lambda>_. x)))"
abbreviation "on_rq_cq \<equiv> on_part (rq_cq_data \<circ> dev_queues) (\<lambda>x. upd_queues (rq_cq_data_update (\<lambda>_. x)))"
abbreviation "on_sq \<equiv> on_part (sq_data \<circ> dev_queues) (\<lambda>x. upd_queues (sq_data_update (\<lambda>_. x)))"
abbreviation "on_rq \<equiv> on_part (rq_data \<circ> dev_queues) (\<lambda>x. upd_queues (rq_data_update (\<lambda>_. x)))"

abbreviation upd_qp :: "(dpa_qp \<Rightarrow> dpa_qp) \<Rightarrow> dpa_side \<Rightarrow> dpa_side" where
  "upd_qp f \<equiv> upd_queues (qp_data_update f)"

abbreviation "the_qp sd \<equiv> qp_data (dev_queues sd)"

subsection \<open>Completion queues\<close>

definition sq_cq_create :: "'w flexio_api \<Rightarrow> nat \<Rightarrow> nat \<Rightarrow> (dpa_side \<times> 'w) operation" where
  "sq_cq_create api uar process s = (case s of (sd, w) \<Rightarrow>
     let cq = sq_cq_data (dev_queues sd);
         attr = \<lparr>ca_log_cq_depth = DPA_LOG_CQ_RING_DEPTH,
                 ca_element_type = FLEXIO_CQ_ELEMENT_TYPE_NON_DPA_CQ,
                 ca_thread = None,
                 ca_uar_id = uar_get_id api uar, ca_cq_dbr_daddr = cq_dbr_daddr cq,
                 ca_cq_ring_daddr = cq_ring_daddr cq\<rparr>;
         ((ok, p), w') = cq_create api process attr (flexio_sq_cq_ptr (fx_handler sd)) w;
         sd = upd_handler (flexio_sq_cq_ptr_update (\<lambda>_. p)) sd
     in if \<not> ok then Inr (NICC_ERROR_HARDWARE_FAILURE, (sd, w'))
        else Inr (NICC_SUCCESS, (upd_queues (sq_cq_data_update (\<lambda>q.
               q\<lparr>cq_num := cq_get_cq_num api p, log_cq_depth := of_nat DPA_LOG_CQ_RING_DEPTH\<rparr>)) sd, w')))"

definition allocate_sq_cq :: "'w flexio_api \<Rightarrow> nat \<Rightarrow> nat \<Rightarrow> (dpa_side \<times> 'w) operation" where
  "allocate_sq_cq api uar process = and_then
     (on_sq_cq (allocate_cq_memory api process DPA_LOG_CQ_RING_DEPTH))
     (sq_cq_create api uar process)"

definition rq_cq_create :: "'w flexio_api \<Rightarrow> nat \<Rightarrow> nat \<Rightarrow> nat \<Rightarrow> (dpa_side \<times> 'w) operation" where
  "rq_cq_create api uar process event_handler s = (case s of (sd, w) \<Rightarrow>
     let cq = rq_cq_data (dev_queues sd);
         attr = \<lparr>ca_log_cq_depth = DPA_LOG_CQ_RING_DEPTH,
                 ca_element_type = FLEXIO_CQ_ELEMENT_TYPE_DPA_THREAD,
                 ca_thread = event_handler_get_thread api event_handler,
                 ca_uar_id = uar_get_id api uar, ca_cq_dbr_daddr = cq_dbr_daddr cq,
                 ca_cq_ring_daddr = cq_ring_daddr cq\<rparr>;
         ((ok, p), w') = cq_create api process attr (flexio_rq_cq_ptr (fx_handler sd)) w;
         sd = upd_handler (flexio_rq_cq_ptr_update (\<lambda>_. p)) sd
     in if \<not> ok then Inr (NICC_ERROR_HARDWARE_FAILURE, (sd, w'))
        else Inr (NICC_SUCCESS, (upd_queues (rq_cq_data_update (\<lambda>q.
               q\<lparr>cq_num := cq_get_cq_num api p, log_cq_depth := of_nat DPA_LOG_RQ_RING_DEPTH\<rparr>)) sd, w')))"

definition allocate_rq_cq :: "'w flexio_api \<Rightarrow> nat \<Rightarrow> nat \<Rightarrow> nat \<Rightarrow> (dpa_side \<times> 'w) operation" where
  "allocate_rq_cq api uar process event_handler = and_then
     (on_rq_cq (allocate_cq_memory api process DPA_LOG_CQ_RING_DEPTH))
     (rq_cq_create api uar process event_handler)"

text \<open>Destroying the driver object of a handle, if there is one, and clearing the handle.\<close>

definition destroy_handle :: "(flexio_queues_handler \<Rightarrow> ptr) \<Rightarrow> (flexio_queues_handler \<Rightarrow> flexio_queues_handler)
    \<Rightarrow> (nat \<Rightarrow> 'w \<Rightarrow> bool \<times> 'w) \<Rightarrow> (dpa_side \<times> 'w) operation" where
  "destroy_handle handle clear destroy s = (case s of (sd, w) \<Rightarrow>
     (case handle (fx_handler sd) of
        None \<Rightarrow> Inr (NICC_SUCCESS, (sd, w))
      | Some p \<Rightarrow> let (ok, w') = destroy p w
                  in if \<not> ok then Inr (NICC_ERROR_HARDWARE_FAILURE, (sd, w'))
                     else Inr (NICC_SUCCESS, (upd_handler clear sd, w'))))"

definition deallocate_sq_cq :: "'w flexio_api \<Rightarrow> nat \<Rightarrow> (dpa_side \<times> 'w) operation" where
  "deallocate_sq_cq api process = and_then
     (destroy_handle flexio_sq_cq_ptr (flexio_sq_cq_ptr_update (\<lambda>_. None)) (cq_destroy api))
     (\<lambda>s. bind_run (on_sq_cq (deallocate_cq_memory api process) s) (\<lambda>(r, s').
        Inr (if r \<noteq> NICC_SUCCESS then NICC_ERROR_HARDWARE_FAILURE else r, s')))"

definition deallocate_rq_cq :: "'w flexio_api \<Rightarrow> nat \<Rightarrow> (dpa_side \<times> 'w) operation" where
  "deallocate_rq_cq api process = and_then
     (destroy_handle flexio_rq_cq_ptr (flexio_rq_cq_ptr_update (\<lambda>_. None)) (cq_destroy api))
     (on_rq_cq (deallocate_cq_memory api process))"

subsection \<open>Queue pairs\<close>

definition create_dpa_mkey :: "'w flexio_api \<Rightarrow> nat \<Rightarrow> nat \<Rightarrow> u64 \<Rightarrow> nat \<Rightarrow> ibv_access set
    \<Rightarrow> (ptr \<times> 'w) operation" where
  "create_dpa_mkey api process pd daddr log_bsize acc s = (case s of (mkey, w) \<Rightarrow>
     bind_run (assert_run (daddr \<noteq> 0)) (\<lambda>_.
       let ((ok, p), w') = mkey_create api process
             \<lparr>mk_pd = pd, mk_daddr = daddr, mk_len = LOG2VALUE log_bsize, mk_access = acc\<rparr> mkey w
       in Inr (hw_status ok, (p, w'))))"

text \<open>
  The receive descriptors: the length and the stride are the constant
  \<open>DPA_LOG_WQ_DATA_ENTRY_BSIZE\<close> itself, the size of the copy is that of 64-byte entries.
  The array on the host has room for 64 bytes per entry, and the 16-byte segments are written
  next to each other: what follows them in the copy is zero.
\<close>

fun rq_wqes :: "nat \<Rightarrow> u32 \<Rightarrow> u64 \<Rightarrow> wqe_data_seg list" where
  "rq_wqes 0 lkey daddr = []"
| "rq_wqes (Suc n) lkey daddr =
     \<lparr>seg_byte_count = of_nat DPA_LOG_WQ_DATA_ENTRY_BSIZE, seg_lkey = lkey, seg_addr = daddr\<rparr>
     # rq_wqes n lkey (daddr + of_nat DPA_LOG_WQ_DATA_ENTRY_BSIZE)"

definition init_rq_ring_wqes :: "'w flexio_api \<Rightarrow> nat \<Rightarrow> u64 \<Rightarrow> nat \<Rightarrow> u64 \<Rightarrow> u32 \<Rightarrow> 'w operation" where
  "init_rq_ring_wqes api process rq_ring_daddr log_depth data_daddr mkey_id w =
     bind_run (assert_run (rq_ring_daddr \<noteq> 0)) (\<lambda>_.
     bind_run (assert_run (data_daddr \<noteq> 0)) (\<lambda>_.
     bind_run (assert_run (host_calloc api w)) (\<lambda>_.
       let (ok, w') = host2dev_memcpy api process (Wqes (rq_wqes (2 ^ log_depth) mkey_id data_daddr))
                        (LOG2VALUE (log_depth + DPA_LOG_WQE_BSIZE)) rq_ring_daddr w
       in Inr (hw_status ok, w'))))"

definition allocate_qp_memory :: "'w flexio_api \<Rightarrow> nat \<Rightarrow> nat \<Rightarrow> nat \<Rightarrow> u64 \<Rightarrow> (dpa_side \<times> 'w) operation" where
  "allocate_qp_memory api process log_sq_depth log_rq_depth wqe_size s =
     bind_run (assert_run (wqe_size > 0 \<and> wqe_size mod 2 = 0)) (\<lambda>_. and_then
     (\<lambda>(sd, w).
        let ((ok, a), w') = buf_dev_alloc api process
              ((LOG2VALUE log_sq_depth + LOG2VALUE log_rq_depth) * LOG2VALUE DPA_LOG_WQ_DATA_ENTRY_BSIZE)
              (qpd_mbuf_start_addr (fx_handler sd)) w
        in Inr (hw_status ok, (upd_handler (qpd_mbuf_start_addr_update (\<lambda>_. a)) sd, w')))
     (\<lambda>(sd, w).
        let rq_bsize = LOG2VALUE log_rq_depth * wqe_size;
            sq_bsize = LOG2VALUE log_sq_depth * wqe_size;
            ((ok, a), w') = buf_dev_alloc api process (rq_bsize + sq_bsize) 0 w
        in if \<not> ok then Inr (NICC_ERROR_HARDWARE_FAILURE, (sd, w'))
           else Inr (NICC_SUCCESS, (upd_qp (\<lambda>q. q\<lparr>qp_rq_daddr := a, qp_sq_daddr := a + rq_bsize\<rparr>) sd, w'))) s)"

abbreviation "on_dbr \<equiv> on_part (qp_dbr_daddr \<circ> qp_data \<circ> dev_queues) (\<lambda>a. upd_qp (qp_dbr_daddr_update (\<lambda>_. a)))"
abbreviation "on_qpd_mkey \<equiv> on_part (qpd_mkey \<circ> fx_handler) (\<lambda>p. upd_handler (qpd_mkey_update (\<lambda>_. p)))"
abbreviation "on_sqd_mkey \<equiv> on_part (sqd_mkey \<circ> fx_handler) (\<lambda>p. upd_handler (sqd_mkey_update (\<lambda>_. p)))"
abbreviation "on_rqd_mkey \<equiv> on_part (rqd_mkey \<circ> fx_handler) (\<lambda>p. upd_handler (rqd_mkey_update (\<lambda>_. p)))"

definition on_dev :: "(dpa_side \<Rightarrow> 'w operation) \<Rightarrow> (dpa_side \<times> 'w) operation" where
  "on_dev f s = (case s of (sd, w) \<Rightarrow> bind_run (f sd w) (\<lambda>(r, w'). Inr (r, (sd, w'))))"

definition upd_side :: "(dpa_side \<Rightarrow> dpa_side) \<Rightarrow> (dpa_side \<times> 'w) operation" where
  "upd_side f s = (case s of (sd, w) \<Rightarrow> Inr (NICC_SUCCESS, (f sd, w)))"

text \<open>A failed allocation of the memory is reported as a hardware failure, whatever its value.\<close>

definition rdma_qp_memory :: "'w flexio_api \<Rightarrow> nat \<Rightarrow> (dpa_side \<times> 'w) operation" where
  "rdma_qp_memory api process s =
     bind_run (allocate_qp_memory api process DPA_LOG_SQ_RING_DEPTH DPA_LOG_RQ_RING_DEPTH sizeof_data_seg s)
       (\<lambda>(r, s'). Inr (if r \<noteq> NICC_SUCCESS then NICC_ERROR_HARDWARE_FAILURE else r, s'))"

definition rdma_qp_attr :: "'w flexio_api \<Rightarrow> nat \<Rightarrow> nat \<Rightarrow> dpa_side \<Rightarrow> flexio_qp_attr" where
  "rdma_qp_attr api pd uar sd = \<lparr>
     fa_log_sq_depth = DPA_LOG_SQ_RING_DEPTH, fa_log_rq_depth = DPA_LOG_RQ_RING_DEPTH,
     fa_wq_buff_daddr = qp_rq_daddr (the_qp sd), fa_wq_dbr_daddr = qp_dbr_daddr (the_qp sd),
     fa_uar_id = uar_get_id api uar, fa_rq_cqn = cq_num (rq_cq_data (dev_queues sd)),
     fa_sq_cqn = cq_num (sq_cq_data (dev_queues sd)), fa_pd = pd,
     fa_access = {ACC_LOCAL_WRITE, ACC_REMOTE_WRITE}\<rparr>"

definition rdma_qp_create :: "'w flexio_api \<Rightarrow> nat \<Rightarrow> nat \<Rightarrow> nat \<Rightarrow> (dpa_side \<times> 'w) operation" where
  "rdma_qp_create api pd uar process s = (case s of (sd, w) \<Rightarrow>
     let ((ok, p), w') = qp_create api process (rdma_qp_attr api pd uar sd) (flexio_qp_ptr (fx_handler sd)) w;
         sd = upd_handler (flexio_qp_ptr_update (\<lambda>_. p)) sd
     in if \<not> ok then Inr (NICC_ERROR_HARDWARE_FAILURE, (sd, w'))
        else Inr (NICC_SUCCESS, (upd_qp (\<lambda>q. q\<lparr>qp_num := qp_get_qp_num api p,
               log_qp_sq_depth := of_nat DPA_LOG_SQ_RING_DEPTH,
               log_qp_rq_depth := of_nat DPA_LOG_RQ_RING_DEPTH\<rparr>) sd, w')))"

definition create_rdma_qp :: "'w flexio_api \<Rightarrow> nat \<Rightarrow> nat \<Rightarrow> nat \<Rightarrow> (dpa_side \<times> 'w) operation" where
  "create_rdma_qp api pd uar process =
     and_then (on_dbr (allocate_dbr api process))
    (and_then (rdma_qp_memory api process)
    (and_then (upd_side (\<lambda>sd. upd_qp (qpd_daddr_update (\<lambda>_. qpd_mbuf_start_addr (fx_handler sd))) sd))
    (and_then (\<lambda>(sd, w). on_qpd_mkey (create_dpa_mkey api process pd (qpd_mbuf_start_addr (fx_handler sd))
                 (DPA_LOG_SQ_RING_DEPTH + 1 + DPA_LOG_WQ_DATA_ENTRY_BSIZE)
                 {ACC_LOCAL_WRITE, ACC_REMOTE_WRITE, ACC_REMOTE_READ, ACC_RELAXED_ORDERING}) (sd, w))
    (and_then (upd_side (\<lambda>sd. let id = mkey_get_id api (qpd_mkey (fx_handler sd))
                 in upd_handler (qpd_mr_lkey_update (\<lambda>_. Some id))
                      (upd_qp (\<lambda>q. q\<lparr>qpd_mkey_id := id, qpd_lkey := ucast id\<rparr>) sd)))
    (and_then (on_dev (\<lambda>sd. init_rq_ring_wqes api process (qp_rq_daddr (the_qp sd)) DPA_LOG_RQ_RING_DEPTH
                 (qpd_daddr (the_qp sd)) (qpd_mkey_id (the_qp sd))))
    (rdma_qp_create api pd uar process))))))"

definition eth_sq_create :: "'w flexio_api \<Rightarrow> nat \<Rightarrow> nat \<Rightarrow> nat \<Rightarrow> (dpa_side \<times> 'w) operation" where
  "eth_sq_create api pd uar process s = (case s of (sd, w) \<Rightarrow>
     let attr = \<lparr>wa_log_wq_depth = DPA_LOG_SQ_RING_DEPTH, wa_uar_id = uar_get_id api uar, wa_pd = pd,
                 wa_ring_daddr = wq_ring_daddr (sq_data (dev_queues sd)), wa_dbr_daddr = 0\<rparr>;
         ((ok, p), w') = sq_create api process (cq_num (sq_cq_data (dev_queues sd))) attr
                           (flexio_sq_ptr (fx_handler sd)) w;
         sd = upd_handler (flexio_sq_ptr_update (\<lambda>_. p)) sd
     in if \<not> ok then Inr (NICC_ERROR_HARDWARE_FAILURE, (sd, w'))
        else Inr (NICC_SUCCESS, (upd_queues (sq_data_update (\<lambda>q. q\<lparr>wq_num := sq_get_wq_num api p\<rparr>)) sd, w')))"

definition eth_rq_create :: "'w flexio_api \<Rightarrow> nat \<Rightarrow> nat \<Rightarrow> (dpa_side \<times> 'w) operation" where
  "eth_rq_create api pd process s = (case s of (sd, w) \<Rightarrow>
     let attr = \<lparr>wa_log_wq_depth = DPA_LOG_RQ_RING_DEPTH, wa_uar_id = 0, wa_pd = pd,
                 wa_ring_daddr = wq_ring_daddr (rq_data (dev_queues sd)),
                 wa_dbr_daddr = wq_dbr_daddr (rq_data (dev_queues sd))\<rparr>;
         ((ok, p), w') = rq_create api process (cq_num (rq_cq_data (dev_queues sd))) attr
                           (flexio_rq_ptr (fx_handler sd)) w;
         sd = upd_handler (flexio_rq_ptr_update (\<lambda>_. p)) sd
     in if \<not> ok then Inr (NICC_ERROR_HARDWARE_FAILURE, (sd, w'))
        else Inr (NICC_SUCCESS, (upd_queues (rq_data_update (\<lambda>q. q\<lparr>wq_num := rq_get_wq_num api p\<rparr>)) sd, w')))"

definition create_ethernet_qp :: "'w flexio_api \<Rightarrow> nat \<Rightarrow> nat \<Rightarrow> nat \<Rightarrow> (dpa_side \<times> 'w) operation" where
  "create_ethernet_qp api pd uar process =
     and_then (on_sq (allocate_wq_memory api process DPA_LOG_SQ_RING_DEPTH 64))
    (and_then (eth_sq_create api pd uar process)
    (and_then (\<lambda>(sd, w). on_sqd_mkey (create_dpa_mkey api process pd (wqd_daddr (sq_data (dev_queues sd)))
                 (DPA_LOG_SQ_RING_DEPTH + DPA_LOG_WQ_DATA_ENTRY_BSIZE) {ACC_LOCAL_WRITE}) (sd, w))
    (and_then (upd_side (\<lambda>sd. upd_queues (sq_data_update (\<lambda>q.
                 q\<lparr>wqd_mkey_id := mkey_get_id api (sqd_mkey (fx_handler sd))\<rparr>)) sd))
    (and_then (on_rq (allocate_wq_memory api process DPA_LOG_RQ_RING_DEPTH sizeof_data_seg))
    (and_then (\<lambda>(sd, w). on_rqd_mkey (create_dpa_mkey api process pd (wqd_daddr (rq_data (dev_queues sd)))
                 (DPA_LOG_RQ_RING_DEPTH + DPA_LOG_WQ_DATA_ENTRY_BSIZE) {ACC_LOCAL_WRITE}) (sd, w))
    (and_then (upd_side (\<lambda>sd. upd_queues (rq_data_update (\<lambda>q.
                 q\<lparr>wqd_mkey_id := mkey_get_id api (rqd_mkey (fx_handler sd))\<rparr>)) sd))
    (and_then (on_dev (\<lambda>sd. init_rq_ring_wqes api process (wq_ring_daddr (rq_data (dev_queues sd)))
                 DPA_LOG_RQ_RING_DEPTH (wqd_daddr (rq_data (dev_queues sd)))
                 (wqd_mkey_id (rq_data (dev_queues sd)))))
    (and_then (eth_rq_create api pd process)
    (on_dev (\<lambda>sd w.
       let (ok, w') = host2dev_memcpy api process (Dbr [ucast (LOG2VALUE DPA_LOG_RQ_RING_DEPTH AND 0xffff), 0]) 8
                        (wq_dbr_daddr (rq_data (dev_queues sd))) w
       in Inr (hw_status ok, w')))))))))))"

definition create_qp :: "'w flexio_api \<Rightarrow> nat \<Rightarrow> nat \<Rightarrow> nat \<Rightarrow> channel_typeid_t \<Rightarrow> (dpa_side \<times> 'w) operation" where
  "create_qp api pd uar process type s = (case s of (sd, w) \<Rightarrow> (case type of
       CH_RDMA \<Rightarrow> create_rdma_qp api pd uar process (upd_queues (dq_type_update (\<lambda>_. CH_RDMA)) sd, w)
     | CH_ETHERNET \<Rightarrow> create_ethernet_qp api pd uar process (upd_queues (dq_type_update (\<lambda>_. CH_ETHERNET)) sd, w)
     | _ \<Rightarrow> Inr (NICC_ERROR_NOT_FOUND, (sd, w))))"

definition destroy_qp :: "'w flexio_api \<Rightarrow> nat \<Rightarrow> (dpa_side \<times> 'w) operation" where
  "destroy_qp api process =
     and_then (destroy_handle flexio_sq_ptr (flexio_sq_ptr_update (\<lambda>_. None)) (sq_destroy api))
    (and_then (on_sq (deallocate_wq_memory api process))
    (and_then (destroy_handle flexio_rq_ptr (flexio_rq_ptr_update (\<lambda>_. None)) (rq_destroy api))
    (on_rq (deallocate_wq_memory api process))))"

subsection \<open>Allocating a channel\<close>

definition dpa_kDefaultGIDIndex :: nat where "dpa_kDefaultGIDIndex = 3"

definition set_local_qp_info :: "'w flexio_api \<Rightarrow> IBResolve \<Rightarrow> (dpa_side \<times> 'w) operation" where
  "set_local_qp_info api rs s = (case s of (sd, w) \<Rightarrow>
     bind_run (assert_run (\<not> qi_is_initialized (qp_info sd))) (\<lambda>_. case ib_ctx rs of
       None \<Rightarrow> Inl Bad_Access
     | Some ctx \<Rightarrow> Inr (NICC_SUCCESS, (sd\<lparr>qp_info := (qp_info sd)\<lparr>
         qi_qp_num := qp_num (the_qp sd), qi_lid := port_lid rs, qi_gid := take 16 (rs_gid rs),
         qi_gid_table_index := gid_index rs,
         qi_mtu := ucast (LOG2VALUE DPA_LOG_WQ_DATA_ENTRY_BSIZE),
         qi_hostname := copy_name MAX_HOSTNAME_LEN ''DPA'',
         qi_nic_name := c_str (ib_device_name api ctx),
         qi_mac_addr := take 6 (rs_mac_addr rs), qi_is_initialized := True\<rparr>\<rparr>, w))))"

definition copy_metadata :: "'w flexio_api \<Rightarrow> nat \<Rightarrow> (dpa_side \<times> 'w) operation" where
  "copy_metadata api process s = (case s of (sd, w) \<Rightarrow>
     let ((ok, a), w') = copy_from_host api process (Data_Queues (dev_queues sd)) sizeof_data_queues
                           (dev_metadata sd) w
     in Inr (hw_status ok, (sd\<lparr>dev_metadata := a\<rparr>, w')))"

definition set_info_if_rdma :: "'w flexio_api \<Rightarrow> bool \<Rightarrow> (Channel_DPA \<times> 'w) operation" where
  "set_info_if_rdma api is_prior s = (case s of (c, w) \<Rightarrow>
     if (if is_prior then typeid_of_prior c else typeid_of_next c) = CH_RDMA
     then on_side is_prior (set_local_qp_info api (ch_resolve c)) (c, w)
     else Inr (NICC_SUCCESS, (c, w)))"

definition allocate_queues :: "'w flexio_api \<Rightarrow> nat \<Rightarrow> nat \<Rightarrow> nat \<Rightarrow> nat \<Rightarrow> (Channel_DPA \<times> 'w) operation" where
  "allocate_queues api pd uar process event_handler =
     and_then (on_side True (allocate_sq_cq api uar process))
    (and_then (on_side False (allocate_sq_cq api uar process))
    (and_then (on_side True (allocate_rq_cq api uar process event_handler))
    (and_then (on_side False (allocate_rq_cq api uar process event_handler))
    (and_then (\<lambda>(c, w). on_side True (create_qp api pd uar process (typeid_of_prior c)) (c, w))
    (and_then (\<lambda>(c, w). on_side False (create_qp api pd uar process (typeid_of_next c)) (c, w))
    (and_then (set_info_if_rdma api True)
    (and_then (set_info_if_rdma api False)
    (and_then (on_side True (copy_metadata api process))
    (on_side False (copy_metadata api process))))))))))"

text \<open>The outcome of the port resolution is not looked at.\<close>

definition allocate_channel :: "'w flexio_api \<Rightarrow> 'w port_api \<Rightarrow> ptr \<Rightarrow> ptr \<Rightarrow> ptr \<Rightarrow> ptr \<Rightarrow> ptr \<Rightarrow> string \<Rightarrow> u8
    \<Rightarrow> (Channel_DPA \<times> 'w) operation" where
  "allocate_channel api papi pd uar process event_handler ibv_ctx dev_name phy_port s = (case s of (c, w) \<Rightarrow>
     (case (pd, uar, process, event_handler, ibv_ctx) of
       (Some pd, Some uar, Some process, Some event_handler, Some ibv_ctx) \<Rightarrow>
         bind_run (common_resolve_phy_port papi dev_name phy_port
             (unat (LOG2VALUE DPA_LOG_WQ_DATA_ENTRY_BSIZE)) (ch_resolve c) w) (\<lambda>(rs, w).
         bind_run (roce_resolve_phy_port papi dpa_kDefaultGIDIndex rs w) (\<lambda>(_, rs).
           allocate_queues api pd uar process event_handler
             (c\<lparr>ch_process := Some process, ch_resolve := rs\<rparr>, w)))
     | _ \<Rightarrow> Inl Assert_Failed))"

definition free_metadata :: "'w flexio_api \<Rightarrow> nat \<Rightarrow> (dpa_side \<times> 'w) operation" where
  "free_metadata api process s = (case s of (sd, w) \<Rightarrow>
     if dev_metadata sd \<noteq> 0
     then let (ok, w') = buf_dev_free api process (dev_metadata sd) w
          in Inr (hw_status ok, (sd, w'))
     else Inr (NICC_SUCCESS, (sd, w)))"

definition deallocate_channel :: "'w flexio_api \<Rightarrow> ptr \<Rightarrow> (Channel_DPA \<times> 'w) operation" where
  "deallocate_channel api proc s = (case proc of
       None \<Rightarrow> Inl Assert_Failed
     | Some process \<Rightarrow>
        and_then (on_side True (deallocate_sq_cq api process))
       (and_then (on_side True (deallocate_rq_cq api process))
       (and_then (on_side False (deallocate_sq_cq api process))
       (and_then (on_side False (deallocate_rq_cq api process))
       (and_then (on_side True (destroy_qp api process))
       (and_then (on_side False (destroy_qp api process))
       (and_then (on_side True (free_metadata api process))
       (on_side False (free_metadata api process)))))))) s)"

subsection \<open>Connecting\<close>

fun flexio_path_mtu :: "u64 \<Rightarrow> flexio_mtu option" where
  "flexio_path_mtu n = (if n = 1024 then Some MTU_BYTES_1K else if n = 2048 then Some MTU_BYTES_2K
     else if n = 4096 then Some MTU_BYTES_4K else None)"

definition host_qp_attr :: "QPInfo \<Rightarrow> flexio_qp_state \<Rightarrow> flexio_qp_modify_attr" where
  "host_qp_attr qi st = \<lparr>ma_remote_qp_num = qi_qp_num qi, ma_dest_mac = take 6 (qi_mac_addr qi),
     ma_rgid = take 16 (qi_gid qi), ma_gid_table_index = qi_gid_table_index qi, ma_rlid = qi_lid qi,
     ma_path_mtu = flexio_path_mtu (LOG2VALUE DPA_LOG_WQ_DATA_ENTRY_BSIZE), ma_min_rnr_nak_timer = 1,
     ma_retry_count = 0, ma_udp_sport = 0xc000, ma_access = {ACC_REMOTE_WRITE, ACC_LOCAL_WRITE},
     ma_next_state = st\<rparr>"

definition modify_to :: "'w flexio_api \<Rightarrow> bool \<Rightarrow> QPInfo \<Rightarrow> flexio_qp_state \<Rightarrow> (Channel_DPA \<times> 'w) operation" where
  "modify_to api is_prior qi st s = (case s of (c, w) \<Rightarrow>
     let (ok, w') = qp_modify api (flexio_qp_ptr (fx_handler (the_side is_prior c))) (host_qp_attr qi st) w
     in Inr (hw_status ok, (c, w')))"

definition connect_qp_to_host :: "'w flexio_api \<Rightarrow> bool \<Rightarrow> QPInfo \<Rightarrow> (Channel_DPA \<times> 'w) operation" where
  "connect_qp_to_host api is_prior qi s = (case s of (c, w) \<Rightarrow>
     if \<not> qi_is_initialized qi then Inr (NICC_ERROR_NOT_FOUND, (c, w))
     else and_then (modify_to api is_prior qi QP_STATE_INIT)
         (and_then (modify_to api is_prior qi QP_STATE_RTR)
                   (modify_to api is_prior qi QP_STATE_RTS))
          (c\<lparr>remote_mac_addr := take 6 (qi_mac_addr qi), remote_gid := take 16 (qi_gid qi)\<rparr>, w))"

definition connect_qp_to_component_block :: "(Channel_DPA \<times> 'w) operation" where
  "connect_qp_to_component_block s = Inr (NICC_ERROR_NOT_IMPLEMENTED, s)"

definition fill_recv_queue :: "'w flexio_api \<Rightarrow> bool \<Rightarrow> (Channel_DPA \<times> 'w) operation" where
  "fill_recv_queue api is_prior s = (case s of (c, w) \<Rightarrow> (case ch_process c of
       None \<Rightarrow> Inl Bad_Access
     | Some process \<Rightarrow>
         let (ok, w') = host2dev_memcpy api process (Dbr [ucast (LOG2VALUE DPA_LOG_RQ_RING_DEPTH AND 0xffff)]) 4
                          (qp_dbr_daddr (the_qp (the_side is_prior c))) w
         in Inr (hw_status ok, (c, w'))))"

text \<open>
  \<open>neighbour\<close> is the pointer to the neighbour block, \<open>qi\<close> the connection record of a host.
\<close>

definition connect_qp :: "'w flexio_api \<Rightarrow> bool \<Rightarrow> ptr \<Rightarrow> QPInfo option \<Rightarrow> (Channel_DPA \<times> 'w) operation" where
  "connect_qp api is_prior neighbour qi s = (case s of (c, w) \<Rightarrow>
     if is_connected is_prior (ch_state c) then Inr (NICC_ERROR_DUPLICATED, (c, w))
     else and_then
       (if neighbour \<noteq> None then connect_qp_to_component_block
        else (case qi of
            None \<Rightarrow> (\<lambda>_. Inl Assert_Failed)
          | Some q \<Rightarrow> and_then (connect_qp_to_host api is_prior q) (fill_recv_queue api is_prior)))
       (\<lambda>(c, w). Inr (NICC_SUCCESS, (c\<lparr>ch_state := mark_connected is_prior (ch_state c)\<rparr>, w)))
       (c, w))"

end
