(* ===== verification/DpaProps.thy ===== *)
theory DpaProps
  imports DpaChannel
begin

text \<open>
  Device memory of a DPA channel: what an allocation adds to the device heap and what a release
  removes from it, the receive descriptors, and the connection state.
\<close>

subsection \<open>The device heap\<close>

text \<open>
  The documented behaviour of the driver, for a view \<open>live\<close> of the allocated device addresses:
  an allocation returns a fresh address other than zero, or fails, allocates nothing and leaves
  the output location as it was or nulls it; a successful free removes the address; no other
  call touches the heap.
\<close>

definition alloc_law :: "('w \<Rightarrow> u64 set) \<Rightarrow> (u64 \<Rightarrow> 'w \<Rightarrow> (bool \<times> u64) \<times> 'w) \<Rightarrow> bool" where
  "alloc_law live f \<longleftrightarrow> (\<forall>a w ok a' w'. f a w = ((ok, a'), w') \<longrightarrow>
     (if ok then a' \<noteq> 0 \<and> a' \<notin> live w \<and> live w' = insert a' (live w)
      else a' \<in> {a, 0} \<and> live w' = live w))"

definition keeps :: "('w \<Rightarrow> u64 set) \<Rightarrow> ('w \<Rightarrow> 'r \<times> 'w) \<Rightarrow> bool" where
  "keeps live f \<longleftrightarrow> (\<forall>w. live (snd (f w)) = live w)"

definition fx_laws :: "'w flexio_api \<Rightarrow> ('w \<Rightarrow> u64 set) \<Rightarrow> bool" where
  "fx_laws api live \<longleftrightarrow>
     (\<forall>p n. alloc_law live (buf_dev_alloc api p n)) \<and>
     (\<forall>p d n. alloc_law live (copy_from_host api p d n)) \<and>
     (\<forall>p a w ok w'. buf_dev_free api p a w = (ok, w') \<longrightarrow> live w' = (if ok then live w - {a} else live w)) \<and>
     (\<forall>p d n a. keeps live (host2dev_memcpy api p d n a)) \<and>
     (\<forall>p t x. keeps live (cq_create api p t x)) \<and> (\<forall>x. keeps live (cq_destroy api x)) \<and>
     (\<forall>p n t x. keeps live (sq_create api p n t x)) \<and> (\<forall>x. keeps live (sq_destroy api x)) \<and>
     (\<forall>p n t x. keeps live (rq_create api p n t x)) \<and> (\<forall>x. keeps live (rq_destroy api x)) \<and>
     (\<forall>p t x. keeps live (qp_create api p t x)) \<and> (\<forall>x t. keeps live (qp_modify api x t)) \<and>
     (\<forall>p t x. keeps live (mkey_create api p t x))"

lemma alloc_lawD:
  "alloc_law live f \<Longrightarrow> f a w = ((ok, a'), w') \<Longrightarrow>
   if ok then a' \<noteq> 0 \<and> a' \<notin> live w \<and> live w' = insert a' (live w)
   else a' \<in> {a, 0} \<and> live w' = live w"
  unfolding alloc_law_def by metis

lemma keepsD: "keeps live f \<Longrightarrow> f w = (r, w') \<Longrightarrow> live w' = live w"
  unfolding keeps_def by (metis snd_conv)

lemma fx_buf_dev_alloc: "fx_laws api live \<Longrightarrow> alloc_law live (buf_dev_alloc api p n)"
  and fx_copy_from_host: "fx_laws api live \<Longrightarrow> alloc_law live (copy_from_host api p d n)"
  and fx_memcpy: "fx_laws api live \<Longrightarrow> keeps live (host2dev_memcpy api p d n a)"
  and fx_cq_create: "fx_laws api live \<Longrightarrow> keeps live (cq_create api p ct x)"
  and fx_cq_destroy: "fx_laws api live \<Longrightarrow> keeps live (cq_destroy api y)"
  and fx_qp_create: "fx_laws api live \<Longrightarrow> keeps live (qp_create api p qt x)"
  and fx_mkey_create: "fx_laws api live \<Longrightarrow> keeps live (mkey_create api p mt x)"
  unfolding fx_laws_def by (elim conjE; simp)+

lemma fx_free:
  "fx_laws api live \<Longrightarrow> buf_dev_free api p a w = (ok, w') \<Longrightarrow> live w' = (if ok then live w - {a} else live w)"
  unfolding fx_laws_def by (elim conjE) metis

text \<open>\<open>L\<close> lists fresh addresses the heap has gained.\<close>

definition grows :: "('w \<Rightarrow> u64 set) \<Rightarrow> u64 list \<Rightarrow> 'w \<Rightarrow> 'w \<Rightarrow> bool" where
  "grows live L w w' \<longleftrightarrow> live w' = set L \<union> live w \<and> distinct L \<and> set L \<inter> live w = {} \<and> 0 \<notin> set L"

lemma grows_trans: "grows live L w w1 \<Longrightarrow> grows live M w1 w2 \<Longrightarrow> grows live (L @ M) w w2"
  by (auto simp: grows_def)

lemma grows_Nil: "live w' = live w \<Longrightarrow> grows live [] w w'"
  by (simp add: grows_def)

lemma grows_keep: "grows live L w w1 \<Longrightarrow> live w2 = live w1 \<Longrightarrow> grows live L w w2"
  by (simp add: grows_def)

lemma grows_alloc: "alloc_law live f \<Longrightarrow> f a w = ((ok, a'), w') \<Longrightarrow> ok \<Longrightarrow> grows live [a'] w w'"
  using alloc_lawD [of live f a w ok a' w'] by (auto simp: grows_def)

subsection \<open>Completion queue memory\<close>

lemma hw_status_success [simp]: "hw_status ok = NICC_SUCCESS \<longleftrightarrow> ok"
  by (simp add: hw_status_def)

lemma hw_status_True [simp]: "hw_status True = NICC_SUCCESS"
  by (simp add: hw_status_def)

lemma allocate_dbr_success:
  assumes "fx_laws api live" "allocate_dbr api process (a, w) = Inr (NICC_SUCCESS, (a', w'))"
  shows "grows live [a'] w w'"
  using assms(2) grows_alloc [OF fx_copy_from_host [OF assms(1)]]
  by (auto simp: allocate_dbr_def split: prod.splits)

lemma allocate_dbr_fail:
  assumes "fx_laws api live" "allocate_dbr api process (a, w) = Inr (r, (a', w'))" "r \<noteq> NICC_SUCCESS"
  shows "live w' = live w"
  using assms(2,3) alloc_lawD [OF fx_copy_from_host [OF assms(1)]]
  by (fastforce simp: allocate_dbr_def hw_status_def split: prod.splits if_splits)

lemma allocate_cq_memory_success:
  assumes "fx_laws api live" "allocate_cq_memory api process d (cq, w) = Inr (NICC_SUCCESS, (cq', w'))"
  shows "grows live [cq_dbr_daddr cq', cq_ring_daddr cq'] w w' \<and> cq_num cq' = cq_num cq"
proof -
  obtain dbr w1 a where
    d: "allocate_dbr api process (cq_dbr_daddr cq, w) = Inr (NICC_SUCCESS, (dbr, w1))"
    and r: "copy_from_host api process (Cqes (replicate (2 ^ d) 1)) (LOG2VALUE d * LOG2VALUE 6)
              (cq_ring_daddr cq) w1 = ((True, a), w')"
    and c: "cq' = cq\<lparr>cq_dbr_daddr := dbr, cq_ring_daddr := a\<rparr>"
    using assms(2)
    by (auto simp: allocate_cq_memory_def bind_run_eq_Inr Let_def split: if_splits prod.splits)
  show ?thesis
    using grows_trans [OF allocate_dbr_success [OF assms(1) d] grows_alloc [OF fx_copy_from_host [OF assms(1)] r TrueI]]
    by (simp add: c)
qed

lemma deallocate_dbr_success:
  assumes "fx_laws api live" "deallocate_dbr api process a w = Inr (NICC_SUCCESS, w')"
  shows "live w' = live w - (if a = 0 then {} else {a})"
  using assms(2) fx_free [OF assms(1)]
  by (auto simp: deallocate_dbr_def split: prod.splits if_splits)

lemma free_field_success:
  assumes "fx_laws api live" "free_field api process get put (p, w) = Inr (NICC_SUCCESS, (p', w'))"
  shows "live w' = live w - ({get p} - {0}) \<and> p' = (if get p = 0 then p else put 0 p)"
  using assms(2) fx_free [OF assms(1)]
  by (auto simp: free_field_def split: if_splits prod.splits)

lemma alloc_field_total: "\<exists>r p' w'. alloc_field api process n get put (p, w) = Inr (r, (p', w'))"
proof -
  obtain ok a w1 where "buf_dev_alloc api process n (get p) w = ((ok, a), w1)" by (metis surj_pair)
  then show ?thesis by (simp add: alloc_field_def)
qed

lemma allocate_dbr_total: "\<exists>r a' w'. allocate_dbr api process (a, w) = Inr (r, (a', w'))"
proof -
  obtain ok x w1 where "copy_from_host api process (Dbr [0, 0]) 8 a w = ((ok, x), w1)" by (metis surj_pair)
  then show ?thesis by (simp add: allocate_dbr_def)
qed

lemma alloc_field_spec:
  assumes "fx_laws api live" "alloc_field api process n get put (p, w) = Inr (r, (p', w'))"
  shows "\<exists>a. p' = put a p \<and> (if r = NICC_SUCCESS then grows live [a] w w'
    else live w' = live w \<and> a \<in> {get p, 0})"
proof -
  obtain ok a w1 where c: "buf_dev_alloc api process n (get p) w = ((ok, a), w1)" by (metis surj_pair)
  then have e: "r = hw_status ok" "p' = put a p" "w' = w1" using assms(2) by (auto simp: alloc_field_def)
  show ?thesis
    using grows_alloc [OF fx_buf_dev_alloc [OF assms(1)] c] alloc_lawD [OF fx_buf_dev_alloc [OF assms(1)] c] e
    by (cases ok) auto
qed

lemma deallocate_cq_memory_success:
  assumes "fx_laws api live" "deallocate_cq_memory api process (cq, w) = Inr (NICC_SUCCESS, (cq', w'))"
  shows "live w' = live w - ({cq_dbr_daddr cq, cq_ring_daddr cq} - {0})
    \<and> cq' = cq\<lparr>cq_dbr_daddr := 0, cq_ring_daddr := 0\<rparr>"
proof -
  obtain cq1 w1 where
    1: "(if cq_dbr_daddr cq \<noteq> 0
        then bind_run (deallocate_dbr api process (cq_dbr_daddr cq) w) (\<lambda>(retval, w').
          if retval \<noteq> NICC_SUCCESS then Inr (retval, (cq, w'))
          else Inr (NICC_SUCCESS, (cq\<lparr>cq_dbr_daddr := 0\<rparr>, w')))
        else Inr (NICC_SUCCESS, (cq, w))) = Inr (NICC_SUCCESS, (cq1, w1))"
    and 2: "free_field api process cq_ring_daddr (\<lambda>a. cq_ring_daddr_update (\<lambda>_. a)) (cq1, w1)
      = Inr (NICC_SUCCESS, (cq', w'))"
    using assms(2) unfolding deallocate_cq_memory_def and_then_pair by auto
  have "live w1 = live w - ({cq_dbr_daddr cq} - {0}) \<and> cq1 = cq\<lparr>cq_dbr_daddr := 0\<rparr>"
    using 1 deallocate_dbr_success [OF assms(1)]
    by (cases cq) (fastforce simp: bind_run_eq_Inr split: if_splits)
  moreover have "live w' = live w1 - ({cq_ring_daddr cq1} - {0}) \<and> cq' = cq1\<lparr>cq_ring_daddr := 0\<rparr>"
    using free_field_success [OF assms(1) 2] by (cases cq1) (auto split: if_splits)
  ultimately show ?thesis by auto
qed

text \<open>
  Ring and doorbell of a completion queue are two fresh device addresses, and releasing the
  queue gives back exactly these two.
\<close>

lemma cq_memory_roundtrip:
  assumes "fx_laws api live"
    and "allocate_cq_memory api process d (cq, w) = Inr (NICC_SUCCESS, (cq1, w1))"
    and "deallocate_cq_memory api process (cq1, w1) = Inr (NICC_SUCCESS, (cq2, w2))"
  shows "live w2 = live w \<and> cq2 = cq1\<lparr>cq_dbr_daddr := 0, cq_ring_daddr := 0\<rparr>"
  using allocate_cq_memory_success [OF assms(1,2)] deallocate_cq_memory_success [OF assms(1,3)]
  by (auto simp: grows_def)

subsection \<open>Work queue memory\<close>

lemma wq_free_checked_live:
  assumes "fx_laws api live" "wq_free_checked api process a w = Inr w'"
  shows "live w' = live w - ({a} - {0})"
  using assms(2) fx_free [OF assms(1)]
  by (auto simp: wq_free_checked_def split: if_splits prod.splits)

text \<open>How far the three allocations got, by the address fields.\<close>

lemma wq_alloc_steps_spec:
  assumes "fx_laws api live"
    and "wq_alloc_steps api process d n (wq, w) = Inr (r, (wq', w'))"
    and "wqd_daddr wq = 0" "wq_ring_daddr wq = 0"
  shows "if r = NICC_SUCCESS then grows live [wqd_daddr wq', wq_ring_daddr wq', wq_dbr_daddr wq'] w w'
    else \<exists>L. grows live L w w' \<and> set L = {wqd_daddr wq', wq_ring_daddr wq'} - {0}"
proof -
  obtain r1 wq1 w1 where 1: "alloc_field api process (LOG2VALUE (d + DPA_LOG_WQ_DATA_ENTRY_BSIZE))
      wqd_daddr (\<lambda>a. wqd_daddr_update (\<lambda>_. a)) (wq, w) = Inr (r1, (wq1, w1))"
    using alloc_field_total [of api process "LOG2VALUE (d + DPA_LOG_WQ_DATA_ENTRY_BSIZE)" wqd_daddr
        "\<lambda>a. wqd_daddr_update (\<lambda>_. a)" wq w] by blast
  obtain a1 where a1: "wq1 = wq\<lparr>wqd_daddr := a1\<rparr>" and
      l1: "if r1 = NICC_SUCCESS then grows live [a1] w w1 else live w1 = live w \<and> a1 \<in> {wqd_daddr wq, 0}"
    using alloc_field_spec [OF assms(1) 1] by blast
  show ?thesis
  proof (cases "r1 = NICC_SUCCESS")
    case False
    then have "r = r1" "wq' = wq1" "w' = w1"
      using assms(2) 1 by (auto simp: wq_alloc_steps_def and_then_def)
    then show ?thesis using False l1 a1 assms(3,4) by (auto intro!: exI [of _ "[]"] grows_Nil)
  next
    case s1: True
    obtain r2 wq2 w2 where 2: "alloc_field api process (LOG2VALUE d * n)
        wq_ring_daddr (\<lambda>a. wq_ring_daddr_update (\<lambda>_. a)) (wq1, w1) = Inr (r2, (wq2, w2))"
      using alloc_field_total [of api process "LOG2VALUE d * n" wq_ring_daddr
          "\<lambda>a. wq_ring_daddr_update (\<lambda>_. a)" wq1 w1] by blast
    obtain a2 where a2: "wq2 = wq1\<lparr>wq_ring_daddr := a2\<rparr>" and
        l2: "if r2 = NICC_SUCCESS then grows live [a2] w1 w2 else live w2 = live w1 \<and> a2 \<in> {wq_ring_daddr wq1, 0}"
      using alloc_field_spec [OF assms(1) 2] by blast
    have g1: "grows live [a1] w w1" using l1 s1 by simp
    show ?thesis
    proof (cases "r2 = NICC_SUCCESS")
      case False
      then have e: "r = r2" "wq' = wq2" "w' = w2"
        using assms(2) 1 2 s1 by (auto simp: wq_alloc_steps_def and_then_def)
      have "grows live [a1] w w2" using grows_keep [OF g1] l2 False by simp
      moreover have "set [a1] = {wqd_daddr wq', wq_ring_daddr wq'} - {0}"
        using e a1 a2 l2 False assms(4) g1 by (auto simp: grows_def)
      ultimately show ?thesis using e False by auto
    next
      case s2: True
      have g2: "grows live ([a1] @ [a2]) w w2" using grows_trans [OF g1] l2 s2 by simp
      obtain r3 a3 w3 where 3: "allocate_dbr api process (wq_dbr_daddr wq2, w2) = Inr (r3, (a3, w3))"
        using allocate_dbr_total [of api process "wq_dbr_daddr wq2" w2] by blast
      have e: "r = r3" "wq' = wq2\<lparr>wq_dbr_daddr := a3\<rparr>" "w' = w3"
        using assms(2) 1 2 3 s1 s2 by (auto simp: wq_alloc_steps_def and_then_def wq_alloc_dbr_def)
      show ?thesis
      proof (cases "r3 = NICC_SUCCESS")
        case True
        then show ?thesis
          using grows_trans [OF g2 allocate_dbr_success [OF assms(1)]] 3 e a1 a2 by simp
      next
        case False
        have "set ([a1] @ [a2]) = {wqd_daddr wq', wq_ring_daddr wq'} - {0}"
          using e a1 a2 g2 by (auto simp: grows_def)
        then show ?thesis
          using grows_keep [OF g2 allocate_dbr_fail [OF assms(1) 3 False]] e False by metis
      qed
    qed
  qed
qed

text \<open>
  C33. Allocating the memory of an Ethernet work queue either returns three fresh addresses or
  leaves the device heap as it was, whichever of the three allocations fails.
\<close>

theorem wq_memory_no_leak:
  assumes "fx_laws api live"
    and "allocate_wq_memory api process d n (wq, w) = Inr (r, (wq', w'))"
  shows "if r = NICC_SUCCESS then grows live [wqd_daddr wq', wq_ring_daddr wq', wq_dbr_daddr wq'] w w'
    else live w' = live w"
proof -
  obtain r1 wq1 w1 where s: "wq_alloc_steps api process d n (wq\<lparr>wqd_daddr := 0, wq_ring_daddr := 0\<rparr>, w)
      = Inr (r1, (wq1, w1))" and e: "r = r1" "wq' = wq1"
    and f: "if r1 = NICC_SUCCESS then w' = w1
      else \<exists>w2. wq_free_checked api process (wqd_daddr wq1) w1 = Inr w2
         \<and> wq_free_checked api process (wq_ring_daddr wq1) w2 = Inr w'"
    using assms(2)
    by (auto simp: allocate_wq_memory_def bind_run_eq_Inr split: if_splits)
  note spec = wq_alloc_steps_spec [OF assms(1) s]
  show ?thesis
  proof (cases "r1 = NICC_SUCCESS")
    case True
    then show ?thesis using spec e f by simp
  next
    case False
    obtain w2 where w2: "wq_free_checked api process (wqd_daddr wq1) w1 = Inr w2"
      "wq_free_checked api process (wq_ring_daddr wq1) w2 = Inr w'"
      using f False by auto
    have "live w' = live w1 - ({wqd_daddr wq1, wq_ring_daddr wq1} - {0})"
      using wq_free_checked_live [OF assms(1) w2(1)] wq_free_checked_live [OF assms(1) w2(2)] by auto
    then show ?thesis using spec False e by (auto simp: grows_def)
  qed
qed

end
