(* ===== verification/DpaLedger.thy ===== *)
theory DpaLedger
  imports DpaProps
begin

text \<open>
  The ledger of a DPA channel with RDMA on both sides: the device addresses
  \<open>allocate_channel\<close> acquires and the ones \<open>deallocate_channel\<close> gives back.
\<close>

definition cq_addrs :: "dpa_cq \<Rightarrow> u64 list" where
  "cq_addrs cq = [cq_dbr_daddr cq, cq_ring_daddr cq]"

definition sq_cq_addrs :: "dpa_side \<Rightarrow> u64 list" where
  "sq_cq_addrs sd = cq_addrs (sq_cq_data (dev_queues sd))"

definition rq_cq_addrs :: "dpa_side \<Rightarrow> u64 list" where
  "rq_cq_addrs sd = cq_addrs (rq_cq_data (dev_queues sd))"

definition qp_addrs :: "dpa_side \<Rightarrow> u64 list" where
  "qp_addrs sd = [qp_dbr_daddr (the_qp sd), qpd_mbuf_start_addr (fx_handler sd), qp_rq_daddr (the_qp sd)]"

text \<open>The parts of a side that only Ethernet queues use.\<close>

definition eth_part :: "dpa_side \<Rightarrow> dpa_eth_wq \<times> dpa_eth_wq \<times> ptr \<times> ptr" where
  "eth_part sd = (sq_data (dev_queues sd), rq_data (dev_queues sd),
     flexio_sq_ptr (fx_handler sd), flexio_rq_ptr (fx_handler sd))"

definition eth_unused :: "dpa_side \<Rightarrow> bool" where
  "eth_unused sd \<longleftrightarrow> (\<exists>sq rq. eth_part sd = (sq, rq, None, None) \<and>
     wqd_daddr sq = 0 \<and> wq_ring_daddr sq = 0 \<and> wq_dbr_daddr sq = 0 \<and>
     wqd_daddr rq = 0 \<and> wq_ring_daddr rq = 0 \<and> wq_dbr_daddr rq = 0)"

lemmas ledger_defs = sq_cq_addrs_def rq_cq_addrs_def qp_addrs_def eth_part_def cq_addrs_def

lemmas cq_create_defs = sq_cq_create_def rq_cq_create_def

lemma on_part_success:
  assumes "on_part get put f (sd, w) = Inr (r, (sd', w'))"
  shows "\<exists>p. f (get sd, w) = Inr (r, (p, w')) \<and> sd' = put p sd"
  using assms by (auto simp: on_part_def bind_run_eq_Inr)

subsection \<open>Completion queues of a side\<close>

lemma allocate_sq_cq_success:
  assumes "fx_laws api live" "allocate_sq_cq api uar process (sd, w) = Inr (NICC_SUCCESS, (sd', w'))"
  shows "grows live (sq_cq_addrs sd') w w' \<and> rq_cq_addrs sd' = rq_cq_addrs sd
    \<and> eth_part sd' = eth_part sd \<and> dev_metadata sd' = dev_metadata sd"
proof -
  obtain sd1 w1 where
    1: "on_sq_cq (allocate_cq_memory api process DPA_LOG_CQ_RING_DEPTH) (sd, w) = Inr (NICC_SUCCESS, (sd1, w1))"
    and 2: "sq_cq_create api uar process (sd1, w1) = Inr (NICC_SUCCESS, (sd', w'))"
    using assms(2) unfolding allocate_sq_cq_def and_then_pair by blast
  obtain cq where m: "allocate_cq_memory api process DPA_LOG_CQ_RING_DEPTH (sq_cq_data (dev_queues sd), w)
      = Inr (NICC_SUCCESS, (cq, w1))" and sd1: "sd1 = upd_queues (sq_cq_data_update (\<lambda>_. cq)) sd"
    using on_part_success [OF 1] by auto
  note g = allocate_cq_memory_success [OF assms(1) m]
  have "live w' = live w1"
    using 2 keepsD [OF fx_cq_create [OF assms(1)]] by (fastforce simp: cq_create_defs Let_def split: prod.splits if_splits)
  moreover have "cq_addrs (sq_cq_data (dev_queues sd')) = cq_addrs cq \<and> rq_cq_addrs sd' = rq_cq_addrs sd1
      \<and> eth_part sd' = eth_part sd1 \<and> dev_metadata sd' = dev_metadata sd1"
    using 2 sd1 by (auto simp: cq_create_defs Let_def ledger_defs split: prod.splits if_splits)
  ultimately show ?thesis
    using g grows_keep by (auto simp: sd1 ledger_defs)
qed

lemma allocate_rq_cq_success:
  assumes "fx_laws api live" "allocate_rq_cq api uar process eh (sd, w) = Inr (NICC_SUCCESS, (sd', w'))"
  shows "grows live (rq_cq_addrs sd') w w' \<and> sq_cq_addrs sd' = sq_cq_addrs sd
    \<and> eth_part sd' = eth_part sd \<and> dev_metadata sd' = dev_metadata sd"
proof -
  obtain sd1 w1 where
    1: "on_rq_cq (allocate_cq_memory api process DPA_LOG_CQ_RING_DEPTH) (sd, w) = Inr (NICC_SUCCESS, (sd1, w1))"
    and 2: "rq_cq_create api uar process eh (sd1, w1) = Inr (NICC_SUCCESS, (sd', w'))"
    using assms(2) unfolding allocate_rq_cq_def and_then_pair by blast
  obtain cq where m: "allocate_cq_memory api process DPA_LOG_CQ_RING_DEPTH (rq_cq_data (dev_queues sd), w)
      = Inr (NICC_SUCCESS, (cq, w1))" and sd1: "sd1 = upd_queues (rq_cq_data_update (\<lambda>_. cq)) sd"
    using on_part_success [OF 1] by auto
  note g = allocate_cq_memory_success [OF assms(1) m]
  have "live w' = live w1"
    using 2 keepsD [OF fx_cq_create [OF assms(1)]] by (fastforce simp: cq_create_defs Let_def split: prod.splits if_splits)
  moreover have "cq_addrs (rq_cq_data (dev_queues sd')) = cq_addrs cq \<and> sq_cq_addrs sd' = sq_cq_addrs sd1
      \<and> eth_part sd' = eth_part sd1 \<and> dev_metadata sd' = dev_metadata sd1"
    using 2 sd1 by (auto simp: cq_create_defs Let_def ledger_defs split: prod.splits if_splits)
  ultimately show ?thesis
    using g grows_keep by (auto simp: sd1 ledger_defs)
qed

subsection \<open>Queue pair of a side\<close>

lemma create_dpa_mkey_live:
  assumes "fx_laws api live" "create_dpa_mkey api process pd a n acc (p, w) = Inr (r, (p', w'))"
  shows "live w' = live w"
  using assms(2) keepsD [OF fx_mkey_create [OF assms(1)]]
  by (fastforce simp: create_dpa_mkey_def bind_run_eq_Inr split: prod.splits)

lemma init_rq_ring_wqes_live:
  assumes "fx_laws api live" "init_rq_ring_wqes api process ring d a k w = Inr (r, w')"
  shows "live w' = live w"
  using assms(2) keepsD [OF fx_memcpy [OF assms(1)]]
  by (fastforce simp: init_rq_ring_wqes_def bind_run_eq_Inr split: prod.splits)

lemma rdma_qp_memory_success:
  assumes "fx_laws api live" "rdma_qp_memory api process (sd, w) = Inr (NICC_SUCCESS, (sd', w'))"
  shows "\<exists>m r q. grows live [m, r] w w' \<and>
    sd' = upd_qp (\<lambda>x. x\<lparr>qp_rq_daddr := r, qp_sq_daddr := q\<rparr>) (upd_handler (qpd_mbuf_start_addr_update (\<lambda>_. m)) sd)"
proof -
  let ?n = "(LOG2VALUE DPA_LOG_SQ_RING_DEPTH + LOG2VALUE DPA_LOG_RQ_RING_DEPTH) * LOG2VALUE DPA_LOG_WQ_DATA_ENTRY_BSIZE"
    and ?k = "LOG2VALUE DPA_LOG_RQ_RING_DEPTH * sizeof_data_seg + LOG2VALUE DPA_LOG_SQ_RING_DEPTH * sizeof_data_seg"
  obtain ok1 m w1 where 1: "buf_dev_alloc api process ?n (qpd_mbuf_start_addr (fx_handler sd)) w = ((ok1, m), w1)"
    by (metis surj_pair)
  obtain ok2 r w2 where 2: "buf_dev_alloc api process ?k 0 w1 = ((ok2, r), w2)" by (metis surj_pair)
  have ok1: ok1
    using assms(2) 1
    by (auto simp: rdma_qp_memory_def allocate_qp_memory_def bind_run_eq_Inr and_then_def hw_status_def split: if_splits)
  then have e: "ok2" "w' = w2" "sd' = upd_qp (\<lambda>x. x\<lparr>qp_rq_daddr := r,
      qp_sq_daddr := r + LOG2VALUE DPA_LOG_RQ_RING_DEPTH * sizeof_data_seg\<rparr>)
      (upd_handler (qpd_mbuf_start_addr_update (\<lambda>_. m)) sd)"
    using assms(2) 1 2
    by (auto simp: rdma_qp_memory_def allocate_qp_memory_def bind_run_eq_Inr and_then_def split: if_splits)
  note grows_trans [OF grows_alloc [OF fx_buf_dev_alloc [OF assms(1)] 1 ok1]
      grows_alloc [OF fx_buf_dev_alloc [OF assms(1)] 2 e(1)]]
  with e show ?thesis by auto
qed

definition kept_parts :: "dpa_side \<Rightarrow> u64 list \<times> u64 list \<times> (dpa_eth_wq \<times> dpa_eth_wq \<times> ptr \<times> ptr) \<times> u64" where
  "kept_parts sd = (sq_cq_addrs sd, rq_cq_addrs sd, eth_part sd, dev_metadata sd)"

lemma rdma_qp_create_live:
  assumes "fx_laws api live" "rdma_qp_create api pd uar process (sd, w) = Inr (NICC_SUCCESS, (sd', w'))"
  shows "live w' = live w \<and> kept_parts sd' = kept_parts sd \<and> qp_addrs sd' = qp_addrs sd"
proof -
  obtain ok p w1 where c: "qp_create api process (rdma_qp_attr api pd uar sd) (flexio_qp_ptr (fx_handler sd)) w
      = ((ok, p), w1)" by (metis surj_pair)
  with assms(2) have "w' = w1" "kept_parts sd' = kept_parts sd" "qp_addrs sd' = qp_addrs sd"
    by (auto simp: rdma_qp_create_def kept_parts_def ledger_defs Let_def split: if_splits)
  with keepsD [OF fx_qp_create [OF assms(1)] c] show ?thesis by simp
qed

lemma create_rdma_qp_success:
  assumes "fx_laws api live" "create_rdma_qp api pd uar process (sd, w) = Inr (NICC_SUCCESS, (sd', w'))"
  shows "grows live (qp_addrs sd') w w' \<and> kept_parts sd' = kept_parts sd"
proof -
  obtain sd1 w1 sd2 w2 sd4 w4 w6 where
    1: "on_dbr (allocate_dbr api process) (sd, w) = Inr (NICC_SUCCESS, (sd1, w1))"
    and 2: "rdma_qp_memory api process (sd1, w1) = Inr (NICC_SUCCESS, (sd2, w2))"
    and 4: "on_qpd_mkey (create_dpa_mkey api process pd
        (qpd_mbuf_start_addr (fx_handler (upd_qp (qpd_daddr_update (\<lambda>_. qpd_mbuf_start_addr (fx_handler sd2))) sd2)))
        (DPA_LOG_SQ_RING_DEPTH + 1 + DPA_LOG_WQ_DATA_ENTRY_BSIZE)
        {ACC_LOCAL_WRITE, ACC_REMOTE_WRITE, ACC_REMOTE_READ, ACC_RELAXED_ORDERING})
        (upd_qp (qpd_daddr_update (\<lambda>_. qpd_mbuf_start_addr (fx_handler sd2))) sd2, w2)
      = Inr (NICC_SUCCESS, (sd4, w4))"
    and 6: "\<exists>ring d a k. init_rq_ring_wqes api process ring d a k w4 = Inr (NICC_SUCCESS, w6)"
    and 7: "rdma_qp_create api pd uar process
        (let id = mkey_get_id api (qpd_mkey (fx_handler sd4))
         in upd_handler (qpd_mr_lkey_update (\<lambda>_. Some id))
              (upd_qp (\<lambda>q. q\<lparr>qpd_mkey_id := id, qpd_lkey := ucast id\<rparr>) sd4), w6)
      = Inr (NICC_SUCCESS, (sd', w'))"
    using assms(2) unfolding create_rdma_qp_def and_then_pair
    by (clarsimp simp: upd_side_def on_dev_def bind_run_eq_Inr Let_def) blast
  obtain a where a: "allocate_dbr api process (qp_dbr_daddr (the_qp sd), w) = Inr (NICC_SUCCESS, (a, w1))"
      and sd1: "sd1 = upd_qp (qp_dbr_daddr_update (\<lambda>_. a)) sd"
    using on_part_success [OF 1] by auto
  obtain m r q where g2: "grows live [m, r] w1 w2" and sd2: "sd2 = upd_qp (\<lambda>x. x\<lparr>qp_rq_daddr := r, qp_sq_daddr := q\<rparr>)
      (upd_handler (qpd_mbuf_start_addr_update (\<lambda>_. m)) sd1)"
    using rdma_qp_memory_success [OF assms(1) 2] by blast
  obtain k where mk: "create_dpa_mkey api process pd (qpd_mbuf_start_addr (fx_handler sd2))
        (DPA_LOG_SQ_RING_DEPTH + 1 + DPA_LOG_WQ_DATA_ENTRY_BSIZE)
        {ACC_LOCAL_WRITE, ACC_REMOTE_WRITE, ACC_REMOTE_READ, ACC_RELAXED_ORDERING}
        (qpd_mkey (fx_handler sd2), w2) = Inr (NICC_SUCCESS, (k, w4))"
      and k: "sd4 = upd_handler (qpd_mkey_update (\<lambda>_. k))
      (upd_qp (qpd_daddr_update (\<lambda>_. qpd_mbuf_start_addr (fx_handler sd2))) sd2)"
    using on_part_success [OF 4] by auto
  note w4 = create_dpa_mkey_live [OF assms(1) mk]
  have w6: "live w6 = live w4" using 6 init_rq_ring_wqes_live [OF assms(1)] by blast
  note l = rdma_qp_create_live [OF assms(1) 7]
  have f: "kept_parts sd' = kept_parts sd" "qp_addrs sd' = [a, m, r]"
    using l by (simp_all add: k sd2 sd1 kept_parts_def ledger_defs Let_def)
  have "grows live ([a] @ [m, r]) w w2"
    using grows_trans [OF allocate_dbr_success [OF assms(1) a] g2] .
  then show ?thesis using f l w4 w6 grows_keep [of live "[a, m, r]" w w2 w'] by simp
qed

subsection \<open>The channel\<close>

lemma the_side_set [simp]: "the_side p (set_side q sd c) = (if p = q then sd else the_side p c)"
  by (simp add: the_side_def set_side_def)

lemma set_side_parts [simp]:
  "typeid_of_prior (set_side q sd c) = typeid_of_prior c"
  "typeid_of_next (set_side q sd c) = typeid_of_next c"
  "ch_resolve (set_side q sd c) = ch_resolve c"
  by (simp_all add: set_side_def)

lemma on_side_success:
  assumes "on_side p f (c, w) = Inr (r, (c', w'))"
  shows "\<exists>sd. f (the_side p c, w) = Inr (r, (sd, w')) \<and> c' = set_side p sd c"
  using assms by (auto simp: on_side_def bind_run_eq_Inr)

lemma set_info_success:
  assumes "set_info_if_rdma api p (c, w) = Inr (NICC_SUCCESS, (c', w'))"
  shows "w' = w \<and> (\<exists>sd. c' = set_side p sd c \<and> kept_parts sd = kept_parts (the_side p c)
    \<and> qp_addrs sd = qp_addrs (the_side p c))"
proof (cases "(if p then typeid_of_prior c else typeid_of_next c) = CH_RDMA")
  case True
  then have "on_side p (set_local_qp_info api (ch_resolve c)) (c, w) = Inr (NICC_SUCCESS, (c', w'))"
    using assms by (simp add: set_info_if_rdma_def)
  from on_side_success [OF this] obtain sd where
    "set_local_qp_info api (ch_resolve c) (the_side p c, w) = Inr (NICC_SUCCESS, (sd, w'))" "c' = set_side p sd c"
    by blast
  moreover from this(1) have "w' = w \<and> kept_parts sd = kept_parts (the_side p c) \<and> qp_addrs sd = qp_addrs (the_side p c)"
    by (auto simp: set_local_qp_info_def bind_run_eq_Inr kept_parts_def ledger_defs split: option.splits)
  ultimately show ?thesis by blast
next
  case False
  have "set_side p (the_side p c) c = c" by (simp add: set_side_def the_side_def)
  then show ?thesis using assms False by (auto simp: set_info_if_rdma_def intro!: exI [of _ "the_side p c"])
qed

lemma copy_metadata_success:
  assumes "fx_laws api live" "copy_metadata api process (sd, w) = Inr (NICC_SUCCESS, (sd', w'))"
  shows "\<exists>a. grows live [a] w w' \<and> sd' = sd\<lparr>dev_metadata := a\<rparr>"
  using assms(2) grows_alloc [OF fx_copy_from_host [OF assms(1)]]
  by (fastforce simp: copy_metadata_def split: prod.splits)

text \<open>What a side owns on the device when it is allocated.\<close>

definition side_addrs :: "dpa_side \<Rightarrow> u64 list" where
  "side_addrs sd = sq_cq_addrs sd @ rq_cq_addrs sd @ qp_addrs sd @ [dev_metadata sd]"

lemma grows_perm:
  "grows live L w w' \<Longrightarrow> set M = set L \<Longrightarrow> length M = length L \<Longrightarrow> grows live M w w'"
  by (simp add: grows_def) (metis card_distinct distinct_card)

lemma create_qp_RDMA_success:
  assumes "fx_laws api live" "create_qp api pd uar process CH_RDMA (sd, w) = Inr (NICC_SUCCESS, (sd', w'))"
  shows "grows live (qp_addrs sd') w w' \<and> kept_parts sd' = kept_parts sd"
  using create_rdma_qp_success [OF assms(1), of pd uar process "upd_queues (dq_type_update (\<lambda>_. CH_RDMA)) sd" w sd' w']
    assms(2)
  by (simp add: create_qp_def kept_parts_def ledger_defs)

lemma allocate_queues_success:
  assumes fx: "fx_laws api live" and ty: "typeid_of_prior c = CH_RDMA" "typeid_of_next c = CH_RDMA"
    and run: "allocate_queues api pd uar process eh (c, w) = Inr (NICC_SUCCESS, (c', w'))"
  shows "grows live (side_addrs (the_side True c') @ side_addrs (the_side False c')) w w' \<and>
    (\<forall>p. eth_part (the_side p c') = eth_part (the_side p c))"
proof -
  obtain a1 a2 b1 b2 q1 q2 i1 i2 d1 d2 w1 w2 w3 w4 w5 w6 w7 w8 w9 where
    1: "allocate_sq_cq api uar process (the_side True c, w) = Inr (NICC_SUCCESS, (a1, w1))"
    and 2: "allocate_sq_cq api uar process (the_side False c, w1) = Inr (NICC_SUCCESS, (a2, w2))"
    and 3: "allocate_rq_cq api uar process eh (a1, w2) = Inr (NICC_SUCCESS, (b1, w3))"
    and 4: "allocate_rq_cq api uar process eh (a2, w3) = Inr (NICC_SUCCESS, (b2, w4))"
    and 5: "create_qp api pd uar process CH_RDMA (b1, w4) = Inr (NICC_SUCCESS, (q1, w5))"
    and 6: "create_qp api pd uar process CH_RDMA (b2, w5) = Inr (NICC_SUCCESS, (q2, w6))"
    and 7: "kept_parts i1 = kept_parts q1 \<and> qp_addrs i1 = qp_addrs q1"
    and 8: "kept_parts i2 = kept_parts q2 \<and> qp_addrs i2 = qp_addrs q2"
    and 9: "copy_metadata api process (i1, w6) = Inr (NICC_SUCCESS, (d1, w9))"
    and 10: "copy_metadata api process (i2, w9) = Inr (NICC_SUCCESS, (d2, w'))"
    and c': "the_side True c' = d1" "the_side False c' = d2"
    using run ty unfolding allocate_queues_def and_then_pair
    by (auto dest!: on_side_success set_info_success)
  note g1 = allocate_sq_cq_success [OF fx 1] and g2 = allocate_sq_cq_success [OF fx 2]
    and g3 = allocate_rq_cq_success [OF fx 3] and g4 = allocate_rq_cq_success [OF fx 4]
    and g5 = create_qp_RDMA_success [OF fx 5] and g6 = create_qp_RDMA_success [OF fx 6]
  obtain m1 m2 where g9: "grows live [m1] w6 w9" "d1 = i1\<lparr>dev_metadata := m1\<rparr>"
    and g10: "grows live [m2] w9 w'" "d2 = i2\<lparr>dev_metadata := m2\<rparr>"
    using copy_metadata_success [OF fx 9] copy_metadata_success [OF fx 10] by blast
  have k: "sq_cq_addrs d1 = sq_cq_addrs a1 \<and> rq_cq_addrs d1 = rq_cq_addrs b1 \<and> qp_addrs d1 = qp_addrs q1
      \<and> eth_part d1 = eth_part (the_side True c) \<and> dev_metadata d1 = m1"
    "sq_cq_addrs d2 = sq_cq_addrs a2 \<and> rq_cq_addrs d2 = rq_cq_addrs b2 \<and> qp_addrs d2 = qp_addrs q2
      \<and> eth_part d2 = eth_part (the_side False c) \<and> dev_metadata d2 = m2"
    using g1 g2 g3 g4 g5 g6 7 8 by (auto simp: g9 g10 kept_parts_def ledger_defs)
  have "grows live (sq_cq_addrs a1 @ sq_cq_addrs a2 @ rq_cq_addrs b1 @ rq_cq_addrs b2
      @ qp_addrs q1 @ qp_addrs q2 @ [m1] @ [m2]) w w'"
    using g1 g2 g3 g4 g5 g6 g9(1) g10(1) by (blast intro: grows_trans)
  then have "grows live (side_addrs d1 @ side_addrs d2) w w'"
    by (rule grows_perm) (use k in \<open>auto simp: side_addrs_def\<close>)
  with k show ?thesis by (auto simp: c' split: bool.split) (metis (full_types) c')+
qed

lemma allocate_channel_success:
  assumes fx: "fx_laws api live" and op: "\<forall>i w. live (snd (open_device papi i w)) = live w"
    and ty: "typeid_of_prior c = CH_RDMA" "typeid_of_next c = CH_RDMA"
    and run: "allocate_channel api papi pd uar process eh ctx dev port (c, w) = Inr (NICC_SUCCESS, (c', w'))"
  shows "grows live (side_addrs (the_side True c') @ side_addrs (the_side False c')) w w' \<and>
    (\<forall>p. eth_part (the_side p c') = eth_part (the_side p c))"
proof -
  obtain k1 k2 k3 k4 rs w1 where
    1: "common_resolve_phy_port papi dev port (unat (LOG2VALUE DPA_LOG_WQ_DATA_ENTRY_BSIZE)) (ch_resolve c) w = Inr (rs, w1)"
    and 2: "\<exists>rs'. allocate_queues api k1 k2 k3 k4 (c\<lparr>ch_process := Some k3, ch_resolve := rs'\<rparr>, w1)
      = Inr (NICC_SUCCESS, (c', w'))"
    using run unfolding allocate_channel_def
    by (auto simp: bind_run_eq_Inr split: option.splits, blast)
  have "live w1 = live w"
    using 1 op by (auto simp: common_resolve_phy_port_def bind_run_eq_Inr Let_def
        split: option.splits prod.splits if_splits) (metis snd_conv)+
  moreover obtain rs' where "allocate_queues api k1 k2 k3 k4 (c\<lparr>ch_process := Some k3, ch_resolve := rs'\<rparr>, w1)
      = Inr (NICC_SUCCESS, (c', w'))" using 2 by blast
  note allocate_queues_success [OF fx _ _ this]
  ultimately show ?thesis using ty by (simp add: grows_def the_side_def)
qed

subsection \<open>Releasing a channel\<close>

text \<open>\<open>drops\<close>: the heap lost the non-null addresses of a list.\<close>

definition drops :: "('w \<Rightarrow> u64 set) \<Rightarrow> u64 list \<Rightarrow> 'w \<Rightarrow> 'w \<Rightarrow> bool" where
  "drops live L w w' \<longleftrightarrow> live w' = live w - (set L - {0})"

lemma drops_trans: "drops live L w w1 \<Longrightarrow> drops live M w1 w2 \<Longrightarrow> drops live (L @ M) w w2"
  by (auto simp: drops_def)

lemma drops_keep: "live w1 = live w \<Longrightarrow> drops live L w1 w2 \<Longrightarrow> drops live L w w2"
  by (simp add: drops_def)

lemma grows_drops: "grows live (F @ Q) w w1 \<Longrightarrow> drops live F w1 w2 \<Longrightarrow> grows live Q w w2"
  by (auto simp: grows_def drops_def)

lemma deallocate_cq_drops:
  "fx_laws api live \<Longrightarrow> deallocate_cq_memory api process (cq, w) = Inr (NICC_SUCCESS, (cq', w'))
    \<Longrightarrow> drops live (cq_addrs cq) w w'"
  using deallocate_cq_memory_success by (fastforce simp: drops_def cq_addrs_def)

definition qp_kept :: "dpa_side \<Rightarrow> u64 list \<times> (dpa_eth_wq \<times> dpa_eth_wq \<times> ptr \<times> ptr) \<times> u64" where
  "qp_kept sd = (qp_addrs sd, eth_part sd, dev_metadata sd)"

lemma destroy_handle_success:
  assumes "\<forall>x. keeps live (destroy x)"
    and "destroy_handle handle clear destroy (sd, w) = Inr (NICC_SUCCESS, (sd', w'))"
  shows "live w' = live w \<and> (sd' = sd \<or> sd' = upd_handler clear sd)"
proof (cases "handle (fx_handler sd)")
  case (Some p)
  obtain ok w1 where "destroy p w = (ok, w1)" by fastforce
  with assms(2) keepsD [OF assms(1) [rule_format] this] Some show ?thesis
    by (auto simp: destroy_handle_def split: if_splits)
qed (use assms(2) in \<open>simp add: destroy_handle_def\<close>)

lemma deallocate_sq_cq_success:
  assumes "fx_laws api live" "deallocate_sq_cq api process (sd, w) = Inr (NICC_SUCCESS, (sd', w'))"
  shows "drops live (sq_cq_addrs sd) w w' \<and> rq_cq_addrs sd' = rq_cq_addrs sd \<and> qp_kept sd' = qp_kept sd"
proof -
  let ?clear = "flexio_sq_cq_ptr_update (\<lambda>_. None)"
  obtain sd1 w1 where
    d: "destroy_handle flexio_sq_cq_ptr ?clear (cq_destroy api) (sd, w) = Inr (NICC_SUCCESS, (sd1, w1))"
    and 2: "on_sq_cq (deallocate_cq_memory api process) (sd1, w1) = Inr (NICC_SUCCESS, (sd', w'))"
    using assms(2) unfolding deallocate_sq_cq_def and_then_pair by (auto simp: bind_run_eq_Inr split: if_splits)
  have l: "live w1 = live w" and "sd1 = sd \<or> sd1 = upd_handler ?clear sd"
    using destroy_handle_success [OF _ d] fx_cq_destroy [OF assms(1)] by blast+
  then have 1: "sq_cq_data (dev_queues sd1) = sq_cq_data (dev_queues sd)"
      "rq_cq_data (dev_queues sd1) = rq_cq_data (dev_queues sd)" "qp_kept sd1 = qp_kept sd"
    by (auto simp: qp_kept_def ledger_defs)
  obtain cq where 3: "deallocate_cq_memory api process (sq_cq_data (dev_queues sd), w1) = Inr (NICC_SUCCESS, (cq, w'))"
      "sd' = upd_queues (sq_cq_data_update (\<lambda>_. cq)) sd1"
    using on_part_success [OF 2] 1 by auto
  show ?thesis
    using drops_keep [OF l deallocate_cq_drops [OF assms(1) 3(1)]] 1 3(2)
    by (simp add: qp_kept_def ledger_defs)
qed

lemma deallocate_rq_cq_success:
  assumes "fx_laws api live" "deallocate_rq_cq api process (sd, w) = Inr (NICC_SUCCESS, (sd', w'))"
  shows "drops live (rq_cq_addrs sd) w w' \<and> qp_kept sd' = qp_kept sd"
proof -
  let ?clear = "flexio_rq_cq_ptr_update (\<lambda>_. None)"
  obtain sd1 w1 where
    d: "destroy_handle flexio_rq_cq_ptr ?clear (cq_destroy api) (sd, w) = Inr (NICC_SUCCESS, (sd1, w1))"
    and 2: "on_rq_cq (deallocate_cq_memory api process) (sd1, w1) = Inr (NICC_SUCCESS, (sd', w'))"
    using assms(2) unfolding deallocate_rq_cq_def and_then_pair by (auto simp: bind_run_eq_Inr split: if_splits)
  have l: "live w1 = live w" and "sd1 = sd \<or> sd1 = upd_handler ?clear sd"
    using destroy_handle_success [OF _ d] fx_cq_destroy [OF assms(1)] by blast+
  then have 1: "sq_cq_data (dev_queues sd1) = sq_cq_data (dev_queues sd)"
      "rq_cq_data (dev_queues sd1) = rq_cq_data (dev_queues sd)" "qp_kept sd1 = qp_kept sd"
    by (auto simp: qp_kept_def ledger_defs)
  obtain cq where 3: "deallocate_cq_memory api process (rq_cq_data (dev_queues sd), w1) = Inr (NICC_SUCCESS, (cq, w'))"
      "sd' = upd_queues (rq_cq_data_update (\<lambda>_. cq)) sd1"
    using on_part_success [OF 2] 1 by auto
  show ?thesis
    using drops_keep [OF l deallocate_cq_drops [OF assms(1) 3(1)]] 1 3(2)
    by (simp add: qp_kept_def ledger_defs)
qed

text \<open>With no Ethernet queue there is nothing for \<open>__destroy_qp\<close> to do.\<close>

lemma destroy_qp_unused:
  assumes "eth_unused sd"
  shows "destroy_qp api process (sd, w) = Inr (NICC_SUCCESS, (sd, w))"
proof -
  have wq: "deallocate_wq_memory api process (wq, w) = Inr (NICC_SUCCESS, (wq, w))"
    if "wqd_daddr wq = 0" "wq_ring_daddr wq = 0" "wq_dbr_daddr wq = 0" for wq
    using that by (simp add: deallocate_wq_memory_def free_field_def deallocate_dbr_def and_then_def)
  show ?thesis
    using assms by (simp add: eth_unused_def eth_part_def destroy_qp_def and_then_def destroy_handle_def on_part_def wq)
qed

lemma free_metadata_success:
  assumes "fx_laws api live" "free_metadata api process (sd, w) = Inr (NICC_SUCCESS, (sd', w'))"
  shows "drops live [dev_metadata sd] w w' \<and> sd' = sd"
  using assms(2) fx_free [OF assms(1)]
  by (auto simp: free_metadata_def drops_def split: if_splits prod.splits)

definition freed_addrs :: "dpa_side \<Rightarrow> u64 list" where
  "freed_addrs sd = sq_cq_addrs sd @ rq_cq_addrs sd @ [dev_metadata sd]"

lemma deallocate_channel_success:
  assumes fx: "fx_laws api live" and eu: "\<forall>p. eth_unused (the_side p c)"
    and run: "deallocate_channel api (Some process) (c, w) = Inr (NICC_SUCCESS, (c', w'))"
  shows "drops live (freed_addrs (the_side True c) @ freed_addrs (the_side False c)) w w'"
proof -
  obtain a1 a2 b1 b2 e1 e2 d1 d2 w1 w2 w3 w4 w5 w6 w7 where
    1: "deallocate_sq_cq api process (the_side True c, w) = Inr (NICC_SUCCESS, (a1, w1))"
    and 2: "deallocate_rq_cq api process (a1, w1) = Inr (NICC_SUCCESS, (a2, w2))"
    and 3: "deallocate_sq_cq api process (the_side False c, w2) = Inr (NICC_SUCCESS, (b1, w3))"
    and 4: "deallocate_rq_cq api process (b1, w3) = Inr (NICC_SUCCESS, (b2, w4))"
    and 5: "destroy_qp api process (a2, w4) = Inr (NICC_SUCCESS, (e1, w5))"
    and 6: "destroy_qp api process (b2, w5) = Inr (NICC_SUCCESS, (e2, w6))"
    and 7: "free_metadata api process (e1, w6) = Inr (NICC_SUCCESS, (d1, w7))"
    and 8: "free_metadata api process (e2, w7) = Inr (NICC_SUCCESS, (d2, w'))"
    using run unfolding deallocate_channel_def option.case and_then_pair
    by (auto dest!: on_side_success)
  note g1 = deallocate_sq_cq_success [OF fx 1] and g2 = deallocate_rq_cq_success [OF fx 2]
    and g3 = deallocate_sq_cq_success [OF fx 3] and g4 = deallocate_rq_cq_success [OF fx 4]
    and g7 = free_metadata_success [OF fx 7] and g8 = free_metadata_success [OF fx 8]
  have "eth_unused a2" "eth_unused b2"
    using eu g1 g2 g3 g4 by (auto simp: qp_kept_def eth_unused_def)
  then have e: "e1 = a2" "e2 = b2" "w5 = w4" "w6 = w5"
    using 5 6 by (simp_all add: destroy_qp_unused)
  have d: "drops live (sq_cq_addrs (the_side True c)) w w1" "drops live (rq_cq_addrs (the_side True c)) w1 w2"
      "drops live (sq_cq_addrs (the_side False c)) w2 w3" "drops live (rq_cq_addrs (the_side False c)) w3 w4"
      "drops live [dev_metadata (the_side True c)] w4 w7" "drops live [dev_metadata (the_side False c)] w7 w'"
    using g1 g2 g3 g4 g7 g8 e by (simp_all add: qp_kept_def)
  note drops_trans [OF d(1) drops_trans [OF d(2) drops_trans [OF d(3) drops_trans [OF d(4) drops_trans [OF d(5,6)]]]]]
  then show ?thesis by (auto simp: drops_def freed_addrs_def)
qed

text \<open>
  C34. A channel with RDMA on both sides takes sixteen fresh device addresses; releasing it gives
  back the completion queues and the metadata and leaves the doorbell record, the data buffer and
  the ring of both queue pairs allocated.
\<close>

theorem rdma_channel_ledger:
  assumes "fx_laws api live" and "\<forall>i w. live (snd (open_device papi i w)) = live w"
    and "typeid_of_prior c = CH_RDMA" "typeid_of_next c = CH_RDMA"
    and "\<forall>p. eth_unused (the_side p c)"
    and "allocate_channel api papi pd uar process eh ctx dev port (c, w) = Inr (NICC_SUCCESS, (c1, w1))"
    and "deallocate_channel api (Some proc) (c1, w1) = Inr (NICC_SUCCESS, (c2, w2))"
  shows "grows live (side_addrs (the_side True c1) @ side_addrs (the_side False c1)) w w1 \<and>
    grows live (qp_addrs (the_side True c1) @ qp_addrs (the_side False c1)) w w2"
proof -
  note a = allocate_channel_success [OF assms(1-4,6)]
  then have "\<forall>p. eth_unused (the_side p c1)" using assms(5) by (simp add: eth_unused_def)
  note d = deallocate_channel_success [OF assms(1) this assms(7)]
  let ?Q = "qp_addrs (the_side True c1) @ qp_addrs (the_side False c1)"
    and ?F = "freed_addrs (the_side True c1) @ freed_addrs (the_side False c1)"
  have "grows live (?F @ ?Q) w w1"
    by (rule grows_perm [OF a [THEN conjunct1]]) (auto simp: side_addrs_def freed_addrs_def)
  from grows_drops [OF this d] a show ?thesis by blast
qed

subsection \<open>A driver and a port on which everything succeeds\<close>

text \<open>
  The device heap is the list of its addresses; an allocation takes the next address after the
  largest one and fails when there is none.
\<close>

definition demo_alloc :: "u64 \<Rightarrow> u64 list \<Rightarrow> (bool \<times> u64) \<times> u64 list" where
  "demo_alloc a w = (let n = foldr max w 0 in if n = - 1 then ((False, a), w) else ((True, n + 1), (n + 1) # w))"

definition demo_fx :: "u64 list flexio_api" where
  "demo_fx = \<lparr>host_calloc = \<lambda>_. True,
     buf_dev_alloc = \<lambda>_ _. demo_alloc,
     buf_dev_free = \<lambda>_ a w. (True, filter (\<lambda>x. x \<noteq> a) w),
     copy_from_host = \<lambda>_ _ _. demo_alloc,
     host2dev_memcpy = \<lambda>_ _ _ _ w. (True, w),
     cq_create = \<lambda>_ _ _ w. ((True, Some 1), w), cq_get_cq_num = \<lambda>_. 1, cq_destroy = \<lambda>_ w. (True, w),
     sq_create = \<lambda>_ _ _ _ w. ((True, Some 2), w), sq_get_wq_num = \<lambda>_. 2, sq_destroy = \<lambda>_ w. (True, w),
     rq_create = \<lambda>_ _ _ _ w. ((True, Some 3), w), rq_get_wq_num = \<lambda>_. 3, rq_destroy = \<lambda>_ w. (True, w),
     qp_create = \<lambda>_ _ _ w. ((True, Some 4), w), qp_get_qp_num = \<lambda>_. 4,
     qp_modify = \<lambda>_ _ w. (True, w),
     mkey_create = \<lambda>_ _ _ w. ((True, Some 5), w), mkey_get_id = \<lambda>_. 5,
     uar_get_id = \<lambda>_. 6, event_handler_get_thread = \<lambda>_. Some 7, ib_device_name = \<lambda>_. ''mlx5_0''\<rparr>"

lemma foldr_max_ge: "(x :: u64) \<in> set w \<Longrightarrow> x \<le> foldr max w 0"
  by (induction w) (auto simp: max_def)

lemma demo_alloc_law: "alloc_law set demo_alloc"
proof -
  have "foldr max w 0 + 1 \<notin> set w \<and> foldr max w 0 + 1 \<noteq> 0" if "foldr max w 0 \<noteq> (- 1 :: u64)" for w
  proof -
    have n0: "1 + foldr max w 0 \<noteq> 0" using that by (metis add.commute add_diff_cancel diff_0)
    then have "\<not> foldr max w 0 + 1 \<le> foldr max w 0"
      using unatSuc [OF n0] by (simp add: word_le_nat_alt add.commute)
    with n0 have "\<not> foldr max w 0 + 1 \<le> foldr max w 0 \<and> foldr max w 0 + 1 \<noteq> 0" by (simp add: add.commute)
    then show ?thesis using foldr_max_ge by blast
  qed
  then show ?thesis by (auto simp: alloc_law_def demo_alloc_def Let_def split: if_splits)
qed

lemma demo_fx_laws: "fx_laws demo_fx set"
  by (auto simp: fx_laws_def demo_fx_def keeps_def demo_alloc_law)

definition demo_side :: dpa_side where
  "demo_side = \<lparr>dev_queues = zero_queues,
     fx_handler = \<lparr>h_mode = 0, flexio_rq_cq_ptr = None, flexio_sq_cq_ptr = None, flexio_rq_ptr = None,
       flexio_sq_ptr = None, flexio_qp_ptr = None, sqd_mkey = None, rqd_mkey = None, qpd_mkey = None,
       qpd_mr_lkey = None, qpd_mbuf_start_addr = 0, rdma_rq_pi = 0\<rparr>,
     qp_info = new_QPInfo 0 0 None 0 [] [], dev_metadata = 0\<rparr>"

definition demo_dpa_channel :: Channel_DPA where
  "demo_dpa_channel = \<lparr>typeid_of_prior = CH_RDMA, typeid_of_next = CH_RDMA, mode_of_prior = PAKT_UNORDERED,
     mode_of_next = PAKT_UNORDERED, ch_state = kChannel_State_Uninit, side_prior = demo_side, side_next = demo_side,
     ch_process = None, ch_resolve = demo_resolve, remote_mac_addr = [], remote_gid = []\<rparr>"

definition demo_alloc_channel :: "(nicc_retval_t \<times> Channel_DPA \<times> u64 list) run" where
  "demo_alloc_channel = allocate_channel demo_fx demo_port (Some 1) (Some 2) (Some 3) (Some 4) (Some 5)
     ''mlx5_0'' 0 (demo_dpa_channel, [])"

definition demo_dealloc_channel :: "(nicc_retval_t \<times> Channel_DPA \<times> u64 list) run" where
  "demo_dealloc_channel = bind_run demo_alloc_channel (\<lambda>(_, s). deallocate_channel demo_fx (Some 3) s)"

lemmas demo_eval = demo_resolve_def allocate_channel_def common_resolve_phy_port_def roce_resolve_phy_port_def demo_port_def
  demo_dpa_channel_def demo_side_def demo_fx_def allocate_queues_def on_side_def and_then_def on_part_def
  allocate_sq_cq_def sq_cq_create_def allocate_rq_cq_def rq_cq_create_def allocate_cq_memory_def allocate_dbr_def
  demo_alloc_def the_side_def set_side_def create_qp_def create_rdma_qp_def rdma_qp_memory_def allocate_qp_memory_def
  upd_side_def on_dev_def create_dpa_mkey_def init_rq_ring_wqes_def rdma_qp_create_def set_info_if_rdma_def
  set_local_qp_info_def copy_metadata_def dpa_const_defs sizeof_data_seg_def LOG2VALUE_def lane_speed_def
  num_lanes_def hw_status_def IBV_PORT_ACTIVE_def IBV_PORT_ACTIVE_DEFER_def IBV_LINK_LAYER_ETHERNET_def
  bind_run_def assert_run_def Let_def zero_queues_def zero_cq_def zero_wq_def zero_qp_def new_QPInfo_def
  deallocate_channel_def deallocate_sq_cq_def deallocate_rq_cq_def destroy_handle_def deallocate_cq_memory_def
  deallocate_dbr_def free_field_def destroy_qp_def deallocate_wq_memory_def free_metadata_def

lemma demo_runs:
  "\<exists>c. demo_alloc_channel = Inr (NICC_SUCCESS, (c, rev [1, 2, 3, 4, 5, 6, 7, 8, 9, 10, 11, 12, 13, 14, 15, 16]))"
  "\<exists>c. demo_dealloc_channel = Inr (NICC_SUCCESS, (c, rev [9, 10, 11, 12, 13, 14]))"
  by (simp_all add: demo_alloc_channel_def demo_dealloc_channel_def demo_eval split del: if_split)

lemma rdma_channel_ledger_witness:
  "\<exists>c1 w1 c2 w2. demo_alloc_channel = Inr (NICC_SUCCESS, (c1, w1)) \<and>
     demo_dealloc_channel = Inr (NICC_SUCCESS, (c2, w2)) \<and> length w1 = 16 \<and> w2 = rev [9, 10, 11, 12, 13, 14] \<and>
     grows set (qp_addrs (the_side True c1) @ qp_addrs (the_side False c1)) [] w2"
proof -
  obtain c1 w1 where 1: "demo_alloc_channel = Inr (NICC_SUCCESS, (c1, w1))" and l: "length w1 = 16"
    using demo_runs(1) by (elim exE) simp
  obtain c2 w2 where 2: "demo_dealloc_channel = Inr (NICC_SUCCESS, (c2, w2))" and w2: "w2 = rev [9, 10, 11, 12, 13, 14]"
    using demo_runs(2) by (elim exE) simp
  have d: "deallocate_channel demo_fx (Some 3) (c1, w1) = Inr (NICC_SUCCESS, (c2, w2))"
    using 2 unfolding demo_dealloc_channel_def 1 by simp
  have "grows set (qp_addrs (the_side True c1) @ qp_addrs (the_side False c1)) [] w2"
    by (rule rdma_channel_ledger [OF demo_fx_laws _ _ _ _ 1 [unfolded demo_alloc_channel_def] d, THEN conjunct2])
       (simp_all add: demo_port_def demo_dpa_channel_def demo_side_def the_side_def eth_unused_def eth_part_def
          zero_queues_def zero_wq_def)
  with 1 2 l w2 show ?thesis by blast
qed

lemma cq_memory_roundtrip_witness:
  "\<exists>cq1 w1 cq2 w2. allocate_cq_memory demo_fx 1 7 (zero_cq, [40]) = Inr (NICC_SUCCESS, (cq1, w1)) \<and>
     deallocate_cq_memory demo_fx 1 (cq1, w1) = Inr (NICC_SUCCESS, (cq2, w2)) \<and> length w1 = 3 \<and> set w2 = {40}"
proof -
  have a: "allocate_cq_memory demo_fx 1 7 (zero_cq, [40])
      = Inr (NICC_SUCCESS, (zero_cq\<lparr>cq_dbr_daddr := 41, cq_ring_daddr := 42\<rparr>, [42, 41, 40]))"
    and d: "deallocate_cq_memory demo_fx 1 (zero_cq\<lparr>cq_dbr_daddr := 41, cq_ring_daddr := 42\<rparr>, [42, 41, 40])
      = Inr (NICC_SUCCESS, (zero_cq, [40]))"
    by (simp_all add: demo_eval)
  show ?thesis using cq_memory_roundtrip [OF demo_fx_laws a d] a d by auto
qed

text \<open>A driver whose device heap has only two addresses, \<open>1\<close> and \<open>2\<close>.\<close>

definition small_alloc :: "u64 \<Rightarrow> u64 list \<Rightarrow> (bool \<times> u64) \<times> u64 list" where
  "small_alloc a w = (if 1 \<notin> set w then ((True, 1), 1 # w) else if 2 \<notin> set w then ((True, 2), 2 # w) else ((False, a), w))"

definition small_fx :: "u64 list flexio_api" where
  "small_fx = demo_fx\<lparr>buf_dev_alloc := \<lambda>_ _. small_alloc, copy_from_host := \<lambda>_ _ _. small_alloc\<rparr>"

lemma small_fx_laws: "fx_laws small_fx set"
  by (auto simp: fx_laws_def small_fx_def demo_fx_def keeps_def alloc_law_def small_alloc_def split: if_splits)

text \<open>The third allocation, of the doorbell record, fails; both others are given back.\<close>

lemma wq_memory_no_leak_witness:
  "\<exists>wq w. allocate_wq_memory small_fx 1 7 64 (zero_wq, []) = Inr (NICC_ERROR_HARDWARE_FAILURE, (wq, w)) \<and> w = []"
proof -
  have a: "allocate_wq_memory small_fx 1 7 64 (zero_wq, [])
      = Inr (NICC_ERROR_HARDWARE_FAILURE, (zero_wq\<lparr>wqd_daddr := 1, wq_ring_daddr := 2\<rparr>, []))"
    by (simp add: demo_eval small_fx_def small_alloc_def allocate_wq_memory_def wq_alloc_steps_def alloc_field_def
        wq_alloc_dbr_def wq_free_checked_def)
  show ?thesis using wq_memory_no_leak [OF small_fx_laws a] a by simp
qed

end
