(* ===== verification/DpaChecks.thy ===== *)
theory DpaChecks
  imports DpaLedger
begin

text \<open>
  The connection state of a DPA channel, and the device memory that a recorder of the driver's calls
  sees allocated and written while an RDMA queue pair is created.
\<close>

subsection \<open>Connecting a side\<close>

lemma modify_to_channel:
  "modify_to api p qi st (c, w) = Inr (r, (c', w')) \<Longrightarrow> c' = c"
  by (auto simp: modify_to_def split: prod.splits)

lemma connect_qp_to_host_state:
  assumes "connect_qp_to_host api p qi (c, w) = Inr (r, (c', w'))"
  shows "ch_state c' = ch_state c"
  using assms unfolding connect_qp_to_host_def
  by (auto simp: and_then_eq_Inr split: if_splits dest!: modify_to_channel)

lemma fill_recv_queue_channel:
  "fill_recv_queue api p (c, w) = Inr (r, (c', w')) \<Longrightarrow> c' = c"
  by (auto simp: fill_recv_queue_def split: option.splits prod.splits)

text \<open>
  C35. A side is connected at most once: a second attempt is refused and changes nothing, a
  successful one sets the bit of this side, a failed one sets none, and the other side keeps its
  bit. A side with a neighbour block never gets connected.
\<close>

theorem connect_qp_state:
  assumes "connect_qp api p nb qi (c, w) = Inr (r, (c', w'))"
  shows "(if is_connected p (ch_state c) then r = NICC_ERROR_DUPLICATED \<and> c' = c \<and> w' = w
      else (is_connected p (ch_state c') \<longleftrightarrow> r = NICC_SUCCESS)
        \<and> (nb \<noteq> None \<longrightarrow> r = NICC_ERROR_NOT_IMPLEMENTED \<and> c' = c \<and> w' = w))
    \<and> is_connected (\<not> p) (ch_state c') = is_connected (\<not> p) (ch_state c)"
proof (cases "is_connected p (ch_state c)")
  case True
  then show ?thesis using assms by (simp add: connect_qp_def)
next
  case False
  note nc = this
  show ?thesis
  proof (cases nb)
    case (Some n)
    then show ?thesis
      using assms nc by (simp add: connect_qp_def connect_qp_to_component_block_def and_then_def)
  next
    case None
    then obtain q where q: "qi = Some q" using assms nc by (cases qi) (auto simp: connect_qp_def and_then_def)
    let ?f = "and_then (connect_qp_to_host api p q) (fill_recv_queue api p)"
    have keep: "ch_state c1 = ch_state c" if "?f (c, w) = Inr (r1, (c1, w1))" for r1 c1 w1
      using that by (auto simp: and_then_eq_Inr dest: connect_qp_to_host_state fill_recv_queue_channel)
    have "(\<exists>c1. ?f (c, w) = Inr (NICC_SUCCESS, (c1, w')) \<and> r = NICC_SUCCESS \<and>
          c' = c1\<lparr>ch_state := mark_connected p (ch_state c1)\<rparr>)
        \<or> (?f (c, w) = Inr (r, (c', w')) \<and> r \<noteq> NICC_SUCCESS)"
      using assms nc None q unfolding connect_qp_def
      by (auto simp: and_then_eq_Inr [of "and_then _ _"] split: if_splits)
    then show ?thesis using keep nc None by auto
  qed
qed

definition demo_peer :: QPInfo where
  "demo_peer = (new_QPInfo 7 0 None 0 [] [])\<lparr>qi_is_initialized := True\<rparr>"

lemma connect_qp_state_witness:
  "\<exists>c. connect_qp demo_fx True None (Some demo_peer) (demo_dpa_channel\<lparr>ch_process := Some 3\<rparr>, [])
      = Inr (NICC_SUCCESS, (c, []))
    \<and> is_connected True (ch_state c) \<and> \<not> is_connected False (ch_state c)"
proof -
  let ?d = "demo_dpa_channel\<lparr>ch_process := Some 3\<rparr>"
  have d: "ch_state ?d = kChannel_State_Uninit" by (simp add: demo_dpa_channel_def)
  have "\<exists>c. connect_qp demo_fx True None (Some demo_peer) (?d, []) = Inr (NICC_SUCCESS, (c, []))"
    by (simp add: connect_qp_def d and_then_def connect_qp_to_host_def demo_peer_def modify_to_def
        fill_recv_queue_def demo_fx_def hw_status_def)
  then obtain c where c: "connect_qp demo_fx True None (Some demo_peer) (?d, []) = Inr (NICC_SUCCESS, (c, []))" ..
  show ?thesis using connect_qp_state [OF c] c by (simp add: d)
qed

subsection \<open>The receive descriptors\<close>

text \<open>
  A recorder between the channel and any driver: it passes every call on, and keeps a log of the
  successful calls on device memory (allocations with their address and size, copies with their
  destination and size, and frees).
\<close>

datatype dev_call = Dev_Alloc u64 nat | Dev_Copy u64 nat | Dev_Free u64

definition quietly :: "('w \<Rightarrow> 'r \<times> 'w) \<Rightarrow> 'w \<times> dev_call list \<Rightarrow> 'r \<times> 'w \<times> dev_call list" where
  "quietly f = (\<lambda>(w, l). let (r, w') = f w in (r, (w', l)))"

definition log_alloc :: "nat \<Rightarrow> ('w \<Rightarrow> (bool \<times> u64) \<times> 'w) \<Rightarrow> 'w \<times> dev_call list \<Rightarrow> (bool \<times> u64) \<times> 'w \<times> dev_call list" where
  "log_alloc n f = (\<lambda>(w, l). let ((ok, a), w') = f w in ((ok, a), (w', if ok then l @ [Dev_Alloc a n] else l)))"

definition log_call :: "dev_call \<Rightarrow> ('w \<Rightarrow> bool \<times> 'w) \<Rightarrow> 'w \<times> dev_call list \<Rightarrow> bool \<times> 'w \<times> dev_call list" where
  "log_call x f = (\<lambda>(w, l). let (ok, w') = f w in (ok, (w', if ok then l @ [x] else l)))"

definition logged :: "'w flexio_api \<Rightarrow> ('w \<times> dev_call list) flexio_api" where
  "logged api = \<lparr>host_calloc = \<lambda>(w, l). host_calloc api w,
     buf_dev_alloc = \<lambda>p n a. log_alloc (unat n) (buf_dev_alloc api p n a),
     buf_dev_free = \<lambda>p a. log_call (Dev_Free a) (buf_dev_free api p a),
     copy_from_host = \<lambda>p d n a. log_alloc (unat n) (copy_from_host api p d n a),
     host2dev_memcpy = \<lambda>p d n a. log_call (Dev_Copy a (unat n)) (host2dev_memcpy api p d n a),
     cq_create = \<lambda>p x a. quietly (cq_create api p x a), cq_get_cq_num = cq_get_cq_num api,
     cq_destroy = \<lambda>c. quietly (cq_destroy api c),
     sq_create = \<lambda>p n x a. quietly (sq_create api p n x a), sq_get_wq_num = sq_get_wq_num api,
     sq_destroy = \<lambda>c. quietly (sq_destroy api c),
     rq_create = \<lambda>p n x a. quietly (rq_create api p n x a), rq_get_wq_num = rq_get_wq_num api,
     rq_destroy = \<lambda>c. quietly (rq_destroy api c),
     qp_create = \<lambda>p x a. quietly (qp_create api p x a), qp_get_qp_num = qp_get_qp_num api,
     qp_modify = \<lambda>q x. quietly (qp_modify api q x),
     mkey_create = \<lambda>p x a. quietly (mkey_create api p x a), mkey_get_id = mkey_get_id api,
     uar_get_id = uar_get_id api, event_handler_get_thread = event_handler_get_thread api,
     ib_device_name = ib_device_name api\<rparr>"

lemma quietly_log: "quietly f (w, l) = (r, (w', l')) \<Longrightarrow> l' = l"
  by (auto simp: quietly_def split: prod.splits)

lemma log_alloc_ok: "log_alloc n f (w, l) = ((True, a), (w', l')) \<Longrightarrow> l' = l @ [Dev_Alloc a n]"
  by (auto simp: log_alloc_def split: prod.splits)

lemma log_call_ok: "log_call x f (w, l) = (True, (w', l')) \<Longrightarrow> l' = l @ [x]"
  by (auto simp: log_call_def split: prod.splits)

lemma logged_calls [simp]:
  "buf_dev_alloc (logged api) p n a = log_alloc (unat n) (buf_dev_alloc api p n a)"
  "copy_from_host (logged api) p d n a = log_alloc (unat n) (copy_from_host api p d n a)"
  "host2dev_memcpy (logged api) p d n a = log_call (Dev_Copy a (unat n)) (host2dev_memcpy api p d n a)"
  "mkey_create (logged api) p y q = quietly (mkey_create api p y q)"
  "qp_create (logged api) p z q = quietly (qp_create api p z q)"
  by (simp_all add: logged_def)

text \<open>The recorder changes nothing: without the log, each operation does what it does on the driver itself.\<close>

definition forget :: "('r \<times> 'p \<times> 'w \<times> dev_call list) run \<Rightarrow> ('r \<times> 'p \<times> 'w) run" where
  "forget x = bind_run x (\<lambda>(r, p, w, l). Inr (r, p, w))"

lemma forget_simps [simp]: "forget (Inl e) = Inl e" "forget (Inr (r, p, w, l)) = Inr (r, p, w)"
  by (simp_all add: forget_def)

definition transparent :: "('p \<times> 'w \<times> dev_call list) operation \<Rightarrow> ('p \<times> 'w) operation \<Rightarrow> bool" where
  "transparent f g \<longleftrightarrow> (\<forall>p w l. forget (f (p, (w, l))) = g (p, w))"

lemma transparent_and_then:
  assumes "transparent f g" "transparent f' g'"
  shows "transparent (and_then f f') (and_then g g')"
  unfolding transparent_def
proof (intro allI)
  fix p w l
  have g: "g (p, w) = forget (f (p, (w, l)))" using assms(1) by (simp add: transparent_def)
  show "forget (and_then f f' (p, (w, l))) = and_then g g' (p, w)"
  proof (cases "f (p, (w, l))")
    case (Inl e)
    then show ?thesis by (simp add: and_then_def g)
  next
    case (Inr x)
    obtain r p1 w1 l1 where "x = (r, p1, w1, l1)" by (metis surj_pair)
    with Inr assms(2) show ?thesis by (simp add: and_then_def g transparent_def)
  qed
qed

lemma transparent_on_part:
  assumes "\<And>d w l. forget (f (d, (w, l))) = g (d, w)"
  shows "transparent (on_part get put f) (on_part get put g)"
  unfolding transparent_def
proof (intro allI)
  fix p w l
  have g: "g (get p, w) = forget (f (get p, (w, l)))" by (simp add: assms)
  show "forget (on_part get put f (p, (w, l))) = on_part get put g (p, w)"
  proof (cases "f (get p, (w, l))")
    case (Inl e)
    then show ?thesis by (simp add: on_part_def g)
  next
    case (Inr x)
    obtain r d w1 l1 where "x = (r, d, w1, l1)" by (metis surj_pair)
    with Inr show ?thesis by (simp add: on_part_def g)
  qed
qed

lemma transparent_upd_side: "transparent (upd_side f) (upd_side f)"
  by (simp add: transparent_def upd_side_def)

lemma transparent_with: "(\<And>p. transparent (f p) (g p)) \<Longrightarrow> transparent (\<lambda>(p, w). f p (p, w)) (\<lambda>(p, w). g p (p, w))"
  by (simp add: transparent_def)

lemma transparent_dbr: "forget (allocate_dbr (logged api) process (d, (w, l))) = allocate_dbr api process (d, w)"
  by (simp add: allocate_dbr_def log_alloc_def split: prod.split)

lemma transparent_memory: "transparent (rdma_qp_memory (logged api) process) (rdma_qp_memory api process)"
proof -
  have "transparent (allocate_qp_memory (logged api) process m n k) (allocate_qp_memory api process m n k)" for m n k
  proof (cases "k > 0 \<and> k mod 2 = 0")
    case True
    then show ?thesis
      unfolding allocate_qp_memory_def
      by (simp, intro transparent_and_then) (simp_all add: transparent_def log_alloc_def Let_def split: prod.split)
  next
    case False
    then have "assert_run (k > 0 \<and> k mod 2 = 0) = Inl Assert_Failed" by (simp only: assert_run_def if_False)
    then show ?thesis by (simp only: allocate_qp_memory_def transparent_def bind_run_Inl forget_simps) simp
  qed
  note t = this [unfolded transparent_def, rule_format]
  show ?thesis
    unfolding transparent_def rdma_qp_memory_def
  proof (intro allI, goal_cases)
    case (1 p w l)
    note t [of DPA_LOG_SQ_RING_DEPTH DPA_LOG_RQ_RING_DEPTH sizeof_data_seg p w l, symmetric]
    then show ?case
      by (cases "allocate_qp_memory (logged api) process DPA_LOG_SQ_RING_DEPTH DPA_LOG_RQ_RING_DEPTH sizeof_data_seg (p, (w, l))")
        (auto simp: forget_def)
  qed
qed

lemma transparent_mkey: "forget (create_dpa_mkey (logged api) process pd a n acc (k, (w, l))) = create_dpa_mkey api process pd a n acc (k, w)"
  by (cases "a = 0") (simp_all add: create_dpa_mkey_def quietly_def split: prod.split)

lemma transparent_wqes:
  "transparent (on_dev (\<lambda>sd. init_rq_ring_wqes (logged api) process (a sd) n (d sd) (k sd)))
     (on_dev (\<lambda>sd. init_rq_ring_wqes api process (a sd) n (d sd) (k sd)))"
proof -
  have h: "host_calloc (logged api) (w, l) = host_calloc api w" for w l by (simp add: logged_def)
  show ?thesis
    unfolding transparent_def
  proof (intro allI, goal_cases)
    case (1 sd w l)
    then show ?case
      by (cases "a sd = 0"; cases "d sd = 0"; cases "host_calloc api w")
        (simp_all add: on_dev_def init_rq_ring_wqes_def h log_call_def del: rq_wqes.simps split: prod.split)
  qed
qed

lemma transparent_create: "transparent (rdma_qp_create (logged api) pd uar process) (rdma_qp_create api pd uar process)"
  by (simp add: transparent_def rdma_qp_create_def rdma_qp_attr_def quietly_def Let_def logged_def split: prod.split)

lemma transparent_rdma_qp: "transparent (create_rdma_qp (logged api) pd uar process) (create_rdma_qp api pd uar process)"
proof -
  have "mkey_get_id (logged api) = mkey_get_id api" by (simp add: logged_def)
  then show ?thesis
    unfolding create_rdma_qp_def
    by (simp only:) (intro transparent_and_then transparent_on_part transparent_upd_side transparent_with transparent_dbr
        transparent_memory transparent_mkey transparent_wqes transparent_create)
qed

text \<open>What each step of the creation leaves in the log.\<close>

lemma dbr_log:
  assumes "allocate_dbr (logged api) process (d, (w, l)) = Inr (NICC_SUCCESS, (d', (w', l')))"
  shows "l' = l @ [Dev_Alloc d' 8]"
proof -
  have "log_alloc 8 (copy_from_host api process (Dbr [0, 0]) 8 d) (w, l) = ((True, d'), (w', l'))"
    using assms by (auto simp: allocate_dbr_def hw_status_def split: prod.splits if_splits)
  from log_alloc_ok [OF this] show ?thesis .
qed

lemma rdma_memory_log:
  assumes "rdma_qp_memory (logged api) process (sd, (w, l)) = Inr (NICC_SUCCESS, (sd', (w', l')))"
  shows "l' = l @ [Dev_Alloc (qpd_mbuf_start_addr (fx_handler sd')) 262144, Dev_Alloc (qp_rq_daddr (the_qp sd')) 4096] \<and>
    qp_sq_daddr (the_qp sd') = qp_rq_daddr (the_qp sd') + 2048 \<and> qp_dbr_daddr (the_qp sd') = qp_dbr_daddr (the_qp sd)"
proof -
  obtain ok1 a w1 l1 where 1: "log_alloc 262144 (buf_dev_alloc api process 262144 (qpd_mbuf_start_addr (fx_handler sd))) (w, l) = ((ok1, a), (w1, l1))"
    by (metis surj_pair)
  obtain ok2 b w2 l2 where 2: "log_alloc 4096 (buf_dev_alloc api process 4096 0) (w1, l1) = ((ok2, b), (w2, l2))"
    by (metis surj_pair)
  have "ok1" "ok2" "w2 = w'" "l2 = l'"
    and sd: "sd' = upd_qp (\<lambda>q. q\<lparr>qp_rq_daddr := b, qp_sq_daddr := b + 2048\<rparr>) (upd_handler (qpd_mbuf_start_addr_update (\<lambda>_. a)) sd)"
    using assms
    by (auto simp: rdma_qp_memory_def allocate_qp_memory_def and_then_def hw_status_def
        dpa_const_defs LOG2VALUE_def sizeof_data_seg_def 1 2 split: if_splits)
  with log_alloc_ok [OF 1 [unfolded \<open>ok1\<close> [THEN eqTrueI]]] log_alloc_ok [OF 2 [unfolded \<open>ok2\<close> [THEN eqTrueI]]] show ?thesis
    by (simp add: sd)
qed

lemma mkey_log:
  assumes "create_dpa_mkey (logged api) process pd a n acc (k, (w, l)) = Inr (NICC_SUCCESS, (k', (w', l')))"
  shows "l' = l"
proof -
  obtain r where "quietly (mkey_create api process \<lparr>mk_pd = pd, mk_daddr = a, mk_len = LOG2VALUE n, mk_access = acc\<rparr> k) (w, l) = (r, (w', l'))"
    using assms by (auto simp: create_dpa_mkey_def bind_run_eq_Inr split: prod.splits)
  then show ?thesis by (rule quietly_log)
qed

lemma wqes_log:
  assumes "init_rq_ring_wqes (logged api) process ring 7 d k (w, l) = Inr (NICC_SUCCESS, (w', l'))"
  shows "l' = l @ [Dev_Copy ring 8192]"
proof -
  have "log_call (Dev_Copy ring 8192) (host2dev_memcpy api process (Wqes (rq_wqes (2 ^ 7) k d)) 8192 ring) (w, l) = (True, (w', l'))"
    using assms by (auto simp: init_rq_ring_wqes_def bind_run_eq_Inr hw_status_def DPA_LOG_WQE_BSIZE_def LOG2VALUE_def
        simp del: rq_wqes.simps split: prod.splits if_splits)
  then show ?thesis by (rule log_call_ok)
qed

lemma qp_create_log:
  assumes "rdma_qp_create (logged api) pd uar process (sd, (w, l)) = Inr (NICC_SUCCESS, (sd', (w', l')))"
  shows "l' = l \<and> qp_rq_daddr (the_qp sd') = qp_rq_daddr (the_qp sd) \<and> qp_sq_daddr (the_qp sd') = qp_sq_daddr (the_qp sd) \<and>
    qp_dbr_daddr (the_qp sd') = qp_dbr_daddr (the_qp sd) \<and>
    qpd_mbuf_start_addr (fx_handler sd') = qpd_mbuf_start_addr (fx_handler sd)"
  using assms by (auto simp: rdma_qp_create_def Let_def dest!: quietly_log split: prod.splits if_splits)

lemma rdma_qp_log:
  assumes "create_rdma_qp (logged api) pd uar process (sd, (w, [])) = Inr (NICC_SUCCESS, (sd', (w', l)))"
  shows "l = [Dev_Alloc (qp_dbr_daddr (the_qp sd')) 8, Dev_Alloc (qpd_mbuf_start_addr (fx_handler sd')) 262144,
      Dev_Alloc (qp_rq_daddr (the_qp sd')) 4096, Dev_Copy (qp_rq_daddr (the_qp sd')) 8192] \<and>
    qp_sq_daddr (the_qp sd') = qp_rq_daddr (the_qp sd') + 2048"
proof -
  let ?api = "logged api"
  obtain sd1 v1 sd2 v2 sd3 v3 sd4 v4 sd5 v5 sd6 v6 where
    1: "on_dbr (allocate_dbr ?api process) (sd, (w, [])) = Inr (NICC_SUCCESS, (sd1, v1))"
    and 2: "rdma_qp_memory ?api process (sd1, v1) = Inr (NICC_SUCCESS, (sd2, v2))"
    and 3: "upd_side (\<lambda>sd. upd_qp (qpd_daddr_update (\<lambda>_. qpd_mbuf_start_addr (fx_handler sd))) sd) (sd2, v2)
      = Inr (NICC_SUCCESS, (sd3, v3))"
    and 4: "(\<lambda>(sd, w). on_qpd_mkey (create_dpa_mkey ?api process pd (qpd_mbuf_start_addr (fx_handler sd))
         (DPA_LOG_SQ_RING_DEPTH + 1 + DPA_LOG_WQ_DATA_ENTRY_BSIZE)
         {ACC_LOCAL_WRITE, ACC_REMOTE_WRITE, ACC_REMOTE_READ, ACC_RELAXED_ORDERING}) (sd, w)) (sd3, v3)
      = Inr (NICC_SUCCESS, (sd4, v4))"
    and 5: "upd_side (\<lambda>sd. let id = mkey_get_id ?api (qpd_mkey (fx_handler sd))
         in upd_handler (qpd_mr_lkey_update (\<lambda>_. Some id)) (upd_qp (\<lambda>q. q\<lparr>qpd_mkey_id := id, qpd_lkey := ucast id\<rparr>) sd)) (sd4, v4)
      = Inr (NICC_SUCCESS, (sd5, v5))"
    and 6: "on_dev (\<lambda>sd. init_rq_ring_wqes ?api process (qp_rq_daddr (the_qp sd)) DPA_LOG_RQ_RING_DEPTH
         (qpd_daddr (the_qp sd)) (qpd_mkey_id (the_qp sd))) (sd5, v5) = Inr (NICC_SUCCESS, (sd6, v6))"
    and 7: "rdma_qp_create ?api pd uar process (sd6, v6) = Inr (NICC_SUCCESS, (sd', (w', l)))"
    using assms unfolding create_rdma_qp_def and_then_pair by (elim exE conjE)
  obtain w1 l1 w2 l2 w4 l4 w6 l6 where v: "v1 = (w1, l1)" "v2 = (w2, l2)" "v4 = (w4, l4)" "v6 = (w6, l6)"
    by (metis surj_pair)
  have "l1 = [Dev_Alloc (qp_dbr_daddr (the_qp sd1)) 8]"
    using on_part_success [OF 1 [unfolded v]] dbr_log [where l = "[]"] by fastforce
  moreover note m = rdma_memory_log [OF 2 [unfolded v]]
  moreover have s3: "sd3 = upd_qp (qpd_daddr_update (\<lambda>_. qpd_mbuf_start_addr (fx_handler sd2))) sd2" "v3 = (w2, l2)"
    using 3 by (simp_all add: upd_side_def v)
  moreover obtain k where k: "create_dpa_mkey ?api process pd (qpd_mbuf_start_addr (fx_handler sd3))
      (DPA_LOG_SQ_RING_DEPTH + 1 + DPA_LOG_WQ_DATA_ENTRY_BSIZE)
      {ACC_LOCAL_WRITE, ACC_REMOTE_WRITE, ACC_REMOTE_READ, ACC_RELAXED_ORDERING} (qpd_mkey (fx_handler sd3), (w2, l2)) = Inr (NICC_SUCCESS, (k, (w4, l4)))"
    "sd4 = upd_handler (qpd_mkey_update (\<lambda>_. k)) sd3"
    using on_part_success [OF 4 [unfolded s3(2) v prod.case]] by auto
  moreover note mkey_log [OF k(1)]
  moreover have s5: "the_qp sd5 = (the_qp sd4)\<lparr>qpd_mkey_id := qpd_mkey_id (the_qp sd5), qpd_lkey := qpd_lkey (the_qp sd5)\<rparr>"
    "qpd_mbuf_start_addr (fx_handler sd5) = qpd_mbuf_start_addr (fx_handler sd4)" "v5 = (w4, l4)"
    using 5 by (auto simp: upd_side_def v Let_def)
  moreover have "sd6 = sd5"
    "init_rq_ring_wqes ?api process (qp_rq_daddr (the_qp sd5)) 7 (qpd_daddr (the_qp sd5)) (qpd_mkey_id (the_qp sd5)) (w4, l4)
      = Inr (NICC_SUCCESS, (w6, l6))"
    using 6 by (auto simp: on_dev_def bind_run_eq_Inr s5(3) v DPA_LOG_RQ_RING_DEPTH_def)
  moreover note wqes_log [OF this(2)] qp_create_log [OF 7 [unfolded v]]
  moreover have "qp_rq_daddr (the_qp sd5) = qp_rq_daddr (the_qp sd4)" "qp_sq_daddr (the_qp sd5) = qp_sq_daddr (the_qp sd4)"
    "qp_dbr_daddr (the_qp sd5) = qp_dbr_daddr (the_qp sd4)"
    by (subst s5(1), simp)+
  ultimately show ?thesis by simp
qed

text \<open>
  C36. On every driver: when an RDMA queue pair is created, the driver has been asked for 8 bytes of
  doorbell record, for the data buffers, and for 4096 bytes of rings, and then for a copy of 8192 bytes
  of receive descriptors to the start of these rings. The copy runs over the send ring, which begins
  2048 bytes further on, and 4096 bytes past the end of the allocation.
\<close>

theorem rdma_ring_overrun:
  assumes "create_rdma_qp api pd uar process (sd, w) = Inr (NICC_SUCCESS, (sd', w'))"
  shows "create_rdma_qp (logged api) pd uar process (sd, (w, [])) = Inr (NICC_SUCCESS, (sd', (w',
      [Dev_Alloc (qp_dbr_daddr (the_qp sd')) 8, Dev_Alloc (qpd_mbuf_start_addr (fx_handler sd')) 262144,
       Dev_Alloc (qp_rq_daddr (the_qp sd')) 4096, Dev_Copy (qp_rq_daddr (the_qp sd')) 8192]))) \<and>
    qp_sq_daddr (the_qp sd') = qp_rq_daddr (the_qp sd') + 2048"
proof -
  have f: "forget (create_rdma_qp (logged api) pd uar process (sd, (w, []))) = Inr (NICC_SUCCESS, (sd', w'))"
    using transparent_rdma_qp [of api pd uar process] assms by (simp add: transparent_def)
  then obtain x where x: "create_rdma_qp (logged api) pd uar process (sd, (w, [])) = Inr x"
    by (cases "create_rdma_qp (logged api) pd uar process (sd, (w, []))") simp_all
  obtain r s v l where "x = (r, s, v, l)" by (metis surj_pair)
  with f x have "create_rdma_qp (logged api) pd uar process (sd, (w, [])) = Inr (NICC_SUCCESS, (sd', (w', l)))" by simp
  with rdma_qp_log [OF this] show ?thesis by simp
qed

text \<open>The driver on which everything succeeds, recorded.\<close>

lemma rdma_ring_overrun_witness:
  "\<exists>sd w. create_rdma_qp (logged demo_fx) 1 2 3 (demo_side, ([], [])) = Inr (NICC_SUCCESS, (sd, (w,
     [Dev_Alloc 1 8, Dev_Alloc 2 262144, Dev_Alloc 3 4096, Dev_Copy 3 8192])))"
proof -
  have "\<exists>s. create_rdma_qp demo_fx 1 2 3 (demo_side, []) = Inr (NICC_SUCCESS, s) \<and>
      qp_dbr_daddr (the_qp (fst s)) = 1 \<and> qpd_mbuf_start_addr (fx_handler (fst s)) = 2 \<and> qp_rq_daddr (the_qp (fst s)) = 3"
    by (simp add: create_rdma_qp_def demo_eval)
  then obtain sd w where r: "create_rdma_qp demo_fx 1 2 3 (demo_side, []) = Inr (NICC_SUCCESS, (sd, w))"
    and a: "qp_dbr_daddr (the_qp sd) = 1" "qpd_mbuf_start_addr (fx_handler sd) = 2" "qp_rq_daddr (the_qp sd) = 3"
    by auto
  from rdma_ring_overrun [OF r] a show ?thesis by auto
qed

end
