(* ===== verification/CpuFreq.thy ===== *)
theory CpuFreq
  imports Timers StrUtils
begin

text \<open>
  The CPU frequency helpers of \<open>lib/common/src/numautils.cc\<close>: the reader of the \<open>sysfs\<close> files, the
  scan of \<open>/proc/cpuinfo\<close>, and the calls of \<open>cpufreq-set\<close>. The file system, \<open>stat\<close> and \<open>system\<close> are
  the parameter \<open>sys_shell\<close>; a file is the list of its lines.
\<close>

record 'w sys_shell =
  file_lines :: "string \<Rightarrow> 'w \<Rightarrow> string list option"
  path_exists :: "string \<Rightarrow> 'w \<Rightarrow> bool"
  run_system :: "string \<Rightarrow> 'w \<Rightarrow> int \<times> 'w"

subsection \<open>\<open>std::stod\<close>\<close>

text \<open>Decimal numbers with a fraction and an exponent; the value is rounded once.\<close>

definition split_sign :: "string \<Rightarrow> bool \<times> string" where
  "split_sign s = (case s of [] \<Rightarrow> (False, [])
     | c # cs \<Rightarrow> if c = CHR ''-'' then (True, cs) else if c = CHR ''+'' then (False, cs) else (False, s))"

definition split_fraction :: "string \<Rightarrow> string \<times> string" where
  "split_fraction s = (case s of [] \<Rightarrow> ([], [])
     | c # cs \<Rightarrow> if c = CHR ''.'' then (takeWhile is_digit cs, dropWhile is_digit cs) else ([], s))"

definition split_exponent :: "string \<Rightarrow> int" where
  "split_exponent s = (case s of [] \<Rightarrow> 0
     | c # cs \<Rightarrow> if c = CHR ''e'' \<or> c = CHR ''E''
         then let (neg, cs) = split_sign cs; n = dec_val (takeWhile is_digit cs) in if neg then - int n else int n
         else 0)"

definition stod :: "(real \<Rightarrow> real) \<Rightarrow> string \<Rightarrow> real run" where
  "stod rnd s =
     (let (neg, s) = split_sign (dropWhile is_space s);
          ip = takeWhile is_digit s;
          (fp, s) = split_fraction (dropWhile is_digit s);
          x = rnd (of_nat (dec_val (ip @ fp)) * 10 powr (of_int (split_exponent s) - of_nat (length fp)))
      in if ip @ fp = [] then Inl Std_Exception else Inr (if neg then - x else x))"

subsection \<open>Reading frequencies\<close>

definition cpu_file :: "nat \<Rightarrow> string \<Rightarrow> string" where
  "cpu_file core_idx name = ''/sys/devices/system/cpu/cpu'' @ to_dec core_idx @ ''/cpufreq/'' @ name"

text \<open>\<open>std::getline\<close> on an empty file leaves the empty string.\<close>

definition first_line :: "string list \<Rightarrow> string" where
  "first_line ls = (case ls of [] \<Rightarrow> [] | l # _ \<Rightarrow> l)"

definition get_cpu_freq_max_ghz :: "(real \<Rightarrow> real) \<Rightarrow> 'w sys_shell \<Rightarrow> nat \<Rightarrow> 'w \<Rightarrow> real run" where
  "get_cpu_freq_max_ghz rnd sh core_idx w =
     (case file_lines sh (cpu_file core_idx ''cpuinfo_max_freq'') w of
        Some ls \<Rightarrow> bind_run (stod rnd (first_line ls)) (\<lambda>x. Inr (rnd (rnd (x / 1000) / 1000)))
      | None \<Rightarrow> Inr 0)"

definition get_cpu_freq_max_hz :: "(real \<Rightarrow> real) \<Rightarrow> 'w sys_shell \<Rightarrow> nat \<Rightarrow> 'w \<Rightarrow> u64 run" where
  "get_cpu_freq_max_hz rnd sh core_idx w =
     (case file_lines sh (cpu_file core_idx ''cpuinfo_max_freq'') w of
        Some ls \<Rightarrow> bind_run (stod rnd (first_line ls)) (\<lambda>x. Inr (size_of_double x))
      | None \<Rightarrow> Inr 0)"

text \<open>The rest of the line after the colon; without one, \<open>npos + 1\<close> is 0 and the whole line is left.\<close>

definition after_colon :: "string \<Rightarrow> string" where
  "after_colon line = (case find_str '':'' line of None \<Rightarrow> line | Some i \<Rightarrow> drop (i + 1) line)"

fun scan_cpuinfo :: "(real \<Rightarrow> real) \<Rightarrow> nat \<Rightarrow> bool \<Rightarrow> string list \<Rightarrow> real run" where
  "scan_cpuinfo rnd core_idx flag [] = Inr 0"
| "scan_cpuinfo rnd core_idx flag (line # ls) =
     (let rest = (\<lambda>flag.
        if find_str ''cpu MHz'' line \<noteq> None \<and> flag
        then bind_run (stod rnd (after_colon line)) (\<lambda>x. Inr (rnd (x / 1000)))
        else scan_cpuinfo rnd core_idx flag ls)
      in if find_str ''processor'' line \<noteq> None
         then bind_run (stoi (after_colon line)) (\<lambda>i.
           if nat (i mod 2 ^ 64) \<noteq> core_idx then scan_cpuinfo rnd core_idx flag ls else rest True)
         else rest flag)"

definition get_cpu_freq_ghz :: "(real \<Rightarrow> real) \<Rightarrow> 'w sys_shell \<Rightarrow> nat \<Rightarrow> 'w \<Rightarrow> real run" where
  "get_cpu_freq_ghz rnd sh core_idx w =
     (case file_lines sh (cpu_file core_idx ''scaling_cur_freq'') w of
        Some ls \<Rightarrow> bind_run (stod rnd (first_line ls)) (\<lambda>x. Inr (rnd (rnd (x / 1000) / 1000)))
      | None \<Rightarrow> (case file_lines sh ''/proc/cpuinfo'' w of
          Some ls \<Rightarrow> scan_cpuinfo rnd core_idx False ls
        | None \<Rightarrow> Inl Nicc_Shutdown))"

definition is_cpu_freq_max :: "(real \<Rightarrow> real) \<Rightarrow> 'w sys_shell \<Rightarrow> nat \<Rightarrow> 'w \<Rightarrow> bool run" where
  "is_cpu_freq_max rnd sh core_idx w =
     bind_run (get_cpu_freq_ghz rnd sh core_idx w) (\<lambda>f.
       bind_run (get_cpu_freq_max_ghz rnd sh core_idx w) (\<lambda>m. Inr (f = m)))"

subsection \<open>Setting the governor\<close>

partial_function (option) wait_until :: "'w soc_clock \<Rightarrow> int \<Rightarrow> int \<Rightarrow> 'w \<Rightarrow> 'w option" where
  "wait_until clk start wait_sec w =
     (let (current, w) = hr_now clk w
      in if (current - start) div 1000000000 \<ge> wait_sec then Some w else wait_until clk start wait_sec w)"

definition wait_duration :: "'w soc_clock \<Rightarrow> int \<Rightarrow> 'w \<Rightarrow> 'w option" where
  "wait_duration clk wait_sec w = (let (start, w) = hr_now clk w in wait_until clk start wait_sec w)"

definition cpufreq_dir :: string where "cpufreq_dir = ''/sys/devices/system/cpu/cpu0/cpufreq''"

definition governor_cmd :: "nat \<Rightarrow> string \<Rightarrow> string" where
  "governor_cmd core_idx governor = ''sudo cpufreq-set -c'' @ to_dec core_idx @ '' -g '' @ governor"

text \<open>Without the directory the code only computes to warm up.\<close>

definition set_cpu_freq_max :: "'w soc_clock \<Rightarrow> 'w sys_shell \<Rightarrow> nat \<Rightarrow> 'w \<Rightarrow> 'w option" where
  "set_cpu_freq_max clk sh core_idx w =
     (if path_exists sh cpufreq_dir w
      then let (res, w) = run_system sh (governor_cmd core_idx ''performance'') w in wait_duration clk 2 w
      else Some w)"

definition set_cpu_freq_normal :: "'w sys_shell \<Rightarrow> nat \<Rightarrow> 'w \<Rightarrow> 'w" where
  "set_cpu_freq_normal sh core_idx w =
     (if path_exists sh cpufreq_dir w then snd (run_system sh (governor_cmd core_idx ''ondemand'') w) else w)"

text \<open>A clock that moves on by at least a nanosecond at every read ends the wait.\<close>

lemma wait_until_returns:
  assumes "\<And>w. fst (hr_now clk w) = now w \<and> now w < now (snd (hr_now clk w))"
  shows "\<exists>w'. wait_until clk start n w = Some w'"
proof (induction "nat (start + 1000000000 * n - now w)" arbitrary: w rule: less_induct)
  case less
  obtain t w1 where h: "hr_now clk w = (t, w1)" by (cases "hr_now clk w")
  have t: "t = now w" "now w < now w1" using assms [of w] by (simp_all add: h)
  show ?case
  proof (cases "(t - start) div 1000000000 \<ge> n")
    case True
    then show ?thesis by (subst wait_until.simps) (simp add: h)
  next
    case False
    have "n \<le> (t - start) div 1000000000" if "n * 1000000000 \<le> t - start"
      using zdiv_mono1 [OF that, of 1000000000] by simp
    with False have "t - start < 1000000000 * n" by linarith
    then have "nat (start + 1000000000 * n - now w1) < nat (start + 1000000000 * n - now w)" using t by simp
    from less [OF this] False show ?thesis by (subst wait_until.simps) (simp add: h)
  qed
qed

subsection \<open>The scan\<close>

definition other_line :: "string \<Rightarrow> bool" where
  "other_line l \<longleftrightarrow> find_str ''processor'' l = None \<and> find_str ''cpu MHz'' l = None"

text \<open>The block of one processor: its number, other lines, its frequency, other lines.\<close>

definition cpu_block :: "nat \<Rightarrow> string list \<Rightarrow> string \<Rightarrow> string list \<Rightarrow> string list" where
  "cpu_block i xs mhz ys = [''processor'' @ [CHR 0x09] @ '': '' @ to_dec i] @ xs @
     [''cpu MHz'' @ [CHR 0x09, CHR 0x09] @ '': '' @ mhz] @ ys"

lemma scan_other: "list_all other_line xs \<Longrightarrow> scan_cpuinfo rnd c flag (xs @ ls) = scan_cpuinfo rnd c flag ls"
  by (induction xs) (auto simp: other_line_def)

lemma stoi_space: "stoi (CHR '' '' # s) = stoi s"
  by (simp add: stoi_def split_number_def is_space_def)

lemma find_str_absent: "c \<in> set pat \<Longrightarrow> c \<notin> set s \<Longrightarrow> find_str pat s = None"
proof (induction s)
  case (Cons x s)
  then have "take (length pat) (x # s) \<noteq> pat" by (metis in_set_takeD)
  with Cons show ?case by simp
qed auto

lemma scan_block:
  assumes "list_all other_line xs" "list_all other_line ys" "i < 2 ^ 31" "CHR ''r'' \<notin> set mhz"
  shows "scan_cpuinfo rnd c False (cpu_block i xs mhz ys @ ls) =
    (if i = c then bind_run (stod rnd (CHR '' '' # mhz)) (\<lambda>x. Inr (rnd (x / 1000)))
     else scan_cpuinfo rnd c False ls)"
proof -
  have n: "stoi (CHR '' '' # to_dec i) = Inr (int i)" using assms(3) by (simp add: stoi_space stoi_to_dec)
  have m: "nat (int i mod 2 ^ 64) = i" using assms(3) by (simp add: nat_mod_distrib)
  have p: "find_str ''processor'' (''cpu MHz'' @ [CHR 0x09, CHR 0x09] @ '': '' @ mhz) = None"
    using assms(4) by (intro find_str_absent [of "CHR ''r''"]) simp_all
  have q: "find_str ''cpu MHz'' (''processor'' @ [CHR 0x09] @ '': '' @ to_dec i) = None"
    using to_dec_digits [of "CHR ''M''" i] by (intro find_str_absent [of "CHR ''M''"]) (auto simp: is_digit_def)
  show ?thesis
    using scan_other [OF assms(1)] scan_other [OF assms(2)] n m p q
    by (simp add: cpu_block_def after_colon_def)
qed

lemma scan_blocks:
  assumes "\<forall>i < n. list_all other_line (xs i) \<and> list_all other_line (ys i) \<and> CHR ''r'' \<notin> set (mhz i)"
    and "m \<le> n" "n \<le> 2 ^ 31"
  shows "scan_cpuinfo rnd c False (concat (map (\<lambda>i. cpu_block i (xs i) (mhz i) (ys i)) [m ..< n])) =
    (if m \<le> c \<and> c < n then bind_run (stod rnd (CHR '' '' # mhz c)) (\<lambda>x. Inr (rnd (x / 1000))) else Inr 0)"
  using assms(2)
proof (induction "n - m" arbitrary: m)
  case 0
  then show ?case by auto
next
  case (Suc k)
  then have "m < n" by simp
  moreover from this have "[m ..< n] = m # [Suc m ..< n]" by (rule upt_conv_Cons)
  moreover have "scan_cpuinfo rnd c False (concat (map (\<lambda>i. cpu_block i (xs i) (mhz i) (ys i)) [Suc m ..< n])) =
    (if Suc m \<le> c \<and> c < n then bind_run (stod rnd (CHR '' '' # mhz c)) (\<lambda>x. Inr (rnd (x / 1000))) else Inr 0)"
    using Suc by (intro Suc.hyps) auto
  ultimately show ?case
    using scan_block [of "xs m" "ys m" m "mhz m"] assms(1,3) by auto
qed

text \<open>
  \<open>/proc/cpuinfo\<close> of \<open>n\<close> processors: the frequency of the wanted one, and 0 of one that is not there.
\<close>

lemma cpuinfo_freq:
  assumes "\<forall>i < n. list_all other_line (xs i) \<and> list_all other_line (ys i) \<and> CHR ''r'' \<notin> set (mhz i)"
    and "n \<le> 2 ^ 31" "file_lines sh (cpu_file c ''scaling_cur_freq'') w = None"
    and "file_lines sh ''/proc/cpuinfo'' w = Some (concat (map (\<lambda>i. cpu_block i (xs i) (mhz i) (ys i)) [0 ..< n]))"
  shows "get_cpu_freq_ghz rnd sh c w =
    (if c < n then bind_run (stod rnd (CHR '' '' # mhz c)) (\<lambda>x. Inr (rnd (x / 1000))) else Inr 0)"
  using scan_blocks [OF assms(1) _ assms(2), of 0] assms(3,4) by (simp add: get_cpu_freq_ghz_def)

text \<open>A file without frequencies, as on Arm, gives 0 for every processor it lists.\<close>

lemma cpuinfo_no_freq:
  assumes "list_all (\<lambda>l. find_str ''cpu MHz'' l = None) ls"
  shows "scan_cpuinfo rnd c flag ls \<in> {Inr 0, Inl Std_Exception}"
  using assms
proof (induction ls arbitrary: flag)
  case (Cons l ls)
  have "stoi s = Inl Std_Exception \<or> (\<exists>v. stoi s = Inr v)" for s
    by (auto simp: stoi_def Let_def split: option.split)
  from this [of "after_colon l"] Cons.prems Cons.IH [of flag] Cons.IH [of True]
  show ?case by (auto simp: Let_def simp del: insert_iff split: if_splits)
qed simp

end
