(* ===== verification/NetTypes.thy ===== *)
theory NetTypes
  imports NiccTypes
begin

text \<open>
  Ports and addresses of \<open>lib/types.h\<close> and the header helpers of \<open>lib/common/ethhdr.h\<close> and
  \<open>lib/common/iphdr.h\<close>. Addresses are their bytes; the 16-bit view of the unions is the one of a
  little-endian processor, which both the host and the Arm cores are.
\<close>

unbundle bit_operations_syntax

definition NICC_SET_BIT :: "'a::len word \<Rightarrow> nat \<Rightarrow> 'a word" where
  "NICC_SET_BIT var bit_nr = var OR (ucast (push_bit bit_nr (1 :: u64)) AND - 1)"

definition NICC_SET_MASK :: "'a::len word \<Rightarrow> 'a word \<Rightarrow> 'a word" where
  "NICC_SET_MASK var m = var OR (m AND - 1)"

subsection \<open>Ports and addresses\<close>

text \<open>Both members of the union are the same 32 bits.\<close>

type_synonym physical_port = u32

definition port_neq :: "physical_port \<Rightarrow> u32 \<Rightarrow> bool" where "port_neq p other \<longleftrightarrow> p \<noteq> other"
definition port_eq :: "physical_port \<Rightarrow> u32 \<Rightarrow> bool" where "port_eq p other \<longleftrightarrow> p = other"

definition be16 :: "u8 list \<Rightarrow> nat \<Rightarrow> u16" where
  "be16 bs i = ucast (bs ! (2 * i)) OR push_bit 8 (ucast (bs ! (2 * i + 1)))"

text \<open>\<open>memcpy\<close> of the bytes into a zeroed 64-bit integer.\<close>

fun bytes_to_u64 :: "u8 list \<Rightarrow> u64" where
  "bytes_to_u64 [] = 0"
| "bytes_to_u64 (b # bs) = ucast b OR push_bit 8 (bytes_to_u64 bs)"

definition eth_addr_eq :: "u8 list \<Rightarrow> u8 list \<Rightarrow> bool" where
  "eth_addr_eq a b \<longleftrightarrow> be16 a 0 = be16 b 0 \<and> be16 a 1 = be16 b 1 \<and> be16 a 2 = be16 b 2"

definition eth_addr_neq_u64 :: "u8 list \<Rightarrow> u64 \<Rightarrow> bool" where
  "eth_addr_neq_u64 a other \<longleftrightarrow> bytes_to_u64 a \<noteq> other"

definition eth_addr_eq_u64 :: "u8 list \<Rightarrow> u64 \<Rightarrow> bool" where
  "eth_addr_eq_u64 a other \<longleftrightarrow> bytes_to_u64 a = other"

record eth_header =
  dl_dst :: "u8 list"
  dl_src :: "u8 list"
  dl_type :: u16

definition eth_header_eq :: "eth_header \<Rightarrow> eth_header \<Rightarrow> bool" where
  "eth_header_eq a b \<longleftrightarrow> eth_addr_eq (dl_dst a) (dl_dst b) \<and> eth_addr_eq (dl_src a) (dl_src b) \<and> dl_type a = dl_type b"

text \<open>
  The comparison of an \<open>ib_addr\<close> takes an \<open>eth_addr\<close>, whose array has three entries; the fourth
  comparison reads behind it.
\<close>

fun ib_compare :: "u8 list \<Rightarrow> u8 list \<Rightarrow> nat list \<Rightarrow> bool run" where
  "ib_compare a b [] = Inr True"
| "ib_compare a b (i # is) =
     (if i \<ge> 3 then Inl Bad_Access
      else if be16 a i = be16 b i then ib_compare a b is else Inr False)"

definition ib_addr_eq :: "u8 list \<Rightarrow> u8 list \<Rightarrow> bool run" where
  "ib_addr_eq a b = ib_compare a b [0 ..< 10]"

lemma be16_bits: "bit (be16 bs i) n = (if n < 8 then bit (bs ! (2 * i)) n else bit (bs ! (2 * i + 1)) (n - 8))"
  by (auto simp: be16_def bit_or_iff bit_push_bit_iff bit_ucast_iff dest: bit_imp_le_length)

lemma be16_inject: "be16 a i = be16 b j \<longleftrightarrow> a ! (2 * i) = b ! (2 * j) \<and> a ! (2 * i + 1) = b ! (2 * j + 1)"
proof
  assume eq: "be16 a i = be16 b j"
  have "bit (a ! (2 * i)) n = bit (b ! (2 * j)) n" if "n < 8" for n
    using be16_bits [of a i n] be16_bits [of b j n] that by (simp add: eq)
  moreover have "bit (a ! (2 * i + 1)) n = bit (b ! (2 * j + 1)) n" for n
    using be16_bits [of a i "n + 8"] be16_bits [of b j "n + 8"] by (simp add: eq)
  ultimately show "a ! (2 * i) = b ! (2 * j) \<and> a ! (2 * i + 1) = b ! (2 * j + 1)"
    by (auto intro: bit_word_eqI)
qed (simp add: be16_def)

text \<open>The comparison by half words is equality of the addresses.\<close>

lemma eth_addr_eq_iff:
  assumes "length a = 6" "length b = 6"
  shows "eth_addr_eq a b \<longleftrightarrow> a = b"
proof -
  have "a = b \<longleftrightarrow> (\<forall>i < 6. a ! i = b ! i)" using assms by (auto intro: nth_equalityI)
  moreover have "{i. i < 6} = {0, 1, 2, 3, 4, 5 :: nat}" by auto
  then have "(\<forall>i < 6. a ! i = b ! i) \<longleftrightarrow> (\<forall>i \<in> {0, 1, 2, 3, 4, 5}. a ! i = b ! i)" by blast
  ultimately show ?thesis by (auto simp: eth_addr_eq_def be16_inject)
qed

lemma bit_bytes_to_u64:
  "n < 64 \<Longrightarrow> bit (bytes_to_u64 bs) n \<longleftrightarrow> n div 8 < length bs \<and> bit (bs ! (n div 8)) (n mod 8)"
proof (induction bs arbitrary: n)
  case (Cons b bs)
  show ?case
  proof (cases "n < 8")
    case True
    then show ?thesis using Cons.prems by (simp add: bit_or_iff bit_push_bit_iff bit_ucast_iff)
  next
    case False
    then have "n div 8 = Suc ((n - 8) div 8)" "n mod 8 = (n - 8) mod 8" by (simp_all add: le_div_geq le_mod_geq)
    moreover have "\<not> bit b n" using False by (auto dest: bit_imp_le_length)
    ultimately show ?thesis using False Cons.prems Cons.IH [of "n - 8"]
      by (simp add: bit_or_iff bit_push_bit_iff bit_ucast_iff)
  qed
qed simp

lemma bytes_to_u64_inject:
  assumes "length a = length b" "length a \<le> 8" "bytes_to_u64 a = bytes_to_u64 b"
  shows "a = b"
proof (rule nth_equalityI [OF assms(1)])
  fix i assume i: "i < length a"
  have "bit (a ! i) k = bit (b ! i) k" if "k < 8" for k
  proof -
    have "8 * i + k < 64" using i assms(2) that by simp
    moreover have "(8 * i + k) div 8 = i" "(8 * i + k) mod 8 = k" using that by simp_all
    ultimately show ?thesis
      using bit_bytes_to_u64 [of "8 * i + k" a] bit_bytes_to_u64 [of "8 * i + k" b] i assms(1,3) by simp
  qed
  then show "a ! i = b ! i" by (auto intro: bit_word_eqI)
qed

text \<open>No comparison of an \<open>ib_addr\<close> with an \<open>eth_addr\<close> ever answers yes.\<close>

lemma ib_addr_eq_never: "ib_addr_eq a b = (if \<forall>i < 3. be16 a i = be16 b i then Inl Bad_Access else Inr False)"
proof -
  have "{i. i < 3} = {0, 1, 2 :: nat}" by auto
  then have "(\<forall>i < 3. be16 a i = be16 b i) \<longleftrightarrow> (\<forall>i \<in> {0, 1, 2}. be16 a i = be16 b i)" by blast
  then show ?thesis by (auto simp: ib_addr_eq_def upt_rec numeral_2_eq_2)
qed

subsection \<open>Ethernet headers\<close>

record eth_hdr =
  d_addr :: "u8 list"
  s_addr :: "u8 list"
  eth_type :: u16

definition htons :: "u16 \<Rightarrow> u16" where
  "htons x = push_bit 8 x OR drop_bit 8 x"

definition eth_addr_is_zero :: "u8 list \<Rightarrow> bool" where
  "eth_addr_is_zero ea \<longleftrightarrow> ea ! 0 = 0 \<and> ea ! 1 = 0 \<and> ea ! 2 = 0 \<and> ea ! 3 = 0 \<and> ea ! 4 = 0 \<and> ea ! 5 = 0"

definition eth_addr_copy :: "u8 list \<Rightarrow> u8 list" where
  "eth_addr_copy src = take 6 src"

definition eth_addr_swap :: "eth_hdr \<Rightarrow> eth_hdr" where
  "eth_addr_swap eth =
     (let addr = eth_addr_copy (d_addr eth);
          eth = eth\<lparr>d_addr := eth_addr_copy (s_addr eth)\<rparr>
      in eth\<lparr>s_addr := eth_addr_copy addr\<rparr>)"

definition eth_hdr_set :: "u16 \<Rightarrow> u8 list \<Rightarrow> u8 list \<Rightarrow> eth_hdr \<Rightarrow> eth_hdr" where
  "eth_hdr_set type d s eth =
     eth\<lparr>eth_type := htons type, d_addr := eth_addr_copy d, s_addr := eth_addr_copy s\<rparr>"

lemma htons_htons: "htons (htons x) = x"
proof (rule bit_word_eqI)
  fix n assume "n < LENGTH(16)"
  then show "bit (htons (htons x)) n = bit x n"
    using bit_imp_le_length [of x "n + 8 + 8"]
    by (auto simp: htons_def bit_or_iff bit_push_bit_iff bit_drop_bit_eq)
qed

lemma eth_addr_swap_twice:
  "length (d_addr e) = 6 \<Longrightarrow> length (s_addr e) = 6 \<Longrightarrow> eth_addr_swap (eth_addr_swap e) = e"
  by (simp add: eth_addr_swap_def eth_addr_copy_def)

subsection \<open>IP addresses\<close>

text \<open>An \<open>ipaddr_t\<close> is the 16 bytes of an IPv6 address, whose last four are \<open>ip\<close>.\<close>

definition u32_bytes :: "u32 \<Rightarrow> u8 list" where
  "u32_bytes x = map (\<lambda>i. ucast (drop_bit (8 * i) x)) [0 ..< 4]"

definition ipaddr_join :: "u8 list \<Rightarrow> u32 \<Rightarrow> u8 list" where
  "ipaddr_join prefix last_word = take 12 prefix @ u32_bytes last_word"

definition ipaddr_last_byte :: "u8 list \<Rightarrow> u8" where "ipaddr_last_byte addr = addr ! 15"
definition ipaddr_eq :: "u8 list \<Rightarrow> u8 list \<Rightarrow> bool" where "ipaddr_eq a b \<longleftrightarrow> take 16 a = take 16 b"

record iphdr =
  ip_version :: nat
  ip_saddr :: u32
  ip_daddr :: u32

record ip6_hdr =
  ip6_src :: "u8 list"
  ip6_dst :: "u8 list"

definition iph_swap_addr :: "iphdr \<Rightarrow> iphdr" where
  "iph_swap_addr iph = (let ip = ip_saddr iph; iph = iph\<lparr>ip_saddr := ip_daddr iph\<rparr> in iph\<lparr>ip_daddr := ip\<rparr>)"

definition ip6h_swap_addr :: "ip6_hdr \<Rightarrow> ip6_hdr" where
  "ip6h_swap_addr h =
     (let addr = take 16 (ip6_src h); h = h\<lparr>ip6_src := take 16 (ip6_dst h)\<rparr> in h\<lparr>ip6_dst := take 16 addr\<rparr>)"

lemma iph_swap_twice: "iph_swap_addr (iph_swap_addr h) = h"
  by (simp add: iph_swap_addr_def)

lemma ip6h_swap_twice:
  "length (ip6_src h) = 16 \<Longrightarrow> length (ip6_dst h) = 16 \<Longrightarrow> ip6h_swap_addr (ip6h_swap_addr h) = h"
  by (simp add: ip6h_swap_addr_def)

end
