(* ===== verification/Block.thy ===== *)
theory Block
  imports QPInfo FlowEngine
begin

text \<open>
  What the component blocks share: handlers and functions of an application
  (\<open>runtime/include/app_context.h\<close>), the device state and its set-up
  (\<open>runtime/include/utils/ibv_device.h\<close>, \<open>runtime/src/utils/ibv_device.cc\<close>), the base class of
  the blocks (\<open>runtime/include/datapath/component_block.h\<close>, \<open>component_block.cc\<close>), the descriptors
  of the three kinds of block, and the flow engine block of
  \<open>runtime/src/datapath/block_impl/flow_engine.cc\<close>.
\<close>

subsection \<open>Pointers to objects\<close>

text \<open>
  A pointer member that owns an object: null, without an object behind it (never set, or the
  object was deleted), or the address and value of a live object.
\<close>

datatype 'c obj_ptr = Null_Ptr | Bad_Ptr | Obj nat 'c

text \<open>\<open>NICC_CHECK_POINTER\<close> and a use of the pointer.\<close>

definition checked_obj :: "'c obj_ptr \<Rightarrow> (nat \<times> 'c) run" where
  "checked_obj p = (case p of Null_Ptr \<Rightarrow> Inl Assert_Failed | Bad_Ptr \<Rightarrow> Inl Bad_Access | Obj a c \<Rightarrow> Inr (a, c))"

definition deref_obj :: "'c obj_ptr \<Rightarrow> (nat \<times> 'c) run" where
  "deref_obj p = (case p of Obj a c \<Rightarrow> Inr (a, c) | _ \<Rightarrow> Inl Bad_Access)"

lemma checked_obj_eq_Inr [simp]: "checked_obj p = Inr (a, c) \<longleftrightarrow> p = Obj a c"
  by (cases p) (auto simp: checked_obj_def)

lemma deref_obj_eq_Inr [simp]: "deref_obj p = Inr (a, c) \<longleftrightarrow> p = Obj a c"
  by (cases p) (auto simp: deref_obj_def)

subsection \<open>Descriptors\<close>

record ComponentDesp_DPA = ComponentBaseDesp +
  dpa_device_name :: string
  dpa_phy_port :: u8
  dpa_core_id :: u8

record ComponentDesp_SoC = ComponentBaseDesp +
  soc_device_name :: string
  soc_phy_port :: u8

record ComponentDesp_FlowEngine = ComponentBaseDesp +
  tx_match_mask :: "dr_match_param option"
  rx_match_mask :: "dr_match_param option"
  table_level :: u8
  matcher_priority :: u32

text \<open>
  A \<open>ComponentBaseDesp_t*\<close> points to the first member of one of them; a cast to another kind is
  undefined.
\<close>

datatype component_desp =
    Desp_DPA ComponentDesp_DPA
  | Desp_SoC ComponentDesp_SoC
  | Desp_FlowEngine ComponentDesp_FlowEngine

fun base_desp :: "component_desp \<Rightarrow> ComponentBaseDesp" where
  "base_desp (Desp_DPA d) = ComponentBaseDesp.truncate d"
| "base_desp (Desp_SoC d) = ComponentBaseDesp.truncate d"
| "base_desp (Desp_FlowEngine d) = ComponentBaseDesp.truncate d"

record ComponentState_DPA = ComponentBaseState +
  mock_state :: u8

type_synonym ComponentState_SoC = ComponentState_DPA
type_synonym ComponentState_FlowEngine = ComponentBaseState

subsection \<open>Applications\<close>

text \<open>
  The union \<open>binary\<close> of a handler is two words: the first is \<open>pipe\<close>, \<open>dpa.host_stub\<close> or \<open>soc\<close>,
  the second \<open>dpa.kernel\<close>.
\<close>

record AppHandler =
  binary_first :: ptr
  binary_kernel :: ptr
  handler_tid :: u8

record AppFunction =
  af_handlers :: "AppHandler option list"
  af_desp :: "component_desp option"
  af_component_id :: component_typeid_t

text \<open>The constructor warns about an empty list and keeps it.\<close>

definition new_AppFunction :: "AppHandler option list \<Rightarrow> component_desp option \<Rightarrow> component_typeid_t \<Rightarrow> AppFunction" where
  "new_AppFunction hs d cid = \<lparr>af_handlers = hs, af_desp = d, af_component_id = cid\<rparr>"

subsection \<open>The device\<close>

record device_state =
  ds_ibv_ctx :: ptr
  ds_device_name :: "string option"
  ds_rx_domain :: ptr
  ds_tx_domain :: ptr
  ds_fdb_domain :: ptr

datatype dr_domain_type = DOMAIN_NIC_RX | DOMAIN_NIC_TX | DOMAIN_FDB

text \<open>
  \<open>ibv_get_device_list\<close> (\<open>None\<close> for null), \<open>ibv_open_device\<close> on a list position,
  \<open>ibv_query_port\<close> with the logical port state, \<open>mlx5dv_dr_domain_create\<close>.
\<close>

record 'w device_api =
  dev_get_list :: "'w \<Rightarrow> string list option"
  dev_free_list :: "string list option \<Rightarrow> 'w \<Rightarrow> 'w"
  dev_open :: "nat \<Rightarrow> 'w \<Rightarrow> ptr \<times> 'w"
  dev_query_port :: "ptr \<Rightarrow> nat \<Rightarrow> 'w \<Rightarrow> int \<times> nat"
  dev_domain_create :: "nat \<Rightarrow> dr_domain_type \<Rightarrow> 'w \<Rightarrow> ptr \<times> 'w"

text \<open>
  The cleanup at \<open>exit\<close> frees the list only if it is null, so a list is freed on the path that
  reaches the end (port state 4, active) and on no other. A context is handed back also when the port query failed or the
  port is down; the query runs on a null context when the device could not be opened.
\<close>

definition free_list_at_exit :: "'w device_api \<Rightarrow> string list option \<Rightarrow> ptr \<Rightarrow> 'w \<Rightarrow> 'w" where
  "free_list_at_exit api devs ctx w = (if ctx = None then if devs = None then dev_free_list api devs w else w else w)"

definition utils_ibv_open_device :: "'w device_api \<Rightarrow> string option \<Rightarrow> 'w \<Rightarrow> (ptr \<times> 'w) run" where
  "utils_ibv_open_device api name w = (case name of
       None \<Rightarrow> Inl Assert_Failed
     | Some n \<Rightarrow> (case dev_get_list api w of
           None \<Rightarrow> Inr (None, free_list_at_exit api None None w)
         | Some devs \<Rightarrow>
             let i = length (takeWhile (\<lambda>d. d \<noteq> n) devs)
             in if i = length devs then Inr (None, free_list_at_exit api (Some devs) None w)
                else let (ctx, w1) = dev_open api i w; (ret, st) = dev_query_port api ctx 1 w1
                     in if ret \<noteq> 0 \<or> st \<noteq> 4 then Inr (ctx, free_list_at_exit api (Some devs) ctx w1)
                        else Inr (ctx, free_list_at_exit api (Some devs) ctx (dev_free_list api (Some devs) w1))))"

definition create_domain :: "'w device_api \<Rightarrow> nat \<Rightarrow> dr_domain_type \<Rightarrow> 'w \<Rightarrow> (ptr \<times> 'w) run" where
  "create_domain api ctx ty w =
     (let (d, w') = dev_domain_create api ctx ty w in if d = None then Inl Assert_Failed else Inr (d, w'))"

definition utils_create_flow_engine_domains :: "'w device_api \<Rightarrow> (device_state \<times> 'w) operation" where
  "utils_create_flow_engine_domains api s = (case s of (ds, w) \<Rightarrow> (case ds_ibv_ctx ds of
       None \<Rightarrow> Inl Assert_Failed
     | Some ctx \<Rightarrow>
         bind_run (create_domain api ctx DOMAIN_NIC_RX w) (\<lambda>(rx, w).
         bind_run (create_domain api ctx DOMAIN_NIC_TX w) (\<lambda>(tx, w).
         bind_run (create_domain api ctx DOMAIN_FDB w) (\<lambda>(fdb, w).
           Inr (NICC_SUCCESS, (ds\<lparr>ds_rx_domain := rx, ds_tx_domain := tx, ds_fdb_domain := fdb\<rparr>, w)))))))"

subsection \<open>The base class\<close>

text \<open>The name is a \<open>char[64]\<close>, indeterminate until the block is allocated.\<close>

record ComponentBlock =
  blk_component_id :: component_typeid_t
  blk_name :: string

definition new_ComponentBlock :: "string \<Rightarrow> ComponentBlock" where
  "new_ComponentBlock junk = \<lparr>blk_component_id = kComponent_Unknown, blk_name = junk\<rparr>"

definition base_register_app_function :: "AppFunction option \<Rightarrow> device_state \<Rightarrow> 's operation" where
  "base_register_app_function f ds s = Inr (NICC_ERROR_NOT_IMPLEMENTED, s)"

definition base_unregister_app_function :: "'s operation" where
  "base_unregister_app_function s = Inr (NICC_ERROR_NOT_IMPLEMENTED, s)"

definition base_connect_to_neighbour ::
  "ptr \<Rightarrow> ptr \<Rightarrow> bool \<Rightarrow> QPInfo option \<Rightarrow> bool \<Rightarrow> QPInfo option \<Rightarrow> 's operation" where
  "base_connect_to_neighbour prior next to_remote remote to_local local s = Inr (NICC_ERROR_NOT_IMPLEMENTED, s)"

definition base_add_control_plane_rule :: "ptr \<Rightarrow> 's operation" where
  "base_add_control_plane_rule domain s = Inr (NICC_ERROR_NOT_IMPLEMENTED, s)"

definition base_run_block :: "'s operation" where
  "base_run_block s = Inr (NICC_ERROR_NOT_IMPLEMENTED, s)"

definition base_get_qp_info :: "bool \<Rightarrow> QPInfo option" where
  "base_get_qp_info is_prior = None"

definition base_get_component_routing :: ptr where
  "base_get_component_routing = None"

text \<open>The wrappers for the tables of the block's domain.\<close>

definition block_create_table :: "'w FlowDomain_ops \<Rightarrow> FlowDomain obj_ptr \<Rightarrow> int \<Rightarrow> ptr \<Rightarrow> 'w
    \<Rightarrow> ((nicc_retval_t \<times> ptr) \<times> FlowDomain obj_ptr \<times> 'w) run" where
  "block_create_table ops dm level table w =
     bind_run (checked_obj dm) (\<lambda>(a, d).
     bind_run (create_table ops level table d w) (\<lambda>(r, d', w'). Inr (r, Obj a d', w')))"

definition block_destory_table :: "'w FlowDomain_ops \<Rightarrow> FlowDomain obj_ptr \<Rightarrow> ptr \<Rightarrow> 'w
    \<Rightarrow> (nicc_retval_t \<times> FlowDomain obj_ptr \<times> 'w) run" where
  "block_destory_table ops dm table w =
     bind_run (checked_obj dm) (\<lambda>(a, d).
     bind_run (destory_table ops table d w) (\<lambda>(r, d', w'). Inr (r, Obj a d', w')))"

subsection \<open>Connecting to neighbours\<close>

text \<open>
  The body of \<open>connect_to_neighbour\<close> that the DPA and the SoC block have in common, over the
  \<open>connect_qp\<close> of their channel: remote host, local host, previous block, next block, in this order
  and up to the first failure.
\<close>

definition connect_steps :: "(bool \<Rightarrow> ptr \<Rightarrow> QPInfo option \<Rightarrow> 's operation) \<Rightarrow> ptr \<Rightarrow> ptr \<Rightarrow> bool \<Rightarrow> QPInfo option
    \<Rightarrow> bool \<Rightarrow> QPInfo option \<Rightarrow> 's operation" where
  "connect_steps conn prior next to_remote remote to_local local =
     and_then (if to_remote then conn True None remote else op_done)
    (and_then (if to_local then conn False None local else op_done)
    (and_then (if prior \<noteq> None then conn True prior None else op_done)
     (if next \<noteq> None then conn False next None else op_done)))"

text \<open>
  A channel whose \<open>connect_qp\<close> never joins two blocks; a block on such a channel never gets a
  neighbour.
\<close>

locale host_only_connector =
  fixes conn :: "bool \<Rightarrow> ptr \<Rightarrow> QPInfo option \<Rightarrow> 's operation"
  assumes no_neighbour: "p \<noteq> None \<Longrightarrow> conn is_prior p qi s \<noteq> Inr (NICC_SUCCESS, t)"
begin

lemma never_connects_blocks:
  assumes "prior \<noteq> None \<or> next \<noteq> None"
  shows "connect_steps conn prior next to_r r to_l l s \<noteq> Inr (NICC_SUCCESS, t)"
proof
  assume "connect_steps conn prior next to_r r to_l l s = Inr (NICC_SUCCESS, t)"
  then obtain u v where u: "(if prior \<noteq> None then conn True prior None else op_done) u = Inr (NICC_SUCCESS, v)"
      and v: "(if next \<noteq> None then conn False next None else op_done) v = Inr (NICC_SUCCESS, t)"
    by (auto simp: connect_steps_def and_then_eq_success)
  show False
  proof (cases "prior = None")
    case True
    then show False using assms v no_neighbour [of "next" False None v t] by simp
  next
    case False
    then show False using u no_neighbour [of prior True None u v] by simp
  qed
qed

end

subsection \<open>Scanning handlers\<close>

text \<open>
  The loop over the handlers of a function, with a step per handler. A null handler fails the
  assertion, an unknown handler id is a \<open>throw\<close>.
\<close>

definition scan_handler :: "(u8 \<Rightarrow> (AppHandler \<Rightarrow> 's \<Rightarrow> 's) option) \<Rightarrow> AppHandler option \<Rightarrow> 's \<Rightarrow> 's run" where
  "scan_handler slot h s = (case h of
       None \<Rightarrow> Inl Assert_Failed
     | Some h \<Rightarrow> (case slot (handler_tid h) of None \<Rightarrow> Inl Nicc_Shutdown | Some f \<Rightarrow> Inr (f h s)))"

subsection \<open>The flow engine block\<close>

record ComponentBlock_FlowEngine = ComponentBlock +
  fe_desp :: ComponentDesp_FlowEngine
  fe_state :: ComponentState_FlowEngine
  fe_function :: "unit obj_ptr"
  fe_fdb :: ptr
  fe_base_domain :: "FlowDomain obj_ptr"

text \<open>\<open>junk\<close> is the indeterminate content of the members the constructor does not set.\<close>

definition new_ComponentBlock_FlowEngine :: "ComponentBlock_FlowEngine \<Rightarrow> ComponentBlock_FlowEngine" where
  "new_ComponentBlock_FlowEngine junk = junk\<lparr>blk_component_id := kComponent_FlowEngine,
     fe_desp := (fe_desp junk)\<lparr>table_level := 0, matcher_priority := 0\<rparr>, fe_function := Null_Ptr\<rparr>"

text \<open>\<open>a\<close> is the address of the new domain.\<close>

definition fe_init :: "device_state \<Rightarrow> nat \<Rightarrow> ComponentBlock_FlowEngine operation" where
  "fe_init ds a b =
     (if ds_ibv_ctx ds = None \<or> ds_fdb_domain ds = None then Inl Assert_Failed
      else Inr (NICC_SUCCESS, b\<lparr>fe_base_domain := Obj a new_FlowDomain, fe_fdb := ds_fdb_domain ds\<rparr>))"

text \<open>The handlers end up in local variables only: initial handler and event handler.\<close>

definition fe_slot :: "u8 \<Rightarrow> (AppHandler \<Rightarrow> AppHandler option \<times> AppHandler option \<Rightarrow> AppHandler option \<times> AppHandler option) option" where
  "fe_slot t = (if t = 0 then Some (\<lambda>h s. (Some h, snd s)) else if t = 1 then Some (\<lambda>h s. (fst s, Some h)) else None)"

definition fe_register_app_function :: "AppFunction option \<Rightarrow> nat \<Rightarrow> ComponentBlock_FlowEngine operation" where
  "fe_register_app_function f a b = (case f of
       None \<Rightarrow> Inl Assert_Failed
     | Some app_func \<Rightarrow>
         let b' = b\<lparr>fe_function := Obj a ()\<rparr>
         in if af_handlers app_func = [] then Inr (NICC_SUCCESS, b')
            else bind_run (fold_run (scan_handler fe_slot) (af_handlers app_func) (None, None))
                   (\<lambda>_. Inr (NICC_SUCCESS, b')))"

definition fe_unregister_app_function :: "ComponentBlock_FlowEngine operation" where
  "fe_unregister_app_function b =
     (if fe_function b = Null_Ptr then Inl Assert_Failed else Inr (NICC_SUCCESS, b))"

definition fe_connect_to_neighbour ::
  "ptr \<Rightarrow> ptr \<Rightarrow> bool \<Rightarrow> QPInfo option \<Rightarrow> bool \<Rightarrow> QPInfo option \<Rightarrow> ComponentBlock_FlowEngine operation" where
  "fe_connect_to_neighbour prior next to_remote remote to_local local b = Inr (NICC_ERROR_NOT_IMPLEMENTED, b)"

definition fe_add_control_plane_rule :: "ptr \<Rightarrow> ComponentBlock_FlowEngine operation" where
  "fe_add_control_plane_rule domain b = Inr (NICC_ERROR_NOT_IMPLEMENTED, b)"

definition fe_run_block :: "ComponentBlock_FlowEngine operation" where
  "fe_run_block b = Inr (NICC_ERROR_NOT_IMPLEMENTED, b)"

definition fe_get_qp_info :: "bool \<Rightarrow> QPInfo option" where
  "fe_get_qp_info is_prior = None"

end
