(* ===== verification/DpaBlock.thy ===== *)
theory DpaBlock
  imports Block DpaChannel
begin

text \<open>
  The class \<open>ComponentBlock_DPA\<close> (\<open>runtime/include/datapath/block_impl/dpa.h\<close>,
  \<open>runtime/src/datapath/block_impl/dpa.cc\<close>): registering a function (FlexIO process, event handler,
  channel, device side initialisation), releasing it, connecting, steering rules and running.
\<close>

unbundle bit_operations_syntax

subsection \<open>The driver\<close>

record event_handler_attr =
  ea_host_stub :: ptr
  ea_affinity_strict :: bool
  ea_affinity_id :: u8

record msg_stream_attr =
  sa_uar :: ptr
  sa_data_bsize :: nat
  sa_stream_name :: string

text \<open>
  The calls of FlexIO, the steering library, libibverbs and \<open>calloc\<close> this file makes. A call with
  an output pointer takes the value the variable has before the call.
\<close>

record 'w dpa_block_api =
  fx_version_set :: "'w \<Rightarrow> bool \<times> 'w"
  fx_process_create :: "ptr \<Rightarrow> ptr \<Rightarrow> ptr \<Rightarrow> 'w \<Rightarrow> (bool \<times> ptr) \<times> 'w"
  fx_process_get_uar :: "ptr \<Rightarrow> 'w \<Rightarrow> ptr"
  fx_process_get_pd :: "ptr \<Rightarrow> 'w \<Rightarrow> ptr"
  fx_process_destroy :: "nat \<Rightarrow> 'w \<Rightarrow> bool \<times> 'w"
  fx_event_handler_create :: "ptr \<Rightarrow> event_handler_attr \<Rightarrow> ptr \<Rightarrow> 'w \<Rightarrow> (bool \<times> ptr) \<times> 'w"
  fx_event_handler_run :: "ptr \<Rightarrow> nat \<Rightarrow> 'w \<Rightarrow> bool \<times> 'w"
  fx_msg_stream_create :: "ptr \<Rightarrow> msg_stream_attr \<Rightarrow> ptr \<Rightarrow> 'w \<Rightarrow> ptr \<times> 'w"
  fx_process_call :: "ptr \<Rightarrow> ptr \<Rightarrow> u64 \<Rightarrow> u64 \<Rightarrow> 'w \<Rightarrow> bool \<times> 'w"
  fx_rq_get_tir :: "ptr \<Rightarrow> ptr"
  devx_alloc_uar :: "ptr \<Rightarrow> 'w \<Rightarrow> ptr \<times> 'w"
  devx_free_uar :: "nat \<Rightarrow> 'w \<Rightarrow> 'w"
  verbs_alloc_pd :: "ptr \<Rightarrow> 'w \<Rightarrow> ptr \<times> 'w"
  verbs_close_device :: "nat \<Rightarrow> 'w \<Rightarrow> 'w"
  rule_calloc :: "nat \<Rightarrow> 'w \<Rightarrow> bool"
  action_create_dest_tir :: "ptr \<Rightarrow> 'w \<Rightarrow> ptr \<times> 'w"
  action_destroy :: "nat \<Rightarrow> 'w \<Rightarrow> 'w"
  rule_create :: "ptr \<Rightarrow> dr_match_param \<Rightarrow> nat list \<Rightarrow> 'w \<Rightarrow> ptr \<times> 'w"

subsection \<open>State\<close>

record ComponentFuncState_DPA =
  fs_pd :: ptr
  fs_uar :: ptr
  fs_process :: ptr
  fs_flexio_uar :: ptr
  fs_flexio_pd :: ptr
  fs_event_handler :: ptr
  fs_channel :: "Channel_DPA obj_ptr"
  fs_stream :: ptr
  fs_ibv_ctx :: ptr

record ComponentBlock_DPA = ComponentBlock +
  dpa_desp :: ComponentDesp_DPA
  dpa_state :: ComponentState_DPA
  dpa_function :: "ComponentFuncState_DPA obj_ptr"
  dpa_init_handler :: "AppHandler option"
  dpa_event_handler :: "AppHandler option"

text \<open>\<open>new\<close> leaves descriptor, state and function state (at address \<open>a\<close>) with indeterminate contents.\<close>

definition new_ComponentBlock_DPA :: "ComponentBlock_DPA \<Rightarrow> nat \<Rightarrow> ComponentFuncState_DPA \<Rightarrow> ComponentBlock_DPA" where
  "new_ComponentBlock_DPA junk a junk_fs = junk\<lparr>blk_component_id := kComponent_DPA,
     dpa_function := Obj a junk_fs, dpa_init_handler := None, dpa_event_handler := None\<rparr>"

text \<open>An operation on the function state, and one on its channel.\<close>

definition on_function :: "(ComponentFuncState_DPA \<times> 'w) operation \<Rightarrow> (ComponentBlock_DPA \<times> 'w) operation" where
  "on_function f s = (case s of (b, w) \<Rightarrow>
     bind_run (deref_obj (dpa_function b)) (\<lambda>(a, fs).
     bind_run (f (fs, w)) (\<lambda>(r, fs', w'). Inr (r, (b\<lparr>dpa_function := Obj a fs'\<rparr>, w')))))"

definition on_channel :: "(Channel_DPA \<times> 'w) operation \<Rightarrow> (ComponentFuncState_DPA \<times> 'w) operation" where
  "on_channel f s = (case s of (fs, w) \<Rightarrow>
     bind_run (deref_obj (fs_channel fs)) (\<lambda>(a, c).
     bind_run (f (c, w)) (\<lambda>(r, c', w'). Inr (r, (fs\<lparr>fs_channel := Obj a c'\<rparr>, w')))))"

subsection \<open>The event handler\<close>

text \<open>The steps up to the cleanup label; \<open>core\<close> is the core id of the block's descriptor.\<close>

definition create_process :: "'w dpa_block_api \<Rightarrow> AppHandler \<Rightarrow> (ComponentFuncState_DPA \<times> 'w) operation" where
  "create_process api h s = (case s of (fs, w) \<Rightarrow>
     let ((ok, p), w') = fx_process_create api (fs_ibv_ctx fs) (binary_kernel h) (fs_process fs) w
     in Inr (hw_status ok, (fs\<lparr>fs_process := p\<rparr>, w')))"

definition get_uar_and_pd :: "'w dpa_block_api \<Rightarrow> (ComponentFuncState_DPA \<times> 'w) operation" where
  "get_uar_and_pd api s = (case s of (fs, w) \<Rightarrow>
     let uar = fx_process_get_uar api (fs_process fs) w; fs = fs\<lparr>fs_flexio_uar := uar\<rparr>
     in if uar = None then Inr (NICC_ERROR_HARDWARE_FAILURE, (fs, w))
        else let pd = fx_process_get_pd api (fs_process fs) w
             in Inr (hw_status (pd \<noteq> None), (fs\<lparr>fs_flexio_pd := pd\<rparr>, w)))"

definition create_event_handler :: "'w dpa_block_api \<Rightarrow> u8 \<Rightarrow> AppHandler \<Rightarrow> (ComponentFuncState_DPA \<times> 'w) operation" where
  "create_event_handler api core h s = (case s of (fs, w) \<Rightarrow>
     let attr = \<lparr>ea_host_stub = binary_first h, ea_affinity_strict = True, ea_affinity_id = core\<rparr>;
         ((ok, e), w') = fx_event_handler_create api (fs_process fs) attr (fs_event_handler fs) w
     in Inr (hw_status ok, (fs\<lparr>fs_event_handler := e\<rparr>, w')))"

definition create_stream :: "'w dpa_block_api \<Rightarrow> (ComponentFuncState_DPA \<times> 'w) operation" where
  "create_stream api s = (case s of (fs, w) \<Rightarrow>
     let (st, w') = fx_msg_stream_create api (fs_process fs)
           \<lparr>sa_uar = fs_flexio_uar fs, sa_data_bsize = 4 * 2048, sa_stream_name = ''DEFAULT STREAM''\<rparr> (fs_stream fs) w
     in Inr (NICC_SUCCESS, (fs\<lparr>fs_stream := st\<rparr>, w')))"

definition event_handler_steps :: "'w dpa_block_api \<Rightarrow> u8 \<Rightarrow> AppHandler \<Rightarrow> (ComponentFuncState_DPA \<times> 'w) operation" where
  "event_handler_steps api core h =
     and_then (\<lambda>(fs, w). let (ok, w') = fx_version_set api w in Inr (hw_status ok, (fs, w')))
    (and_then (create_process api h)
    (and_then (get_uar_and_pd api)
    (and_then (create_event_handler api core h)
      (create_stream api))))"

text \<open>The cleanup destroys whatever the process pointer holds; the result is not looked at.\<close>

definition destroy_process_on_error :: "'w dpa_block_api \<Rightarrow> nicc_retval_t \<times> ComponentFuncState_DPA \<times> 'w
    \<Rightarrow> nicc_retval_t \<times> ComponentFuncState_DPA \<times> 'w" where
  "destroy_process_on_error api res = (case res of (r, fs, w) \<Rightarrow>
     if r = NICC_SUCCESS then res
     else (case fs_process fs of None \<Rightarrow> res | Some p \<Rightarrow> (r, fs, snd (fx_process_destroy api p w))))"

definition register_event_handler :: "'w dpa_block_api \<Rightarrow> u8 \<Rightarrow> AppHandler option \<Rightarrow> (ComponentFuncState_DPA \<times> 'w) operation" where
  "register_event_handler api core h s = (case h of
       None \<Rightarrow> Inl Assert_Failed
     | Some h \<Rightarrow>
         if binary_kernel h = None \<or> binary_first h = None then Inl Assert_Failed
         else bind_run (event_handler_steps api core h s) (\<lambda>res. Inr (destroy_process_on_error api res)))"

definition unregister_event_handler :: "'w dpa_block_api \<Rightarrow> (ComponentFuncState_DPA \<times> 'w) operation" where
  "unregister_event_handler api s = (case s of (fs, w) \<Rightarrow> (case fs_process fs of
       None \<Rightarrow> Inr (NICC_SUCCESS, (fs, w))
     | Some p \<Rightarrow> let (ok, w') = fx_process_destroy api p w in Inr (hw_status ok, (fs, w'))))"

text \<open>
  \<open>__setup_ibv_device\<close>, which no code calls any more. The context is closed on failure, a
  protection domain is not released, and \<open>uar\<close> is tested again in the cleanup.
\<close>

definition setup_ibv_device :: "'w dpa_block_api \<Rightarrow> (ComponentFuncState_DPA \<times> 'w) operation" where
  "setup_ibv_device api s = (case s of (fs, w) \<Rightarrow>
     let (uar, w) = devx_alloc_uar api (fs_ibv_ctx fs) w;
         fs = fs\<lparr>fs_uar := uar\<rparr>;
         cleanup = (\<lambda>w. let w = (case uar of None \<Rightarrow> w | Some u \<Rightarrow> devx_free_uar api u w)
                        in case fs_ibv_ctx fs of None \<Rightarrow> w | Some c \<Rightarrow> verbs_close_device api c w)
     in if uar = None then Inr (NICC_ERROR_HARDWARE_FAILURE, (fs, cleanup w))
        else let (pd, w) = verbs_alloc_pd api (fs_ibv_ctx fs) w;
                 fs = fs\<lparr>fs_pd := pd\<rparr>
             in if pd = None then Inr (NICC_ERROR_HARDWARE_FAILURE, (fs, cleanup w))
                else Inr (NICC_SUCCESS, (fs, w)))"

subsection \<open>The channel\<close>

text \<open>
  The new channel is at address \<open>fst mem\<close> with the previous contents \<open>snd mem\<close> of its memory. On
  failure the channel is deleted and the pointer kept.
\<close>

definition dpa_allocate_wrapper_resources :: "'w flexio_api \<Rightarrow> 'w port_api \<Rightarrow> nat \<times> Channel_DPA \<Rightarrow> ComponentDesp_DPA
    \<Rightarrow> (ComponentFuncState_DPA \<times> 'w) operation" where
  "dpa_allocate_wrapper_resources api papi mem d s = (case s of (fs, w) \<Rightarrow>
     bind_run (allocate_channel api papi (fs_flexio_pd fs) (fs_flexio_uar fs) (fs_process fs)
         (fs_event_handler fs) (fs_ibv_ctx fs) (dpa_device_name d) (dpa_phy_port d)
         (new_Channel_DPA CH_RDMA PAKT_UNORDERED CH_RDMA PAKT_UNORDERED (snd mem), w)) (\<lambda>(r, c, w').
       Inr (r, (fs\<lparr>fs_channel := (if r = NICC_SUCCESS then Obj (fst mem) c else Bad_Ptr)\<rparr>, w'))))"

definition dpa_init_wrapper_resources :: "'w dpa_block_api \<Rightarrow> AppHandler option \<Rightarrow> (ComponentFuncState_DPA \<times> 'w) operation" where
  "dpa_init_wrapper_resources api h s = (case s of (fs, w) \<Rightarrow> (case h of
       None \<Rightarrow> Inl Assert_Failed
     | Some h \<Rightarrow>
         if binary_first h = None then Inl Assert_Failed
         else bind_run (deref_obj (fs_channel fs)) (\<lambda>(a, c).
           let (ok, w') = fx_process_call api (fs_process fs) (binary_first h)
                 (dev_metadata (side_prior c)) (dev_metadata (side_next c)) w
           in Inr (hw_status ok, (fs, w')))))"

definition dpa_deallocate_wrapper_resources :: "'w flexio_api \<Rightarrow> (ComponentFuncState_DPA \<times> 'w) operation" where
  "dpa_deallocate_wrapper_resources api s = (case s of (fs, w) \<Rightarrow>
     on_channel (deallocate_channel api (fs_process fs)) (fs, w))"

subsection \<open>Registering a function\<close>

text \<open>
  The handlers are scanned with an index of type \<open>uint8_t\<close>: with more than 255 handlers the
  condition never becomes false.
\<close>

definition dpa_slot :: "u8 \<Rightarrow> (AppHandler \<Rightarrow> ComponentBlock_DPA \<Rightarrow> ComponentBlock_DPA) option" where
  "dpa_slot t = (if t = 0 then Some (\<lambda>h. dpa_init_handler_update (\<lambda>_. Some h))
     else if t = 1 then Some (\<lambda>h. dpa_event_handler_update (\<lambda>_. Some h)) else None)"

partial_function (option) dpa_scan_handlers :: "AppHandler option list \<Rightarrow> u8 \<Rightarrow> ComponentBlock_DPA \<Rightarrow> ComponentBlock_DPA exec" where
  "dpa_scan_handlers hs i b = (if unat i < length hs
     then bind_exec (Some (scan_handler dpa_slot (hs ! unat i) b)) (dpa_scan_handlers hs (i + 1))
     else Some (Inr b))"

definition dpa_register_steps :: "'w flexio_api \<Rightarrow> 'w port_api \<Rightarrow> 'w dpa_block_api \<Rightarrow> nat \<times> Channel_DPA
    \<Rightarrow> (ComponentBlock_DPA \<times> 'w) operation" where
  "dpa_register_steps api papi bapi mem s = (case s of (b, w) \<Rightarrow>
     if dpa_init_handler b = None then Inr (NICC_ERROR_NOT_FOUND, (b, w))
     else if dpa_event_handler b = None then Inr (NICC_ERROR_NOT_FOUND, (b, w))
     else on_function
        (and_then (register_event_handler bapi (dpa_core_id (dpa_desp b)) (dpa_event_handler b))
        (and_then (dpa_allocate_wrapper_resources api papi mem (dpa_desp b))
          (dpa_init_wrapper_resources bapi (dpa_init_handler b)))) (b, w))"

definition dpa_register_app_function :: "'w flexio_api \<Rightarrow> 'w port_api \<Rightarrow> 'w dpa_block_api \<Rightarrow> nat \<times> Channel_DPA
    \<Rightarrow> AppFunction option \<Rightarrow> device_state \<Rightarrow> ComponentBlock_DPA \<times> 'w
    \<Rightarrow> (nicc_retval_t \<times> ComponentBlock_DPA \<times> 'w) exec" where
  "dpa_register_app_function api papi bapi mem f ds s = (case s of (b, w) \<Rightarrow> (case f of
       None \<Rightarrow> Some (Inl Assert_Failed)
     | Some app_func \<Rightarrow>
         bind_exec (Some (checked_obj (dpa_function b))) (\<lambda>(a, fs).
           if ds_ibv_ctx ds = None then Some (Inl Assert_Failed)
           else let b = b\<lparr>dpa_function := Obj a (fs\<lparr>fs_ibv_ctx := ds_ibv_ctx ds\<rparr>)\<rparr>
                in if af_handlers app_func = [] then Some (Inr (NICC_SUCCESS, (b, w)))
                   else bind_exec (dpa_scan_handlers (af_handlers app_func) 0 b)
                          (\<lambda>b. Some (dpa_register_steps api papi bapi mem (b, w))))))"

text \<open>After the \<open>delete\<close> the member keeps the address of the released state.\<close>

definition dpa_unregister_app_function :: "'w flexio_api \<Rightarrow> 'w dpa_block_api \<Rightarrow> (ComponentBlock_DPA \<times> 'w) operation" where
  "dpa_unregister_app_function api bapi s =
     bind_run (checked_obj (dpa_function (fst s))) (\<lambda>_.
     and_then (on_function (and_then (dpa_deallocate_wrapper_resources api) (unregister_event_handler bapi)))
       (\<lambda>(b, w). Inr (NICC_SUCCESS, (b\<lparr>dpa_function := Bad_Ptr\<rparr>, w))) s)"

subsection \<open>Connecting and running\<close>

definition dpa_connect_to_neighbour :: "'w flexio_api \<Rightarrow> ptr \<Rightarrow> ptr \<Rightarrow> bool \<Rightarrow> QPInfo option \<Rightarrow> bool \<Rightarrow> QPInfo option
    \<Rightarrow> (ComponentBlock_DPA \<times> 'w) operation" where
  "dpa_connect_to_neighbour api prior next to_remote remote to_local local s =
     bind_run (deref_obj (dpa_function (fst s))) (\<lambda>(_, fs).
     if fs_channel fs = Null_Ptr then Inl Assert_Failed
     else on_function (connect_steps (\<lambda>is_prior neighbour qi. on_channel (connect_qp api is_prior neighbour qi))
            prior next to_remote remote to_local local) s)"

definition dpa_get_qp_info :: "bool \<Rightarrow> ComponentBlock_DPA \<Rightarrow> QPInfo run" where
  "dpa_get_qp_info is_prior b =
     bind_run (deref_obj (dpa_function b)) (\<lambda>(_, fs).
     bind_run (deref_obj (fs_channel fs)) (\<lambda>(_, c). Inr (qp_info (the_side is_prior c))))"

definition dpa_run_block :: "'w dpa_block_api \<Rightarrow> (ComponentBlock_DPA \<times> 'w) operation" where
  "dpa_run_block bapi = on_function (\<lambda>(fs, w).
     let (ok, w') = fx_event_handler_run bapi (fs_event_handler fs) 0 w in Inr (hw_status ok, (fs, w')))"

subsection \<open>The steering rule\<close>

text \<open>
  The mask covers all source address bits; the rule matches the fixed address
  \<open>0xa088c2bf464e\<close>. The sizes given to \<open>calloc\<close>: the match parameters and the rule.
\<close>

definition SRC_MAC :: u64 where "SRC_MAC = 0xa088c2bf464e"

definition smac_match_mask :: dr_match_param where
  "smac_match_mask = (zero_match_param 64)\<lparr>smac_47_16 := 0xffffffff, smac_15_0 := 0xffff\<rparr>"

definition smac_match_value :: dr_match_param where
  "smac_match_value = smac_match_mask\<lparr>smac_47_16 := ucast (drop_bit 16 SRC_MAC), smac_15_0 := ucast (SRC_MAC mod push_bit 16 1)\<rparr>"

definition add_rx_rule :: "'w dr_api \<Rightarrow> 'w dpa_block_api \<Rightarrow> Channel_DPA \<Rightarrow> dr_flow_table \<Rightarrow> 'w \<Rightarrow> nicc_retval_t \<times> 'w" where
  "add_rx_rule dapi bapi c tbl w =
     (if \<not> rule_calloc bapi 16 w then (NICC_ERROR_HARDWARE_FAILURE, flow_table_error dapi tbl w)
      else let (act, w) = action_create_dest_tir bapi (fx_rq_get_tir bapi (get_flexio_rq_ptr True c)) w
           in case act of
                None \<Rightarrow> (NICC_ERROR_HARDWARE_FAILURE, flow_table_error dapi tbl w)
              | Some act \<Rightarrow>
                  let (rule, w) = rule_create bapi (ft_matcher tbl) smac_match_value [act] w
                  in if rule = None
                     then (NICC_ERROR_HARDWARE_FAILURE, flow_table_error dapi tbl (action_destroy bapi act w))
                     else (NICC_SUCCESS, w))"

definition add_rx_steering :: "'w dr_api \<Rightarrow> 'w dpa_block_api \<Rightarrow> ptr \<Rightarrow> (Channel_DPA \<times> 'w) operation" where
  "add_rx_steering dapi bapi domain s = (case s of (c, w) \<Rightarrow>
     if \<not> rule_calloc bapi (dr_match_param_size dapi + 64) w then Inr (NICC_ERROR_HARDWARE_FAILURE, (c, w))
     else (case domain of
         None \<Rightarrow> Inl Bad_Access
       | Some d \<Rightarrow> (case create_flow_table dapi d 0 0 (Some smac_match_mask) w of
             ((DOCA_SUCCESS, Some tbl), w) \<Rightarrow> (case add_rx_rule dapi bapi c tbl w of (r, w) \<Rightarrow> Inr (r, (c, w)))
           | (_, w) \<Rightarrow> Inr (NICC_ERROR_HARDWARE_FAILURE, (c, w)))))"

definition dpa_add_control_plane_rule :: "'w dr_api \<Rightarrow> 'w dpa_block_api \<Rightarrow> ptr \<Rightarrow> (ComponentBlock_DPA \<times> 'w) operation" where
  "dpa_add_control_plane_rule dapi bapi domain = on_function (on_channel (\<lambda>(c, w).
     if dq_type (dev_queues (side_prior c)) = CH_ETHERNET then add_rx_steering dapi bapi domain (c, w)
     else Inr (NICC_SUCCESS, (c, w))))"

end
