(* ===== verification/SocBlock.thy ===== *)
theory SocBlock
  imports Block SocChannel Routing
begin

text \<open>
  The class \<open>ComponentBlock_SoC\<close> (\<open>runtime/include/datapath/block_impl/soc.h\<close>,
  \<open>runtime/src/datapath/block_impl/soc.cc\<close>), with the choice of the core of its thread
  (\<open>lib/common/src/numautils.cc\<close>).
\<close>

subsection \<open>Cores\<close>

text \<open>
  libnuma and the scheduler: number of cores, highest node, node of a core, and
  \<open>pthread_setaffinity_np\<close> on a thread.
\<close>

record 'w numa_api =
  num_configured_cpus :: nat
  num_configured_nodes :: nat
  numa_max_node :: int
  numa_node_of_cpu :: "nat \<Rightarrow> int"
  hardware_concurrency :: nat
  set_affinity :: "nat \<Rightarrow> nat set \<Rightarrow> 'w \<Rightarrow> int \<times> 'w"
  sched_set_affinity :: "nat set \<Rightarrow> 'w \<Rightarrow> int \<times> 'w"

text \<open>A conversion of an \<open>int\<close> to \<open>size_t\<close>.\<close>

definition to_size_t :: "int \<Rightarrow> nat" where
  "to_size_t i = nat (i mod 2 ^ 64)"

definition num_lcores_per_numa_node :: "'w numa_api \<Rightarrow> nat run" where
  "num_lcores_per_numa_node api = (if num_configured_nodes api = 0 then Inl Bad_Access
     else Inr (num_configured_cpus api div num_configured_nodes api))"

definition get_lcores_for_numa_node :: "'w numa_api \<Rightarrow> nat \<Rightarrow> nat list run" where
  "get_lcores_for_numa_node api node =
     (if node \<le> to_size_t (numa_max_node api)
      then Inr (filter (\<lambda>i. node = to_size_t (numa_node_of_cpu api i)) [0 ..< num_configured_cpus api])
      else Inl Assert_Failed)"

definition bind_to_core :: "'w numa_api \<Rightarrow> nat \<Rightarrow> nat \<Rightarrow> nat \<Rightarrow> 'w \<Rightarrow> (nat \<times> 'w) run" where
  "bind_to_core api thread node index w =
     (if \<not> node \<le> kMaxNumaNodes then Inl Process_Exit
      else bind_run (get_lcores_for_numa_node api node) (\<lambda>cores.
        if length cores \<le> index then Inl Nicc_Shutdown
        else let core = cores ! index; (rc, w') = set_affinity api thread {core} w
             in if rc = 0 then Inr (core, w') else Inl Process_Exit))"

definition get_global_index :: "'w numa_api \<Rightarrow> nat \<Rightarrow> nat \<Rightarrow> nat run" where
  "get_global_index api node index =
     (if \<not> node \<le> kMaxNumaNodes then Inl Process_Exit
      else bind_run (get_lcores_for_numa_node api node) (\<lambda>cores.
        if length cores \<le> index then Inl Nicc_Shutdown else Inr (cores ! index)))"

definition clear_affinity_for_process :: "'w numa_api \<Rightarrow> 'w \<Rightarrow> 'w run" where
  "clear_affinity_for_process api w =
     (let (ret, w') = sched_set_affinity api {0 ..< hardware_concurrency api} w
      in if ret = 0 then Inr w' else Inl Assert_Failed)"

subsection \<open>State\<close>

text \<open>
  What the wrapper thread is given: the queue pairs of the channel and the addresses of the user's
  functions.
\<close>

record soc_thread_context =
  tc_qp_prior :: soc_qp
  tc_qp_next :: soc_qp
  tc_init_handler :: ptr
  tc_pkt_handler :: ptr
  tc_msg_handler :: ptr
  tc_cleanup_handler :: ptr
  tc_user_state :: ptr
  tc_user_state_size :: nat

record ComponentFuncState_SoC =
  ss_context :: "soc_thread_context obj_ptr"
  ss_wrapper_thread :: ptr
  ss_channel :: "Channel_SoC obj_ptr"

record ComponentBlock_SoC = ComponentBlock +
  soc_desp :: ComponentDesp_SoC
  soc_state :: ComponentState_SoC
  soc_function :: "ComponentFuncState_SoC obj_ptr"
  soc_routing :: "ComponentRoutingState obj_ptr"
  soc_init_h :: "AppHandler option"
  soc_pkt_h :: "AppHandler option"
  soc_msg_h :: "AppHandler option"
  soc_cleanup_h :: "AppHandler option"

text \<open>The routing pointer is among the members the constructor does not set.\<close>

definition new_ComponentBlock_SoC :: "ComponentBlock_SoC \<Rightarrow> nat \<Rightarrow> ComponentFuncState_SoC \<Rightarrow> ComponentBlock_SoC" where
  "new_ComponentBlock_SoC junk a junk_fs = junk\<lparr>blk_component_id := kComponent_SoC, soc_function := Obj a junk_fs,
     soc_init_h := None, soc_pkt_h := None, soc_msg_h := None, soc_cleanup_h := None\<rparr>"

definition on_soc_function :: "(ComponentFuncState_SoC \<times> 'w) operation \<Rightarrow> (ComponentBlock_SoC \<times> 'w) operation" where
  "on_soc_function f s = (case s of (b, w) \<Rightarrow>
     bind_run (deref_obj (soc_function b)) (\<lambda>(a, fs).
     bind_run (f (fs, w)) (\<lambda>(r, fs', w'). Inr (r, (b\<lparr>soc_function := Obj a fs'\<rparr>, w')))))"

definition on_soc_channel :: "(Channel_SoC \<times> 'w) operation \<Rightarrow> (ComponentFuncState_SoC \<times> 'w) operation" where
  "on_soc_channel f s = (case s of (fs, w) \<Rightarrow>
     bind_run (deref_obj (ss_channel fs)) (\<lambda>(a, c).
     bind_run (f (c, w)) (\<lambda>(r, c', w'). Inr (r, (fs\<lparr>ss_channel := Obj a c'\<rparr>, w')))))"

subsection \<open>Registering a function\<close>

definition soc_slot :: "u8 \<Rightarrow> (AppHandler \<Rightarrow> ComponentBlock_SoC \<Rightarrow> ComponentBlock_SoC) option" where
  "soc_slot t = (if t = 0 then Some (\<lambda>h. soc_init_h_update (\<lambda>_. Some h))
     else if t = 1 then Some (\<lambda>h. soc_pkt_h_update (\<lambda>_. Some h))
     else if t = 2 then Some (\<lambda>h. soc_msg_h_update (\<lambda>_. Some h))
     else if t = 3 then Some (\<lambda>h. soc_cleanup_h_update (\<lambda>_. Some h)) else None)"

text \<open>
  Where the new objects go: the channel with the previous contents of its memory and of its two
  connection records, and the router.
\<close>

record soc_memory =
  sm_channel :: nat
  sm_channel_junk :: Channel_SoC
  sm_info_prior :: QPInfo
  sm_info_next :: QPInfo
  sm_routing :: nat

text \<open>The router's component id is the default argument of its constructor.\<close>

definition soc_allocate_wrapper_resources :: "'w soc_ibv \<Rightarrow> shm_api \<Rightarrow> 'w port_api \<Rightarrow> soc_memory \<Rightarrow> ComponentBlock_SoC \<times> 'w
    \<Rightarrow> (nicc_retval_t \<times> ComponentBlock_SoC \<times> 'w) exec" where
  "soc_allocate_wrapper_resources api sys papi mem s = (case s of (b, w) \<Rightarrow>
     bind_exec (Some (deref_obj (soc_function b))) (\<lambda>(a, fs).
     bind_exec (soc_allocate_channel api sys papi (soc_device_name (soc_desp b)) (soc_phy_port (soc_desp b))
         (new_Channel_SoC CH_RDMA PAKT_UNORDERED CH_RDMA PAKT_UNORDERED (sm_info_prior mem) (sm_info_next mem)
            (sm_channel_junk mem), w)) (\<lambda>(r, c, w').
       let b = b\<lparr>soc_function := Obj a (fs\<lparr>ss_channel := Obj (sm_channel mem) c\<rparr>)\<rparr>
       in if r \<noteq> NICC_SUCCESS then Some (Inr (r, (b, w')))
          else Some (Inr (r, (b\<lparr>soc_routing := Obj (sm_routing mem) (new_ComponentRouting_SoC ''soc'')\<rparr>, w'))))))"

definition soc_register_app_function :: "'w soc_ibv \<Rightarrow> shm_api \<Rightarrow> 'w port_api \<Rightarrow> soc_memory \<Rightarrow> AppFunction option
    \<Rightarrow> ComponentBlock_SoC \<times> 'w \<Rightarrow> (nicc_retval_t \<times> ComponentBlock_SoC \<times> 'w) exec" where
  "soc_register_app_function api sys papi mem f s = (case s of (b, w) \<Rightarrow> (case f of
       None \<Rightarrow> Some (Inl Assert_Failed)
     | Some app_func \<Rightarrow>
         if soc_function b = Null_Ptr then Some (Inl Assert_Failed)
         else if af_handlers app_func = [] then Some (Inr (NICC_SUCCESS, (b, w)))
         else bind_exec (Some (fold_run (scan_handler soc_slot) (af_handlers app_func) b)) (\<lambda>b.
           soc_allocate_wrapper_resources api sys papi mem (b, w))))"

definition soc_unregister_app_function :: "(ComponentBlock_SoC \<times> 'w) operation" where
  "soc_unregister_app_function s =
     (if soc_function (fst s) = Null_Ptr then Inl Assert_Failed else Inr (NICC_SUCCESS, s))"

subsection \<open>Connecting\<close>

definition soc_connect_to_neighbour :: "'w soc_ibv \<Rightarrow> 'w soc_verbs \<Rightarrow> ptr \<Rightarrow> ptr \<Rightarrow> bool \<Rightarrow> QPInfo option \<Rightarrow> bool
    \<Rightarrow> QPInfo option \<Rightarrow> (ComponentBlock_SoC \<times> 'w) operation" where
  "soc_connect_to_neighbour api vapi prior next to_remote remote to_local local s =
     bind_run (deref_obj (soc_function (fst s))) (\<lambda>(_, fs).
     if ss_channel fs = Null_Ptr then Inl Assert_Failed
     else on_soc_function (connect_steps (\<lambda>is_prior neighbour qi. on_soc_channel (soc_connect_qp api vapi is_prior neighbour qi))
            prior next to_remote remote to_local local) s)"

definition soc_get_qp_info :: "bool \<Rightarrow> ComponentBlock_SoC \<Rightarrow> QPInfo run" where
  "soc_get_qp_info is_prior b =
     bind_run (deref_obj (soc_function b)) (\<lambda>(_, fs).
     bind_run (deref_obj (ss_channel fs)) (\<lambda>(_, c). Inr (if is_prior then info_prior c else info_next c)))"

definition soc_add_control_plane_rule :: "ptr \<Rightarrow> (ComponentBlock_SoC \<times> 'w) operation" where
  "soc_add_control_plane_rule domain s = Inr (NICC_ERROR_NOT_IMPLEMENTED, s)"

definition soc_get_component_routing :: "ComponentBlock_SoC \<Rightarrow> ComponentRoutingState obj_ptr" where
  "soc_get_component_routing b = soc_routing b"

text \<open>The channel is registered by its address, as \<open>default\<close> and as the channel for unmapped values.\<close>

definition register_local_channels :: "ComponentBlock_SoC \<Rightarrow> (nicc_retval_t \<times> ComponentBlock_SoC) run" where
  "register_local_channels b =
     (if soc_routing b = Null_Ptr then Inl Nicc_Shutdown
      else if soc_function b = Null_Ptr then Inl Nicc_Shutdown
      else bind_run (deref_obj (soc_function b)) (\<lambda>(_, fs). case ss_channel fs of
          Null_Ptr \<Rightarrow> Inl Nicc_Shutdown
        | Bad_Ptr \<Rightarrow> Inl Bad_Access
        | Obj chan _ \<Rightarrow> bind_run (deref_obj (soc_routing b)) (\<lambda>(a, rt).
            bind_run (register_local_channel_SoC ''default'' (Some chan) rt) (\<lambda>(r, rt).
              if r \<noteq> NICC_SUCCESS then Inl Nicc_Shutdown
              else let (r, rt) = set_default_channel (Some chan) rt
                   in if r \<noteq> NICC_SUCCESS then Inl Nicc_Shutdown
                      else Inr (r, b\<lparr>soc_routing := Obj a rt\<rparr>)))))"

subsection \<open>Running\<close>

text \<open>
  The context at address \<open>ctx\<close> is handed to a new thread, which constructs the wrapper (a dispatcher)
  on it; \<open>start\<close> is the creation of the thread.
\<close>

definition handler_code :: "AppHandler option \<Rightarrow> ptr" where
  "handler_code h = (case h of None \<Rightarrow> None | Some h \<Rightarrow> binary_first h)"

definition create_wrapper_process :: "'w numa_api \<Rightarrow> (soc_wrapper_type_t \<Rightarrow> soc_thread_context \<Rightarrow> 'w \<Rightarrow> nat \<times> 'w) \<Rightarrow> nat
    \<Rightarrow> (ComponentBlock_SoC \<times> 'w) operation" where
  "create_wrapper_process napi start ctx s = (case s of (b, w) \<Rightarrow> on_soc_function (\<lambda>(fs, w).
     bind_run (deref_obj (ss_channel fs)) (\<lambda>(_, c). case (qp_prior c, qp_next c) of
         (Some p, Some n) \<Rightarrow>
           let tc = \<lparr>tc_qp_prior = p, tc_qp_next = n, tc_init_handler = handler_code (soc_init_h b),
                 tc_pkt_handler = handler_code (soc_pkt_h b), tc_msg_handler = handler_code (soc_msg_h b),
                 tc_cleanup_handler = handler_code (soc_cleanup_h b), tc_user_state = None, tc_user_state_size = 0\<rparr>;
               (t, w) = start kSoC_Dispatcher tc w
           in bind_run (bind_to_core napi t 0 0 w) (\<lambda>(_, w).
                Inr (NICC_SUCCESS, (fs\<lparr>ss_context := Obj ctx tc, ss_wrapper_thread := Some t\<rparr>, w)))
       | _ \<Rightarrow> Inl Assert_Failed)) (b, w))"

definition soc_run_block :: "'w numa_api \<Rightarrow> (soc_wrapper_type_t \<Rightarrow> soc_thread_context \<Rightarrow> 'w \<Rightarrow> nat \<times> 'w) \<Rightarrow> nat
    \<Rightarrow> (ComponentBlock_SoC \<times> 'w) operation" where
  "soc_run_block = create_wrapper_process"

end
