(* ===== verification/Components.thy ===== *)
theory Components
  imports DpaBlock SocBlock
begin

text \<open>
  The components that hand out blocks (\<open>runtime/include/resources/component.h\<close>,
  \<open>component_impl/{dpa,soc,flow_engine}_component.{h,cc}\<close>) and the resource pool that owns them
  (\<open>runtime/include/resources/resource_pool.h\<close>, \<open>runtime/src/resources/resource_pool.cc\<close>).
\<close>

unbundle bit_operations_syntax

subsection \<open>Components\<close>

text \<open>\<open>'s\<close> is the type of the component's state; its quota is what is left to hand out.\<close>

record 's Component =
  comp_cid :: component_typeid_t
  comp_desp :: component_desp
  comp_state :: 's

datatype component =
    Comp_DPA "ComponentState_DPA Component"
  | Comp_SoC "ComponentState_SoC Component"
  | Comp_FlowEngine "ComponentState_FlowEngine Component"

datatype block =
    Blk_DPA ComponentBlock_DPA
  | Blk_SoC ComponentBlock_SoC
  | Blk_FlowEngine ComponentBlock_FlowEngine

text \<open>The base class.\<close>

definition base_comp_init :: "component_desp option \<Rightarrow> nicc_retval_t" where
  "base_comp_init d = NICC_ERROR_NOT_IMPLEMENTED"

definition base_allocate_block :: "component_desp option \<Rightarrow> block option \<Rightarrow> nicc_retval_t" where
  "base_allocate_block d b = NICC_ERROR_NOT_IMPLEMENTED"

definition base_deallocate_block :: "block option \<Rightarrow> nicc_retval_t" where
  "base_deallocate_block b = NICC_ERROR_NOT_IMPLEMENTED"

text \<open>
  Construction followed by \<open>init\<close>, which sets descriptor and state. The state of the SoC component
  has one member more than \<open>init\<close> sets (\<open>junk\<close>).
\<close>

definition dpa_comp_init :: "component_desp option \<Rightarrow> (nicc_retval_t \<times> ComponentState_DPA Component) run" where
  "dpa_comp_init desp = (case desp of
       None \<Rightarrow> Inl Assert_Failed
     | Some d \<Rightarrow> Inr (NICC_SUCCESS, \<lparr>comp_cid = kComponent_DPA, comp_desp = d,
         comp_state = \<lparr>state_quota = quota (base_desp d), mock_state = 0\<rparr>\<rparr>))"

definition soc_comp_init :: "u8 \<Rightarrow> component_desp option \<Rightarrow> (nicc_retval_t \<times> ComponentState_SoC Component) run" where
  "soc_comp_init junk desp = (case desp of
       None \<Rightarrow> Inl Assert_Failed
     | Some d \<Rightarrow> Inr (NICC_SUCCESS, \<lparr>comp_cid = kComponent_SoC, comp_desp = d,
         comp_state = \<lparr>state_quota = quota (base_desp d), mock_state = junk\<rparr>\<rparr>))"

definition fe_comp_init :: "component_desp option \<Rightarrow> (nicc_retval_t \<times> ComponentState_FlowEngine Component) run" where
  "fe_comp_init desp = (case desp of
       None \<Rightarrow> Inl Assert_Failed
     | Some d \<Rightarrow> Inr (NICC_SUCCESS, \<lparr>comp_cid = kComponent_FlowEngine, comp_desp = d,
         comp_state = \<lparr>state_quota = quota (base_desp d)\<rparr>\<rparr>))"

text \<open>
  \<open>allocate_block\<close>: the quota is checked and taken, and the block is given quota, name, the
  descriptor members of its kind and a zeroed state. The SoC and the flow engine component leave the
  quota in the block's state at zero.
\<close>

definition dpa_allocate_block :: "component_desp option \<Rightarrow> ComponentBlock_DPA option \<Rightarrow> ComponentState_DPA Component
    \<Rightarrow> (nicc_retval_t \<times> ComponentState_DPA Component \<times> ComponentBlock_DPA) run" where
  "dpa_allocate_block desp cb c = (case (desp, cb) of
       (Some d, Some b) \<Rightarrow>
         if state_quota (comp_state c) < quota (base_desp d) then Inr (NICC_ERROR_EXSAUSTED, c, b)
         else (case d of
             Desp_DPA dd \<Rightarrow> Inr (NICC_SUCCESS,
               c\<lparr>comp_state := (comp_state c)\<lparr>state_quota := state_quota (comp_state c) - quota dd, mock_state := 0\<rparr>\<rparr>,
               b\<lparr>dpa_desp := (dpa_desp b)\<lparr>quota := quota dd, dpa_device_name := dpa_device_name dd,
                     dpa_phy_port := dpa_phy_port dd, dpa_core_id := 0\<rparr>,
                 dpa_state := \<lparr>state_quota = quota dd, mock_state = 0\<rparr>, blk_name := block_name dd\<rparr>)
           | _ \<Rightarrow> Inl Bad_Access)
     | _ \<Rightarrow> Inl Assert_Failed)"

definition soc_allocate_block :: "component_desp option \<Rightarrow> ComponentBlock_SoC option \<Rightarrow> ComponentState_SoC Component
    \<Rightarrow> (nicc_retval_t \<times> ComponentState_SoC Component \<times> ComponentBlock_SoC) run" where
  "soc_allocate_block desp cb c = (case (desp, cb) of
       (Some d, Some b) \<Rightarrow>
         if state_quota (comp_state c) < quota (base_desp d) then Inr (NICC_ERROR_EXSAUSTED, c, b)
         else (case d of
             Desp_SoC sd \<Rightarrow> Inr (NICC_SUCCESS,
               c\<lparr>comp_state := (comp_state c)\<lparr>state_quota := state_quota (comp_state c) - quota sd\<rparr>\<rparr>,
               b\<lparr>soc_desp := (soc_desp b)\<lparr>quota := quota sd, soc_device_name := soc_device_name sd,
                     soc_phy_port := soc_phy_port sd\<rparr>,
                 soc_state := \<lparr>state_quota = 0, mock_state = 0\<rparr>, blk_name := block_name sd\<rparr>)
           | _ \<Rightarrow> Inl Bad_Access)
     | _ \<Rightarrow> Inl Assert_Failed)"

definition fe_allocate_block :: "component_desp option \<Rightarrow> ComponentBlock_FlowEngine option
    \<Rightarrow> ComponentState_FlowEngine Component
    \<Rightarrow> (nicc_retval_t \<times> ComponentState_FlowEngine Component \<times> ComponentBlock_FlowEngine) run" where
  "fe_allocate_block desp cb c = (case (desp, cb) of
       (Some d, Some b) \<Rightarrow>
         let q = quota (base_desp d) in
         if state_quota (comp_state c) < q then Inr (NICC_ERROR_EXSAUSTED, c, b)
         else Inr (NICC_SUCCESS,
               c\<lparr>comp_state := (comp_state c)\<lparr>state_quota := state_quota (comp_state c) - q\<rparr>\<rparr>,
               b\<lparr>fe_desp := (fe_desp b)\<lparr>quota := q\<rparr>, fe_state := \<lparr>state_quota = 0\<rparr>,
                 blk_name := block_name (base_desp d)\<rparr>)
     | _ \<Rightarrow> Inl Assert_Failed)"

text \<open>\<open>deallocate_block\<close>: the quota of the block's descriptor is given back, the block is deleted.\<close>

definition dpa_deallocate_block :: "ComponentBlock_DPA option \<Rightarrow> ComponentState_DPA Component
    \<Rightarrow> (nicc_retval_t \<times> ComponentState_DPA Component) run" where
  "dpa_deallocate_block cb c = (case cb of
       None \<Rightarrow> Inl Assert_Failed
     | Some b \<Rightarrow> Inr (NICC_SUCCESS, c\<lparr>comp_state := (comp_state c)\<lparr>state_quota :=
         state_quota (comp_state c) + quota (dpa_desp b)\<rparr>\<rparr>))"

definition soc_deallocate_block :: "ComponentBlock_SoC option \<Rightarrow> ComponentState_SoC Component
    \<Rightarrow> (nicc_retval_t \<times> ComponentState_SoC Component) run" where
  "soc_deallocate_block cb c = (case cb of
       None \<Rightarrow> Inl Assert_Failed
     | Some b \<Rightarrow> Inr (NICC_SUCCESS, c\<lparr>comp_state := (comp_state c)\<lparr>state_quota :=
         state_quota (comp_state c) + quota (soc_desp b)\<rparr>\<rparr>))"

definition fe_deallocate_block :: "ComponentBlock_FlowEngine option \<Rightarrow> ComponentState_FlowEngine Component
    \<Rightarrow> (nicc_retval_t \<times> ComponentState_FlowEngine Component) run" where
  "fe_deallocate_block cb c = (case cb of
       None \<Rightarrow> Inl Assert_Failed
     | Some b \<Rightarrow> Inr (NICC_SUCCESS, c\<lparr>comp_state := (comp_state c)\<lparr>state_quota :=
         state_quota (comp_state c) + quota (fe_desp b)\<rparr>\<rparr>))"

subsection \<open>The contract of a component\<close>

text \<open>
  What the pool relies on: a component takes the requested quota when it has it and records it in the
  block, refuses otherwise without any change, and takes back what the block records.
\<close>

locale quota_component =
  fixes alloc :: "component_desp option \<Rightarrow> 'b option \<Rightarrow> 'c \<Rightarrow> (nicc_retval_t \<times> 'c \<times> 'b) run"
    and dealloc :: "'b option \<Rightarrow> 'c \<Rightarrow> (nicc_retval_t \<times> 'c) run"
    and avail :: "'c \<Rightarrow> u64"
    and held :: "'b \<Rightarrow> u64"
    and named :: "'b \<Rightarrow> string"
  assumes alloc_cases: "alloc (Some d) (Some b) c = Inr (r, c', b') \<Longrightarrow>
      (r = NICC_ERROR_EXSAUSTED \<and> avail c < quota (base_desp d) \<and> c' = c \<and> b' = b) \<or>
      (r = NICC_SUCCESS \<and> quota (base_desp d) \<le> avail c \<and> avail c' = avail c - quota (base_desp d) \<and>
        held b' = quota (base_desp d) \<and> named b' = block_name (base_desp d))"
    and dealloc_gives: "\<exists>c'. dealloc (Some b) c = Inr (NICC_SUCCESS, c') \<and> avail c' = avail c + held b"
begin

lemma alloc_outcome:
  assumes "alloc (Some d) (Some b) c = Inr (r, c', b')"
  shows "(r = NICC_ERROR_EXSAUSTED \<and> avail c < quota (base_desp d) \<and> c' = c \<and> b' = b) \<or>
    (r = NICC_SUCCESS \<and> held b' = quota (base_desp d) \<and> named b' = block_name (base_desp d)
      \<and> unat (avail c') + unat (held b') = unat (avail c))"
  using alloc_cases [OF assms] by (auto simp: unat_sub word_le_nat_alt)

lemma dealloc_conserves:
  assumes "dealloc (Some b) c = Inr (r, c')" and "unat (avail c) + unat (held b) < 2 ^ 64"
  shows "r = NICC_SUCCESS \<and> unat (avail c') = unat (avail c) + unat (held b)"
proof -
  obtain c'' where c'': "dealloc (Some b) c = Inr (NICC_SUCCESS, c'')" "avail c'' = avail c + held b"
    using dealloc_gives [of b c] by blast
  have "unat (avail c + held b) = unat (avail c) + unat (held b)"
    using assms(2) by (simp add: unat_word_ariths)
  with c'' assms(1) show ?thesis by simp
qed

end

interpretation dpa_component: quota_component dpa_allocate_block dpa_deallocate_block
    "\<lambda>c. state_quota (comp_state c)" "\<lambda>b. quota (dpa_desp b)" blk_name
  by unfold_locales
    (auto simp: dpa_allocate_block_def dpa_deallocate_block_def not_less ComponentBaseDesp.defs split: if_splits component_desp.splits)

interpretation soc_component: quota_component soc_allocate_block soc_deallocate_block
    "\<lambda>c. state_quota (comp_state c)" "\<lambda>b. quota (soc_desp b)" blk_name
  by unfold_locales
    (auto simp: soc_allocate_block_def soc_deallocate_block_def not_less ComponentBaseDesp.defs split: if_splits component_desp.splits)

interpretation fe_component: quota_component fe_allocate_block fe_deallocate_block
    "\<lambda>c. state_quota (comp_state c)" "\<lambda>b. quota (fe_desp b)" blk_name
  by unfold_locales
    (auto simp: fe_allocate_block_def fe_deallocate_block_def Let_def not_less split: if_splits)

end
