(* ===== verification/ResourcePool.thy ===== *)
theory ResourcePool
  imports Components
begin

text \<open>
  The class \<open>ResourcePool\<close> (\<open>runtime/include/resources/resource_pool.h\<close>,
  \<open>runtime/src/resources/resource_pool.cc\<close>): which components are created, the dispatch of requests
  to them, and the conservation of every component's quota.
\<close>

unbundle bit_operations_syntax

record ResourcePool =
  rp_enabled :: component_typeid_t
  rp_components :: "component_typeid_t \<rightharpoonup> component"

subsection \<open>Dispatch\<close>

text \<open>The virtual calls; a block of another kind than the component's is a wrong cast.\<close>

fun comp_allocate :: "component_desp option \<Rightarrow> block \<Rightarrow> component \<Rightarrow> (nicc_retval_t \<times> component \<times> block) run" where
  "comp_allocate d (Blk_DPA b) (Comp_DPA c) =
     bind_run (dpa_allocate_block d (Some b) c) (\<lambda>(r, c', b'). Inr (r, Comp_DPA c', Blk_DPA b'))"
| "comp_allocate d (Blk_SoC b) (Comp_SoC c) =
     bind_run (soc_allocate_block d (Some b) c) (\<lambda>(r, c', b'). Inr (r, Comp_SoC c', Blk_SoC b'))"
| "comp_allocate d (Blk_FlowEngine b) (Comp_FlowEngine c) =
     bind_run (fe_allocate_block d (Some b) c) (\<lambda>(r, c', b'). Inr (r, Comp_FlowEngine c', Blk_FlowEngine b'))"
| "comp_allocate d b c = Inl Bad_Access"

fun comp_deallocate :: "block \<Rightarrow> component \<Rightarrow> (nicc_retval_t \<times> component) run" where
  "comp_deallocate (Blk_DPA b) (Comp_DPA c) =
     bind_run (dpa_deallocate_block (Some b) c) (\<lambda>(r, c'). Inr (r, Comp_DPA c'))"
| "comp_deallocate (Blk_SoC b) (Comp_SoC c) =
     bind_run (soc_deallocate_block (Some b) c) (\<lambda>(r, c'). Inr (r, Comp_SoC c'))"
| "comp_deallocate (Blk_FlowEngine b) (Comp_FlowEngine c) =
     bind_run (fe_deallocate_block (Some b) c) (\<lambda>(r, c'). Inr (r, Comp_FlowEngine c'))"
| "comp_deallocate b c = Inl Bad_Access"

definition comp_create :: "u8 \<Rightarrow> component_typeid_t \<Rightarrow> component_desp option \<Rightarrow> (nicc_retval_t \<times> component) run" where
  "comp_create junk cid d =
     (if cid = kComponent_FlowEngine then bind_run (fe_comp_init d) (\<lambda>(r, c). Inr (r, Comp_FlowEngine c))
      else if cid = kComponent_DPA then bind_run (dpa_comp_init d) (\<lambda>(r, c). Inr (r, Comp_DPA c))
      else if cid = kComponent_SoC then bind_run (soc_comp_init junk d) (\<lambda>(r, c). Inr (r, Comp_SoC c))
      else Inl Nicc_Shutdown)"

subsection \<open>Construction\<close>

text \<open>
  The configurations come in ascending order of the component id. The first loop only clears the
  bits of configured components; a configuration that is not enabled is said to be skipped but the
  second loop visits all of them.
\<close>

definition check_config :: "component_typeid_t \<Rightarrow> component_typeid_t \<Rightarrow> component_typeid_t" where
  "check_config cid enabled =
     (if enabled AND cid = 0 then enabled else enabled XOR (cid AND NICC_ENABLE_FULL_MASK))"

definition create_component :: "u8 \<Rightarrow> component_typeid_t \<times> component_desp option
    \<Rightarrow> (component_typeid_t \<rightharpoonup> component) \<Rightarrow> (component_typeid_t \<rightharpoonup> component) run" where
  "create_component junk cfg m = (case cfg of (cid, d) \<Rightarrow>
     if d = None then Inl Assert_Failed
     else bind_run (comp_create junk cid d) (\<lambda>(r, c).
       if r \<noteq> NICC_SUCCESS then Inr m
       else Inr (if m cid = None then m(cid \<mapsto> c) else m)))"

definition new_ResourcePool :: "u8 \<Rightarrow> component_typeid_t \<Rightarrow> (component_typeid_t \<times> component_desp option) list
    \<Rightarrow> ResourcePool run" where
  "new_ResourcePool junk enabled configs =
     (if fold check_config (map fst configs) enabled \<noteq> 0 then Inl Nicc_Shutdown
      else bind_run (fold_run (create_component junk) configs Map.empty) (\<lambda>m.
        Inr \<lparr>rp_enabled = enabled, rp_components = m\<rparr>))"

subsection \<open>Requests\<close>

text \<open>For a component that is not there the failed look-up is followed by an assertion on its result.\<close>

definition pool_allocate :: "component_typeid_t \<Rightarrow> component_desp option \<Rightarrow> block option \<Rightarrow> ResourcePool
    \<Rightarrow> (nicc_retval_t \<times> ResourcePool \<times> block) run" where
  "pool_allocate cid desp cb p = (case (desp, cb) of
       (Some d, Some b) \<Rightarrow> (case rp_components p cid of
           None \<Rightarrow> Inl Assert_Failed
         | Some c \<Rightarrow> bind_run (comp_allocate desp b c) (\<lambda>(r, c', b').
             Inr (r, p\<lparr>rp_components := (rp_components p)(cid \<mapsto> c')\<rparr>, b')))
     | _ \<Rightarrow> Inl Assert_Failed)"

definition pool_deallocate :: "component_typeid_t \<Rightarrow> block option \<Rightarrow> ResourcePool
    \<Rightarrow> (nicc_retval_t \<times> ResourcePool) run" where
  "pool_deallocate cid cb p = (case cb of
       None \<Rightarrow> Inl Assert_Failed
     | Some b \<Rightarrow> (case rp_components p cid of
           None \<Rightarrow> Inl Assert_Failed
         | Some c \<Rightarrow> bind_run (comp_deallocate b c) (\<lambda>(r, c').
             Inr (r, p\<lparr>rp_components := (rp_components p)(cid \<mapsto> c')\<rparr>))))"

subsection \<open>Quota\<close>

fun comp_avail :: "component \<Rightarrow> u64" where
  "comp_avail (Comp_DPA c) = state_quota (comp_state c)"
| "comp_avail (Comp_SoC c) = state_quota (comp_state c)"
| "comp_avail (Comp_FlowEngine c) = state_quota (comp_state c)"

fun blk_held :: "block \<Rightarrow> u64" where
  "blk_held (Blk_DPA b) = quota (dpa_desp b)"
| "blk_held (Blk_SoC b) = quota (soc_desp b)"
| "blk_held (Blk_FlowEngine b) = quota (fe_desp b)"

fun blk_base :: "block \<Rightarrow> ComponentBlock" where
  "blk_base (Blk_DPA b) = ComponentBlock.truncate b"
| "blk_base (Blk_SoC b) = ComponentBlock.truncate b"
| "blk_base (Blk_FlowEngine b) = ComponentBlock.truncate b"

lemma comp_allocate_cases:
  assumes "comp_allocate (Some d) b c = Inr (r, c', b')"
  shows "(r = NICC_ERROR_EXSAUSTED \<and> comp_avail c < quota (base_desp d) \<and> c' = c \<and> b' = b) \<or>
    (r = NICC_SUCCESS \<and> blk_held b' = quota (base_desp d) \<and> blk_name (blk_base b') = block_name (base_desp d)
      \<and> unat (comp_avail c') + unat (blk_held b') = unat (comp_avail c))"
  using assms
  by (cases b; cases c)
    (auto simp: bind_run_eq_Inr ComponentBlock.defs
      dest!: dpa_component.alloc_outcome soc_component.alloc_outcome fe_component.alloc_outcome)

lemma comp_deallocate_conserves:
  assumes "comp_deallocate b c = Inr (r, c')" "unat (comp_avail c) + unat (blk_held b) < 2 ^ 64"
  shows "r = NICC_SUCCESS \<and> unat (comp_avail c') = unat (comp_avail c) + unat (blk_held b)"
  using assms
  by (cases b; cases c)
    (auto simp: bind_run_eq_Inr dest!: dpa_component.dealloc_conserves soc_component.dealloc_conserves
        fe_component.dealloc_conserves)

text \<open>
  The life of a pool and the blocks it has handed out: allocations, returns, and any use of a block
  that leaves the quota in its descriptor alone.
\<close>

type_synonym pool_state = "ResourcePool \<times> (component_typeid_t \<times> block) list"

inductive pool_step :: "pool_state \<Rightarrow> pool_state \<Rightarrow> bool" where
  allocate: "pool_allocate cid d (Some b) p = Inr (r, p', b') \<Longrightarrow>
     pool_step (p, bs) (p', if r = NICC_SUCCESS then (cid, b') # bs else bs)"
| deallocate: "pool_deallocate cid (Some b) p = Inr (r, p') \<Longrightarrow>
     pool_step (p, xs @ (cid, b) # ys) (p', if r = NICC_SUCCESS then xs @ ys else xs @ (cid, b) # ys)"
| use: "blk_held b' = blk_held b \<Longrightarrow> pool_step (p, xs @ (cid, b) # ys) (p, xs @ (cid, b') # ys)"

inductive_cases pool_stepE: "pool_step (p, bs) (p', bs')"

definition held_of :: "component_typeid_t \<Rightarrow> (component_typeid_t \<times> block) list \<Rightarrow> nat" where
  "held_of cid bs = sum_list (map (\<lambda>(k, b). if k = cid then unat (blk_held b) else 0) bs)"

lemma held_of_simps [simp]:
  "held_of cid [] = 0"
  "held_of cid ((k, b) # bs) = (if k = cid then unat (blk_held b) else 0) + held_of cid bs"
  "held_of cid (xs @ ys) = held_of cid xs + held_of cid ys"
  by (simp_all add: held_of_def)

text \<open>The account of a component: what is left and what is out make up \<open>tot\<close>.\<close>

definition account :: "component_typeid_t \<Rightarrow> nat \<Rightarrow> pool_state \<Rightarrow> bool" where
  "account cid tot s \<longleftrightarrow> (\<exists>c. rp_components (fst s) cid = Some c \<and>
     unat (comp_avail c) + held_of cid (snd s) = tot)"

lemma pool_step_account:
  assumes "pool_step s s'" "account cid tot s" "tot < 2 ^ 64"
  shows "account cid tot s'"
  using assms
proof cases
  case (allocate k d b p r p' b' bs)
  then obtain dd c c' where "d = Some dd" "rp_components p k = Some c" "comp_allocate (Some dd) b c = Inr (r, c', b')"
      "p' = p\<lparr>rp_components := (rp_components p)(k \<mapsto> c')\<rparr>"
    by (auto simp: pool_allocate_def bind_run_eq_Inr split: option.splits)
  with comp_allocate_cases [of dd b c r c' b'] allocate assms(2) show ?thesis
    by (auto simp: account_def)
next
  case (deallocate k b p r p' xs ys)
  then obtain c c' where c: "rp_components p k = Some c" "comp_deallocate b c = Inr (r, c')"
      "p' = p\<lparr>rp_components := (rp_components p)(k \<mapsto> c')\<rparr>"
    by (auto simp: pool_deallocate_def bind_run_eq_Inr split: option.splits)
  show ?thesis
  proof (cases "k = cid")
    case True
    with c assms(2,3) deallocate have "unat (comp_avail c) + unat (blk_held b) < 2 ^ 64"
      by (auto simp: account_def)
    with comp_deallocate_conserves [OF c(2)] c deallocate assms(2) True show ?thesis
      by (auto simp: account_def)
  next
    case False
    with c deallocate assms(2) show ?thesis by (auto simp: account_def)
  qed
next
  case (use b' b p xs k ys)
  with assms(2) show ?thesis by (auto simp: account_def)
qed

lemma pool_account_reachable:
  assumes "pool_step\<^sup>*\<^sup>* s s'" "account cid tot s" "tot < 2 ^ 64"
  shows "account cid tot s'"
  using assms by (induction rule: rtranclp_induct) (auto intro: pool_step_account)

text \<open>
  C5. Whatever blocks are allocated, used and returned in whatever order, what a component has left and what its
  live blocks hold always add up to the quota it was created with.
\<close>

theorem pool_quota_conserved:
  assumes "pool_step\<^sup>*\<^sup>* (p0, []) (p, bs)" and "rp_components p0 cid = Some c0"
  shows "\<exists>c. rp_components p cid = Some c \<and> unat (comp_avail c) + held_of cid bs = unat (comp_avail c0)"
proof -
  have "unat (comp_avail c0) < 2 ^ 64"
    using unsigned_less [of "comp_avail c0", where ?'a = nat] by simp
  then show ?thesis
    using pool_account_reachable [OF assms(1), of cid "unat (comp_avail c0)"] assms(2) by (simp add: account_def)
qed

definition demo_soc_desp :: "u64 \<Rightarrow> string \<Rightarrow> ComponentDesp_SoC" where
  "demo_soc_desp q n = \<lparr>quota = q, block_name = n, soc_device_name = ''mlx5_2'', soc_phy_port = 0\<rparr>"

definition demo_pool :: ResourcePool where
  "demo_pool = \<lparr>rp_enabled = 4, rp_components = [4 \<mapsto> Comp_SoC \<lparr>comp_cid = 4,
     comp_desp = Desp_SoC (demo_soc_desp 16 []), comp_state = \<lparr>state_quota = 16, mock_state = 0\<rparr>\<rparr>]\<rparr>"

definition demo_soc_block :: ComponentBlock_SoC where
  "demo_soc_block = \<lparr>blk_component_id = 4, blk_name = [], soc_desp = demo_soc_desp 0 [],
     soc_state = \<lparr>state_quota = 9, mock_state = 9\<rparr>,
     soc_function = Obj 1 \<lparr>ss_context = Bad_Ptr, ss_wrapper_thread = None, ss_channel = Bad_Ptr\<rparr>,
     soc_routing = Bad_Ptr, soc_init_h = None, soc_pkt_h = None, soc_msg_h = None, soc_cleanup_h = None\<rparr>"

text \<open>A block of quota 4 is allocated; a request of 13 is refused.\<close>

lemma pool_quota_conserved_witness:
  "\<exists>p bs c. pool_step\<^sup>*\<^sup>* (demo_pool, []) (p, bs) \<and> length bs = 1 \<and> rp_components p 4 = Some c
     \<and> comp_avail c = 12 \<and> unat (comp_avail c) + held_of 4 bs = 16"
proof -
  obtain p b where a: "pool_allocate 4 (Some (Desp_SoC (demo_soc_desp 4 ''soc''))) (Some (Blk_SoC demo_soc_block)) demo_pool
      = Inr (NICC_SUCCESS, p, b)" and c: "comp_avail (the (rp_components p 4)) = 12"
    by (simp add: pool_allocate_def demo_pool_def soc_allocate_block_def demo_soc_desp_def ComponentBaseDesp.defs)
  obtain b' where "pool_allocate 4 (Some (Desp_SoC (demo_soc_desp 13 ''soc''))) (Some (Blk_SoC demo_soc_block)) p
      = Inr (NICC_ERROR_EXSAUSTED, p, b')"
    using a by (auto simp: pool_allocate_def demo_pool_def soc_allocate_block_def demo_soc_desp_def ComponentBaseDesp.defs)
  then have "pool_step (p, [(4, b)]) (p, [(4, b)])"
    using pool_step.allocate [of 4 _ _ p NICC_ERROR_EXSAUSTED p b' "[(4, b)]"] by simp
  moreover have "pool_step (demo_pool, []) (p, [(4, b)])"
    using pool_step.allocate [OF a, of "[]"] by simp
  ultimately have r: "pool_step\<^sup>*\<^sup>* (demo_pool, []) (p, [(4, b)])" by (rule converse_rtranclp_into_rtranclp [OF _ r_into_rtranclp, rotated])
  have "rp_components demo_pool 4 = Some (Comp_SoC \<lparr>comp_cid = 4,
     comp_desp = Desp_SoC (demo_soc_desp 16 []), comp_state = \<lparr>state_quota = 16, mock_state = 0\<rparr>\<rparr>)"
    by (simp add: demo_pool_def)
  from pool_quota_conserved [OF r this] c r show ?thesis
    by (intro exI [of _ p] exI [of _ "[(4, b)]"]) auto
qed

subsection \<open>Which components are created\<close>

lemma check_config_bit:
  assumes "n < 16"
  shows "check_config (push_bit n 1) en = en AND NOT (push_bit n 1)"
proof -
  have b: "bit (push_bit n 1 :: component_typeid_t) m \<longleftrightarrow> m = n" if "m < 16" for m
    using that assms by (auto simp: bit_exp_iff)
  have z: "en AND push_bit n 1 = 0 \<longleftrightarrow> \<not> bit en n"
  proof
    assume "en AND push_bit n 1 = 0"
    then have "\<not> bit (en AND push_bit n 1) n" by simp
    then show "\<not> bit en n" using b [OF assms] by (simp only: bit_and_iff) blast
  next
    assume "\<not> bit en n"
    then show "en AND push_bit n 1 = 0" by (intro bit_word_eqI) (auto simp: bit_and_iff b simp del: push_bit_of_1)
  qed
  have f: "push_bit n 1 AND NICC_ENABLE_FULL_MASK = (push_bit n 1 :: component_typeid_t)"
  proof -
    have full: "NICC_ENABLE_FULL_MASK = - 1" by (simp add: NICC_ENABLE_FULL_MASK_def)
    show ?thesis unfolding full by simp
  qed
  show ?thesis
    unfolding check_config_def f z
    by (rule bit_word_eqI) (auto simp: bit_and_iff bit_not_iff bit_xor_iff b simp del: push_bit_of_1)
qed

definition configured :: "component_typeid_t list \<Rightarrow> component_typeid_t" where
  "configured ks = fold (OR) ks 0"

lemma check_configs:
  assumes "\<forall>k \<in> set ks. k \<in> {kComponent_FlowEngine, kComponent_DPA, kComponent_SoC}"
  shows "fold check_config ks en = en AND NOT (configured ks)"
proof -
  have c: "check_config k en = en AND NOT k" if "k \<in> set ks" for k en
    using assms that check_config_bit [of 0 en] check_config_bit [of 1 en] check_config_bit [of 2 en]
    by (auto simp: component_id_defs)
  have "fold check_config ks' en AND NOT a = en AND NOT (fold (OR) ks' a)" if "set ks' \<subseteq> set ks" for ks' en a
    using that
  proof (induction ks' arbitrary: en a)
    case (Cons k ks')
    then have "fold check_config (k # ks') en AND NOT a = en AND NOT k AND NOT (fold (OR) ks' a)"
      by (simp add: c and.assoc)
    moreover have "fold (OR) ks' (k OR a) = k OR fold (OR) ks' a" for ks' and a k :: component_typeid_t
      by (induction ks' arbitrary: a) (simp_all add: or.left_commute [of _ k])
    ultimately show ?case by (simp add: and.assoc)
  qed simp
  from this [of ks en 0] show ?thesis by (simp add: configured_def)
qed

lemma create_components:
  assumes "\<forall>(k, d) \<in> set configs. k \<in> {kComponent_FlowEngine, kComponent_DPA, kComponent_SoC} \<and> d \<noteq> None"
    and "distinct (map fst configs)" "\<forall>k \<in> fst ` set configs. m0 k = None"
  shows "\<exists>m. fold_run (create_component junk) configs m0 = Inr m \<and> dom m = dom m0 \<union> fst ` set configs
    \<and> (\<forall>(k, d) \<in> set configs. \<exists>c. m k = Some c \<and> comp_avail c = quota (base_desp (the d)))
    \<and> (\<forall>k. k \<notin> fst ` set configs \<longrightarrow> m k = m0 k)"
  using assms
proof (induction configs arbitrary: m0)
  case (Cons kd configs)
  obtain k d where kd: "kd = (k, Some d)" using Cons.prems(1) by (cases kd) auto
  with Cons.prems(1) obtain c where c: "comp_create junk k (Some d) = Inr (NICC_SUCCESS, c)" "comp_avail c = quota (base_desp d)"
    by (auto simp: component_id_defs comp_create_def fe_comp_init_def dpa_comp_init_def soc_comp_init_def)
  from Cons.prems(2,3) kd have k: "k \<notin> fst ` set configs" "m0 k = None" by auto
  from Cons.prems k kd have "\<forall>(k, d) \<in> set configs. k \<in> {kComponent_FlowEngine, kComponent_DPA, kComponent_SoC} \<and> d \<noteq> None"
      "distinct (map fst configs)" "\<forall>k' \<in> fst ` set configs. (m0(k \<mapsto> c)) k' = None"
    by auto
  from Cons.IH [OF this] obtain m where m: "fold_run (create_component junk) configs (m0(k \<mapsto> c)) = Inr m"
      "dom m = dom (m0(k \<mapsto> c)) \<union> fst ` set configs"
      "\<forall>(k, d) \<in> set configs. \<exists>c. m k = Some c \<and> comp_avail c = quota (base_desp (the d))"
      "\<forall>k'. k' \<notin> fst ` set configs \<longrightarrow> m k' = (m0(k \<mapsto> c)) k'"
    by blast
  have "m k = Some c" using m(4) k(1) by simp
  moreover have "create_component junk kd m0 = Inr (m0(k \<mapsto> c))"
    using c k kd by (simp add: create_component_def)
  ultimately show ?case
    using m c(2) k kd by (intro exI [of _ m] conjI) auto
qed simp

text \<open>
  The pool comes up exactly if every enabled component has a configuration; it then has a component, with its
  whole quota left, for every configuration, also for those that are not enabled.
\<close>

lemma pool_components_created:
  assumes "\<forall>(k, d) \<in> set configs. k \<in> {kComponent_FlowEngine, kComponent_DPA, kComponent_SoC} \<and> d \<noteq> None"
    and "om_wf configs"
  shows "(if enabled AND NOT (configured (map fst configs)) = 0
     then \<exists>p. new_ResourcePool junk enabled configs = Inr p \<and> dom (rp_components p) = fst ` set configs
       \<and> (\<forall>(k, d) \<in> set configs. \<exists>c. rp_components p k = Some c \<and> comp_avail c = quota (base_desp (the d)))
     else new_ResourcePool junk enabled configs = Inl Nicc_Shutdown)"
proof -
  have "fold check_config (map fst configs) enabled = enabled AND NOT (configured (map fst configs))"
    using assms(1) by (intro check_configs) auto
  moreover obtain m where "fold_run (create_component junk) configs Map.empty = Inr m"
      "dom m = fst ` set configs"
      "\<forall>(k, d) \<in> set configs. \<exists>c. m k = Some c \<and> comp_avail c = quota (base_desp (the d))"
    using create_components [OF assms(1) om_wf_distinct [OF assms(2)], of Map.empty junk] by auto
  ultimately show ?thesis by (simp add: new_ResourcePool_def)
qed

text \<open>Only the SoC is enabled; the DPA's configuration is not skipped.\<close>

lemma pool_components_created_witness:
  "\<exists>p. new_ResourcePool 0 kComponent_SoC [(kComponent_DPA, Some (Desp_SoC (demo_soc_desp 128 []))),
       (kComponent_SoC, Some (Desp_SoC (demo_soc_desp 16 [])))] = Inr p
     \<and> dom (rp_components p) = {kComponent_DPA, kComponent_SoC}"
  using pool_components_created [of "[(kComponent_DPA, Some (Desp_SoC (demo_soc_desp 128 []))),
       (kComponent_SoC, Some (Desp_SoC (demo_soc_desp 16 [])))]" kComponent_SoC 0]
  by (simp add: om_wf_def component_id_defs configured_def) blast

end
