(* ===== verification/MgntConnection.thy ===== *)
theory MgntConnection
  imports QPInfo
begin

text \<open>
  The management connection of \<open>runtime/include/utils/mgnt_connection.h\<close>: a TCP client and a TCP
  server over the socket calls of the system, which are a parameter over the state \<open>'w\<close> of the
  network. Setting socket options has no result that is looked at and is left out.
\<close>

text \<open>
  \<open>sock_connect\<close> gets the text of the address and the port, \<open>sock_bind\<close> the port. \<open>sock_read\<close>
  returns the count and the bytes of at most 1024 read; \<open>htons\<close> keeps 16 bits of the port.
\<close>

record 'w sock_api =
  sock_new :: "'w \<Rightarrow> int \<times> 'w"
  sock_connect :: "int \<Rightarrow> string \<Rightarrow> u16 \<Rightarrow> 'w \<Rightarrow> int \<times> 'w"
  sock_bind :: "int \<Rightarrow> u16 \<Rightarrow> 'w \<Rightarrow> int \<times> 'w"
  sock_listen :: "int \<Rightarrow> nat \<Rightarrow> 'w \<Rightarrow> int \<times> 'w"
  sock_accept :: "int \<Rightarrow> 'w \<Rightarrow> int \<times> 'w"
  sock_send :: "int \<Rightarrow> string \<Rightarrow> 'w \<Rightarrow> 'w"
  sock_read :: "int \<Rightarrow> nat \<Rightarrow> 'w \<Rightarrow> (int \<times> string) \<times> 'w"
  sock_close :: "int \<Rightarrow> 'w \<Rightarrow> 'w"

text \<open>\<open>exit(1)\<close> on a negative result.\<close>

definition or_exit :: "int \<times> 'w \<Rightarrow> (int \<times> 'w) run" where
  "or_exit r = (if fst r < 0 then Inl Process_Exit else Inr r)"

text \<open>\<open>std::string(buffer, n)\<close> of a 1024 byte buffer: a negative count is a huge length.\<close>

definition received :: "int \<Rightarrow> string \<Rightarrow> string run" where
  "received n bytes = (if n < 0 then Inl Std_Exception else Inr (take (nat n) (bytes @ replicate 1024 (CHR 0x00))))"

definition receive_msg :: "'w sock_api \<Rightarrow> int \<Rightarrow> 'w \<Rightarrow> (string \<times> 'w) run" where
  "receive_msg api fd w =
     (let ((n, bytes), w') = sock_read api fd 1024 w in bind_run (received n bytes) (\<lambda>s. Inr (s, w')))"

definition send_msg :: "'w sock_api \<Rightarrow> int \<Rightarrow> string \<Rightarrow> 'w \<Rightarrow> 'w" where
  "send_msg api fd msg w = sock_send api fd msg w"

subsection \<open>\<open>TCPClient\<close>\<close>

definition new_TCPClient :: "'w sock_api \<Rightarrow> 'w \<Rightarrow> (int \<times> 'w) run" where
  "new_TCPClient api w = or_exit (sock_new api w)"

definition connectToServer :: "'w sock_api \<Rightarrow> int \<Rightarrow> string \<Rightarrow> u16 \<Rightarrow> 'w \<Rightarrow> 'w run" where
  "connectToServer api fd ip port w = bind_run (or_exit (sock_connect api fd ip port w)) (\<lambda>(_, w). Inr w)"

definition destroy_TCPClient :: "'w sock_api \<Rightarrow> int \<Rightarrow> 'w \<Rightarrow> 'w" where
  "destroy_TCPClient api fd w = sock_close api fd w"

subsection \<open>\<open>TCPServer\<close>\<close>

record TCPServer =
  server_fd :: int
  new_socket :: int

text \<open>
  The constructor tests the descriptor against zero, so a failed \<open>socket\<close> shows up at \<open>bind\<close>; the
  accepted socket is indeterminate (\<open>junk\<close>) until a connection is accepted.
\<close>

definition new_TCPServer :: "'w sock_api \<Rightarrow> u16 \<Rightarrow> int \<Rightarrow> 'w \<Rightarrow> (TCPServer \<times> 'w) run" where
  "new_TCPServer api port junk w =
     (let (fd, w) = sock_new api w
      in if fd = 0 then Inl Process_Exit
         else bind_run (or_exit (sock_bind api fd port w)) (\<lambda>(_, w).
              bind_run (or_exit (sock_listen api fd 3 w)) (\<lambda>(_, w).
                Inr (\<lparr>server_fd = fd, new_socket = junk\<rparr>, w))))"

definition acceptConnection :: "'w sock_api \<Rightarrow> TCPServer \<Rightarrow> 'w \<Rightarrow> (TCPServer \<times> 'w) run" where
  "acceptConnection api s w =
     bind_run (or_exit (sock_accept api (server_fd s) w)) (\<lambda>(fd, w). Inr (s\<lparr>new_socket := fd\<rparr>, w))"

definition destroy_TCPServer :: "'w sock_api \<Rightarrow> TCPServer \<Rightarrow> 'w \<Rightarrow> 'w" where
  "destroy_TCPServer api s w = sock_close api (server_fd s) w"

text \<open>\<open>disconnect\<close> of both classes closes the socket of the connection.\<close>

definition disconnect :: "'w sock_api \<Rightarrow> int \<Rightarrow> 'w \<Rightarrow> 'w" where
  "disconnect api fd w = sock_close api fd w"

subsection \<open>Exchanging connection records\<close>

text \<open>\<open>memset(&info, 0, sizeof(QPInfo))\<close>, then the text of the peer is read into it.\<close>

definition zero_QPInfo :: QPInfo where
  "zero_QPInfo = \<lparr>qi_qp_num = 0, qi_lid = 0, qi_gid = replicate 16 0, qi_gid_table_index = 0, qi_mtu = 0,
     qi_mac_addr = replicate 6 0, qi_hostname = [], qi_nic_name = [], qi_is_initialized = False\<rparr>"

definition receive_qp_info :: "'w sock_api \<Rightarrow> int \<Rightarrow> 'w \<Rightarrow> (QPInfo \<times> 'w) run" where
  "receive_qp_info api fd w =
     bind_run (receive_msg api fd w) (\<lambda>(s, w). bind_run (deserialize s zero_QPInfo) (\<lambda>q. Inr (q, w)))"

end
