(* ===== verification/Pipeline.thy ===== *)
theory Pipeline
  imports ResourcePool MgntConnection AppDag
begin

text \<open>
  The class \<open>DatapathPipeline\<close> (\<open>runtime/include/datapath_pipeline.h\<close>,
  \<open>runtime/src/datapath_pipeline.cc\<close>): it allocates a component block per function of the application,
  registers the functions, sets up routing and channels and runs the blocks.
\<close>

subsection \<open>The environment\<close>

text \<open>
  The drivers and system calls the blocks use, and what is in the memory that \<open>new\<close> returns at an
  address.
\<close>

record 'w pipe_env =
  e_flexio :: "'w flexio_api"
  e_port :: "'w port_api"
  e_dpa :: "'w dpa_block_api"
  e_dr :: "'w dr_api"
  e_ibv :: "'w soc_ibv"
  e_shm :: shm_api
  e_verbs :: "'w soc_verbs"
  e_numa :: "'w numa_api"
  e_thread :: "soc_wrapper_type_t \<Rightarrow> soc_thread_context \<Rightarrow> 'w \<Rightarrow> nat \<times> 'w"
  e_sock :: "'w sock_api"
  e_junk_dpa :: "nat \<Rightarrow> ComponentBlock_DPA"
  e_junk_dpa_function :: "nat \<Rightarrow> ComponentFuncState_DPA"
  e_junk_dpa_channel :: "nat \<Rightarrow> Channel_DPA"
  e_junk_soc :: "nat \<Rightarrow> ComponentBlock_SoC"
  e_junk_soc_function :: "nat \<Rightarrow> ComponentFuncState_SoC"
  e_junk_soc_channel :: "nat \<Rightarrow> Channel_SoC"
  e_junk_info :: "nat \<Rightarrow> QPInfo"
  e_junk_fe :: "nat \<Rightarrow> ComponentBlock_FlowEngine"

subsection \<open>Virtual calls on a block\<close>

text \<open>\<open>n\<close> is a fresh address; a call creates at most three objects.\<close>

fun blk_register :: "'w pipe_env \<Rightarrow> AppFunction \<Rightarrow> device_state \<Rightarrow> nat \<Rightarrow> block \<times> 'w \<Rightarrow> (nicc_retval_t \<times> block \<times> 'w) exec" where
  "blk_register e f ds n (Blk_DPA b, w) =
     bind_exec (dpa_register_app_function (e_flexio e) (e_port e) (e_dpa e) (n, e_junk_dpa_channel e n) (Some f) ds (b, w))
       (\<lambda>(r, b', w'). Some (Inr (r, Blk_DPA b', w')))"
| "blk_register e f ds n (Blk_SoC b, w) =
     bind_exec (soc_register_app_function (e_ibv e) (e_shm e) (e_port e)
         \<lparr>sm_channel = n, sm_channel_junk = e_junk_soc_channel e n, sm_info_prior = e_junk_info e (n + 1),
          sm_info_next = e_junk_info e (n + 2), sm_routing = n + 3\<rparr> (Some f) (b, w))
       (\<lambda>(r, b', w'). Some (Inr (r, Blk_SoC b', w')))"
| "blk_register e f ds n (Blk_FlowEngine b, w) =
     Some (bind_run (fe_register_app_function (Some f) n b) (\<lambda>(r, b'). Inr (r, Blk_FlowEngine b', w)))"

fun blk_unregister :: "'w pipe_env \<Rightarrow> block \<times> 'w \<Rightarrow> (nicc_retval_t \<times> block \<times> 'w) run" where
  "blk_unregister e (Blk_DPA b, w) =
     bind_run (dpa_unregister_app_function (e_flexio e) (e_dpa e) (b, w)) (\<lambda>(r, b', w'). Inr (r, Blk_DPA b', w'))"
| "blk_unregister e (Blk_SoC b, w) =
     bind_run (soc_unregister_app_function (b, w)) (\<lambda>(r, b', w'). Inr (r, Blk_SoC b', w'))"
| "blk_unregister e (Blk_FlowEngine b, w) =
     bind_run (fe_unregister_app_function b) (\<lambda>(r, b'). Inr (r, Blk_FlowEngine b', w))"

fun blk_connect :: "'w pipe_env \<Rightarrow> ptr \<Rightarrow> ptr \<Rightarrow> bool \<Rightarrow> QPInfo option \<Rightarrow> bool \<Rightarrow> QPInfo option \<Rightarrow> block \<times> 'w
    \<Rightarrow> (nicc_retval_t \<times> block \<times> 'w) run" where
  "blk_connect e prior next to_r r to_l l (Blk_DPA b, w) =
     bind_run (dpa_connect_to_neighbour (e_flexio e) prior next to_r r to_l l (b, w)) (\<lambda>(x, b', w'). Inr (x, Blk_DPA b', w'))"
| "blk_connect e prior next to_r r to_l l (Blk_SoC b, w) =
     bind_run (soc_connect_to_neighbour (e_ibv e) (e_verbs e) prior next to_r r to_l l (b, w)) (\<lambda>(x, b', w'). Inr (x, Blk_SoC b', w'))"
| "blk_connect e prior next to_r r to_l l (Blk_FlowEngine b, w) =
     bind_run (fe_connect_to_neighbour prior next to_r r to_l l b) (\<lambda>(x, b'). Inr (x, Blk_FlowEngine b', w))"

fun blk_qp_info :: "bool \<Rightarrow> block \<Rightarrow> QPInfo run" where
  "blk_qp_info is_prior (Blk_DPA b) = dpa_get_qp_info is_prior b"
| "blk_qp_info is_prior (Blk_SoC b) = soc_get_qp_info is_prior b"
| "blk_qp_info is_prior (Blk_FlowEngine b) = (case fe_get_qp_info is_prior of None \<Rightarrow> Inl Bad_Access | Some q \<Rightarrow> Inr q)"

fun blk_run :: "'w pipe_env \<Rightarrow> nat \<Rightarrow> block \<times> 'w \<Rightarrow> (nicc_retval_t \<times> block \<times> 'w) run" where
  "blk_run e n (Blk_DPA b, w) =
     bind_run (dpa_run_block (e_dpa e) (b, w)) (\<lambda>(r, b', w'). Inr (r, Blk_DPA b', w'))"
| "blk_run e n (Blk_SoC b, w) =
     bind_run (soc_run_block (e_numa e) (e_thread e) n (b, w)) (\<lambda>(r, b', w'). Inr (r, Blk_SoC b', w'))"
| "blk_run e n (Blk_FlowEngine b, w) =
     bind_run (fe_run_block b) (\<lambda>(r, b'). Inr (r, Blk_FlowEngine b', w))"

text \<open>Only a SoC block has a router.\<close>

fun blk_routing :: "block \<Rightarrow> ComponentRoutingState obj_ptr" where
  "blk_routing (Blk_SoC b) = soc_get_component_routing b"
| "blk_routing b = Null_Ptr"

subsection \<open>State\<close>

text \<open>
  The functions of the application are constant objects on a heap \<open>funcs\<close>. Blocks live on a heap of
  their own; the map from functions to blocks is iterated in the order of the function's addresses.
\<close>

record 'w pipeline =
  pl_map :: "(nat \<times> nat) list"
  pl_blocks :: "nat list"
  pl_routing :: PipelineRoutingState
  pl_heap :: "nat \<rightharpoonup> block"
  pl_next :: nat
  pl_pool :: ResourcePool
  pl_world :: 'w

text \<open>\<open>std::map::insert\<close> keeps an entry that is there.\<close>

definition om_insert :: "'k::linorder \<Rightarrow> 'v \<Rightarrow> ('k \<times> 'v) list \<Rightarrow> ('k \<times> 'v) list" where
  "om_insert k v xs = (if map_of xs k = None then om_put k v xs else xs)"

text \<open>A use of a block on the heap, and an operation on it.\<close>

definition block_at :: "nat \<Rightarrow> 'w pipeline \<Rightarrow> block run" where
  "block_at a s = (case pl_heap s a of None \<Rightarrow> Inl Bad_Access | Some b \<Rightarrow> Inr b)"

definition at_block :: "nat \<Rightarrow> (block \<times> 'w \<Rightarrow> (nicc_retval_t \<times> block \<times> 'w) run) \<Rightarrow> 'w pipeline operation" where
  "at_block a f s =
     bind_run (block_at a s) (\<lambda>b.
     bind_run (f (b, pl_world s)) (\<lambda>(r, b', w').
       Inr (r, s\<lparr>pl_heap := (pl_heap s)(a \<mapsto> b'), pl_world := w'\<rparr>)))"

subsection \<open>Allocating the blocks\<close>

definition new_block :: "'w pipe_env \<Rightarrow> component_typeid_t \<Rightarrow> nat \<Rightarrow> block run" where
  "new_block e cid n =
     (if cid = kComponent_DPA then Inr (Blk_DPA (new_ComponentBlock_DPA (e_junk_dpa e n) (n + 1) (e_junk_dpa_function e (n + 1))))
      else if cid = kComponent_FlowEngine then Inr (Blk_FlowEngine (new_ComponentBlock_FlowEngine (e_junk_fe e n)))
      else if cid = kComponent_SoC then Inr (Blk_SoC (new_ComponentBlock_SoC (e_junk_soc e n) (n + 1) (e_junk_soc_function e (n + 1))))
      else Inl Nicc_Shutdown)"

text \<open>The initialisation that only a flow engine block has.\<close>

fun init_block :: "device_state \<Rightarrow> nat \<Rightarrow> nicc_retval_t \<Rightarrow> block \<Rightarrow> (nicc_retval_t \<times> block) run" where
  "init_block ds a r (Blk_FlowEngine b) = bind_run (fe_init ds a b) (\<lambda>(r, b). Inr (r, Blk_FlowEngine b))"
| "init_block ds a r b = Inr (r, b)"

text \<open>
  One function. The first component of the result says that the pool refused: the loop is left and
  the block is not recorded.
\<close>

definition allocate_function :: "'w pipe_env \<Rightarrow> (nat \<rightharpoonup> AppFunction) \<Rightarrow> device_state \<Rightarrow> ptr \<Rightarrow> 'w pipeline
    \<Rightarrow> (bool \<times> nicc_retval_t \<times> 'w pipeline) run" where
  "allocate_function e funcs ds p s = (case p of
       None \<Rightarrow> Inl Assert_Failed
     | Some fa \<Rightarrow> (case funcs fa of
           None \<Rightarrow> Inl Bad_Access
         | Some f \<Rightarrow>
             let n = pl_next s; s = s\<lparr>pl_next := n + 3\<rparr>
             in bind_run (new_block e (af_component_id f) n) (\<lambda>b.
                bind_run (pool_allocate (af_component_id f) (af_desp f) (Some b) (pl_pool s)) (\<lambda>(r, pool, b).
                if r \<noteq> NICC_SUCCESS then Inr (True, r, s\<lparr>pl_pool := pool\<rparr>)
                else bind_run (init_block ds (n + 2) r b) (\<lambda>(r, b).
                  Inr (False, r, s\<lparr>pl_pool := pool, pl_map := om_insert fa n (pl_map s), pl_blocks := pl_blocks s @ [n],
                         pl_heap := (pl_heap s)(n \<mapsto> b)\<rparr>))))))"

fun allocate_loop :: "'w pipe_env \<Rightarrow> (nat \<rightharpoonup> AppFunction) \<Rightarrow> device_state \<Rightarrow> ptr list \<Rightarrow> nicc_retval_t \<Rightarrow> 'w pipeline
    \<Rightarrow> (nicc_retval_t \<times> 'w pipeline) run" where
  "allocate_loop e funcs ds [] r s = Inr (r, s)"
| "allocate_loop e funcs ds (p # ps) r s =
     bind_run (allocate_function e funcs ds p s) (\<lambda>(failed, r, s).
       if failed then Inr (r, s) else allocate_loop e funcs ds ps r s)"

text \<open>
  The loop that returns the blocks, over the map. The result of an iteration replaces the value
  there was; a returned block is deleted, and neither map nor vector is cleared.
\<close>

fun deallocate_loop :: "(nat \<rightharpoonup> AppFunction) \<Rightarrow> (nat \<times> nat) list \<Rightarrow> nicc_retval_t \<Rightarrow> 'w pipeline
    \<Rightarrow> (nicc_retval_t \<times> 'w pipeline) run" where
  "deallocate_loop funcs [] r s = Inr (r, s)"
| "deallocate_loop funcs ((fa, ba) # xs) r s = (case funcs fa of
       None \<Rightarrow> Inl Bad_Access
     | Some f \<Rightarrow>
         bind_run (block_at ba s) (\<lambda>b.
         bind_run (pool_deallocate (af_component_id f) (Some b) (pl_pool s)) (\<lambda>(r, pool).
           deallocate_loop funcs xs r
             (if r = NICC_SUCCESS then s\<lparr>pl_pool := pool, pl_heap := (pl_heap s)(ba := None)\<rparr>
              else s\<lparr>pl_pool := pool\<rparr>))))"

definition allocate_component_blocks :: "'w pipe_env \<Rightarrow> (nat \<rightharpoonup> AppFunction) \<Rightarrow> ptr list \<Rightarrow> device_state \<Rightarrow> 'w pipeline operation" where
  "allocate_component_blocks e funcs functions ds s =
     bind_run (allocate_loop e funcs ds functions NICC_SUCCESS s) (\<lambda>(r, s).
       if r \<noteq> NICC_SUCCESS then deallocate_loop funcs (pl_map s) r s else Inr (r, s))"

definition deallocate_component_blocks :: "(nat \<rightharpoonup> AppFunction) \<Rightarrow> 'w pipeline operation" where
  "deallocate_component_blocks funcs s = deallocate_loop funcs (pl_map s) NICC_SUCCESS s"

subsection \<open>Registering the functions\<close>

text \<open>
  The loop over the map; the second result is the list of pairs registered so far, in the order of
  their addresses.
\<close>

fun register_loop :: "'w pipe_env \<Rightarrow> (nat \<rightharpoonup> AppFunction) \<Rightarrow> device_state \<Rightarrow> (nat \<times> nat) list \<Rightarrow> (nat \<times> nat) list \<Rightarrow> 'w pipeline
    \<Rightarrow> (nicc_retval_t \<times> (nat \<times> nat) list \<times> 'w pipeline) exec" where
  "register_loop e funcs ds [] regs s = Some (Inr (NICC_SUCCESS, regs, s))"
| "register_loop e funcs ds ((fa, ba) # xs) regs s = (case funcs fa of
       None \<Rightarrow> Some (Inl Bad_Access)
     | Some f \<Rightarrow>
         bind_exec (Some (block_at ba s)) (\<lambda>b.
         bind_exec (blk_register e f ds (pl_next s) (b, pl_world s)) (\<lambda>(r, b, w).
           let s = s\<lparr>pl_heap := (pl_heap s)(ba \<mapsto> b), pl_world := w, pl_next := pl_next s + 4\<rparr>
           in if r \<noteq> NICC_SUCCESS then Some (Inr (r, regs, s))
              else register_loop e funcs ds xs (regs @ [(fa, ba)]) s)))"

fun unregister_loop :: "'w pipe_env \<Rightarrow> (nat \<times> nat) list \<Rightarrow> nicc_retval_t \<Rightarrow> 'w pipeline \<Rightarrow> (nicc_retval_t \<times> 'w pipeline) run" where
  "unregister_loop e [] r s = Inr (r, s)"
| "unregister_loop e ((fa, ba) # xs) r s =
     bind_run (at_block ba (blk_unregister e) s) (\<lambda>(r, s). unregister_loop e xs r s)"

definition register_functions :: "'w pipe_env \<Rightarrow> (nat \<rightharpoonup> AppFunction) \<Rightarrow> device_state \<Rightarrow> 'w pipeline
    \<Rightarrow> (nicc_retval_t \<times> 'w pipeline) exec" where
  "register_functions e funcs ds s =
     bind_exec (register_loop e funcs ds (pl_map s) [] s) (\<lambda>(r, regs, s).
       Some (if r \<noteq> NICC_SUCCESS then unregister_loop e regs r s else Inr (r, s)))"

subsection \<open>Routing\<close>

text \<open>
  One entry: only \<open>retval=\<close> at the start of the match counts, and every action leads to the channel
  called \<open>default\<close>. An exception of \<open>stoi\<close> is caught, a \<open>throw\<close> of the error macros is not.
\<close>

definition init_retval_entry :: "(string \<rightharpoonup> string) \<Rightarrow> ComponentRoutingState \<Rightarrow> (nicc_retval_t \<times> ComponentRoutingState) run" where
  "init_retval_entry entry rt = (case (entry ''match'', entry ''action'') of
       (Some match_str, Some action_str) \<Rightarrow>
         if find_str ''retval='' match_str = Some 0
         then (case stoi (drop 7 match_str) of
             Inl _ \<Rightarrow> Inr (NICC_SUCCESS, rt)
           | Inr v \<Rightarrow> (case get_local_channel ''default'' rt of
                 None \<Rightarrow> Inl Nicc_Shutdown
               | Some c \<Rightarrow> bind_run (add_retval_mapping (word_of_int v) (Some c) rt) (\<lambda>(r, rt).
                   if r \<noteq> NICC_SUCCESS then Inl Nicc_Shutdown else Inr (r, rt))))
         else Inr (NICC_SUCCESS, rt)
     | _ \<Rightarrow> Inr (NICC_SUCCESS, rt))"

definition init_retval_mappings :: "AppDAG \<Rightarrow> string \<Rightarrow> ComponentRoutingState operation" where
  "init_retval_mappings dag name rt = (case get_component_config name dag of
       None \<Rightarrow> Inr (NICC_SUCCESS, rt)
     | Some c \<Rightarrow> bind_run (fold_run (\<lambda>en rt. bind_run (init_retval_entry en rt) (\<lambda>(_, rt). Inr rt)) (ctrl_entries c) rt)
         (\<lambda>rt. Inr (NICC_SUCCESS, rt)))"

fun set_routing :: "nat \<Rightarrow> ComponentRoutingState \<Rightarrow> block \<Rightarrow> block" where
  "set_routing a rt (Blk_SoC b) = Blk_SoC (b\<lparr>soc_routing := Obj a rt\<rparr>)"
| "set_routing a rt b = b"

definition router_address :: "'c obj_ptr \<Rightarrow> ptr" where
  "router_address p = (case p of Null_Ptr \<Rightarrow> None | Bad_Ptr \<Rightarrow> Some 0 | Obj a _ \<Rightarrow> Some a)"

fun local_channels_of :: "block \<Rightarrow> (nicc_retval_t \<times> block) run" where
  "local_channels_of (Blk_SoC b) = bind_run (register_local_channels b) (\<lambda>(r, b). Inr (r, Blk_SoC b))"
| "local_channels_of b = Inr (NICC_SUCCESS, b)"

text \<open>The first loop of \<open>__init_control_plane\<close>; its error branches throw.\<close>

definition init_block_routing :: "AppDAG \<Rightarrow> nat \<Rightarrow> 'w pipeline \<Rightarrow> 'w pipeline run" where
  "init_block_routing dag ba s =
     bind_run (block_at ba s) (\<lambda>b.
     if blk_routing b = Null_Ptr then Inr s
     else let name = blk_name (blk_base b) in
       bind_run (register_component_router name (router_address (blk_routing b)) (pl_routing s)) (\<lambda>(r, pr).
       if r \<noteq> NICC_SUCCESS then Inl Nicc_Shutdown
       else bind_run (local_channels_of b) (\<lambda>(r, b).
       if r \<noteq> NICC_SUCCESS then Inl Nicc_Shutdown
       else bind_run (deref_obj (blk_routing b)) (\<lambda>(a, rt).
            bind_run (init_retval_mappings dag name rt) (\<lambda>(r, rt).
              if r \<noteq> NICC_SUCCESS then Inl Nicc_Shutdown
              else Inr (s\<lparr>pl_routing := pr, pl_heap := (pl_heap s)(ba \<mapsto> set_routing a rt b)\<rparr>))))))"

subsection \<open>Connecting the blocks\<close>

text \<open>
  What the management connections gave: sockets and connection records of the remote and the local
  host.
\<close>

record host_links =
  hl_server :: TCPServer
  hl_client :: int
  hl_remote :: QPInfo
  hl_local :: QPInfo

definition open_links :: "'w sock_api \<Rightarrow> AppDAG \<Rightarrow> int \<Rightarrow> 'w \<Rightarrow> (host_links \<times> 'w) run" where
  "open_links api dag junk w =
     bind_run (get_host_config ''remote'' dag) (\<lambda>rh.
     bind_run (get_host_config ''local'' dag) (\<lambda>lh.
     bind_run (new_TCPServer api (mgnt_port rh) junk w) (\<lambda>(srv, w).
     bind_run (new_TCPClient api w) (\<lambda>(cl, w).
     bind_run (connectToServer api cl (ipv4 lh) (mgnt_port lh) w) (\<lambda>w.
     bind_run (receive_qp_info api cl w) (\<lambda>(lq, w).
     bind_run (acceptConnection api srv w) (\<lambda>(srv, w).
     bind_run (receive_qp_info api (new_socket srv) w) (\<lambda>(rq, w).
       Inr (\<lparr>hl_server = srv, hl_client = cl, hl_remote = rq, hl_local = lq\<rparr>, w)))))))))"

definition send_qp_info :: "'w sock_api \<Rightarrow> int \<Rightarrow> bool \<Rightarrow> nat \<Rightarrow> 'w pipeline \<Rightarrow> 'w pipeline run" where
  "send_qp_info api fd is_prior ba s =
     bind_run (block_at ba s) (\<lambda>b.
     bind_run (blk_qp_info is_prior b) (\<lambda>q. Inr (s\<lparr>pl_world := send_msg api fd (serialize q) (pl_world s)\<rparr>)))"

text \<open>The steering rule of a DPA block; its result is not looked at.\<close>

fun blk_add_rule :: "'w pipe_env \<Rightarrow> ptr \<Rightarrow> block \<times> 'w \<Rightarrow> (nicc_retval_t \<times> block \<times> 'w) run" where
  "blk_add_rule e d (Blk_DPA b, w) =
     bind_run (dpa_add_control_plane_rule (e_dr e) (e_dpa e) d (b, w)) (\<lambda>(r, b', w'). Inr (NICC_SUCCESS, Blk_DPA b', w'))"
| "blk_add_rule e d (b, w) = Inr (NICC_SUCCESS, b, w)"

text \<open>
  One round of the loop over the blocks: \<open>to_r\<close> and \<open>to_l\<close> have been set by this or an earlier
  block.
\<close>

definition connect_round :: "'w pipe_env \<Rightarrow> device_state \<Rightarrow> host_links \<Rightarrow> nat \<Rightarrow> ptr \<Rightarrow> bool \<Rightarrow> bool \<Rightarrow> 'w pipeline operation" where
  "connect_round e ds hl cur prior to_r to_l =
     and_then (at_block cur (blk_connect e prior None to_r (Some (hl_remote hl)) to_l (Some (hl_local hl))))
    (and_then (\<lambda>s. if to_r then bind_run (send_qp_info (e_sock e) (new_socket (hl_server hl)) True cur s) (\<lambda>s. Inr (NICC_SUCCESS, s))
                   else op_done s)
    (and_then (\<lambda>s. if to_l then bind_run (send_qp_info (e_sock e) (hl_client hl) False cur s) (\<lambda>s. Inr (NICC_SUCCESS, s))
                   else op_done s)
    (and_then (\<lambda>s. case prior of None \<Rightarrow> op_done s
                 | Some p \<Rightarrow> at_block p (blk_connect e None (Some cur) False None False None) s)
      (at_block cur (blk_add_rule e (ds_rx_domain ds))))))"

fun connect_loop :: "'w pipe_env \<Rightarrow> device_state \<Rightarrow> host_links \<Rightarrow> string list \<Rightarrow> string list \<Rightarrow> nat list \<Rightarrow> ptr \<Rightarrow> bool \<Rightarrow> bool
    \<Rightarrow> 'w pipeline operation" where
  "connect_loop e ds hl rc lc [] prior to_r to_l s =
     (if to_r \<and> to_l then Inr (NICC_SUCCESS, s) else Inl Nicc_Shutdown)"
| "connect_loop e ds hl rc lc (cur # bs) prior to_r to_l s =
     bind_run (block_at cur s) (\<lambda>b.
       let name = blk_name (blk_base b); to_r = (to_r \<or> name \<in> set rc); to_l = (to_l \<or> name \<in> set lc)
       in and_then (connect_round e ds hl cur prior to_r to_l)
            (connect_loop e ds hl rc lc bs (Some cur) to_r to_l) s)"

definition build_channel_connections :: "'w pipe_env \<Rightarrow> AppDAG \<Rightarrow> int \<Rightarrow> device_state \<Rightarrow> 'w pipeline operation" where
  "build_channel_connections e dag junk ds s =
     bind_run (open_links (e_sock e) dag junk (pl_world s)) (\<lambda>(hl, w).
     bind_run (get_host_config ''remote'' dag) (\<lambda>rh.
     bind_run (get_host_config ''local'' dag) (\<lambda>lh.
     bind_run (connect_loop e ds hl (connect_to rh) (connect_to lh) (pl_blocks s) None False False (s\<lparr>pl_world := w\<rparr>))
       (\<lambda>(r, s). Inr (r, s\<lparr>pl_world := destroy_TCPServer (e_sock e) (hl_server hl)
                            (destroy_TCPClient (e_sock e) (hl_client hl) (pl_world s))\<rparr>)))))"

text \<open>A failure to connect is thrown by \<open>NICC_ERROR_C\<close>.\<close>

definition init_control_plane :: "'w pipe_env \<Rightarrow> AppDAG \<Rightarrow> int \<Rightarrow> device_state \<Rightarrow> 'w pipeline operation" where
  "init_control_plane e dag junk ds s =
     bind_run (fold_run (init_block_routing dag) (pl_blocks s) s) (\<lambda>s.
     bind_run (build_channel_connections e dag junk ds s) (\<lambda>(r, s).
       if r \<noteq> NICC_SUCCESS then Inl Nicc_Shutdown else Inr (r, s)))"

subsection \<open>Running\<close>

fun run_loop :: "'w pipe_env \<Rightarrow> nat list \<Rightarrow> 'w pipeline operation" where
  "run_loop e [] s = Inr (NICC_SUCCESS, s)"
| "run_loop e (a # as) s =
     and_then (\<lambda>s. at_block a (blk_run e (pl_next s)) (s\<lparr>pl_next := pl_next s + 1\<rparr>)) (run_loop e as) s"

definition run_pipeline :: "'w pipe_env \<Rightarrow> 'w pipeline operation" where
  "run_pipeline e s = run_loop e (pl_blocks s) s"

definition reschedule_block :: "'w pipeline operation" where
  "reschedule_block s = Inr (NICC_SUCCESS, s)"

definition empty_pipeline :: "PipelineRoutingState \<Rightarrow> nat \<Rightarrow> ResourcePool \<Rightarrow> 'w \<Rightarrow> 'w pipeline" where
  "empty_pipeline pr n pool w = \<lparr>pl_map = [], pl_blocks = [], pl_routing = pr, pl_heap = Map.empty, pl_next = n,
     pl_pool = pool, pl_world = w\<rparr>"

text \<open>
  The constructor. \<open>app_cxt\<close> is the list of the application's functions. Once the blocks run it sleeps for ever:
  the result is then \<open>None\<close>. Otherwise it returns, with the reason it stopped in the model's first component.
\<close>

definition start_blocks :: "'w pipe_env \<Rightarrow> (nat \<rightharpoonup> AppFunction) \<Rightarrow> AppDAG \<Rightarrow> int \<Rightarrow> device_state \<Rightarrow> 'w pipeline
    \<Rightarrow> (nicc_retval_t \<times> 'w pipeline) exec" where
  "start_blocks e funcs dag junk ds s =
     bind_exec (register_functions e funcs ds s) (\<lambda>(r, s).
       if r \<noteq> NICC_SUCCESS then Some (deallocate_component_blocks funcs s)
       else bind_exec (Some (init_control_plane e dag junk ds s)) (\<lambda>(r, s).
         if r \<noteq> NICC_SUCCESS then Some (deallocate_component_blocks funcs s)
         else bind_exec (Some (run_pipeline e s)) (\<lambda>(r, s).
           if r \<noteq> NICC_SUCCESS then Some (Inr (r, s)) else None)))"

definition new_DatapathPipeline :: "'w pipe_env \<Rightarrow> (nat \<rightharpoonup> AppFunction) \<Rightarrow> ResourcePool \<Rightarrow> ptr list option
    \<Rightarrow> device_state \<Rightarrow> AppDAG option \<Rightarrow> int \<Rightarrow> nat \<Rightarrow> 'w \<Rightarrow> (nicc_retval_t \<times> 'w pipeline) exec" where
  "new_DatapathPipeline e funcs pool app_cxt ds app_dag junk n w =
     (case (app_cxt, ds_device_name ds, app_dag) of
        (Some functions, Some _, Some dag) \<Rightarrow>
          bind_exec (Some (load_from_app_dag app_dag new_PipelineRouting)) (\<lambda>(r, pr).
          if r \<noteq> NICC_SUCCESS then Some (Inl Nicc_Shutdown)
          else bind_exec (Some (allocate_component_blocks e funcs functions ds (empty_pipeline pr n pool w))) (\<lambda>(r, s).
                 if r \<noteq> NICC_SUCCESS then Some (Inr (r, s))
                 else start_blocks e funcs dag junk ds s))
      | _ \<Rightarrow> Some (Inl Assert_Failed))"

text \<open>The destructor deletes the routing table and nothing else; a deleted table is the empty one.\<close>

definition destroy_DatapathPipeline :: "'w pipeline \<Rightarrow> 'w pipeline" where
  "destroy_DatapathPipeline s = s\<lparr>pl_routing := new_PipelineRouting\<rparr>"

end
