(* ===== verification/BlockProps.thy ===== *)
theory BlockProps
  imports DpaBlock SocBlock
begin

text \<open>
  Properties of the component blocks: no block is ever connected to another block, the scan of the
  handlers of a DPA function ends only for up to 255 of them, and the FlexIO process of an event
  handler is not left behind when its registration fails.
\<close>

subsection \<open>Neighbours\<close>

lemma connect_qp_neighbour:
  "nb \<noteq> None \<Longrightarrow> connect_qp api is_prior nb qi s \<noteq> Inr (NICC_SUCCESS, t)"
  by (cases s) (auto simp: connect_qp_def and_then_def connect_qp_to_component_block_def)

lemma soc_connect_qp_neighbour:
  "nb \<noteq> None \<Longrightarrow> soc_connect_qp api vapi is_prior nb qi s \<noteq> Inr (NICC_SUCCESS, t)"
  by (cases s) (auto simp: soc_connect_qp_def and_then_def soc_connect_qp_to_component_block_def bind_assert_run)

interpretation dpa_connector: host_only_connector
    "\<lambda>is_prior nb qi. on_channel (connect_qp api is_prior nb qi)" for api :: "'w flexio_api"
  by unfold_locales
    (auto simp: on_channel_def bind_run_eq_Inr connect_qp_neighbour split: prod.splits)

interpretation soc_connector: host_only_connector
    "\<lambda>is_prior nb qi. on_soc_channel (soc_connect_qp api vapi is_prior nb qi)"
    for api :: "'w soc_ibv" and vapi :: "'w soc_verbs"
  by unfold_locales
    (auto simp: on_soc_channel_def bind_run_eq_Inr soc_connect_qp_neighbour split: prod.splits)

lemma dpa_connect_blocks:
  assumes "prior \<noteq> None \<or> next \<noteq> None"
  shows "dpa_connect_to_neighbour api prior next to_r r to_l l s \<noteq> Inr (NICC_SUCCESS, t)"
  by (auto simp: dpa_connect_to_neighbour_def on_function_def bind_run_eq_Inr dpa_connector.never_connects_blocks [OF assms]
      split: prod.splits if_splits)

lemma soc_connect_blocks:
  assumes "prior \<noteq> None \<or> next \<noteq> None"
  shows "soc_connect_to_neighbour api vapi prior next to_r r to_l l s \<noteq> Inr (NICC_SUCCESS, t)"
  by (auto simp: soc_connect_to_neighbour_def on_soc_function_def bind_run_eq_Inr soc_connector.never_connects_blocks [OF assms]
      split: prod.splits if_splits)

subsection \<open>The scan of the handlers\<close>

lemma u8_index: "n < 256 \<Longrightarrow> unat (of_nat n :: u8) = n"
  by (simp add: unat_of_nat)

lemma dpa_scan_fold:
  assumes "length hs \<le> 255" "n \<le> length hs"
  shows "dpa_scan_handlers hs (of_nat n) b = Some (fold_run (scan_handler dpa_slot) (drop n hs) b)"
  using assms
proof (induction "length hs - n" arbitrary: n b)
  case 0
  then show ?case by (subst dpa_scan_handlers.simps) (simp add: u8_index)
next
  case (Suc k)
  then have n: "n < length hs" "n < 256" "k = length hs - Suc n" by simp_all
  have step: "dpa_scan_handlers hs (of_nat n + 1) b' = Some (fold_run (scan_handler dpa_slot) (drop (Suc n) hs) b')" for b'
    using Suc.hyps(1) [OF n(3)] Suc.prems n(1) by (simp add: add.commute)
  show ?case
    using n step
    by (subst dpa_scan_handlers.simps)
      (simp add: u8_index Cons_nth_drop_Suc [symmetric] bind_exec_def bind_run_def split: sum.split)
qed

lemma dpa_scan_raw:
  assumes "dpa_scan_handlers hs i b = Some y"
  shows "255 < length hs \<longrightarrow> (\<exists>h \<in> set hs. \<exists>b. \<forall>b'. scan_handler dpa_slot h b \<noteq> Inr b')"
proof (rule dpa_scan_handlers.raw_induct [OF _ assms])
  fix f hs and i :: u8 and b y
  assume ih: "\<And>hs i b y. f hs i b = Some y \<Longrightarrow>
      255 < length hs \<longrightarrow> (\<exists>h \<in> set hs. \<exists>b. \<forall>b'. scan_handler dpa_slot h b \<noteq> Inr b')"
    and body: "(if unat i < length hs
      then bind_exec (Some (scan_handler dpa_slot (hs ! unat i) b)) (f hs (i + 1)) else Some (Inr b)) = Some y"
  show "255 < length hs \<longrightarrow> (\<exists>h \<in> set hs. \<exists>b. \<forall>b'. scan_handler dpa_slot h b \<noteq> Inr b')"
  proof
    assume len: "255 < length hs"
    have "unat i < 2 ^ 8" using unsigned_less [of i, where ?'a = nat] by simp
    with len have i: "unat i < length hs" by simp
    show "\<exists>h \<in> set hs. \<exists>b. \<forall>b'. scan_handler dpa_slot h b \<noteq> Inr b'"
    proof (cases "scan_handler dpa_slot (hs ! unat i) b")
      case (Inl e)
      with i show ?thesis by (intro bexI [of _ "hs ! unat i"] exI [of _ b]) simp_all
    next
      case (Inr b')
      with body i have "f hs (i + 1) b' = Some y" by simp
      with ih len show ?thesis by blast
    qed
  qed
qed

lemma dpa_scan_diverges:
  assumes "255 < length hs" and "\<And>h b. h \<in> set hs \<Longrightarrow> \<exists>b'. scan_handler dpa_slot h b = Inr b'"
  shows "dpa_scan_handlers hs i b = None"
  using dpa_scan_raw [of hs i b] assms by (cases "dpa_scan_handlers hs i b") blast+

text \<open>The last handler of a kind, or the one known before.\<close>

definition last_handler :: "u8 \<Rightarrow> AppHandler option list \<Rightarrow> AppHandler option \<Rightarrow> AppHandler option" where
  "last_handler t hs h0 = (case filter (\<lambda>h. handler_tid (the h) = t) hs of [] \<Rightarrow> h0 | h # hs' \<Rightarrow> last (h # hs'))"

definition dpa_handlers_ok :: "AppHandler option list \<Rightarrow> bool" where
  "dpa_handlers_ok hs \<longleftrightarrow> (\<forall>h \<in> set hs. h \<noteq> None \<and> handler_tid (the h) \<in> {0, 1})"

lemma last_handler_Nil [simp]: "last_handler t [] h0 = h0"
  by (simp add: last_handler_def)

lemma last_handler_Cons [simp]:
  "last_handler t (h # hs) h0 = last_handler t hs (if handler_tid (the h) = t then h else h0)"
  by (auto simp: last_handler_def split: list.splits)

lemma dpa_scan_result:
  "dpa_handlers_ok hs \<Longrightarrow> fold_run (scan_handler dpa_slot) hs b =
     Inr (b\<lparr>dpa_init_handler := last_handler 0 hs (dpa_init_handler b),
            dpa_event_handler := last_handler 1 hs (dpa_event_handler b)\<rparr>)"
proof (induction hs arbitrary: b)
  case (Cons h hs)
  then obtain a where "h = Some a" "handler_tid a = 0 \<or> handler_tid a = 1" "dpa_handlers_ok hs"
    by (auto simp: dpa_handlers_ok_def)
  with Cons.IH show ?case
    by (elim disjE) (simp_all add: scan_handler_def dpa_slot_def)
qed simp

text \<open>
  C40. Registering a function with valid handlers on a DPA block returns exactly if there are at
  most 255 of them (the index is an 8-bit counter); it then goes on with the last handler of each
  kind, in the device context it was given.
\<close>

theorem dpa_register_scan:
  assumes "af_handlers f \<noteq> []" "dpa_handlers_ok (af_handlers f)" "dpa_function b = Obj a fs" "ds_ibv_ctx ds \<noteq> None"
  shows "dpa_register_app_function api papi bapi mem (Some f) ds (b, w) =
    (if length (af_handlers f) \<le> 255
     then Some (dpa_register_steps api papi bapi mem
       (b\<lparr>dpa_function := Obj a (fs\<lparr>fs_ibv_ctx := ds_ibv_ctx ds\<rparr>),
          dpa_init_handler := last_handler 0 (af_handlers f) (dpa_init_handler b),
          dpa_event_handler := last_handler 1 (af_handlers f) (dpa_event_handler b)\<rparr>, w))
     else None)"
proof -
  have ok: "\<exists>b'. scan_handler dpa_slot h b = Inr b'" if "h \<in> set (af_handlers f)" for h b
    using assms(2) that by (auto simp: dpa_handlers_ok_def scan_handler_def dpa_slot_def)
  obtain ctx where "ds_ibv_ctx ds = Some ctx" using assms(4) by blast
  then show ?thesis
    using assms(1-3) dpa_scan_fold [of "af_handlers f" 0] dpa_scan_diverges [OF _ ok]
    by (simp add: dpa_register_app_function_def checked_obj_def dpa_scan_result)
qed

subsection \<open>The process of an event handler\<close>

text \<open>
  \<open>procs\<close> are the live processes of the device. A creation that fails leaves the output pointer as
  it was; a live process can be destroyed.
\<close>

definition proc_laws :: "'w dpa_block_api \<Rightarrow> ('w \<Rightarrow> nat set) \<Rightarrow> bool" where
  "proc_laws api procs \<longleftrightarrow>
     (\<forall>w. procs (snd (fx_version_set api w)) = procs w) \<and>
     (\<forall>c k p0 w ok p w'. fx_process_create api c k p0 w = ((ok, p), w') \<longrightarrow>
        (if ok then \<exists>q. p = Some q \<and> q \<notin> procs w \<and> procs w' = insert q (procs w)
         else p = p0 \<and> procs w' = procs w)) \<and>
     (\<forall>p aw e w. procs (snd (fx_event_handler_create api p aw e w)) = procs w) \<and>
     (\<forall>p aw st w. procs (snd (fx_msg_stream_create api p aw st w)) = procs w) \<and>
     (\<forall>p w. p \<in> procs w \<longrightarrow> (\<exists>w'. fx_process_destroy api p w = (True, w') \<and> procs w' = procs w - {p}))"

lemma proc_laws_keep:
  assumes "proc_laws api procs"
  shows "fx_event_handler_create api p aw e w = (x, w') \<Longrightarrow> procs w' = procs w"
    and "fx_msg_stream_create api p st m w = (y, w') \<Longrightarrow> procs w' = procs w"
    and "fx_version_set api w = (z, w') \<Longrightarrow> procs w' = procs w"
proof -
  have k: "procs (snd (fx_event_handler_create api p aw e w)) = procs w"
    "procs (snd (fx_msg_stream_create api p st m w)) = procs w" "procs (snd (fx_version_set api w)) = procs w"
    using assms by (simp_all add: proc_laws_def)
  show "fx_event_handler_create api p aw e w = (x, w') \<Longrightarrow> procs w' = procs w"
    "fx_msg_stream_create api p st m w = (y, w') \<Longrightarrow> procs w' = procs w"
    "fx_version_set api w = (z, w') \<Longrightarrow> procs w' = procs w"
    using k by simp_all
qed

text \<open>Where the registration stands: no process yet, or a fresh one.\<close>

definition fresh_process :: "('w \<Rightarrow> nat set) \<Rightarrow> 'w \<Rightarrow> ComponentFuncState_DPA \<Rightarrow> 'w \<Rightarrow> bool" where
  "fresh_process procs w0 fs w \<longleftrightarrow>
     (\<exists>p. fs_process fs = Some p \<and> p \<notin> procs w0 \<and> procs w = insert p (procs w0))"

lemma create_process_cases:
  assumes "proc_laws api procs" "fs_process fs = None" "create_process api h (fs, w) = Inr (r, (fs', w'))"
  shows "if r = NICC_SUCCESS then fresh_process procs w fs' w'
         else fs_process fs' = None \<and> procs w' = procs w"
proof -
  obtain ok p where e: "fx_process_create api (fs_ibv_ctx fs) (binary_kernel h) (fs_process fs) w = ((ok, p), w')"
      "r = hw_status ok" "fs' = fs\<lparr>fs_process := p\<rparr>"
    using assms(3) by (auto simp: create_process_def split: prod.splits)
  with assms(1,2) show ?thesis
    by (fastforce simp: proc_laws_def fresh_process_def hw_status_def)
qed

lemma get_uar_and_pd_cases:
  assumes "get_uar_and_pd api (fs, w) = Inr (r, (fs', w'))"
  shows "w' = w \<and> fs_process fs' = fs_process fs \<and>
    (r = NICC_SUCCESS \<longrightarrow> fs_flexio_uar fs' \<noteq> None \<and> fs_flexio_pd fs' \<noteq> None)"
  using assms by (auto simp: get_uar_and_pd_def Let_def hw_status_def split: if_splits)

lemma create_event_handler_keeps:
  assumes "proc_laws api procs" "create_event_handler api core h (fs, w) = Inr (r, (fs', w'))"
  shows "procs w' = procs w \<and> fs_process fs' = fs_process fs
    \<and> fs_flexio_uar fs' = fs_flexio_uar fs \<and> fs_flexio_pd fs' = fs_flexio_pd fs"
  using assms(2) by (auto simp: create_event_handler_def proc_laws_keep [OF assms(1)] split: prod.splits)

lemma create_stream_keeps:
  assumes "proc_laws api procs" "create_stream api (fs, w) = Inr (r, (fs', w'))"
  shows "r = NICC_SUCCESS \<and> procs w' = procs w \<and> fs_process fs' = fs_process fs
    \<and> fs_flexio_uar fs' = fs_flexio_uar fs \<and> fs_flexio_pd fs' = fs_flexio_pd fs"
  using assms(2) by (auto simp: create_stream_def proc_laws_keep [OF assms(1)] split: prod.splits)

lemma event_handler_steps_cases:
  assumes laws: "proc_laws api procs" and none: "fs_process fs = None"
    and run: "event_handler_steps api core h (fs, w) = Inr (r, (fs', w'))"
  shows "(fresh_process procs w fs' w' \<or> r \<noteq> NICC_SUCCESS \<and> fs_process fs' = None \<and> procs w' = procs w)
    \<and> (r = NICC_SUCCESS \<longrightarrow> fs_flexio_uar fs' \<noteq> None \<and> fs_flexio_pd fs' \<noteq> None)"
proof -
  obtain ok w1 where v: "fx_version_set api w = (ok, w1)" by force
  have k: "procs w1 = procs w" using proc_laws_keep(3) [OF laws v] .
  show ?thesis
  proof (cases ok)
    case False
    then show ?thesis using run v k none
      by (auto simp: event_handler_steps_def and_then_def hw_status_def)
  next
    case True
    with run v have "and_then (create_process api h) (and_then (get_uar_and_pd api)
        (and_then (create_event_handler api core h) (create_stream api))) (fs, w1) = Inr (r, (fs', w'))"
      by (simp add: event_handler_steps_def and_then_def hw_status_def)
    then consider "r \<noteq> NICC_SUCCESS" "create_process api h (fs, w1) = Inr (r, (fs', w'))"
      | fs2 w2 where "create_process api h (fs, w1) = Inr (NICC_SUCCESS, (fs2, w2))"
          "and_then (get_uar_and_pd api) (and_then (create_event_handler api core h) (create_stream api)) (fs2, w2)
             = Inr (r, (fs', w'))"
      by (auto simp: and_then_eq_Inr)
    then show ?thesis
    proof cases
      case 1
      then show ?thesis using create_process_cases [OF laws none 1(2)] k by simp
    next
      case 2
      have f: "fresh_process procs w fs2 w2"
        using create_process_cases [OF laws none 2(1)] k by (simp add: fresh_process_def)
      from 2(2) consider "r \<noteq> NICC_SUCCESS" "get_uar_and_pd api (fs2, w2) = Inr (r, (fs', w'))"
        | fs3 w3 where "get_uar_and_pd api (fs2, w2) = Inr (NICC_SUCCESS, (fs3, w3))"
            "and_then (create_event_handler api core h) (create_stream api) (fs3, w3) = Inr (r, (fs', w'))"
        by (auto simp: and_then_eq_Inr)
      then show ?thesis
      proof cases
        case 1
        then show ?thesis using get_uar_and_pd_cases [OF 1(2)] f by (simp add: fresh_process_def)
      next
        case 2
        then show ?thesis
          using get_uar_and_pd_cases [OF 2(1)] f create_event_handler_keeps [OF laws] create_stream_keeps [OF laws]
          unfolding and_then_eq_Inr fresh_process_def by (metis surj_pair)
      qed
    qed
  qed
qed

text \<open>
  C39. Starting from no process, the registration of an event handler either fails and leaves the live
  processes of the device as they were, or it succeeds with exactly one process more, whose access
  region and protection domain are known and which the release of the handler destroys again.
\<close>

theorem event_handler_process_ledger:
  assumes laws: "proc_laws api procs" and none: "fs_process fs = None"
    and run: "register_event_handler api core h (fs, w) = Inr (r, (fs', w'))"
  shows "(r \<noteq> NICC_SUCCESS \<longrightarrow> procs w' = procs w)
    \<and> (r = NICC_SUCCESS \<longrightarrow> fresh_process procs w fs' w' \<and> fs_flexio_uar fs' \<noteq> None \<and> fs_flexio_pd fs' \<noteq> None
        \<and> (\<exists>w''. unregister_event_handler api (fs', w') = Inr (NICC_SUCCESS, (fs', w'')) \<and> procs w'' = procs w))"
proof -
  obtain hh r1 fs1 w1 where steps: "event_handler_steps api core hh (fs, w) = Inr (r1, (fs1, w1))"
      and res: "destroy_process_on_error api (r1, fs1, w1) = (r, fs', w')"
    using run by (auto simp: register_event_handler_def bind_run_eq_Inr split: option.splits if_splits)
  note c = event_handler_steps_cases [OF laws none steps]
  have destroy: "\<exists>w2. fx_process_destroy api p w1 = (True, w2) \<and> procs w2 = procs w"
    if "fs_process fs1 = Some p" "fresh_process procs w fs1 w1" for p
    using laws that by (fastforce simp: proc_laws_def fresh_process_def)
  show ?thesis
  proof (cases "r1 = NICC_SUCCESS")
    case True
    with res have e: "r = NICC_SUCCESS" "fs' = fs1" "w' = w1" by (simp_all add: destroy_process_on_error_def)
    with True c have f: "fresh_process procs w fs1 w1" by simp
    then obtain p where p: "fs_process fs1 = Some p" by (auto simp: fresh_process_def)
    then obtain w2 where "fx_process_destroy api p w1 = (True, w2)" "procs w2 = procs w"
      using destroy f by blast
    with True c e f p show ?thesis by (simp add: unregister_event_handler_def hw_status_def)
  next
    case False
    then have r: "r = r1" using res by (auto simp: destroy_process_on_error_def split: option.splits)
    show ?thesis
    proof (cases "fs_process fs1")
      case None
      with False res c r show ?thesis by (auto simp: destroy_process_on_error_def fresh_process_def)
    next
      case (Some p)
      with c have "fresh_process procs w fs1 w1" by auto
      with Some obtain w2 where "fx_process_destroy api p w1 = (True, w2)" "procs w2 = procs w"
        using destroy by blast
      with Some False res r show ?thesis by (auto simp: destroy_process_on_error_def)
    qed
  qed
qed

subsection \<open>Witnesses\<close>

text \<open>A device that keeps a list of its live processes and has eight cores.\<close>

definition demo_bapi :: "nat list dpa_block_api" where
  "demo_bapi = \<lparr>fx_version_set = \<lambda>w. (True, w),
     fx_process_create = \<lambda>c k p w. if c = None then ((False, p), w)
       else ((True, Some (Suc (foldr max w 0))), Suc (foldr max w 0) # w),
     fx_process_get_uar = \<lambda>p w. Some 11, fx_process_get_pd = \<lambda>p w. Some 12,
     fx_process_destroy = \<lambda>p w. (p \<in> set w, filter (\<lambda>x. x \<noteq> p) w),
     fx_event_handler_create = \<lambda>p aw e w. if ea_affinity_id aw < 8 then ((True, Some 13), w) else ((False, e), w),
     fx_event_handler_run = \<lambda>e n w. (True, w), fx_msg_stream_create = \<lambda>p aw s w. (Some 14, w),
     fx_process_call = \<lambda>p f a b w. (True, w), fx_rq_get_tir = \<lambda>q. Some 15,
     devx_alloc_uar = \<lambda>c w. (Some 16, w), devx_free_uar = \<lambda>u w. w, verbs_alloc_pd = \<lambda>c w. (Some 17, w),
     verbs_close_device = \<lambda>c w. w, rule_calloc = \<lambda>n w. True, action_create_dest_tir = \<lambda>t w. (Some 18, w),
     action_destroy = \<lambda>a w. w, rule_create = \<lambda>m p as w. (Some 19, w)\<rparr>"

lemma foldr_max_nat: "x \<in> set w \<Longrightarrow> x \<le> foldr max w (0 :: nat)"
  by (induction w) auto

lemma demo_bapi_laws: "proc_laws demo_bapi set"
  using foldr_max_nat by (fastforce simp: proc_laws_def demo_bapi_def split: if_splits)

definition demo_function_state :: ComponentFuncState_DPA where
  "demo_function_state = \<lparr>fs_pd = None, fs_uar = None, fs_process = None, fs_flexio_uar = None,
     fs_flexio_pd = None, fs_event_handler = None, fs_channel = Null_Ptr, fs_stream = None, fs_ibv_ctx = Some 1\<rparr>"

definition demo_handler :: "u8 \<Rightarrow> AppHandler" where
  "demo_handler t = \<lparr>binary_first = Some 100, binary_kernel = Some 101, handler_tid = t\<rparr>"

lemma event_handler_process_ledger_witness:
  "\<exists>fs' w'. register_event_handler demo_bapi 9 (Some (demo_handler 1)) (demo_function_state, [4, 2])
      = Inr (NICC_ERROR_HARDWARE_FAILURE, (fs', w')) \<and> set w' = {4, 2}"
proof -
  have "register_event_handler demo_bapi 9 (Some (demo_handler 1)) (demo_function_state, [4, 2])
      = Inr (NICC_ERROR_HARDWARE_FAILURE, (demo_function_state\<lparr>fs_process := Some 5, fs_flexio_uar := Some 11,
          fs_flexio_pd := Some 12\<rparr>, [4, 2]))"
    by (simp add: register_event_handler_def event_handler_steps_def and_then_def create_process_def
        get_uar_and_pd_def create_event_handler_def demo_bapi_def demo_handler_def demo_function_state_def
        destroy_process_on_error_def hw_status_def)
  with event_handler_process_ledger [OF demo_bapi_laws _ this] show ?thesis
    by (simp add: demo_function_state_def)
qed

definition demo_device :: device_state where
  "demo_device = \<lparr>ds_ibv_ctx = Some 1, ds_device_name = Some ''mlx5_2'', ds_rx_domain = None,
     ds_tx_domain = None, ds_fdb_domain = None\<rparr>"

lemma dpa_register_scan_witness:
  "\<forall>api papi bapi mem junk w. dpa_register_app_function api papi bapi mem
     (Some (new_AppFunction (replicate 256 (Some (demo_handler 1))) None kComponent_DPA)) demo_device
     (new_ComponentBlock_DPA junk 1 demo_function_state, w) = None"
  by (intro allI, subst dpa_register_scan [of _ _ 1 demo_function_state])
    (simp_all add: new_AppFunction_def dpa_handlers_ok_def demo_handler_def demo_device_def new_ComponentBlock_DPA_def)

end
