(* ===== verification/PipelineProps.thy ===== *)
theory PipelineProps
  imports Pipeline BlockProps "HOL-Library.Multiset"
begin

text \<open>
  Properties of the pipeline: a refused allocation is reported as a success with the blocks already
  deleted, and no pipeline of two or more blocks gets past its control plane.
\<close>

subsection \<open>Kinds of blocks\<close>

fun of_kind :: "block \<Rightarrow> component \<Rightarrow> bool" where
  "of_kind (Blk_DPA b) (Comp_DPA c) = True"
| "of_kind (Blk_SoC b) (Comp_SoC c) = True"
| "of_kind (Blk_FlowEngine b) (Comp_FlowEngine c) = True"
| "of_kind b c = False"

lemma comp_allocate_kind:
  assumes "comp_allocate d b c = Inr (r, c', b')"
  shows "of_kind b' c' \<and> (\<forall>x. of_kind x c' = of_kind x c)"
  using assms
proof (cases b; cases c)
qed (auto simp: bind_run_eq_Inr split: prod.splits; case_tac x; simp)+

lemma comp_deallocate_kind:
  assumes "of_kind b c"
  shows "\<exists>c'. comp_deallocate b c = Inr (NICC_SUCCESS, c') \<and> (\<forall>x. of_kind x c' = of_kind x c)"
  using assms
  by (induction b c rule: of_kind.induct)
    (auto simp: dpa_deallocate_block_def soc_deallocate_block_def fe_deallocate_block_def elim: of_kind.elims)

lemma init_block_kind: "init_block ds a r b = Inr (r', b') \<Longrightarrow> of_kind b' c = of_kind b c"
  by (induction ds a r b rule: init_block.induct) (auto simp: bind_run_eq_Inr, (cases c; simp)+)

subsection \<open>Returning the blocks\<close>

text \<open>
  A function and the block of its own: both live, and the pool has the component the block is of.
\<close>

definition held_by :: "(nat \<rightharpoonup> AppFunction) \<Rightarrow> 'w pipeline \<Rightarrow> nat \<times> nat \<Rightarrow> bool" where
  "held_by funcs s x \<longleftrightarrow> (\<exists>f b c. funcs (fst x) = Some f \<and> pl_heap s (snd x) = Some b \<and>
     rp_components (pl_pool s) (af_component_id f) = Some c \<and> of_kind b c)"

text \<open>No component of the pool changes its kind.\<close>

definition same_kinds :: "ResourcePool \<Rightarrow> ResourcePool \<Rightarrow> bool" where
  "same_kinds p p' \<longleftrightarrow> (\<forall>k. rel_option (\<lambda>c c'. \<forall>x. of_kind x c' = of_kind x c) (rp_components p k) (rp_components p' k))"

lemma same_kinds_refl: "same_kinds p p"
  by (simp add: same_kinds_def option.rel_refl)

lemma same_kinds_update:
  assumes "rp_components p k = Some c" "\<forall>x. of_kind x c' = of_kind x c"
  shows "same_kinds p (p\<lparr>rp_components := (rp_components p)(k \<mapsto> c')\<rparr>)"
  using assms by (auto simp: same_kinds_def option.rel_refl)

lemma same_kindsD:
  "same_kinds p p' \<Longrightarrow> rp_components p k = Some c \<Longrightarrow> \<exists>c'. rp_components p' k = Some c' \<and> (\<forall>x. of_kind x c' = of_kind x c)"
  by (fastforce simp: same_kinds_def option_rel_Some1 dest: spec [of _ k])

lemma held_by_mono:
  assumes "held_by funcs s x" "pl_heap s' (snd x) = pl_heap s (snd x)" "same_kinds (pl_pool s) (pl_pool s')"
  shows "held_by funcs s' x"
  using assms(1,2) same_kindsD [OF assms(3)] unfolding held_by_def by metis

lemma deallocate_loop_held:
  assumes "\<forall>x \<in> set xs. held_by funcs s x" "distinct (map snd xs)"
  shows "\<exists>s'. deallocate_loop funcs xs r s = Inr (if xs = [] then r else NICC_SUCCESS, s')
    \<and> pl_map s' = pl_map s \<and> pl_blocks s' = pl_blocks s
    \<and> (\<forall>a. pl_heap s' a = (if a \<in> snd ` set xs then None else pl_heap s a))"
  using assms
proof (induction xs arbitrary: r s)
  case (Cons x xs)
  obtain fa ba where x: "x = (fa, ba)" by force
  with Cons.prems(1) obtain f b c where f: "funcs fa = Some f" and b: "pl_heap s ba = Some b"
      and c: "rp_components (pl_pool s) (af_component_id f) = Some c" "of_kind b c"
    by (auto simp: held_by_def)
  obtain c' where c': "comp_deallocate b c = Inr (NICC_SUCCESS, c')" "\<forall>x. of_kind x c' = of_kind x c"
    using comp_deallocate_kind [OF c(2)] by blast
  define pool where "pool = (pl_pool s)\<lparr>rp_components := (rp_components (pl_pool s))(af_component_id f \<mapsto> c')\<rparr>"
  define s1 where "s1 = s\<lparr>pl_pool := pool, pl_heap := (pl_heap s)(ba := None)\<rparr>"
  have step: "deallocate_loop funcs (x # xs) r s = deallocate_loop funcs xs NICC_SUCCESS s1"
    using f b c c' by (simp add: x block_at_def pool_deallocate_def s1_def pool_def)
  have "same_kinds (pl_pool s) (pl_pool s1)"
    using same_kinds_update [OF c(1) c'(2)] by (simp add: s1_def pool_def)
  moreover have "pl_heap s1 (snd y) = pl_heap s (snd y)" if "y \<in> set xs" for y
    using Cons.prems(2) that x by (auto simp: s1_def)
  ultimately have "\<forall>y \<in> set xs. held_by funcs s1 y"
    using Cons.prems(1) held_by_mono [of funcs s _ s1] by simp
  from Cons.IH [OF this, of NICC_SUCCESS] Cons.prems(2) show ?case
    unfolding step by (auto simp: s1_def x)
qed simp

subsection \<open>Allocating the blocks\<close>

definition blocks_ok :: "(nat \<rightharpoonup> AppFunction) \<Rightarrow> 'w pipeline \<Rightarrow> bool" where
  "blocks_ok funcs s \<longleftrightarrow> om_wf (pl_map s) \<and> (\<forall>x \<in> set (pl_map s). held_by funcs s x) \<and>
     distinct (map snd (pl_map s)) \<and> (\<forall>a. pl_heap s a \<noteq> None \<longrightarrow> a < pl_next s)"

lemma om_put_new:
  "map_of xs k = None \<Longrightarrow> mset (om_put k v xs) = add_mset (k, v) (mset xs)"
  by (induction k v xs rule: om_put.induct) (auto split: if_splits)

lemma om_insert_cases:
  "om_insert k v xs = xs \<or> mset (om_insert k v xs) = add_mset (k, v) (mset xs)"
  by (simp add: om_insert_def om_put_new)

lemma om_insert_wf: "om_wf xs \<Longrightarrow> om_wf (om_insert k v xs)"
  by (simp add: om_insert_def om_wf_put)

lemma pool_allocate_kind:
  assumes "pool_allocate cid d (Some b) p = Inr (r, p', b')"
  shows "same_kinds p p' \<and> (\<exists>c. rp_components p' cid = Some c \<and> of_kind b' c)"
proof -
  obtain c c' where c: "rp_components p cid = Some c" "comp_allocate d b c = Inr (r, c', b')"
      "p' = p\<lparr>rp_components := (rp_components p)(cid \<mapsto> c')\<rparr>"
    using assms by (auto simp: pool_allocate_def bind_run_eq_Inr split: option.splits)
  with comp_allocate_kind [OF c(2)] same_kinds_update [OF c(1), of c'] show ?thesis by auto
qed

lemma allocate_function_ok:
  assumes "allocate_function e funcs ds p s = Inr (failed, r, s')" "blocks_ok funcs s"
  shows "blocks_ok funcs s'"
proof -
  obtain fa f b0 pool b where p: "p = Some fa" "funcs fa = Some f"
      and a: "pool_allocate (af_component_id f) (af_desp f) (Some b0) (pl_pool s) = Inr (if failed then r else NICC_SUCCESS, pool, b)"
      and res: "if failed then s' = s\<lparr>pl_next := pl_next s + 3, pl_pool := pool\<rparr>
        else (\<exists>b'. init_block ds (pl_next s + 2) NICC_SUCCESS b = Inr (r, b') \<and>
          s' = s\<lparr>pl_next := pl_next s + 3, pl_pool := pool, pl_map := om_insert fa (pl_next s) (pl_map s),
                 pl_blocks := pl_blocks s @ [pl_next s], pl_heap := (pl_heap s)(pl_next s \<mapsto> b')\<rparr>)"
    using assms(1)
    by (auto simp: allocate_function_def bind_run_eq_Inr Let_def split: option.splits if_splits)
  note k = pool_allocate_kind [OF a]
  have old: "held_by funcs s' x \<and> snd x \<noteq> pl_next s" if "x \<in> set (pl_map s)" for x
  proof -
    have h: "held_by funcs s x" using assms(2) that by (simp add: blocks_ok_def)
    then have "snd x \<noteq> pl_next s" using assms(2) by (fastforce simp: held_by_def blocks_ok_def)
    moreover from this have "pl_heap s' (snd x) = pl_heap s (snd x)" using res by (auto split: if_splits)
    moreover have "same_kinds (pl_pool s) (pl_pool s')" using k res by (auto split: if_splits)
    ultimately show ?thesis using held_by_mono [OF h] by blast
  qed
  show ?thesis
  proof (cases failed)
    case True
    with res assms(2) old show ?thesis by (fastforce simp: blocks_ok_def)
  next
    case False
    then obtain b' where b': "init_block ds (pl_next s + 2) NICC_SUCCESS b = Inr (r, b')"
        "s' = s\<lparr>pl_next := pl_next s + 3, pl_pool := pool, pl_map := om_insert fa (pl_next s) (pl_map s),
                pl_blocks := pl_blocks s @ [pl_next s], pl_heap := (pl_heap s)(pl_next s \<mapsto> b')\<rparr>"
      using res by auto
    have new: "held_by funcs s' (fa, pl_next s)"
      using k p b' init_block_kind [OF b'(1)] by (auto simp: held_by_def)
    have bound: "\<forall>a. pl_heap s' a \<noteq> None \<longrightarrow> a < pl_next s'"
      using assms(2) b' by (fastforce simp: blocks_ok_def)
    from om_insert_cases [of fa "pl_next s" "pl_map s"] show ?thesis
    proof
      assume "om_insert fa (pl_next s) (pl_map s) = pl_map s"
      with b' assms(2) old bound show ?thesis by (simp add: blocks_ok_def)
    next
      assume m: "mset (om_insert fa (pl_next s) (pl_map s)) = add_mset (fa, pl_next s) (mset (pl_map s))"
      then have "mset (pl_map s') = mset ((fa, pl_next s) # pl_map s)" using b' by simp
      then have "set (pl_map s') = insert (fa, pl_next s) (set (pl_map s))"
          "distinct (map snd (pl_map s')) = distinct (map snd ((fa, pl_next s) # pl_map s))"
        by (metis list.simps(15) mset_eq_setD, metis mset_eq_imp_distinct_iff mset_map)
      moreover have "pl_next s \<notin> snd ` set (pl_map s)" using old by fastforce
      ultimately show ?thesis
        using new old bound b' assms(2) om_insert_wf by (fastforce simp: blocks_ok_def)
    qed
  qed
qed

lemma allocate_loop_ok:
  "allocate_loop e funcs ds ps r s = Inr (r', s') \<Longrightarrow> blocks_ok funcs s \<Longrightarrow> blocks_ok funcs s'"
proof (induction ps arbitrary: r s)
  case (Cons p ps)
  then show ?case
    by (auto simp: bind_run_eq_Inr split: if_splits dest: allocate_function_ok)
qed simp

text \<open>The state a pipeline starts with.\<close>

definition fresh_pipeline :: "'w pipeline \<Rightarrow> bool" where
  "fresh_pipeline s \<longleftrightarrow> pl_map s = [] \<and> pl_blocks s = [] \<and> pl_heap s = Map.empty"

lemma fresh_blocks_ok: "fresh_pipeline s \<Longrightarrow> blocks_ok funcs s"
  by (simp add: fresh_pipeline_def blocks_ok_def)

text \<open>
  C8. When the pool refuses a block after at least one has been handed out, the cleanup deletes all blocks
  and overwrites the error: the allocation is reported as a success, and the registration that then
  follows uses a deleted block.
\<close>

theorem refused_allocation_masked:
  assumes "fresh_pipeline s" and loop: "allocate_loop e funcs ds functions NICC_SUCCESS s = Inr (r, s1)"
    and "r \<noteq> NICC_SUCCESS" "pl_map s1 \<noteq> []"
  shows "\<exists>s2. allocate_component_blocks e funcs functions ds s = Inr (NICC_SUCCESS, s2)
    \<and> pl_map s2 = pl_map s1 \<and> (\<forall>x \<in> set (pl_map s2). pl_heap s2 (snd x) = None)
    \<and> register_functions e funcs ds s2 = Some (Inl Bad_Access)"
proof -
  have ok: "blocks_ok funcs s1"
    using allocate_loop_ok [OF loop fresh_blocks_ok [OF assms(1)]] .
  then obtain s2 where s2: "deallocate_loop funcs (pl_map s1) r s1 = Inr (NICC_SUCCESS, s2)" "pl_map s2 = pl_map s1"
      "\<forall>a. pl_heap s2 a = (if a \<in> snd ` set (pl_map s1) then None else pl_heap s1 a)"
    using deallocate_loop_held [of "pl_map s1" funcs s1 r] assms(4) by (auto simp: blocks_ok_def)
  obtain fa ba xs where m: "pl_map s1 = (fa, ba) # xs" using assms(4) by (cases "pl_map s1") auto
  with ok obtain f where "funcs fa = Some f" by (auto simp: blocks_ok_def held_by_def)
  moreover have "pl_heap s2 ba = None" using s2(3) m by simp
  ultimately have "register_functions e funcs ds s2 = Some (Inl Bad_Access)"
    by (simp add: register_functions_def s2(2) m block_at_def)
  with s2 assms(3) loop show ?thesis
    by (intro exI [of _ s2]) (simp add: allocate_component_blocks_def)
qed

subsection \<open>Two blocks\<close>

lemma blk_connect_blocks:
  assumes "prior \<noteq> None \<or> next \<noteq> None"
  shows "blk_connect e prior next to_r rq to_l lq s \<noteq> Inr (NICC_SUCCESS, t)"
proof (cases s)
  case (Pair b w)
  then show ?thesis
    by (cases b) (auto simp: bind_run_eq_Inr fe_connect_to_neighbour_def
        dpa_connect_blocks [OF assms] soc_connect_blocks [OF assms])
qed

lemma connect_loop_two:
  "connect_loop e ds hl rc lc (a # b # bs) prior to_r to_l s \<noteq> Inr (NICC_SUCCESS, t)"
proof
  assume "connect_loop e ds hl rc lc (a # b # bs) prior to_r to_l s = Inr (NICC_SUCCESS, t)"
  then obtain u v r l where "connect_round e ds hl b (Some a) r l u = Inr (NICC_SUCCESS, v)"
    by (auto simp: bind_run_eq_Inr and_then_eq_success Let_def)
  then show False
    by (auto simp: connect_round_def and_then_eq_success at_block_def bind_run_eq_Inr blk_connect_blocks)
qed

lemma init_block_routing_blocks: "init_block_routing dag ba s = Inr s' \<Longrightarrow> pl_blocks s' = pl_blocks s"
  by (auto simp: init_block_routing_def bind_run_eq_Inr Let_def split: if_splits)

text \<open>
  C9. A pipeline with two or more blocks never gets past its control plane: no channel connects two blocks, and
  the constructor ends with an exception or an assertion.
\<close>

theorem two_blocks_never_connect:
  assumes "2 \<le> length (pl_blocks s)"
  shows "\<exists>f. init_control_plane e dag junk ds s = Inl f"
proof (rule ccontr)
  assume "\<nexists>f. init_control_plane e dag junk ds s = Inl f"
  then obtain r t where "init_control_plane e dag junk ds s = Inr (r, t)"
    by (metis old.sum.exhaust surj_pair)
  then obtain s1 t1 where s1: "fold_run (init_block_routing dag) (pl_blocks s) s = Inr s1"
      and t1: "build_channel_connections e dag junk ds s1 = Inr (NICC_SUCCESS, t1)"
    by (auto simp: init_control_plane_def bind_run_eq_Inr split: if_splits)
  have "pl_blocks s1 = pl_blocks s"
    by (rule fold_run_invariant [OF s1, where P = "\<lambda>x. pl_blocks x = pl_blocks s"])
      (simp_all add: init_block_routing_blocks)
  with assms obtain a b bs where "pl_blocks s1 = a # b # bs"
    by (metis Suc_le_length_iff numeral_2_eq_2)
  with t1 show False
    by (auto simp: build_channel_connections_def bind_run_eq_Inr connect_loop_two simp del: connect_loop.simps)
qed

subsection \<open>Routing\<close>

text \<open>The only channel a router knows is \<open>chan\<close>.\<close>

definition only_channel :: "nat \<Rightarrow> ComponentRoutingState \<Rightarrow> bool" where
  "only_channel chan rt \<longleftrightarrow> local_channels rt ''default'' = Some (Some chan) \<and> default_channel rt = Some chan \<and>
     ran (retval_to_channel_map rt) \<subseteq> {Some chan}"

lemma init_retval_entry_only:
  "only_channel chan rt \<Longrightarrow> \<exists>rt'. init_retval_entry en rt = Inr (NICC_SUCCESS, rt') \<and> only_channel chan rt'"
  by (auto simp: init_retval_entry_def only_channel_def get_local_channel_def add_retval_mapping_def ran_def
      split: option.splits sum.splits)

lemma init_retval_mappings_only:
  assumes "only_channel chan rt"
  shows "\<exists>rt'. init_retval_mappings dag name rt = Inr (NICC_SUCCESS, rt') \<and> only_channel chan rt'"
proof -
  have "\<exists>rt'. fold_run (\<lambda>en rt. bind_run (init_retval_entry en rt) (\<lambda>(_, rt). Inr rt)) es rt = Inr rt' \<and> only_channel chan rt'"
    for es using assms
  proof (induction es arbitrary: rt)
    case (Cons en es)
    from init_retval_entry_only [OF Cons.prems, of en] Cons.IH show ?case by auto
  qed simp
  then show ?thesis
  proof (cases "get_component_config name dag")
    case (Some c)
    obtain rt' where "fold_run (\<lambda>en rt. bind_run (init_retval_entry en rt) (\<lambda>(_, rt). Inr rt)) (ctrl_entries c) rt = Inr rt'"
        "only_channel chan rt'"
      using \<open>\<And>es. \<exists>rt'. fold_run _ es rt = Inr rt' \<and> _\<close> by blast
    with Some show ?thesis by (simp add: init_retval_mappings_def)
  qed (use assms in \<open>simp add: init_retval_mappings_def\<close>)
qed

lemma only_channel_lookup: "only_channel chan rt \<Longrightarrow> lookup_channel_SoC v rt = Some chan"
  by (fastforce simp: only_channel_def lookup_channel_SoC_def lookup_channel_def ran_def split: option.split)

lemma routed_soc_block:
  assumes "pl_heap s ba = Some (Blk_SoC b)" "soc_function b = Obj a fs" "ss_channel fs = Obj chan c"
    and "soc_routing b = Obj ra (new_ComponentRouting_SoC cid)"
  shows "\<exists>s' rt. init_block_routing dag ba s = Inr s'
    \<and> pl_world s' = pl_world s \<and> pl_blocks s' = pl_blocks s \<and> pl_next s' = pl_next s
    \<and> pl_heap s' = (pl_heap s)(ba \<mapsto> Blk_SoC (b\<lparr>soc_routing := Obj ra rt\<rparr>))
    \<and> component_routers (pl_routing s') (blk_name b) = Some (Some ra)
    \<and> (\<forall>v. lookup_channel_SoC v rt = Some chan)"
proof -
  let ?rt0 = "(new_ComponentRouting_SoC cid)\<lparr>local_channels := [''default'' \<mapsto> Some chan], default_channel := Some chan\<rparr>"
  have "register_local_channels b = Inr (NICC_SUCCESS, b\<lparr>soc_routing := Obj ra ?rt0\<rparr>)"
    using assms by (simp add: register_local_channels_def register_local_channel_SoC_def register_local_channel_def
        set_default_channel_def new_ComponentRouting_SoC_def new_ComponentRouting_def deref_obj_def)
  moreover have "only_channel chan ?rt0"
    by (simp add: only_channel_def new_ComponentRouting_SoC_def new_ComponentRouting_def)
  from init_retval_mappings_only [OF this] obtain rt where "init_retval_mappings dag (blk_name b) ?rt0 = Inr (NICC_SUCCESS, rt)"
      "only_channel chan rt" by blast
  ultimately show ?thesis
    using assms
    by (simp add: init_block_routing_def block_at_def soc_get_component_routing_def register_component_router_def
        router_address_def ComponentBlock.defs deref_obj_def)
      (auto intro!: exI [of _ rt] simp: only_channel_lookup)
qed

text \<open>
  C10. Setting up the routing of a SoC block that has its channel and a new router registers the router under the
  block's name and sends every return value to the block's one channel, whatever the application graph says.
\<close>

theorem soc_block_routing:
  assumes "pl_heap s ba = Some (Blk_SoC b)" "soc_function b = Obj a fs" "ss_channel fs = Obj chan c"
    and "soc_routing b = Obj ra (new_ComponentRouting_SoC cid)"
  shows "\<exists>s' rt. init_block_routing dag ba s = Inr s'
    \<and> pl_heap s' = (pl_heap s)(ba \<mapsto> Blk_SoC (b\<lparr>soc_routing := Obj ra rt\<rparr>))
    \<and> component_routers (pl_routing s') (blk_name b) = Some (Some ra)
    \<and> (\<forall>v. lookup_channel_SoC v rt = Some chan)"
  using routed_soc_block [OF assms] by blast

subsection \<open>Witnesses\<close>

text \<open>Two functions for the SoC, at addresses 10 and 11, over a SoC component of quota 16.\<close>

definition demo_functions :: "u64 \<Rightarrow> nat \<rightharpoonup> AppFunction" where
  "demo_functions q = (let f = new_AppFunction [Some (demo_handler 0)] (Some (Desp_SoC (demo_soc_desp q ''soc''))) kComponent_SoC
     in [10 \<mapsto> f, 11 \<mapsto> f])"

definition demo_pipeline :: "'w \<Rightarrow> 'w pipeline" where
  "demo_pipeline w = empty_pipeline new_PipelineRouting 100 demo_pool w"

lemma demo_fresh_pipeline: "fresh_pipeline (demo_pipeline w)"
  by (simp add: fresh_pipeline_def demo_pipeline_def empty_pipeline_def)

lemmas demo_pipeline_eval = allocate_function_def demo_functions_def demo_pipeline_def empty_pipeline_def new_AppFunction_def new_block_def
  pool_allocate_def soc_allocate_block_def demo_pool_def demo_soc_desp_def ComponentBaseDesp.defs component_id_defs
  om_insert_def Let_def

lemma demo_second_refused:
  "\<exists>s1. allocate_loop e (demo_functions 10) ds [Some 10, Some 11] NICC_SUCCESS (demo_pipeline w)
     = Inr (NICC_ERROR_EXSAUSTED, s1) \<and> pl_map s1 = [(10, 100)]"
  by (simp add: demo_pipeline_eval)

lemma refused_allocation_masked_witness:
  "\<forall>e ds w. \<exists>s2. allocate_component_blocks e (demo_functions 10) [Some 10, Some 11] ds (demo_pipeline w)
     = Inr (NICC_SUCCESS, s2) \<and> register_functions e (demo_functions 10) ds s2 = Some (Inl Bad_Access)"
proof (intro allI)
  fix e :: "'w pipe_env" and ds w
  obtain s1 where "allocate_loop e (demo_functions 10) ds [Some 10, Some 11] NICC_SUCCESS (demo_pipeline w)
     = Inr (NICC_ERROR_EXSAUSTED, s1)" "pl_map s1 = [(10, 100)]"
    using demo_second_refused [of e ds w] by blast
  from refused_allocation_masked [OF demo_fresh_pipeline this(1)] this(2)
  show "\<exists>s2. allocate_component_blocks e (demo_functions 10) [Some 10, Some 11] ds (demo_pipeline w)
     = Inr (NICC_SUCCESS, s2) \<and> register_functions e (demo_functions 10) ds s2 = Some (Inl Bad_Access)"
    by auto
qed

lemma demo_both_allocated:
  "\<exists>s1. allocate_component_blocks e (demo_functions 4) [Some 10, Some 11] ds (demo_pipeline w)
     = Inr (NICC_SUCCESS, s1) \<and> pl_blocks s1 = [100, 103]"
  by (simp add: allocate_component_blocks_def demo_pipeline_eval)

lemma two_blocks_never_connect_witness:
  "\<forall>e ds w dag junk. \<exists>s1 f. allocate_component_blocks e (demo_functions 4) [Some 10, Some 11] ds (demo_pipeline w)
     = Inr (NICC_SUCCESS, s1) \<and> init_control_plane e dag junk ds s1 = Inl f"
proof (intro allI)
  fix e :: "'w pipe_env" and ds w dag junk
  obtain s1 where s1: "allocate_component_blocks e (demo_functions 4) [Some 10, Some 11] ds (demo_pipeline w)
     = Inr (NICC_SUCCESS, s1)" "pl_blocks s1 = [100, 103]"
    using demo_both_allocated [of e ds w] by blast
  with two_blocks_never_connect [of s1 e dag junk ds]
  show "\<exists>s1 f. allocate_component_blocks e (demo_functions 4) [Some 10, Some 11] ds (demo_pipeline w)
     = Inr (NICC_SUCCESS, s1) \<and> init_control_plane e dag junk ds s1 = Inl f"
    by auto
qed

text \<open>A SoC block whose channel is at address 5 and whose router is at 6.\<close>

definition demo_routed_block :: "Channel_SoC \<Rightarrow> ComponentBlock_SoC" where
  "demo_routed_block c = demo_soc_block\<lparr>blk_name := ''soc'',
     soc_function := Obj 1 \<lparr>ss_context = Bad_Ptr, ss_wrapper_thread = None, ss_channel = Obj 5 c\<rparr>,
     soc_routing := Obj 6 (new_ComponentRouting_SoC ''soc'')\<rparr>"

lemma soc_block_routing_witness:
  "\<forall>c dag w. \<exists>s'. init_block_routing dag 100 (demo_pipeline w\<lparr>pl_heap := [100 \<mapsto> Blk_SoC (demo_routed_block c)]\<rparr>) = Inr s'
     \<and> component_routers (pl_routing s') ''soc'' = Some (Some 6)"
proof (intro allI)
  fix c dag and w :: 'w
  have n: "blk_name (demo_routed_block c) = ''soc''" by (simp add: demo_routed_block_def)
  show "\<exists>s'. init_block_routing dag 100 (demo_pipeline w\<lparr>pl_heap := [100 \<mapsto> Blk_SoC (demo_routed_block c)]\<rparr>) = Inr s'
     \<and> component_routers (pl_routing s') ''soc'' = Some (Some 6)"
    using soc_block_routing [of "demo_pipeline w\<lparr>pl_heap := [100 \<mapsto> Blk_SoC (demo_routed_block c)]\<rparr>" 100
        "demo_routed_block c" 1 _ 5 c 6 "''soc''" dag] n
    by (auto simp: demo_routed_block_def)
qed

end
