(* ===== verification/PipelineRun.thy ===== *)
theory PipelineRun
  imports PipelineProps SocChannelProps
begin

text \<open>
  The pipeline of \<open>runtime/src/main.cc\<close>: one function on the SoC, connected to the remote and to the
  local host. When drivers, hosts and cores grant what is asked for, the constructor of the pipeline
  gets through all its stages and starts the wrapper thread on queue pairs that are ready for the
  datapath.
\<close>

subsection \<open>Connecting a SoC channel\<close>

definition verbs_connect :: "'w soc_ibv \<Rightarrow> 'w soc_verbs \<Rightarrow> bool" where
  "verbs_connect api vapi \<longleftrightarrow> (\<forall>q a w. fst (ib_modify_qp api q a w) = 0) \<and>
     (\<forall>pd a w. fst (ib_create_ah api pd a w) \<noteq> None) \<and> (\<forall>q sg w. fst (post_recv vapi q sg w) = 0)"

lemma soc_modify_total:
  assumes "verbs_connect api vapi" "the_qp_of p c = Some q"
  shows "\<exists>w'. soc_modify api p a (c, w) = Inr (NICC_SUCCESS, (c, w'))"
proof -
  obtain w' where "ib_modify_qp api (qp_object q) (a c) w = (0, w')"
    using assms(1) by (metis verbs_connect_def prod.collapse)
  moreover have "set_qp_of p q c = c" using assms(2) by (cases p) (simp_all add: set_qp_of_def the_qp_of_def)
  ultimately show ?thesis using assms(2) by (simp add: soc_modify_def on_qp_def)
qed

text \<open>What a connection leaves as it is.\<close>

definition link_frame :: "Channel_SoC \<Rightarrow> HugeAlloc option \<times> ptr \<times> QPInfo \<times> QPInfo" where
  "link_frame c = (huge_alloc c, soc_mr c, info_prior c, info_next c)"

lemma link_frame_set_qp [simp]: "link_frame (set_qp_of p q c) = link_frame c"
  by (simp add: link_frame_def set_qp_of_def)

lemma create_ah_total:
  assumes "verbs_connect api vapi" "the_qp_of p c = Some q"
  shows "\<exists>c' w' q'. create_ah api p remote (c, w) = Inr (NICC_SUCCESS, (c', w')) \<and> the_qp_of p c' = Some q' \<and> link_frame c' = link_frame c"
proof -
  have ah: "\<exists>x w'. ib_create_ah api pd aw w = (Some x, w')" for pd aw w
    using assms(1) by (metis verbs_connect_def option.exhaust_sel prod.collapse)
  obtain x w1 where x: "ib_create_ah api (soc_pd c) (local_ah_attr (if p then info_prior c else info_next c) (dev_port_id (soc_resolve c))) w = (Some x, w1)"
    using ah by blast
  obtain c1 w2 where l: "create_local_ah api p (c, w) = Inr (NICC_SUCCESS, (c1, w2))" "the_qp_of p c1 = Some q" "link_frame c1 = link_frame c"
    using x assms(2) by (cases "local_ah c") (auto simp: create_local_ah_def the_qp_of_def link_frame_def split: if_splits)
  obtain y w3 where "ib_create_ah api (soc_pd c1) (remote_ah_attr remote) w2 = (Some y, w3)" using ah by blast
  with l show ?thesis
    by (auto simp: create_ah_def and_then_def create_remote_ah_def on_qp_def)
qed

lemma soc_connect_total:
  assumes ok: "verbs_connect api vapi" and q: "the_qp_of p c = Some q" and m: "soc_mr c \<noteq> None"
    and n: "\<not> is_connected p (ch_state c)"
  shows "\<exists>c' w'. soc_connect_qp api vapi p None (Some remote) (c, w) = Inr (NICC_SUCCESS, (c', w')) \<and> link_frame c' = link_frame c"
proof -
  have mtu: "ibv_path_mtu kMTU = Some 5" by (simp add: kMTU_def)
  obtain w1 where 1: "soc_modify api p (\<lambda>c. init_attr (dev_port_id (soc_resolve c))) (c, w) = Inr (NICC_SUCCESS, (c, w1))"
    using soc_modify_total [OF ok q] by blast
  obtain w2 where 2: "soc_modify api p (\<lambda>_. rtr_attr remote 5) (c, w1) = Inr (NICC_SUCCESS, (c, w2))"
    using soc_modify_total [OF ok q] by blast
  obtain c3 w3 q3 where 3: "create_ah api p remote (c, w2) = Inr (NICC_SUCCESS, (c3, w3))" "the_qp_of p c3 = Some q3"
      "link_frame c3 = link_frame c"
    using create_ah_total [OF ok q] by blast
  obtain w4 where 4: "soc_modify api p (\<lambda>_. rts_attr remote 5) (c3, w3) = Inr (NICC_SUCCESS, (c3, w4))"
    using soc_modify_total [OF ok 3(2)] by blast
  let ?c5 = "set_qp_of p (q3\<lparr>remote_qp_id := unat (qi_qp_num remote)\<rparr>) c3"
  have 5: "soc_connect_qp_to_host api p remote (c, w) = Inr (NICC_SUCCESS, (?c5, w4))"
    using 1 2 3 4 unfolding soc_connect_qp_to_host_def mtu option.case by (simp add: and_then_def on_qp_def)
  obtain q6 where q6: "the_qp_of p ?c5 = Some q6" by (cases p) (auto simp: set_qp_of_def the_qp_of_def)
  have "\<exists>q' w'. soc_fill_recv_queue vapi ?c5 (q6, w4) = Inr (NICC_SUCCESS, (q', w'))"
    using ok by (auto simp: soc_fill_recv_queue_def Let_def verbs_connect_def split: prod.split) (metis fst_conv)+
  then obtain c7 w7 where "on_qp p (soc_fill_recv_queue vapi) (?c5, w4) = Inr (NICC_SUCCESS, (c7, w7))" "link_frame c7 = link_frame c"
    using q6 3(3) by (auto simp: on_qp_def)
  with 5 q m n show ?thesis
    by (auto simp: soc_connect_qp_def and_then_def link_frame_def)
qed

text \<open>A new channel is connected on neither side.\<close>

lemma soc_allocate_ch_state:
  assumes "soc_allocate_channel api sys papi dev port (c, w) = Some (Inr (NICC_SUCCESS, (c', w')))"
  shows "ch_state c' = ch_state c"
proof -
  have ring: "ch_state x' = ch_state x" if "on_ring p f (x, v) = Inr (r, (x', v'))" for p f x v r x' v'
    using that by (auto simp: on_ring_def bind_run_eq_Inr set_qp_of_def split: option.splits)
  have fill: "ch_state x' = ch_state x" if "fill_rings (x, v) = Inr (NICC_SUCCESS, (x', v'))" for x v x' v'
    using that unfolding fill_rings_def and_then_pair by (metis ring)
  have infos: "ch_state x' = ch_state x" if "set_local_infos api (x, v) = Inr (r, (x', v'))" for x v r x' v'
    using that by (auto simp: set_local_infos_def bind_run_eq_Inr split: option.splits)
  have verbs: "ch_state x' = ch_state x" if "init_verbs_structs api (x, v) = Inr (NICC_SUCCESS, (x', v'))" for x v x' v'
    using that infos by (fastforce simp: init_verbs_structs_def bind_run_eq_Inr and_then_pair split: option.splits dest!: on_qp_keeps)
  obtain h rs w1 rs1 c1 w2 where v: "init_verbs_structs api (c\<lparr>huge_alloc := Some h, soc_resolve := rs1\<rparr>, w1) = Inr (NICC_SUCCESS, (c1, w2))"
      and i: "init_rings api sys (c1, w2) = Some (Inr (NICC_SUCCESS, (c', w')))"
    using assms by (auto simp: soc_allocate_channel_def bind_exec_eq_Inr bind_run_eq_Inr Let_def split: if_splits)
  have "ch_state c' = ch_state c1"
    using i by (auto simp: init_rings_def bind_exec_eq_Inr bind_run_eq_Inr split: option.splits if_splits dest!: fill)
  with verbs [OF v] show ?thesis by simp
qed

text \<open>Both sides of a channel that was allocated, one after the other.\<close>

lemma soc_both_connected:
  assumes alloc: "soc_allocate_channel api sys papi dev port (c0, w0) = Some (Inr (NICC_SUCCESS, (c, wa)))"
    and new: "ch_state c0 = kChannel_State_Uninit" and ok: "verbs_connect api vapi"
  shows "\<exists>c' w'. and_then (soc_connect_qp api vapi True None (Some rq)) (soc_connect_qp api vapi False None (Some lq)) (c, w)
      = Inr (NICC_SUCCESS, (c', w')) \<and> info_prior c' = info_prior c \<and> info_next c' = info_next c
    \<and> (\<exists>p n h. qp_prior c' = Some p \<and> qp_next c' = Some n \<and> huge_alloc c' = Some h
         \<and> datapath_ready p (buffers h) \<and> datapath_ready n (buffers h)
         \<and> spaced kRecvMbufSize (rx_addrs p (buffers h) @ rx_addrs n (buffers h))
         \<and> remote_qp_id p = unat (qi_qp_num rq) \<and> remote_qp_id n = unat (qi_qp_num lq))"
proof -
  obtain qp qn h where c: "qp_prior c = Some qp" "qp_next c = Some qn" "huge_alloc c = Some h"
      "datapath_ready qp (buffers h)" "datapath_ready qn (buffers h)" "soc_mr c \<noteq> None"
    and sp: "spaced kRecvMbufSize (rx_addrs qp (buffers h) @ rx_addrs qn (buffers h))"
    using soc_rings [OF alloc] by blast
  have st: "ch_state c = kChannel_State_Uninit" using soc_allocate_ch_state [OF alloc] new by simp
  obtain c1 w1 where 1: "soc_connect_qp api vapi True None (Some rq) (c, w) = Inr (NICC_SUCCESS, (c1, w1))" "link_frame c1 = link_frame c"
    using soc_connect_total [OF ok, of True c qp rq w] c st by (auto simp: the_qp_of_def)
  from soc_connected_ready [OF 1(1), of qp "buffers h"] c st
  obtain p where p: "qp_prior c1 = Some p" "datapath_ready p (buffers h)" "remote_qp_id p = unat (qi_qp_num rq)" "rx_ring p = rx_ring qp"
      and c1: "qp_next c1 = Some qn" "\<not> is_connected False (ch_state c1)"
    by (auto simp: the_qp_of_def)
  obtain c2 w2 where 2: "soc_connect_qp api vapi False None (Some lq) (c1, w1) = Inr (NICC_SUCCESS, (c2, w2))" "link_frame c2 = link_frame c1"
    using soc_connect_total [OF ok, of False c1 qn lq w1] c1 c(6) 1(2) by (auto simp: the_qp_of_def link_frame_def)
  from soc_connected_ready [OF 2(1), of qn "buffers h"] c c1
  obtain n where n: "qp_next c2 = Some n" "datapath_ready n (buffers h)" "remote_qp_id n = unat (qi_qp_num lq)" "rx_ring n = rx_ring qn"
      and "qp_prior c2 = Some p"
    using p(1) by (auto simp: the_qp_of_def)
  moreover have "spaced kRecvMbufSize (rx_addrs p (buffers h) @ rx_addrs n (buffers h))"
    using sp p(4) n(4) by (simp add: rx_addrs_def)
  ultimately show ?thesis using 1 2 p c(3) by (auto simp: link_frame_def)
qed

subsection \<open>Registering the function\<close>

definition soc_handlers_ok :: "AppHandler option list \<Rightarrow> bool" where
  "soc_handlers_ok hs \<longleftrightarrow> (\<forall>h \<in> set hs. h \<noteq> None \<and> handler_tid (the h) \<in> {0, 1, 2, 3})"

lemma soc_scan_result:
  "soc_handlers_ok hs \<Longrightarrow> fold_run (scan_handler soc_slot) hs b =
     Inr (b\<lparr>soc_init_h := last_handler 0 hs (soc_init_h b), soc_pkt_h := last_handler 1 hs (soc_pkt_h b),
            soc_msg_h := last_handler 2 hs (soc_msg_h b), soc_cleanup_h := last_handler 3 hs (soc_cleanup_h b)\<rparr>)"
proof (induction hs arbitrary: b)
  case (Cons h hs)
  then obtain a where "h = Some a" "handler_tid a = 0 \<or> handler_tid a = 1 \<or> handler_tid a = 2 \<or> handler_tid a = 3"
      "soc_handlers_ok hs"
    by (auto simp: soc_handlers_ok_def)
  with Cons.IH show ?case
    by (elim disjE) (simp_all add: scan_handler_def soc_slot_def)
qed simp

definition port_resolves :: "'w port_api \<Rightarrow> string \<Rightarrow> u8 \<Rightarrow> bool" where
  "port_resolves papi dev port \<longleftrightarrow> (\<forall>r w. \<exists>rs w1 rs'. common_resolve_phy_port papi dev port kMTU r w = Inr (rs, w1) \<and>
     soc_roce_resolve_phy_port papi rs w1 = Inr (NICC_SUCCESS, rs') \<and> ib_ctx rs' \<noteq> None)"

lemma soc_register_total:
  assumes f: "af_handlers f \<noteq> []" "soc_handlers_ok (af_handlers f)" and b: "soc_function b = Obj a fs"
    and g: "port_resolves papi (soc_device_name (soc_desp b)) (soc_phy_port (soc_desp b))"
      "verbs_grant api" "hugepages_available sys kMemRegionSize"
      "records_clear (sm_info_prior mem) (sm_info_next mem)"
  shows "\<exists>b' c w'. soc_register_app_function api sys papi mem (Some f) (b, w) = Some (Inr (NICC_SUCCESS, (b', w')))
    \<and> blk_name b' = blk_name b \<and> soc_function b' = Obj a (fs\<lparr>ss_channel := Obj (sm_channel mem) c\<rparr>)
    \<and> soc_routing b' = Obj (sm_routing mem) (new_ComponentRouting_SoC ''soc'')
    \<and> soc_init_h b' = last_handler 0 (af_handlers f) (soc_init_h b) \<and> soc_pkt_h b' = last_handler 1 (af_handlers f) (soc_pkt_h b)
    \<and> soc_msg_h b' = last_handler 2 (af_handlers f) (soc_msg_h b) \<and> soc_cleanup_h b' = last_handler 3 (af_handlers f) (soc_cleanup_h b)
    \<and> (\<exists>c0 dev port. ch_state c0 = kChannel_State_Uninit \<and>
         soc_allocate_channel api sys papi dev port (c0, w) = Some (Inr (NICC_SUCCESS, (c, w'))))"
proof -
  let ?dev = "soc_device_name (soc_desp b)" and ?port = "soc_phy_port (soc_desp b)"
  let ?c0 = "new_Channel_SoC CH_RDMA PAKT_UNORDERED CH_RDMA PAKT_UNORDERED (sm_info_prior mem) (sm_info_next mem) (sm_channel_junk mem)"
  have new: "ch_state ?c0 = kChannel_State_Uninit" "records_clear (info_prior ?c0) (info_next ?c0)"
    using g(4) by (simp_all add: new_Channel_SoC_def)
  obtain rs w1 rs' where "common_resolve_phy_port papi ?dev ?port kMTU (soc_resolve ?c0) w = Inr (rs, w1)"
     "soc_roce_resolve_phy_port papi rs w1 = Inr (NICC_SUCCESS, rs')" "ib_ctx rs' \<noteq> None"
    using g(1) unfolding port_resolves_def by blast
  from soc_channel_up [OF this g(2,3) new(2)]
  obtain c w' where c: "soc_allocate_channel api sys papi ?dev ?port (?c0, w) = Some (Inr (NICC_SUCCESS, (c, w')))" by blast
  with f b new(1) show ?thesis
    by (simp add: soc_register_app_function_def soc_scan_result soc_allocate_wrapper_resources_def deref_obj_def) blast
qed

lemma soc_register_stale:
  assumes f: "af_handlers f \<noteq> []" "soc_handlers_ok (af_handlers f)" and b: "soc_function b = Obj a fs"
    and g: "port_resolves papi (soc_device_name (soc_desp b)) (soc_phy_port (soc_desp b))" "verbs_grant api"
      "\<not> records_clear (sm_info_prior mem) (sm_info_next mem)"
  shows "soc_register_app_function api sys papi mem (Some f) (b, w) = Some (Inl Assert_Failed)"
proof -
  let ?dev = "soc_device_name (soc_desp b)" and ?port = "soc_phy_port (soc_desp b)"
  let ?c0 = "new_Channel_SoC CH_RDMA PAKT_UNORDERED CH_RDMA PAKT_UNORDERED (sm_info_prior mem) (sm_info_next mem) (sm_channel_junk mem)"
  have stale: "\<not> records_clear (info_prior ?c0) (info_next ?c0)" using g(3) by (simp add: new_Channel_SoC_def)
  obtain rs w1 rs' where "common_resolve_phy_port papi ?dev ?port kMTU (soc_resolve ?c0) w = Inr (rs, w1)"
     "soc_roce_resolve_phy_port papi rs w1 = Inr (NICC_SUCCESS, rs')" "ib_ctx rs' \<noteq> None"
    using g(1) unfolding port_resolves_def by blast
  from soc_channel_stale [OF this g(2) stale]
  have "soc_allocate_channel api sys papi ?dev ?port (?c0, w) = Some (Inl Assert_Failed)" .
  with f b show ?thesis
    by (simp add: soc_register_app_function_def soc_scan_result soc_allocate_wrapper_resources_def deref_obj_def)
qed

subsection \<open>Connecting the block\<close>

lemma soc_connect_hosts:
  assumes "and_then (soc_connect_qp api vapi True None (Some rq)) (soc_connect_qp api vapi False None (Some lq)) (c, w)
      = Inr (NICC_SUCCESS, (c', w'))"
    and "soc_function b = Obj a fs" "ss_channel fs = Obj ca c"
  shows "soc_connect_to_neighbour api vapi None None True (Some rq) True (Some lq) (b, w)
    = Inr (NICC_SUCCESS, (b\<lparr>soc_function := Obj a (fs\<lparr>ss_channel := Obj ca c'\<rparr>)\<rparr>, w'))"
proof -
  obtain c1 w1 where "soc_connect_qp api vapi True None (Some rq) (c, w) = Inr (NICC_SUCCESS, (c1, w1))"
      "soc_connect_qp api vapi False None (Some lq) (c1, w1) = Inr (NICC_SUCCESS, (c', w'))"
    using assms(1) unfolding and_then_pair by blast
  with assms(2,3) show ?thesis
    by (simp add: soc_connect_to_neighbour_def connect_steps_def on_soc_function_def on_soc_channel_def
        deref_obj_def op_done_def and_then_def)
qed

definition hosts_answer :: "'w sock_api \<Rightarrow> bool" where
  "hosts_answer api \<longleftrightarrow> (\<forall>w. 0 < fst (sock_new api w)) \<and> (\<forall>fd ip p w. 0 \<le> fst (sock_connect api fd ip p w)) \<and>
     (\<forall>fd p w. 0 \<le> fst (sock_bind api fd p w)) \<and> (\<forall>fd k w. 0 \<le> fst (sock_listen api fd k w)) \<and>
     (\<forall>fd w. 0 \<le> fst (sock_accept api fd w)) \<and>
     (\<forall>fd w. \<exists>q w'. receive_qp_info api fd w = Inr (q, w'))"

lemma or_exit_ok: "0 \<le> fst r \<Longrightarrow> or_exit r = Inr r"
  by (simp add: or_exit_def)

lemma open_links_total:
  assumes ok: "hosts_answer api" and "get_host_config ''remote'' dag = Inr rh" "get_host_config ''local'' dag = Inr lh"
  shows "\<exists>hl w'. open_links api dag junk w = Inr (hl, w')"
proof -
  have sock: "0 < fst (sock_new api w)" "0 \<le> fst (sock_connect api fd ip p w)" "0 \<le> fst (sock_bind api fd p w)"
      "0 \<le> fst (sock_listen api fd k w)" "0 \<le> fst (sock_accept api fd w)" for fd ip p k w
    using ok by (simp_all add: hosts_answer_def)
  have recv: "\<exists>q w'. receive_qp_info api fd w = Inr (q, w')" for fd w
    using ok by (simp add: hosts_answer_def)
  obtain fd w1 where 1: "sock_new api w = (fd, w1)" by force
  obtain x w2 where 2: "sock_bind api fd (mgnt_port rh) w1 = (x, w2)" by force
  obtain y w3 where 3: "sock_listen api fd 3 w2 = (y, w3)" by force
  have "0 < fd" "0 \<le> x" "0 \<le> y"
    using sock(1) [of w] sock(3) [of fd "mgnt_port rh" w1] sock(4) [of fd 3 w2] 1 2 3 by simp_all
  then have srv: "new_TCPServer api (mgnt_port rh) junk w = Inr (\<lparr>server_fd = fd, new_socket = junk\<rparr>, w3)"
    using 1 2 3 by (simp add: new_TCPServer_def or_exit_ok)
  obtain cl w4 where 4: "new_TCPClient api w3 = Inr (cl, w4)"
    using or_exit_ok [OF less_imp_le [OF sock(1)], of w3] by (cases "sock_new api w3") (simp add: new_TCPClient_def)
  obtain w5 where 5: "connectToServer api cl (ipv4 lh) (mgnt_port lh) w4 = Inr w5"
    using or_exit_ok [OF sock(2), of cl "ipv4 lh" "mgnt_port lh" w4]
    by (cases "sock_connect api cl (ipv4 lh) (mgnt_port lh) w4") (simp add: connectToServer_def)
  obtain lq w6 where 6: "receive_qp_info api cl w5 = Inr (lq, w6)" using recv by blast
  obtain srv' w7 where 7: "acceptConnection api \<lparr>server_fd = fd, new_socket = junk\<rparr> w6 = Inr (srv', w7)"
    using or_exit_ok [OF sock(5), of fd w6] by (cases "sock_accept api fd w6") (simp add: acceptConnection_def)
  obtain rq w8 where 8: "receive_qp_info api (new_socket srv') w7 = Inr (rq, w8)" using recv by blast
  show ?thesis using assms(2,3) srv 4 5 6 7 8 by (simp add: open_links_def)
qed

subsection \<open>Stages\<close>

text \<open>A SoC block fresh from the pool, for the descriptor \<open>d\<close>.\<close>

definition allocated_block :: "ComponentDesp_SoC \<Rightarrow> ComponentBlock_SoC \<Rightarrow> bool" where
  "allocated_block d b \<longleftrightarrow> blk_name b = block_name d \<and> soc_device_name (soc_desp b) = soc_device_name d \<and>
     soc_phy_port (soc_desp b) = soc_phy_port d \<and> (\<exists>a fs. soc_function b = Obj a fs) \<and>
     soc_init_h b = None \<and> soc_pkt_h b = None \<and> soc_msg_h b = None \<and> soc_cleanup_h b = None"

lemma allocate_one:
  assumes "funcs fa = Some f" "af_component_id f = kComponent_SoC" "af_desp f = Some (Desp_SoC d)"
    and "rp_components pool kComponent_SoC = Some (Comp_SoC c)" "quota d \<le> state_quota (comp_state c)"
  shows "\<exists>s1 b. allocate_component_blocks e funcs [Some fa] ds (empty_pipeline pr n pool w) = Inr (NICC_SUCCESS, s1)
    \<and> pl_map s1 = [(fa, n)] \<and> pl_blocks s1 = [n] \<and> pl_heap s1 n = Some (Blk_SoC b) \<and> allocated_block d b \<and> pl_next s1 = n + 3"
  using assms
  by (simp add: allocate_component_blocks_def allocate_function_def empty_pipeline_def new_block_def pool_allocate_def
      soc_allocate_block_def ComponentBaseDesp.defs om_insert_def Let_def component_id_defs allocated_block_def
      new_ComponentBlock_SoC_def not_less)

text \<open>Both queue pairs of a thread's context, over the buffers \<open>m\<close>, ready for the datapath.\<close>

definition context_ready :: "soc_thread_context \<Rightarrow> heap \<Rightarrow> bool" where
  "context_ready tc m \<longleftrightarrow> datapath_ready (tc_qp_prior tc) m \<and> datapath_ready (tc_qp_next tc) m \<and>
     spaced kRecvMbufSize (rx_addrs (tc_qp_prior tc) m @ rx_addrs (tc_qp_next tc) m)"

definition context_handlers :: "soc_thread_context \<Rightarrow> AppHandler option list \<Rightarrow> bool" where
  "context_handlers tc hs \<longleftrightarrow> tc_init_handler tc = handler_code (last_handler 0 hs None) \<and>
     tc_pkt_handler tc = handler_code (last_handler 1 hs None) \<and>
     tc_msg_handler tc = handler_code (last_handler 2 hs None) \<and>
     tc_cleanup_handler tc = handler_code (last_handler 3 hs None)"

definition core_available :: "'w numa_api \<Rightarrow> bool" where
  "core_available api \<longleftrightarrow> (\<exists>i < num_configured_cpus api. numa_node_of_cpu api i = 0) \<and>
     (\<forall>t cs w. fst (set_affinity api t cs w) = 0)"

lemma bind_to_core_total:
  assumes "core_available api"
  shows "\<exists>core w'. bind_to_core api t 0 0 w = Inr (core, w')"
proof -
  obtain i where "i < num_configured_cpus api" "numa_node_of_cpu api i = 0"
    using assms by (auto simp: core_available_def)
  then have "i \<in> set (filter (\<lambda>i. 0 = to_size_t (numa_node_of_cpu api i)) [0 ..< num_configured_cpus api])"
    by (simp add: to_size_t_def)
  then have "filter (\<lambda>i. 0 = to_size_t (numa_node_of_cpu api i)) [0 ..< num_configured_cpus api] \<noteq> []"
    by (metis empty_iff list.set(1))
  moreover obtain w' where "set_affinity api t {filter (\<lambda>i. 0 = to_size_t (numa_node_of_cpu api i)) [0 ..< num_configured_cpus api] ! 0} w = (0, w')"
    using assms by (metis core_available_def prod.collapse)
  ultimately show ?thesis by (simp add: bind_to_core_def get_lcores_for_numa_node_def)
qed

lemma run_one:
  assumes "core_available (e_numa e)" and "pl_blocks s = [n]" "pl_heap s n = Some (Blk_SoC b)"
    and "soc_function b = Obj a fs" "ss_channel fs = Obj ca c" "qp_prior c = Some p" "qp_next c = Some q"
  shows "\<exists>s' tc t. run_pipeline e s = Inr (NICC_SUCCESS, s')
    \<and> pl_heap s' n = Some (Blk_SoC (b\<lparr>soc_function := Obj a (fs\<lparr>ss_context := Obj (pl_next s) tc, ss_wrapper_thread := Some t\<rparr>)\<rparr>))
    \<and> tc_qp_prior tc = p \<and> tc_qp_next tc = q \<and> tc_init_handler tc = handler_code (soc_init_h b)
    \<and> tc_pkt_handler tc = handler_code (soc_pkt_h b) \<and> tc_msg_handler tc = handler_code (soc_msg_h b)
    \<and> tc_cleanup_handler tc = handler_code (soc_cleanup_h b)"
proof -
  let ?tc = "\<lparr>tc_qp_prior = p, tc_qp_next = q, tc_init_handler = handler_code (soc_init_h b),
    tc_pkt_handler = handler_code (soc_pkt_h b), tc_msg_handler = handler_code (soc_msg_h b),
    tc_cleanup_handler = handler_code (soc_cleanup_h b), tc_user_state = None, tc_user_state_size = 0\<rparr>"
  obtain t w1 where t: "e_thread e kSoC_Dispatcher ?tc (pl_world s) = (t, w1)" by force
  obtain core w2 where "bind_to_core (e_numa e) t 0 0 w1 = Inr (core, w2)"
    using bind_to_core_total [OF assms(1)] by blast
  with t assms show ?thesis
    by (simp add: run_pipeline_def and_then_def at_block_def block_at_def soc_run_block_def create_wrapper_process_def
        on_soc_function_def deref_obj_def) (rule exI [of _ ?tc], auto)
qed

lemma register_one:
  assumes "pl_map s = [(fa, n)]" "pl_heap s n = Some (Blk_SoC b)" "allocated_block d b" "funcs fa = Some f"
    and "af_handlers f \<noteq> []" "soc_handlers_ok (af_handlers f)"
    and "port_resolves (e_port e) (soc_device_name d) (soc_phy_port d)" "verbs_grant (e_ibv e)"
      "hugepages_available (e_shm e) kMemRegionSize"
      "records_clear (e_junk_info e (pl_next s + 1)) (e_junk_info e (pl_next s + 2))"
  shows "\<exists>s' b' a fs ca c ra c0 dev port. register_functions e funcs ds s = Some (Inr (NICC_SUCCESS, s'))
    \<and> pl_blocks s' = pl_blocks s \<and> pl_heap s' n = Some (Blk_SoC b') \<and> blk_name b' = block_name d
    \<and> soc_function b' = Obj a fs \<and> ss_channel fs = Obj ca c \<and> soc_routing b' = Obj ra (new_ComponentRouting_SoC ''soc'')
    \<and> soc_init_h b' = last_handler 0 (af_handlers f) None \<and> soc_pkt_h b' = last_handler 1 (af_handlers f) None
    \<and> soc_msg_h b' = last_handler 2 (af_handlers f) None \<and> soc_cleanup_h b' = last_handler 3 (af_handlers f) None
    \<and> ch_state c0 = kChannel_State_Uninit
    \<and> soc_allocate_channel (e_ibv e) (e_shm e) (e_port e) dev port (c0, pl_world s) = Some (Inr (NICC_SUCCESS, (c, pl_world s')))"
proof -
  let ?x = "pl_next s"
  let ?mem = "\<lparr>sm_channel = ?x, sm_channel_junk = e_junk_soc_channel e ?x, sm_info_prior = e_junk_info e (?x + 1),
    sm_info_next = e_junk_info e (?x + 2), sm_routing = ?x + 3\<rparr>"
  note d = assms(3) [unfolded allocated_block_def]
  then obtain a fs where fs: "soc_function b = Obj a fs" by blast
  have info: "records_clear (sm_info_prior ?mem) (sm_info_next ?mem)" using assms(10) by simp
  have port: "port_resolves (e_port e) (soc_device_name (soc_desp b)) (soc_phy_port (soc_desp b))"
    using assms(7) d by simp
  obtain b' c w' c0 dev prt where r: "soc_register_app_function (e_ibv e) (e_shm e) (e_port e) ?mem (Some f) (b, pl_world s)
        = Some (Inr (NICC_SUCCESS, (b', w')))"
      "blk_name b' = blk_name b" "soc_function b' = Obj a (fs\<lparr>ss_channel := Obj (sm_channel ?mem) c\<rparr>)"
      "soc_routing b' = Obj (sm_routing ?mem) (new_ComponentRouting_SoC ''soc'')"
      "soc_init_h b' = last_handler 0 (af_handlers f) (soc_init_h b)" "soc_pkt_h b' = last_handler 1 (af_handlers f) (soc_pkt_h b)"
      "soc_msg_h b' = last_handler 2 (af_handlers f) (soc_msg_h b)" "soc_cleanup_h b' = last_handler 3 (af_handlers f) (soc_cleanup_h b)"
      "ch_state c0 = kChannel_State_Uninit"
      "soc_allocate_channel (e_ibv e) (e_shm e) (e_port e) dev prt (c0, pl_world s) = Some (Inr (NICC_SUCCESS, (c, w')))"
    using soc_register_total [OF assms(5,6) fs port assms(8,9) info, of "pl_world s"] by blast
  let ?s' = "s\<lparr>pl_heap := (pl_heap s)(n \<mapsto> Blk_SoC b'), pl_world := w', pl_next := ?x + 4\<rparr>"
  have reg: "register_functions e funcs ds s = Some (Inr (NICC_SUCCESS, ?s'))"
    using assms(1,2,4) r(1) by (simp add: register_functions_def block_at_def)
  show ?thesis
    by (intro exI [of _ ?s'] exI [of _ b'] exI [of _ a] exI [of _ "fs\<lparr>ss_channel := Obj ?x c\<rparr>"] exI [of _ ?x]
        exI [of _ c] exI [of _ "?x + 3"] exI [of _ c0] exI [of _ dev] exI [of _ prt])
      (use reg r d in simp)
qed

lemma register_stale:
  assumes "pl_map s = [(fa, n)]" "pl_heap s n = Some (Blk_SoC b)" "allocated_block d b" "funcs fa = Some f"
    and "af_handlers f \<noteq> []" "soc_handlers_ok (af_handlers f)"
    and "port_resolves (e_port e) (soc_device_name d) (soc_phy_port d)" "verbs_grant (e_ibv e)"
      "\<not> records_clear (e_junk_info e (pl_next s + 1)) (e_junk_info e (pl_next s + 2))"
  shows "register_functions e funcs ds s = Some (Inl Assert_Failed)"
proof -
  let ?x = "pl_next s"
  let ?mem = "\<lparr>sm_channel = ?x, sm_channel_junk = e_junk_soc_channel e ?x, sm_info_prior = e_junk_info e (?x + 1),
    sm_info_next = e_junk_info e (?x + 2), sm_routing = ?x + 3\<rparr>"
  obtain a fs where fs: "soc_function b = Obj a fs" using assms(3) by (auto simp: allocated_block_def)
  have "port_resolves (e_port e) (soc_device_name (soc_desp b)) (soc_phy_port (soc_desp b))"
    "\<not> records_clear (sm_info_prior ?mem) (sm_info_next ?mem)"
    using assms(3,7,9) by (simp_all add: allocated_block_def)
  from soc_register_stale [OF assms(5,6) fs this(1) assms(8) this(2)] assms(1,2,4) show ?thesis
    by (simp add: register_functions_def block_at_def)
qed

lemma send_one:
  assumes "pl_heap s n = Some (Blk_SoC b)" "soc_function b = Obj a fs" "ss_channel fs = Obj ca c"
  shows "\<exists>w'. send_qp_info api fd is_prior n s = Inr (s\<lparr>pl_world := w'\<rparr>)"
proof -
  have "send_qp_info api fd is_prior n s = Inr (s\<lparr>pl_world := send_msg api fd
      (serialize (if is_prior then info_prior c else info_next c)) (pl_world s)\<rparr>)"
    using assms by (simp add: send_qp_info_def block_at_def soc_get_qp_info_def deref_obj_def)
  then show ?thesis by blast
qed

lemma connect_one:
  assumes "pl_heap s n = Some (Blk_SoC b)" "soc_function b = Obj a fs" "ss_channel fs = Obj ca c"
    and conn: "and_then (soc_connect_qp (e_ibv e) (e_verbs e) True None (Some (hl_remote hl)))
      (soc_connect_qp (e_ibv e) (e_verbs e) False None (Some (hl_local hl))) (c, pl_world s) = Inr (NICC_SUCCESS, (c', w'))"
    and "blk_name b \<in> set rc" "blk_name b \<in> set lc"
  shows "\<exists>s'. connect_loop e ds hl rc lc [n] None False False s = Inr (NICC_SUCCESS, s') \<and> pl_blocks s' = pl_blocks s
    \<and> pl_heap s' n = Some (Blk_SoC (b\<lparr>soc_function := Obj a (fs\<lparr>ss_channel := Obj ca c'\<rparr>)\<rparr>))"
proof -
  let ?b = "b\<lparr>soc_function := Obj a (fs\<lparr>ss_channel := Obj ca c'\<rparr>)\<rparr>"
  let ?s1 = "s\<lparr>pl_heap := (pl_heap s)(n \<mapsto> Blk_SoC ?b), pl_world := w'\<rparr>"
  have 1: "at_block n (blk_connect e None None True (Some (hl_remote hl)) True (Some (hl_local hl))) s = Inr (NICC_SUCCESS, ?s1)"
    using assms(1) soc_connect_hosts [OF conn assms(2,3)] by (simp add: at_block_def block_at_def)
  have h: "pl_heap ?s1 n = Some (Blk_SoC ?b)" "pl_heap (?s1\<lparr>pl_world := w\<rparr>) n = Some (Blk_SoC ?b)" "soc_function ?b = Obj a (fs\<lparr>ss_channel := Obj ca c'\<rparr>)"
      "ss_channel (fs\<lparr>ss_channel := Obj ca c'\<rparr>) = Obj ca c'" for w by simp_all
  obtain w1 where 2: "send_qp_info (e_sock e) (new_socket (hl_server hl)) True n ?s1 = Inr (?s1\<lparr>pl_world := w1\<rparr>)"
    using send_one [OF h(1,3,4)] by blast
  obtain w2 where 3: "send_qp_info (e_sock e) (hl_client hl) False n (?s1\<lparr>pl_world := w1\<rparr>) = Inr (?s1\<lparr>pl_world := w1\<rparr>\<lparr>pl_world := w2\<rparr>)"
    using send_one [OF h(2,3,4)] by blast
  have "connect_round e ds hl n None True True s = Inr (NICC_SUCCESS, ?s1\<lparr>pl_world := w2\<rparr>)"
    using 1 2 3 by (simp add: connect_round_def and_then_def op_done_def at_block_def block_at_def fun_upd_idem)
  with assms show ?thesis
    by (simp add: block_at_def ComponentBlock.defs and_then_def)
qed

lemma control_one:
  assumes s: "pl_blocks s = [n]" "pl_heap s n = Some (Blk_SoC b)" "soc_function b = Obj a fs" "ss_channel fs = Obj ca c"
      "soc_routing b = Obj ra (new_ComponentRouting_SoC ''soc'')"
    and alloc: "soc_allocate_channel (e_ibv e) (e_shm e) (e_port e) dev port (c0, w0) = Some (Inr (NICC_SUCCESS, (c, wa)))"
      "ch_state c0 = kChannel_State_Uninit"
    and ok: "verbs_connect (e_ibv e) (e_verbs e)" "hosts_answer (e_sock e)"
    and dag: "get_host_config ''remote'' dag = Inr rh" "get_host_config ''local'' dag = Inr lh"
      "blk_name b \<in> set (connect_to rh)" "blk_name b \<in> set (connect_to lh)"
  shows "\<exists>s' b' fs' c' p q h. init_control_plane e dag junk ds s = Inr (NICC_SUCCESS, s') \<and> pl_blocks s' = [n]
    \<and> pl_heap s' n = Some (Blk_SoC b') \<and> soc_function b' = Obj a fs' \<and> ss_channel fs' = Obj ca c'
    \<and> soc_init_h b' = soc_init_h b \<and> soc_pkt_h b' = soc_pkt_h b \<and> soc_msg_h b' = soc_msg_h b
    \<and> soc_cleanup_h b' = soc_cleanup_h b
    \<and> qp_prior c' = Some p \<and> qp_next c' = Some q \<and> huge_alloc c' = Some h
    \<and> datapath_ready p (buffers h) \<and> datapath_ready q (buffers h)
    \<and> spaced kRecvMbufSize (rx_addrs p (buffers h) @ rx_addrs q (buffers h))"
proof -
  obtain s1 rt where s1: "init_block_routing dag n s = Inr s1" "pl_world s1 = pl_world s" "pl_blocks s1 = pl_blocks s"
      "pl_heap s1 = (pl_heap s)(n \<mapsto> Blk_SoC (b\<lparr>soc_routing := Obj ra rt\<rparr>))"
    using routed_soc_block [OF s(2-5)] by blast
  obtain hl w1 where hl: "open_links (e_sock e) dag junk (pl_world s1) = Inr (hl, w1)"
    using open_links_total [OF ok(2) dag(1,2)] by blast
  obtain c' w' p q h where c': "and_then (soc_connect_qp (e_ibv e) (e_verbs e) True None (Some (hl_remote hl)))
      (soc_connect_qp (e_ibv e) (e_verbs e) False None (Some (hl_local hl))) (c, w1) = Inr (NICC_SUCCESS, (c', w'))"
      "qp_prior c' = Some p" "qp_next c' = Some q" "huge_alloc c' = Some h" "datapath_ready p (buffers h)" "datapath_ready q (buffers h)"
      "spaced kRecvMbufSize (rx_addrs p (buffers h) @ rx_addrs q (buffers h))"
    using soc_both_connected [OF alloc ok(1), of "hl_remote hl" "hl_local hl" w1] by blast
  let ?b = "b\<lparr>soc_routing := Obj ra rt\<rparr>"
  have b: "pl_heap (s1\<lparr>pl_world := w1\<rparr>) n = Some (Blk_SoC ?b)" "soc_function ?b = Obj a fs" "blk_name ?b \<in> set (connect_to rh)"
      "blk_name ?b \<in> set (connect_to lh)"
    using s s1(4) dag(3,4) by simp_all
  obtain s2 where s2: "connect_loop e ds hl (connect_to rh) (connect_to lh) [n] None False False (s1\<lparr>pl_world := w1\<rparr>) = Inr (NICC_SUCCESS, s2)"
      "pl_blocks s2 = [n]" "pl_heap s2 n = Some (Blk_SoC (?b\<lparr>soc_function := Obj a (fs\<lparr>ss_channel := Obj ca c'\<rparr>)\<rparr>))"
    using connect_one [OF b(1,2) s(4) _ b(3,4), of e hl c' w' ds] c'(1) s1(3) s(1) by auto
  obtain w3 where "build_channel_connections e dag junk ds s1 = Inr (NICC_SUCCESS, s2\<lparr>pl_world := w3\<rparr>)"
    using hl dag(1,2) s2(1) s1(3) s(1) by (simp add: build_channel_connections_def del: connect_loop.simps)
  then have "init_control_plane e dag junk ds s = Inr (NICC_SUCCESS, s2\<lparr>pl_world := w3\<rparr>)"
    using s1(1) s(1) by (simp add: init_control_plane_def)
  with s2 c'(2-7) show ?thesis
    by (intro exI [of _ "s2\<lparr>pl_world := w3\<rparr>"] exI [of _ "?b\<lparr>soc_function := Obj a (fs\<lparr>ss_channel := Obj ca c'\<rparr>)\<rparr>"]
        exI [of _ "fs\<lparr>ss_channel := Obj ca c'\<rparr>"] exI [of _ c'] exI [of _ p] exI [of _ q] exI [of _ h]) simp
qed

subsection \<open>The whole pipeline\<close>

text \<open>Everything outside the program that has to work: drivers, hosts, hugepages and cores.\<close>

definition platform_ok :: "'w pipe_env \<Rightarrow> ComponentDesp_SoC \<Rightarrow> bool" where
  "platform_ok e d \<longleftrightarrow> port_resolves (e_port e) (soc_device_name d) (soc_phy_port d) \<and> verbs_grant (e_ibv e) \<and>
     hugepages_available (e_shm e) kMemRegionSize \<and> verbs_connect (e_ibv e) (e_verbs e) \<and>
     hosts_answer (e_sock e) \<and> core_available (e_numa e)"

text \<open>
  What the memory of the channel's two connection records holds when \<open>malloc\<close> returns it: they are the
  fourth and fifth objects after the first address of the pipeline.
\<close>

definition pipeline_records_clear :: "'w pipe_env \<Rightarrow> nat \<Rightarrow> bool" where
  "pipeline_records_clear e n \<longleftrightarrow> records_clear (e_junk_info e (n + 4)) (e_junk_info e (n + 5))"

text \<open>The function asks for a SoC block the pool can give, and the graph links that block to both hosts.\<close>

definition soc_application :: "AppFunction \<Rightarrow> ComponentDesp_SoC \<Rightarrow> ResourcePool \<Rightarrow> AppDAG \<Rightarrow> bool" where
  "soc_application f d pool dag \<longleftrightarrow> af_component_id f = kComponent_SoC \<and> af_desp f = Some (Desp_SoC d) \<and>
     af_handlers f \<noteq> [] \<and> soc_handlers_ok (af_handlers f) \<and>
     (\<exists>c. rp_components pool kComponent_SoC = Some (Comp_SoC c) \<and> quota d \<le> state_quota (comp_state c)) \<and>
     (\<exists>rh lh. get_host_config ''remote'' dag = Inr rh \<and> get_host_config ''local'' dag = Inr lh \<and>
        block_name d \<in> set (connect_to rh) \<and> block_name d \<in> set (connect_to lh))"

text \<open>
  What runs at the end: the thread of the block, with its channel's queue pairs ready and the user's
  handlers in place.
\<close>

definition wrapper_running :: "'w pipeline \<Rightarrow> nat \<Rightarrow> AppHandler option list \<Rightarrow> bool" where
  "wrapper_running s n hs \<longleftrightarrow> (\<exists>b a fs ca c x tc h. pl_heap s n = Some (Blk_SoC b) \<and> soc_function b = Obj a fs \<and>
     ss_channel fs = Obj ca c \<and> ss_wrapper_thread fs \<noteq> None \<and> ss_context fs = Obj x tc \<and>
     qp_prior c = Some (tc_qp_prior tc) \<and> qp_next c = Some (tc_qp_next tc) \<and> huge_alloc c = Some h \<and>
     context_ready tc (buffers h) \<and> context_handlers tc hs)"

lemma soc_pipeline_stages:
  assumes "platform_ok e d" "soc_application f d pool dag" "funcs fa = Some f" "pipeline_records_clear e n"
  shows "\<exists>s1 s2 s3 s4. allocate_component_blocks e funcs [Some fa] ds (empty_pipeline pr n pool w) = Inr (NICC_SUCCESS, s1)
    \<and> register_functions e funcs ds s1 = Some (Inr (NICC_SUCCESS, s2))
    \<and> init_control_plane e dag junk ds s2 = Inr (NICC_SUCCESS, s3)
    \<and> run_pipeline e s3 = Inr (NICC_SUCCESS, s4) \<and> wrapper_running s4 n (af_handlers f)"
proof -
  note plat = assms(1) [unfolded platform_ok_def] and app = assms(2) [unfolded soc_application_def]
  obtain c where c: "rp_components pool kComponent_SoC = Some (Comp_SoC c)" "quota d \<le> state_quota (comp_state c)"
    using app by blast
  obtain rh lh where dag: "get_host_config ''remote'' dag = Inr rh" "get_host_config ''local'' dag = Inr lh"
      "block_name d \<in> set (connect_to rh)" "block_name d \<in> set (connect_to lh)"
    using app by blast
  have f: "af_component_id f = kComponent_SoC" "af_desp f = Some (Desp_SoC d)" "af_handlers f \<noteq> []" "soc_handlers_ok (af_handlers f)"
    using app by simp_all
  have p: "port_resolves (e_port e) (soc_device_name d) (soc_phy_port d)" "verbs_grant (e_ibv e)"
      "hugepages_available (e_shm e) kMemRegionSize" "records_clear (e_junk_info e (n + 4)) (e_junk_info e (n + 5))"
      "verbs_connect (e_ibv e) (e_verbs e)" "hosts_answer (e_sock e)" "core_available (e_numa e)"
    using plat assms(4) by (simp_all add: pipeline_records_clear_def)
  obtain s1 b where 1: "allocate_component_blocks e funcs [Some fa] ds (empty_pipeline pr n pool w) = Inr (NICC_SUCCESS, s1)"
      "pl_map s1 = [(fa, n)]" "pl_blocks s1 = [n]" "pl_heap s1 n = Some (Blk_SoC b)" "allocated_block d b" "pl_next s1 = n + 3"
    using allocate_one [where funcs = funcs and fa = fa and f = f and d = d and e = e and ds = ds and pr = pr and n = n and w = w, OF assms(3) f(1,2) c] by blast
  have clear: "records_clear (e_junk_info e (pl_next s1 + 1)) (e_junk_info e (pl_next s1 + 2))"
    using p(4) 1(6) by (simp add: eval_nat_numeral)
  obtain s2 b2 a fs ca ch ra c0 dev prt where 2: "register_functions e funcs ds s1 = Some (Inr (NICC_SUCCESS, s2))"
      "pl_blocks s2 = pl_blocks s1" "pl_heap s2 n = Some (Blk_SoC b2)" "blk_name b2 = block_name d"
      "soc_function b2 = Obj a fs" "ss_channel fs = Obj ca ch" "soc_routing b2 = Obj ra (new_ComponentRouting_SoC ''soc'')"
      "soc_init_h b2 = last_handler 0 (af_handlers f) None" "soc_pkt_h b2 = last_handler 1 (af_handlers f) None"
      "soc_msg_h b2 = last_handler 2 (af_handlers f) None" "soc_cleanup_h b2 = last_handler 3 (af_handlers f) None"
      "ch_state c0 = kChannel_State_Uninit"
      "soc_allocate_channel (e_ibv e) (e_shm e) (e_port e) dev prt (c0, pl_world s1) = Some (Inr (NICC_SUCCESS, (ch, pl_world s2)))"
    using register_one [where funcs = funcs and fa = fa and f = f and e = e and ds = ds, OF 1(2,4,5) assms(3) f(3,4) p(1-3) clear] by blast
  obtain s3 b3 fs3 c3 qp qn h where 3: "init_control_plane e dag junk ds s2 = Inr (NICC_SUCCESS, s3)" "pl_blocks s3 = [n]"
      "pl_heap s3 n = Some (Blk_SoC b3)" "soc_function b3 = Obj a fs3" "ss_channel fs3 = Obj ca c3"
      "soc_init_h b3 = soc_init_h b2" "soc_pkt_h b3 = soc_pkt_h b2" "soc_msg_h b3 = soc_msg_h b2" "soc_cleanup_h b3 = soc_cleanup_h b2"
      "qp_prior c3 = Some qp" "qp_next c3 = Some qn" "huge_alloc c3 = Some h"
      "datapath_ready qp (buffers h)" "datapath_ready qn (buffers h)"
      "spaced kRecvMbufSize (rx_addrs qp (buffers h) @ rx_addrs qn (buffers h))"
    using control_one [where e = e and dag = dag and junk = junk and ds = ds, OF _ 2(3,5,6,7) 2(13,12) p(5,6) dag(1,2)] 1(3) 2(2,4) dag(3,4) by auto
  obtain s4 tc t where 4: "run_pipeline e s3 = Inr (NICC_SUCCESS, s4)"
      "pl_heap s4 n = Some (Blk_SoC (b3\<lparr>soc_function := Obj a (fs3\<lparr>ss_context := Obj (pl_next s3) tc, ss_wrapper_thread := Some t\<rparr>)\<rparr>))"
      "tc_qp_prior tc = qp" "tc_qp_next tc = qn" "tc_init_handler tc = handler_code (soc_init_h b3)"
      "tc_pkt_handler tc = handler_code (soc_pkt_h b3)" "tc_msg_handler tc = handler_code (soc_msg_h b3)"
      "tc_cleanup_handler tc = handler_code (soc_cleanup_h b3)"
    using run_one [OF p(7) 3(2-5) 3(10,11)] by blast
  have "context_ready tc (buffers h)" "context_handlers tc (af_handlers f)"
    using 2(8-11) 3(6-9,13-15) 4(3-8) by (simp_all add: context_ready_def context_handlers_def)
  then have "wrapper_running s4 n (af_handlers f)"
    using 3(5,10-12) 4(2-4) unfolding wrapper_running_def
    by (intro exI [of _ "b3\<lparr>soc_function := Obj a (fs3\<lparr>ss_context := Obj (pl_next s3) tc, ss_wrapper_thread := Some t\<rparr>)\<rparr>"]
        exI [of _ a] exI [of _ "fs3\<lparr>ss_context := Obj (pl_next s3) tc, ss_wrapper_thread := Some t\<rparr>"] exI [of _ ca]
        exI [of _ c3] exI [of _ "pl_next s3"] exI [of _ tc] exI [of _ h]) simp
  with 1(1) 2(1) 3(1) 4(1) show ?thesis by blast
qed

text \<open>
  The constructor gets through every stage, starts the wrapper and does not return.
\<close>

lemma soc_pipeline_comes_up:
  assumes "platform_ok e d" and "soc_application f d pool dag" and "funcs fa = Some f" and "ds_device_name ds \<noteq> None"
    and "pipeline_records_clear e n"
  shows "\<exists>pr s1 s2 s3 s4. load_from_app_dag (Some dag) new_PipelineRouting = Inr (NICC_SUCCESS, pr)
    \<and> allocate_component_blocks e funcs [Some fa] ds (empty_pipeline pr n pool w) = Inr (NICC_SUCCESS, s1)
    \<and> register_functions e funcs ds s1 = Some (Inr (NICC_SUCCESS, s2))
    \<and> init_control_plane e dag junk ds s2 = Inr (NICC_SUCCESS, s3)
    \<and> run_pipeline e s3 = Inr (NICC_SUCCESS, s4) \<and> wrapper_running s4 n (af_handlers f)
    \<and> new_DatapathPipeline e funcs pool (Some [Some fa]) ds (Some dag) junk n w = None"
proof -
  obtain pr where pr: "load_from_app_dag (Some dag) new_PipelineRouting = Inr (NICC_SUCCESS, pr)"
    by (simp add: load_from_app_dag_def)
  obtain s1 s2 s3 s4 where s: "allocate_component_blocks e funcs [Some fa] ds (empty_pipeline pr n pool w) = Inr (NICC_SUCCESS, s1)"
    "register_functions e funcs ds s1 = Some (Inr (NICC_SUCCESS, s2))"
    "init_control_plane e dag junk ds s2 = Inr (NICC_SUCCESS, s3)" "run_pipeline e s3 = Inr (NICC_SUCCESS, s4)"
    "wrapper_running s4 n (af_handlers f)"
    using soc_pipeline_stages [where funcs = funcs and fa = fa and f = f and e = e and ds = ds and pr = pr and n = n and w = w and junk = junk, OF assms(1-3,5)] by blast
  obtain dn where "ds_device_name ds = Some dn" using assms(4) by blast
  with pr s have "new_DatapathPipeline e funcs pool (Some [Some fa]) ds (Some dag) junk n w = None"
    by (simp add: new_DatapathPipeline_def start_blocks_def)
  with pr s show ?thesis by blast
qed

text \<open>With a record that reads as initialised, it dies while it registers the function.\<close>

lemma soc_pipeline_dies:
  assumes "platform_ok e d" and "soc_application f d pool dag" and "funcs fa = Some f" and "ds_device_name ds \<noteq> None"
    and "\<not> pipeline_records_clear e n"
  shows "new_DatapathPipeline e funcs pool (Some [Some fa]) ds (Some dag) junk n w = Some (Inl Assert_Failed)"
proof -
  obtain pr where pr: "load_from_app_dag (Some dag) new_PipelineRouting = Inr (NICC_SUCCESS, pr)"
    by (simp add: load_from_app_dag_def)
  note app = assms(2) [unfolded soc_application_def]
  obtain c where c: "rp_components pool kComponent_SoC = Some (Comp_SoC c)" "quota d \<le> state_quota (comp_state c)"
    using app by blast
  have f: "af_component_id f = kComponent_SoC" "af_desp f = Some (Desp_SoC d)" "af_handlers f \<noteq> []" "soc_handlers_ok (af_handlers f)"
    using app by simp_all
  obtain s1 b where 1: "allocate_component_blocks e funcs [Some fa] ds (empty_pipeline pr n pool w) = Inr (NICC_SUCCESS, s1)"
      "pl_map s1 = [(fa, n)]" "pl_heap s1 n = Some (Blk_SoC b)" "allocated_block d b" "pl_next s1 = n + 3"
    using allocate_one [where funcs = funcs and fa = fa and f = f and d = d and e = e and ds = ds and pr = pr and n = n and w = w, OF assms(3) f(1,2) c] by blast
  have p: "port_resolves (e_port e) (soc_device_name d) (soc_phy_port d)" "verbs_grant (e_ibv e)"
      "\<not> records_clear (e_junk_info e (pl_next s1 + 1)) (e_junk_info e (pl_next s1 + 2))"
    using assms(1,5) 1(5) by (simp_all add: platform_ok_def pipeline_records_clear_def eval_nat_numeral)
  have "register_functions e funcs ds s1 = Some (Inl Assert_Failed)"
    by (rule register_stale [where e = e and funcs = funcs and fa = fa and f = f, OF 1(2,3,4) assms(3) f(3,4) p])
  moreover obtain dn where "ds_device_name ds = Some dn" using assms(4) by blast
  ultimately show ?thesis using pr 1(1) by (simp add: new_DatapathPipeline_def start_blocks_def)
qed

end
