(* ===== verification/NiccMain.thy ===== *)
theory NiccMain
  imports PipelineRun SocRun
begin

text \<open>
  The program \<open>runtime/src/main.cc\<close>: device, graph, resource pool, application and pipeline, from
  the configuration file to the running wrapper.
\<close>

subsection \<open>The application\<close>

definition device_name :: string where "device_name = ''mlx5_2''"

text \<open>The descriptors of the components; members that are not assigned have the contents of \<open>junk\<close>.\<close>

definition dpa_init_desp :: "ComponentDesp_DPA \<Rightarrow> ComponentDesp_DPA" where
  "dpa_init_desp junk = junk\<lparr>quota := 128, dpa_device_name := device_name, dpa_phy_port := 0, dpa_core_id := 0\<rparr>"

definition flow_engine_init_desp :: "ComponentDesp_FlowEngine \<Rightarrow> ComponentDesp_FlowEngine" where
  "flow_engine_init_desp junk = junk\<lparr>quota := 2000, table_level := 0, matcher_priority := 0\<rparr>"

definition soc_init_desp :: "ComponentDesp_SoC \<Rightarrow> ComponentDesp_SoC" where
  "soc_init_desp junk = junk\<lparr>quota := 16, soc_device_name := device_name, soc_phy_port := 0\<rparr>"

text \<open>The DPA function: \<open>wrapper\<close> is the DPA program, the other two are host stubs. It is not added to the application.\<close>

definition dpa_app_func :: "nat \<Rightarrow> nat \<Rightarrow> nat \<Rightarrow> AppFunction" where
  "dpa_app_func dev_init event wrapper = new_AppFunction
     [Some \<lparr>binary_first = Some dev_init, binary_kernel = Some wrapper, handler_tid = 0\<rparr>,
      Some \<lparr>binary_first = Some event, binary_kernel = Some wrapper, handler_tid = 1\<rparr>]
     (Some (Desp_DPA \<lparr>quota = 1, block_name = ''dpa'', dpa_device_name = device_name, dpa_phy_port = 0, dpa_core_id = 0\<rparr>))
     kComponent_DPA"

text \<open>The addresses of the user's functions for the SoC.\<close>

record user_kernel =
  uk_init :: nat
  uk_pkt :: nat
  uk_msg :: nat
  uk_cleanup :: nat

definition soc_block_desp :: ComponentDesp_SoC where
  "soc_block_desp = \<lparr>quota = 4, block_name = ''soc'', soc_device_name = device_name, soc_phy_port = 0\<rparr>"

text \<open>The second word of the union in a handler is not set.\<close>

definition soc_app_handlers :: "user_kernel \<Rightarrow> ptr \<Rightarrow> AppHandler option list" where
  "soc_app_handlers k junk = map (\<lambda>(code, t). Some \<lparr>binary_first = Some code, binary_kernel = junk, handler_tid = t\<rparr>)
     [(uk_init k, 0), (uk_pkt k, 1), (uk_msg k, 2), (uk_cleanup k, 3)]"

definition soc_app_func :: "user_kernel \<Rightarrow> ptr \<Rightarrow> AppFunction" where
  "soc_app_func k junk = new_AppFunction (soc_app_handlers k junk) (Some (Desp_SoC soc_block_desp)) kComponent_SoC"

subsection \<open>The program\<close>

text \<open>
  What the memory holds before it is written: descriptor of the pool, state of the SoC component,
  handlers, socket; the address of the function on the stack and the first address \<open>new\<close> returns.
\<close>

record main_memory =
  mm_desp :: ComponentDesp_SoC
  mm_state :: u8
  mm_handler :: ptr
  mm_socket :: int
  mm_function :: nat
  mm_heap :: nat

definition config_path :: string where "config_path = ''./examples/soc_echo/dp_spec.json''"

definition open_nic :: "'w device_api \<Rightarrow> 'w \<Rightarrow> (device_state \<times> 'w) run" where
  "open_nic dapi w = bind_run (utils_ibv_open_device dapi (Some device_name) w) (\<lambda>(ctx, w).
     Inr (\<lparr>ds_ibv_ctx = ctx, ds_device_name = Some device_name, ds_rx_domain = None, ds_tx_domain = None,
           ds_fdb_domain = None\<rparr>, w))"

definition main_pool :: "main_memory \<Rightarrow> AppDAG \<Rightarrow> ResourcePool run" where
  "main_pool mm dag = new_ResourcePool (mm_state mm) (get_enabled_components dag)
     [(kComponent_SoC, Some (Desp_SoC (soc_init_desp (mm_desp mm))))]"

text \<open>\<open>files\<close> gives what opening and parsing a file gives. The printing of the graph is left out.\<close>

definition nicc_main :: "'w device_api \<Rightarrow> 'j json_api \<Rightarrow> (string \<Rightarrow> 'j run option) \<Rightarrow> 'w pipe_env \<Rightarrow> user_kernel
    \<Rightarrow> main_memory \<Rightarrow> 'w \<Rightarrow> 'w pipeline exec" where
  "nicc_main dapi japi files e k mm w =
     bind_exec (Some (open_nic dapi w)) (\<lambda>(ds, w).
     bind_exec (Some (new_AppDAG japi (files config_path))) (\<lambda>dag.
     bind_exec (Some (main_pool mm dag)) (\<lambda>pool.
     bind_exec (new_DatapathPipeline e [mm_function mm \<mapsto> soc_app_func k (mm_handler mm)] pool
         (Some [Some (mm_function mm)]) ds (Some dag) (mm_socket mm) (mm_heap mm) w) (\<lambda>(_, s).
       Some (Inr (destroy_DatapathPipeline s))))))"

subsection \<open>What it does\<close>

lemma open_nic_total: "\<exists>ds w'. open_nic dapi w = Inr (ds, w') \<and> ds_device_name ds \<noteq> None"
  by (auto simp: open_nic_def utils_ibv_open_device_def Let_def split: option.split prod.split)

lemma xor_eq_0_iff_eq: "(a :: 'a::len word) XOR b = 0 \<longleftrightarrow> a = b"
  by (auto simp: bit_eq_iff bit_xor_iff)

text \<open>
  The pool accepts the mask of the SoC alone, and the empty mask: then the configuration is called
  skipped and its component is created all the same.
\<close>

lemma main_pool_outcome:
  "main_pool mm dag = (if get_enabled_components dag = 0 \<or> get_enabled_components dag = kComponent_SoC
     then Inr \<lparr>rp_enabled = get_enabled_components dag, rp_components = [kComponent_SoC \<mapsto>
       Comp_SoC \<lparr>comp_cid = kComponent_SoC, comp_desp = Desp_SoC (soc_init_desp (mm_desp mm)),
         comp_state = \<lparr>state_quota = 16, mock_state = mm_state mm\<rparr>\<rparr>]\<rparr>
     else Inl Nicc_Shutdown)"
proof -
  let ?en = "get_enabled_components dag"
  have mask: "check_config kComponent_SoC ?en \<noteq> 0 \<longleftrightarrow> ?en \<noteq> 0 \<and> ?en \<noteq> kComponent_SoC"
    by (auto simp: check_config_def component_id_defs xor_eq_0_iff_eq)
  show ?thesis
    using mask by (auto simp: main_pool_def new_ResourcePool_def create_component_def comp_create_def soc_comp_init_def
        soc_init_desp_def component_id_defs ComponentBaseDesp.defs)
qed

lemma soc_app_handlers_of: "af_handlers (soc_app_func k j) = soc_app_handlers k j"
  by (simp add: soc_app_func_def new_AppFunction_def)

lemma main_application:
  assumes "main_pool mm dag = Inr pool"
    and "get_host_config ''remote'' dag = Inr rh" "get_host_config ''local'' dag = Inr lh"
    and "''soc'' \<in> set (connect_to rh)" "''soc'' \<in> set (connect_to lh)"
  shows "soc_application (soc_app_func k j) soc_block_desp pool dag"
  using assms
  by (auto simp: soc_application_def soc_app_func_def new_AppFunction_def soc_app_handlers_def soc_handlers_ok_def
      soc_block_desp_def main_pool_outcome split: if_splits)
text \<open>
  The stages of the constructor, up to the running wrapper.
\<close>

definition main_running :: "'w pipe_env \<Rightarrow> user_kernel \<Rightarrow> main_memory \<Rightarrow> device_state \<Rightarrow> AppDAG \<Rightarrow> ResourcePool \<Rightarrow> 'w \<Rightarrow> bool" where
  "main_running e k mm ds dag pool w \<longleftrightarrow> (\<exists>pr s1 s2 s3 s4. load_from_app_dag (Some dag) new_PipelineRouting = Inr (NICC_SUCCESS, pr)
    \<and> allocate_component_blocks e [mm_function mm \<mapsto> soc_app_func k (mm_handler mm)] [Some (mm_function mm)] ds
        (empty_pipeline pr (mm_heap mm) pool w) = Inr (NICC_SUCCESS, s1)
    \<and> register_functions e [mm_function mm \<mapsto> soc_app_func k (mm_handler mm)] ds s1 = Some (Inr (NICC_SUCCESS, s2))
    \<and> init_control_plane e dag (mm_socket mm) ds s2 = Inr (NICC_SUCCESS, s3)
    \<and> run_pipeline e s3 = Inr (NICC_SUCCESS, s4)
    \<and> wrapper_running s4 (mm_heap mm) (soc_app_handlers k (mm_handler mm)))"

text \<open>
  C3. The program on a platform that works, with a loaded graph that links \<open>soc\<close> to both hosts: if the graph enables
  anything but the SoC alone (or nothing) the program dies in the resource pool before it has allocated
  anything. Otherwise it depends on the uninitialised memory of the channel's two connection records: if neither
  reads as initialised the program never ends, and leaves its wrapper thread running on queue pairs
  ready for the datapath with the user's four handlers; if one does it dies of an assertion.
\<close>

theorem nicc_main_outcome:
  assumes "platform_ok e soc_block_desp" and "new_AppDAG japi (files config_path) = Inr dag"
    and "get_host_config ''remote'' dag = Inr rh" and "get_host_config ''local'' dag = Inr lh"
    and "''soc'' \<in> set (connect_to rh)" and "''soc'' \<in> set (connect_to lh)"
  shows "if get_enabled_components dag \<notin> {0, kComponent_SoC}
    then nicc_main dapi japi files e k mm w = Some (Inl Nicc_Shutdown)
    else if \<not> pipeline_records_clear e (mm_heap mm)
    then nicc_main dapi japi files e k mm w = Some (Inl Assert_Failed)
    else nicc_main dapi japi files e k mm w = None \<and>
      (\<exists>ds w' pool. open_nic dapi w = Inr (ds, w') \<and> main_pool mm dag = Inr pool \<and> main_running e k mm ds dag pool w')"
proof -
  obtain ds w' where ds: "open_nic dapi w = Inr (ds, w')" "ds_device_name ds \<noteq> None"
    using open_nic_total [of dapi w] by blast
  show ?thesis
  proof (cases "get_enabled_components dag \<in> {0, kComponent_SoC}")
    case True
    then obtain pool where pool: "main_pool mm dag = Inr pool" by (auto simp: main_pool_outcome)
    note app = main_application [OF pool assms(3-6), of k "mm_handler mm"]
    let ?fs = "[mm_function mm \<mapsto> soc_app_func k (mm_handler mm)]"
    have f: "?fs (mm_function mm) = Some (soc_app_func k (mm_handler mm))" by simp
    note rest = assms(1) app f ds(2)
    show ?thesis
    proof (cases "pipeline_records_clear e (mm_heap mm)")
      case False
      from soc_pipeline_dies [where funcs = ?fs and fa = "mm_function mm" and ds = ds and n = "mm_heap mm" and w = w'
          and junk = "mm_socket mm", OF rest False] ds(1) assms(2) pool
      have "nicc_main dapi japi files e k mm w = Some (Inl Assert_Failed)" by (simp add: nicc_main_def)
      with True False show ?thesis by auto
    next
      case clear: True
      note up = soc_pipeline_comes_up [where funcs = ?fs and fa = "mm_function mm" and ds = ds and n = "mm_heap mm" and w = w'
          and junk = "mm_socket mm", OF rest clear]
      have "main_running e k mm ds dag pool w'"
        using up unfolding main_running_def soc_app_handlers_of by blast
      moreover have "nicc_main dapi japi files e k mm w = None"
        using up ds(1) assms(2) pool by (auto simp: nicc_main_def)
      ultimately show ?thesis using True clear ds(1) pool by auto
    qed
  next
    case False
    then have "main_pool mm dag = Inl Nicc_Shutdown" by (simp add: main_pool_outcome)
    with False ds(1) assms(2) show ?thesis by (simp add: nicc_main_def)
  qed
qed

text \<open>
  What main leaves running also finishes: the thread it started, on the queue pairs and the heap of
  its block, comes back with every receive buffer accounted for, whatever the user's handlers
  answer, on a NIC that gives the two queue pairs numbers of their own.
\<close>

lemma running_wrapper_serves:
  assumes "wrapper_running s n hs"
  obtains b a fs x tc and h :: HugeAlloc where "pl_heap s n = Some (Blk_SoC b)" "soc_function b = Obj a fs" "ss_context fs = Obj x tc"
    "context_handlers tc hs"
    "\<And>api ctx v clk w s0 f start w2.
       qp_id (tc_qp_prior tc) \<noteq> qp_id (tc_qp_next tc) \<Longrightarrow> nic_fresh v (qp_id (tc_qp_prior tc)) w \<Longrightarrow>
       nic_fresh v (qp_id (tc_qp_next tc)) w \<Longrightarrow>
       soc_env api ctx v (qp_id (tc_qp_prior tc)) (qp_id (tc_qp_next tc)) \<Longrightarrow> init_ok ctx v \<Longrightarrow> clock_ok clk v \<Longrightarrow>
       new_SoCWrapper ctx kSoC_Dispatcher (RDMA_SoC_QP.truncate (tc_qp_prior tc))
         (RDMA_SoC_QP.truncate (tc_qp_next tc)) (buffers h) w = Inr s0 \<Longrightarrow>
       measure_rdtsc_freq clk = Inr f \<Longrightarrow> rdtsc clk (w_world s0) = (start, w2) \<Longrightarrow>
       clock_advances clk v start (ten_seconds clk f) \<Longrightarrow>
       \<exists>r. soc_wrapper_thread clk api ctx kSoC_Dispatcher (RDMA_SoC_QP.truncate (tc_qp_prior tc))
         (RDMA_SoC_QP.truncate (tc_qp_next tc)) (buffers h) w = Some (Inr r) \<and> soc_inv v r"
proof -
  obtain b a fs ca c x tc h where r: "pl_heap s n = Some (Blk_SoC b)" "soc_function b = Obj a fs"
      "ss_context fs = Obj x tc" "context_ready tc (buffers h)" "context_handlers tc hs" "huge_alloc c = Some h"
      "ss_channel fs = Obj ca c"
    using assms unfolding wrapper_running_def by (elim exE conjE) blast
  note ready = r(4) [unfolded context_ready_def]
  show thesis
  proof (rule that [of b a fs x tc h, OF r(1-3,5)], goal_cases)
    case (1 api ctx v clk w s0 f start w2)
    from soc_thread_result [OF conjunct1 [OF ready] conjunct1 [OF conjunct2 [OF ready]] conjunct2 [OF conjunct2 [OF ready]] 1]
    show ?case by (elim exE conjE) (rule exI, rule conjI; assumption)
  qed
qed

subsection \<open>Witness\<close>

text \<open>The devices of the SoC channel's example, one core on one NUMA node, and hosts that send an empty record.\<close>

definition demo_numa :: "unit numa_api" where
  "demo_numa = \<lparr>num_configured_cpus = 1, num_configured_nodes = 1, numa_max_node = 0, numa_node_of_cpu = \<lambda>_. 0,
     hardware_concurrency = 1, set_affinity = \<lambda>_ _ w. (0, w), sched_set_affinity = \<lambda>_ w. (0, w)\<rparr>"

definition demo_sock :: "unit sock_api" where
  "demo_sock = \<lparr>sock_new = \<lambda>w. (3, w), sock_connect = \<lambda>_ _ _ w. (0, w), sock_bind = \<lambda>_ _ w. (0, w),
     sock_listen = \<lambda>_ _ w. (0, w), sock_accept = \<lambda>_ w. (4, w), sock_send = \<lambda>_ _ w. w,
     sock_read = \<lambda>_ _ w. ((0, []), w), sock_close = \<lambda>_ w. w\<rparr>"

definition demo_platform :: "unit pipe_env \<Rightarrow> unit pipe_env" where
  "demo_platform e = e\<lparr>e_port := demo_port\<lparr>get_device_list := \<lambda>_. Some [device_name]\<rparr>, e_ibv := demo_ibv, e_shm := demo_sys, e_verbs := demo_verbs,
     e_numa := demo_numa, e_sock := demo_sock\<rparr>"

text \<open>The document \<open>examples/soc_echo/dp_spec.json\<close> and the graph it gives.\<close>

definition soc_echo_host :: "string \<Rightarrow> json_ex" where
  "soc_echo_host ip = JObj [(''ipv4'', JStr ip), (''mgnt_port'', JNum 20086), (''data_port'', JNum 10010),
     (''connect_to'', JArr [JStr ''soc''])]"

definition soc_echo_entry :: "string \<Rightarrow> string \<Rightarrow> json_ex" where
  "soc_echo_entry mt act = JArr [JObj [(''match'', JStr mt), (''action'', JStr act)]]"

definition soc_echo_doc :: json_ex where
  "soc_echo_doc = JObj [(''app_name'', JStr ''soc_echo''), (''enabled_components'', JArr [JStr ''soc'']),
     (''remote_host'', JArr [soc_echo_host ''10.0.4.101'']), (''local_host'', JArr [soc_echo_host ''10.0.4.102'']),
     (''dp_graph'', JArr [
        JObj [(''app_name'', JStr ''soc_echo''), (''components'', JArr [JStr ''root'', JStr ''soc''])],
        JObj [(''component'', JStr ''root''), (''ctrl_path'', JObj [
           (''match'', JArr [JStr ''udp.sport'', JStr ''ipv4.sip'']), (''action'', JArr [JStr ''fwd'', JStr ''drop'']),
           (''entries'', soc_echo_entry ''udp.sport=10086'' ''fwd(soc)'')])],
        JObj [(''component'', JStr ''soc''),
           (''data_path'', JObj [(''kernel_name'', JStr ''soc_echo''),
              (''kernel_path'', JStr ''/home/ubuntu/bf3_proj/nicc/examples/soc_echo/soc_kernel.soc.o'')]),
           (''ctrl_path'', JObj [(''match'', JArr [JStr ''retval'']), (''action'', JArr [JStr ''fwd'', JStr ''drop'']),
              (''entries'', soc_echo_entry ''retval=1'' ''fwd(host)'')])]])]"

definition soc_echo_dag :: AppDAG where
  "soc_echo_dag = \<lparr>app_name = ''soc_echo'', enabled_components = 4,
     components_map = [
       (''root'', \<lparr>dc_name = ''root'', dc_component_id = 0, data_path = Map.empty,
          ctrl_path = [''match'' \<mapsto> [''udp.sport'', ''ipv4.sip''], ''action'' \<mapsto> [''fwd'', ''drop'']],
          ctrl_entries = [[''match'' \<mapsto> ''udp.sport=10086'', ''action'' \<mapsto> ''fwd(soc)'']]\<rparr>),
       (''soc'', \<lparr>dc_name = ''soc'', dc_component_id = 4,
          data_path = [''kernel_name'' \<mapsto> ''soc_echo'',
            ''kernel_path'' \<mapsto> ''/home/ubuntu/bf3_proj/nicc/examples/soc_echo/soc_kernel.soc.o''],
          ctrl_path = [''match'' \<mapsto> [''retval''], ''action'' \<mapsto> [''fwd'', ''drop'']],
          ctrl_entries = [[''match'' \<mapsto> ''retval=1'', ''action'' \<mapsto> ''fwd(host)'']]\<rparr>)],
     remote_hosts = [\<lparr>ipv4 = ''10.0.4.101'', mgnt_port = 20086, data_port = 10010, connect_to = [''soc'']\<rparr>],
     local_hosts = [\<lparr>ipv4 = ''10.0.4.102'', mgnt_port = 20086, data_port = 10010, connect_to = [''soc'']\<rparr>]\<rparr>"

lemma load_soc_echo: "new_AppDAG json_api_ex (Some (Inr soc_echo_doc)) = Inr soc_echo_dag"
  by (simp add: new_AppDAG_def load_from_file_def load_json_def soc_echo_doc_def soc_echo_host_def soc_echo_entry_def
      json_api_ex_def js_at_string_def load_hosts_def load_host_def load_enabled_def load_component_def load_ctrl_item_def
      load_data_item_def load_entry_def empty_AppDAG_def soc_echo_dag_def Let_def component_id_defs fun_upd_twist)

lemma soc_echo_hosts:
  "get_host_config ''remote'' soc_echo_dag = Inr \<lparr>ipv4 = ''10.0.4.101'', mgnt_port = 20086, data_port = 10010, connect_to = [''soc'']\<rparr>"
  "get_host_config ''local'' soc_echo_dag = Inr \<lparr>ipv4 = ''10.0.4.102'', mgnt_port = 20086, data_port = 10010, connect_to = [''soc'']\<rparr>"
  "get_enabled_components soc_echo_dag = kComponent_SoC"
  by (simp_all add: get_host_config_def soc_echo_dag_def get_enabled_components_def kComponent_SoC_def)

lemma demo_port_resolves: "port_resolves (demo_port\<lparr>get_device_list := \<lambda>_. Some [device_name]\<rparr>) device_name 0"
  by (simp add: port_resolves_def soc_roce_resolve_phy_port_def port_eval kMTU_def)

lemma demo_platform_ok: "platform_ok (demo_platform e) soc_block_desp"
  using demo_granted demo_port_resolves
  by (simp add: platform_ok_def demo_platform_def soc_block_desp_def verbs_connect_def demo_ibv_def demo_verbs_def
      hosts_answer_def demo_sock_def receive_qp_info_def receive_msg_def received_def deserialize_def core_available_def
      demo_numa_def zero_QPInfo_def)

text \<open>The example comes up over memory that holds zeros, and dies over memory that holds an old record.\<close>

lemma nicc_main_outcome_witness:
  "\<forall>dapi e k mm.
     nicc_main dapi json_api_ex (\<lambda>_. Some (Inr soc_echo_doc)) (demo_platform (e\<lparr>e_junk_info := \<lambda>_. zero_QPInfo\<rparr>)) k mm () = None \<and>
     (\<exists>ds w' pool. open_nic dapi () = Inr (ds, w') \<and> main_pool mm soc_echo_dag = Inr pool \<and>
        main_running (demo_platform (e\<lparr>e_junk_info := \<lambda>_. zero_QPInfo\<rparr>)) k mm ds soc_echo_dag pool w') \<and>
     nicc_main dapi json_api_ex (\<lambda>_. Some (Inr soc_echo_doc))
       (demo_platform (e\<lparr>e_junk_info := \<lambda>_. zero_QPInfo\<lparr>qi_is_initialized := True\<rparr>\<rparr>)) k mm () = Some (Inl Assert_Failed)"
proof (intro allI)
  fix dapi :: "unit device_api" and e :: "unit pipe_env" and k and mm :: main_memory
  let ?zero = "demo_platform (e\<lparr>e_junk_info := \<lambda>_. zero_QPInfo\<rparr>)"
    and ?old = "demo_platform (e\<lparr>e_junk_info := \<lambda>_. zero_QPInfo\<lparr>qi_is_initialized := True\<rparr>\<rparr>)"
  note run = nicc_main_outcome [where files = "\<lambda>_. Some (Inr soc_echo_doc)" and dapi = dapi and k = k and mm = mm and w = "()",
      OF demo_platform_ok load_soc_echo soc_echo_hosts(1,2)]
  have "pipeline_records_clear ?zero (mm_heap mm)" "\<not> pipeline_records_clear ?old (mm_heap mm)"
    by (simp_all add: pipeline_records_clear_def records_clear_def demo_platform_def zero_QPInfo_def)
  then show "nicc_main dapi json_api_ex (\<lambda>_. Some (Inr soc_echo_doc)) ?zero k mm () = None \<and>
     (\<exists>ds w' pool. open_nic dapi () = Inr (ds, w') \<and> main_pool mm soc_echo_dag = Inr pool \<and>
        main_running ?zero k mm ds soc_echo_dag pool w') \<and>
     nicc_main dapi json_api_ex (\<lambda>_. Some (Inr soc_echo_doc)) ?old k mm () = Some (Inl Assert_Failed)"
    using run [of "e\<lparr>e_junk_info := \<lambda>_. zero_QPInfo\<rparr>"] run [of "e\<lparr>e_junk_info := \<lambda>_. zero_QPInfo\<lparr>qi_is_initialized := True\<rparr>\<rparr>"]
      soc_echo_hosts(3)
    by simp
qed

end
