(* ===== verification/Spec2Isabelle.thy ===== *)
theory Spec2Isabelle
  imports HugeAllocInv HugeAllocStats SocProps SocRun SocOrder SocEcho DpaDevice DpaKernels Routing FlowEngine DpaChecks
    CpuFreq NetTypes NiccMain
begin

text \<open>
  Verification development for NICC, the runtime that places the functions of a network application
  on the components of a BlueField-3 DPU (flow engine, DPA, Arm SoC) and connects them to a pipeline.

  \<^bold>\<open>The program.\<close> \<open>runtime/src/main.cc\<close> opens the NIC, loads a graph of components from JSON, builds a
  resource pool with one component per engine, and constructs a \<open>DatapathPipeline\<close>. The pipeline
  allocates a component block per function from the pool, registers the function on its block (for a
  SoC or DPA block this allocates a channel: queue pairs, completion queues, rings in hugepage or
  device memory), registers the routers, exchanges connection records with the remote and the local
  host over TCP, connects the queue pairs, and runs the blocks. On the SoC a wrapper thread then moves
  packets between queue pairs, worker queues and the user's handlers.

  \<^bold>\<open>Conventions.\<close> A function of the source that may die (a failed \<open>assert\<close>, a \<open>throw\<close> in an error macro, an
  exception, \<open>exit\<close>, a use of a dead pointer) returns a value of \<open>'a run\<close> (\<open>fatal + 'a\<close>); one that also may
  run for ever returns \<open>'a exec\<close>, with \<open>None\<close> for not returning. A method that changes its object is an
  \<open>'s operation\<close>: it returns the code and the new state. Integers have their width (\<open>u8\<close> to \<open>u64\<close>) where
  the source computes with them; pointers to driver objects are \<open>nat option\<close>; objects reached through
  several pointers live on explicit heaps (buffers of the allocator, blocks of the pipeline).
  Contents of fresh memory are parameters named \<open>junk\<close> (the link of a new \<open>Buffer\<close> is \<open>undefined\<close>, an
  unknown value).

  \<^bold>\<open>Theories, in the order they build on each other.\<close>
  \<^item> \<open>Prelude\<close>, \<open>NiccTypes\<close> (\<open>lib/common.h\<close>), \<open>MathUtils\<close> (\<open>lib/common/math_utils.h\<close>), \<open>StrUtils\<close> (the
    \<open>std::string\<close> operations): shared types, outcomes, lemma collections, ring arithmetic.
  \<^item> \<open>Doubles\<close>, \<open>Timers\<close> (\<open>lib/common/timer.h\<close>, \<open>runtime/include/utils/rand.h\<close>), \<open>CpuFreq\<close> (the frequency helpers of
    \<open>lib/common/src/numautils.cc\<close>): doubles are reals, every operation followed by a rounding of which
    \<open>ieee_round\<close> states what is relied on. The cycle counts of the event loop are bounded, \<open>ceil\<close> is
    correct, the wait loops return when the clock advances.
  \<^item> \<open>NetTypes\<close> (\<open>lib/types.h\<close>, \<open>lib/common/{ethhdr,iphdr}.h\<close>): addresses, headers, their comparisons.
  \<^item> \<open>HugeAlloc\<close>, \<open>HugeAllocInv\<close>, \<open>HugeAllocStats\<close>: \<open>runtime/{include,src}/utils/huge_alloc\<close>. Buffers live on a
    heap; the invariant \<open>huge_wf\<close> says that live buffers never overlap and that every freelist entry is
    live and listed once. The optimised size class equals its reference loop; the statistics count
    what is lent out.
  \<^item> \<open>SocQueue\<close>: \<open>lib/common/soc_queue.h\<close>, the lock-free ring. It refines a bounded FIFO (locale
    \<open>bounded_fifo\<close>), also under every interleaving of the memory accesses of one producer and one
    consumer (\<open>spsc_step\<close>, sequentially consistent).
  \<^item> \<open>SocWrapper\<close>, \<open>SocDatapath\<close>, \<open>SocProps\<close>: \<open>lib/wrapper/soc\<close>, the event loop of the SoC: receive burst,
    dispatch, worker, collection, transmit flush. Order, conservation and termination of each.
  \<^item> \<open>SocLoop\<close>, \<open>SocRun\<close>: the same steps composed. \<open>soc_inv\<close> accounts for every packet buffer; each round of
    the loop keeps it, and the thread of ten seconds returns. \<open>SocOrder\<close>: of the packets that the NIC
    reports (\<open>rx_counted\<close>) it loses, repeats and reorders none, both ways. \<open>SocEcho\<close>: the handlers of \<open>examples/soc_echo\<close>, run by this loop.
  \<^item> \<open>AppDag\<close> (\<open>runtime/include/utils/app_dag.h\<close>) and \<open>Routing\<close> (\<open>runtime/*/ctrlpath/routing\<close>, \<open>route_impl\<close>):
    the loader of the graph, the parsers of conditions and actions, the routing tables. The rules loaded
    are those that the written routes mean (\<open>route_rule\<close>).
  \<^item> \<open>Crc32\<close>, \<open>Mat\<close>, \<open>FlowEngine\<close>: \<open>lib/common/crc32.h\<close>, \<open>ctrlpath/mat\<close>, \<open>block_impl/flow_engine\<close>: checksum,
    match-action tables and their flow engine implementation on the steering driver.
  \<^item> \<open>QPInfo\<close>, \<open>MgntConnection\<close>: connection records with their textual form, and the TCP connection that
    carries them (\<open>runtime/include/utils/{qpinfo.hh,mgnt_connection.h}\<close>).
  \<^item> \<open>Channel\<close>, \<open>DpaMemory\<close>, \<open>DpaChannel\<close>, \<open>DpaProps\<close>, \<open>DpaLedger\<close>, \<open>DpaChecks\<close>: port resolution and the DPA
    channel (\<open>channel_impl/dpa_channel\<close>). What an allocation adds to the device heap, what a release
    gives back and what it leaves, the connection state, and, through a recorder of the driver's calls
    (\<open>logged\<close>), the overrun of the RDMA rings.
  \<^item> \<open>DpaDevice\<close> (\<open>lib/wrapper/dpa\<close>) and \<open>DpaKernels\<close> (\<open>examples/{udp_echo,rdma_simple}\<close>): the event handler of the
    device, which drains the completion ring over every wrap-around, and the packet functions, which
    send each frame back with its MAC addresses swapped (and the demonstration frame with its text).
  \<^item> \<open>SocChannel\<close>, \<open>SocChannelProps\<close>: the SoC channel (\<open>channel_impl/soc_channel\<close>). Its allocation
    establishes \<open>datapath_ready\<close>, the hypothesis of the lemmas on the event loop, if the uninitialised
    memory of its connection records does not read as initialised (\<open>records_clear\<close>).
  \<^item> \<open>Block\<close>, \<open>DpaBlock\<close>, \<open>SocBlock\<close>, \<open>BlockProps\<close>: the component blocks (\<open>component_block\<close>, \<open>block_impl\<close>), the
    device set-up (\<open>utils/ibv_device\<close>) and core binding (\<open>lib/common/src/numautils.cc\<close>).
  \<^item> \<open>Components\<close>, \<open>ResourcePool\<close>: the components and the pool (\<open>runtime/*/resources\<close>). Locale \<open>quota_component\<close> is
    the contract of a component; every component interprets it, and the pool's account rests on it.
  \<^item> \<open>Pipeline\<close>, \<open>PipelineProps\<close>, \<open>PipelineRun\<close>: \<open>datapath_pipeline\<close>, the stages of the constructor; which fail
    and how, and that with one SoC function on a working platform all succeed, or the program dies
    while it registers the function, depending on \<open>records_clear\<close>.
  \<^item> \<open>NiccMain\<close>: \<open>main.cc\<close>, from the configuration file to the running wrapper.

  \<^bold>\<open>Loops.\<close> Loops over lists are structural and \<open>add_raw_buffer\<close> ends by a measure. The loops whose end is
  not evident are \<open>partial_function\<close>s, for which returning is proved: reposting receives, the transmit
  flush, the search for a shared memory key, the event loop of the SoC, the polling loop of the
  device, and the busy waits (given a clock that advances). The scan of the handlers of a DPA
  function, whose index wraps, is one too, and does not return with more than 255 handlers. No fuel
  is used. The rings have the sizes of the source (1024 slots of the worker queue, 2048 and 64
  requests of a queue pair).

  \<^bold>\<open>Parameters.\<close> libibverbs, mlx5dv, FlexIO, the steering library, libnuma, shared memory, sockets and the
  JSON library are outside the repository: the calls the source makes are fields of records
  (\<open>soc_ibv\<close>, \<open>soc_verbs\<close>, \<open>port_api\<close>, \<open>flexio_api\<close>, \<open>dpa_block_api\<close>, \<open>dr_api\<close>, \<open>device_api\<close>, \<open>numa_api\<close>, \<open>shm_api\<close>,
  \<open>sock_api\<close>, \<open>json_api\<close>, \<open>kernel_api\<close>, \<open>sys_shell\<close>, \<open>soc_clock\<close>) over a state \<open>'w\<close> of the outside world. What a theorem relies on is a named predicate
  (\<open>fx_laws\<close>, \<open>dr_laws\<close>, \<open>proc_laws\<close>, \<open>verbs_grant\<close>, \<open>platform_ok\<close>, ...) that an example instance satisfies.

  \<^bold>\<open>Not modelled.\<close> Log output, the functions that only render text for it, and socket options; the x86
  branch of \<open>lib/common/timer.h\<close> (the Arm branch is); \<open>SlowRand\<close>, which wraps the random device; the format
  macros of \<open>iphdr.h\<close> and functions declared without a body; infinities and signed zeros of doubles;
  templates, stubs and the benchmark, which are not part of the program.
\<close>

end
